(* ===== verification/Prelude.thy ===== *)
theory Prelude
  imports Main "HOL-Library.Sublist"
begin

text \<open>
  Vocabulary shared by every component.  Python's str and bytes are both represented by
  HOL's \<open>string\<close>, a list of 8-bit characters: bytes directly, str by its UTF-8 encoding.
  The theory gives the string methods the program uses (strip, split, partition, join,
  replace, find, startswith, lower, int, str), insertion-ordered dictionaries as
  association lists, and the lemmas about them that several components need.
\<close>

named_theorems dict_simps \<open>lookups after updates and deletes of ordered dictionaries\<close>

named_theorems str_simps \<open>rewriting of the Python string operations\<close>

section \<open>Outcomes\<close>

text \<open>A Python call returns a value or raises; exceptions are told apart by class.\<close>

datatype exn = ValueError | KeyError | TypeError | IndexError | AttributeError | RuntimeError
  | StatementError | OtherError

datatype 'a outcome = Ret 'a | Exn exn

fun bind_out :: "'a outcome \<Rightarrow> ('a \<Rightarrow> 'b outcome) \<Rightarrow> 'b outcome" where
  "bind_out (Ret x) f = f x"
| "bind_out (Exn e) f = Exn e"

lemma bind_out_Ret [simp]: "bind_out m f = Ret y \<longleftrightarrow> (\<exists>x. m = Ret x \<and> f x = Ret y)"
  by (cases m) auto

fun map_out :: "('a \<Rightarrow> 'b outcome) \<Rightarrow> 'a list \<Rightarrow> 'b list outcome" where
  "map_out f [] = Ret []"
| "map_out f (x # xs) = bind_out (f x) (\<lambda>y. bind_out (map_out f xs) (\<lambda>ys. Ret (y # ys)))"

section \<open>Characters\<close>

definition code_in :: "nat \<Rightarrow> nat \<Rightarrow> char \<Rightarrow> bool" where
  "code_in lo hi c \<longleftrightarrow> lo \<le> (of_char c :: nat) \<and> (of_char c :: nat) \<le> hi"

definition is_digit :: "char \<Rightarrow> bool" where
  "is_digit c \<longleftrightarrow> code_in 48 57 c"

definition is_lower :: "char \<Rightarrow> bool" where
  "is_lower c \<longleftrightarrow> code_in 97 122 c"

definition is_upper :: "char \<Rightarrow> bool" where
  "is_upper c \<longleftrightarrow> code_in 65 90 c"

definition is_alnum :: "char \<Rightarrow> bool" where
  "is_alnum c \<longleftrightarrow> is_digit c \<or> is_lower c \<or> is_upper c"

text \<open>\<open>bytes.strip()\<close> removes space, tab, newline, return, vertical tab and form feed.\<close>

definition is_space :: "char \<Rightarrow> bool" where
  "is_space c \<longleftrightarrow> code_in 9 13 c \<or> c = CHR '' ''"

definition lower_char :: "char \<Rightarrow> char" where
  "lower_char c = (if is_upper c then char_of ((of_char c :: nat) + 32) else c)"

definition upper_char :: "char \<Rightarrow> char" where
  "upper_char c = (if is_lower c then char_of ((of_char c :: nat) - 32) else c)"

abbreviation lower :: "string \<Rightarrow> string" where
  "lower \<equiv> map lower_char"

abbreviation upper :: "string \<Rightarrow> string" where
  "upper \<equiv> map upper_char"

section \<open>Python string methods\<close>

definition py_lstrip :: "string \<Rightarrow> string" where
  "py_lstrip s = dropWhile is_space s"

definition py_rstrip :: "string \<Rightarrow> string" where
  "py_rstrip s = rev (dropWhile is_space (rev s))"

definition py_strip :: "string \<Rightarrow> string" where
  "py_strip s = py_rstrip (py_lstrip s)"

text \<open>\<open>s.split(c)\<close> for a one character separator: never the empty list.\<close>

fun split_on :: "'a \<Rightarrow> 'a list \<Rightarrow> 'a list list" where
  "split_on c [] = [[]]"
| "split_on c (x # xs) =
     (if x = c then [] # split_on c xs
      else (case split_on c xs of [] \<Rightarrow> [[x]] | y # ys \<Rightarrow> (x # y) # ys))"

text \<open>\<open>c.join(xs)\<close> for a one character separator.\<close>

fun join_with :: "'a \<Rightarrow> 'a list list \<Rightarrow> 'a list" where
  "join_with c [] = []"
| "join_with c [x] = x"
| "join_with c (x # y # ys) = x @ c # join_with c (y # ys)"

fun join_str :: "string \<Rightarrow> string list \<Rightarrow> string" where
  "join_str sep [] = []"
| "join_str sep [x] = x"
| "join_str sep (x # y # ys) = x @ sep @ join_str sep (y # ys)"

text \<open>\<open>s.split()\<close>: the words between runs of white space.\<close>

definition is_space_str :: "char \<Rightarrow> bool" where
  "is_space_str c \<longleftrightarrow> code_in 9 13 c \<or> code_in 28 32 c"

fun split_ws :: "string \<Rightarrow> string list" where
  "split_ws [] = []"
| "split_ws (c # cs) =
     (if is_space_str c then split_ws cs
      else (case cs of
              [] \<Rightarrow> [[c]]
            | d # _ \<Rightarrow> if is_space_str d then [c] # split_ws cs
                      else (case split_ws cs of [] \<Rightarrow> [[c]] | w # ws \<Rightarrow> (c # w) # ws)))"

text \<open>\<open>str.strip()\<close>, and \<open>str.strip(chars)\<close>.\<close>

definition strip_chars :: "(char \<Rightarrow> bool) \<Rightarrow> string \<Rightarrow> string" where
  "strip_chars P s = rev (dropWhile P (rev (dropWhile P s)))"

abbreviation strip_str :: "string \<Rightarrow> string" where
  "strip_str \<equiv> strip_chars is_space_str"

text \<open>\<open>len\<close> of a str counts characters: the bytes of its encoding that do not continue one.\<close>

definition str_len :: "string \<Rightarrow> nat" where
  "str_len s = length (filter (\<lambda>c. \<not> code_in 128 191 c) s)"

text \<open>\<open>s.split(c, 1)\<close>: the part before the first separator and the part after it, None when
  there is no separator (Python then returns a list of one element).\<close>

fun cut :: "'a \<Rightarrow> 'a list \<Rightarrow> ('a list \<times> 'a list) option" where
  "cut c [] = None"
| "cut c (x # xs) =
     (if x = c then Some ([], xs)
      else (case cut c xs of None \<Rightarrow> None | Some (a, b) \<Rightarrow> Some (x # a, b)))"

text \<open>\<open>s.rsplit(c, 1)\<close>: the parts around the last separator.\<close>

definition rcut :: "'a \<Rightarrow> 'a list \<Rightarrow> ('a list \<times> 'a list) option" where
  "rcut c xs = (case cut c (rev xs) of None \<Rightarrow> None | Some (a, b) \<Rightarrow> Some (rev b, rev a))"

text \<open>\<open>s.replace(old, new)\<close> for a non-empty \<open>old\<close>: left to right, without overlaps.\<close>

function py_replace :: "'a list \<Rightarrow> 'a list \<Rightarrow> 'a list \<Rightarrow> 'a list" where
  "py_replace old new [] = []"
| "py_replace old new (c # cs) =
     (if old \<noteq> [] \<and> prefix old (c # cs)
      then new @ py_replace old new (drop (length old - 1) cs)
      else c # py_replace old new cs)"
  by pat_completeness auto
termination by (relation "measure (\<lambda>(_, _, s). length s)") auto

text \<open>\<open>needle in haystack\<close>.\<close>

fun contains :: "'a list \<Rightarrow> 'a list \<Rightarrow> bool" where
  "contains needle [] = (needle = [])"
| "contains needle (c # cs) = (prefix needle (c # cs) \<or> contains needle cs)"

definition is_digits :: "string \<Rightarrow> bool" where
  "is_digits s \<longleftrightarrow> s \<noteq> [] \<and> list_all is_digit s"

text \<open>\<open>bytes.decode("utf8")\<close> is the identity of this representation where it does not raise
  UnicodeDecodeError.\<close>

fun utf8_valid :: "string \<Rightarrow> bool" where
  "utf8_valid [] = True"
| "utf8_valid (c # cs) =
     (if code_in 0 127 c then utf8_valid cs
      else (case cs of [] \<Rightarrow> False | d # ds \<Rightarrow>
        if code_in 194 223 c then code_in 128 191 d \<and> utf8_valid ds
        else (case ds of [] \<Rightarrow> False | e # es \<Rightarrow>
          if code_in 224 239 c
          then code_in (if c = CHR 0xE0 then 160 else 128) (if c = CHR 0xED then 159 else 191) d
               \<and> code_in 128 191 e \<and> utf8_valid es
          else (case es of [] \<Rightarrow> False | f # fs \<Rightarrow>
            code_in 240 244 c
            \<and> code_in (if c = CHR 0xF0 then 144 else 128) (if c = CHR 0xF4 then 143 else 191) d
            \<and> code_in 128 191 e \<and> code_in 128 191 f \<and> utf8_valid fs))))"

text \<open>\<open>pattern.format(x)\<close> for a pattern whose only fields are \<open>{}\<close>: the first is filled, a
  second raises IndexError (None).\<close>

fun py_format1 :: "string \<Rightarrow> string \<Rightarrow> string option" where
  "py_format1 [] x = Some []"
| "py_format1 (c # cs) x =
     (if prefix ''{}'' (c # cs)
      then (if contains ''{}'' (drop 1 cs) then None else Some (x @ drop 1 cs))
      else map_option ((#) c) (py_format1 cs x))"

section \<open>Decimal numbers\<close>

definition digit_val :: "char \<Rightarrow> nat" where
  "digit_val c = of_char c - 48"

definition digit_char :: "nat \<Rightarrow> char" where
  "digit_char n = char_of (48 + n)"

definition nat_of_digits :: "string \<Rightarrow> nat" where
  "nat_of_digits s = foldl (\<lambda>a c. 10 * a + digit_val c) 0 s"

fun str_of_nat :: "nat \<Rightarrow> string" where
  "str_of_nat n = (if n < 10 then [digit_char n] else str_of_nat (n div 10) @ [digit_char (n mod 10)])"

declare str_of_nat.simps [simp del]

definition str_of_int :: "int \<Rightarrow> string" where
  "str_of_int i = (if i < 0 then CHR ''-'' # str_of_nat (nat (- i)) else str_of_nat (nat i))"

text \<open>\<open>int(s)\<close>: surrounding white space, an optional sign, and groups of digits separated by
  single underscores; None is ValueError.  Digits are the ASCII ones, all that a bytes argument may
  have; in a str Python also reads the decimal digits of other scripts, which are refused here.\<close>

fun py_sign :: "string \<Rightarrow> bool \<times> string" where
  "py_sign [] = (False, [])"
| "py_sign (c # cs) =
     (if c = CHR ''-'' then (True, cs) else if c = CHR ''+'' then (False, cs) else (False, c # cs))"

definition py_int :: "string \<Rightarrow> int option" where
  "py_int s =
     (case py_sign (py_strip s) of (neg, d) \<Rightarrow>
        if list_all is_digits (split_on CHR ''_'' d)
        then (let n = int (nat_of_digits (filter is_digit d)) in Some (if neg then - n else n))
        else None)"

definition hex_upper :: "nat \<Rightarrow> char" where
  "hex_upper n = (if n < 10 then char_of (48 + n) else char_of (55 + n))"

definition hex_lower :: "nat \<Rightarrow> char" where
  "hex_lower n = (if n < 10 then char_of (48 + n) else char_of (87 + n))"

definition hex_string :: "string \<Rightarrow> string" where
  "hex_string s = concat (map (\<lambda>c. [hex_lower (of_char c div 16), hex_lower (of_char c mod 16)]) s)"

text \<open>\<open>base64.urlsafe_b64encode(s).rstrip(b'=')\<close>.\<close>

definition b64_char :: "nat \<Rightarrow> char" where
  "b64_char n = (if n < 26 then char_of (65 + n) else if n < 52 then char_of (71 + n)
     else if n < 62 then char_of (n - 4) else if n = 62 then CHR ''-'' else CHR ''_'')"

fun b64url :: "string \<Rightarrow> string" where
  "b64url [] = []"
| "b64url [a] = (let x = of_char a in [b64_char (x div 4), b64_char (x mod 4 * 16)])"
| "b64url [a, b] = (let x = of_char a; y = of_char b in
     [b64_char (x div 4), b64_char (x mod 4 * 16 + y div 16), b64_char (y mod 16 * 4)])"
| "b64url (a # b # c # r) = (let x = of_char a; y = of_char b; z = of_char c in
     [b64_char (x div 4), b64_char (x mod 4 * 16 + y div 16), b64_char (y mod 16 * 4 + z div 64),
      b64_char (z mod 64)] @ b64url r)"

text \<open>\<open>base64.urlsafe_b64decode\<close>: characters outside both alphabets are skipped, padding ends
  the input, and a group left open is an error.\<close>

definition sextet :: "char \<Rightarrow> nat option" where
  "sextet c = (if is_upper c then Some (of_char c - 65) else if is_lower c then Some (of_char c - 71)
     else if is_digit c then Some (of_char c + 4) else if c = CHR ''-'' \<or> c = CHR ''+'' then Some 62
     else if c = CHR ''_'' \<or> c = CHR ''/'' then Some 63 else None)"

fun a2b :: "nat \<Rightarrow> nat \<Rightarrow> string \<Rightarrow> nat list option" where
  "a2b q p [] = (if q = 0 then Some [] else None)"
| "a2b q p (c # cs) =
     (if c = CHR ''='' then (if 2 \<le> q then (if 4 \<le> q + p + 1 then Some [] else a2b q (p + 1) cs) else a2b q p cs)
      else (case sextet c of
              None \<Rightarrow> a2b q p cs
            | Some v \<Rightarrow> map_option ((#) v) (a2b ((q + 1) mod 4) 0 cs)))"

fun sextet_bytes :: "nat list \<Rightarrow> string" where
  "sextet_bytes (w # x # y # z # r) = [char_of (w * 4 + x div 16), char_of (x mod 16 * 16 + y div 4),
     char_of (y mod 4 * 64 + z)] @ sextet_bytes r"
| "sextet_bytes [w, x, y] = [char_of (w * 4 + x div 16), char_of (x mod 16 * 16 + y div 4)]"
| "sextet_bytes [w, x] = [char_of (w * 4 + x div 16)]"
| "sextet_bytes _ = []"

definition b64_decode :: "string \<Rightarrow> string option" where
  "b64_decode v = map_option sextet_bytes (a2b 0 0 (v @ replicate (4 - length v mod 4) CHR ''=''))"

text \<open>\<open>urllib.parse.quote\<close> with its default safe character.\<close>

definition url_safe :: "char \<Rightarrow> bool" where
  "url_safe c \<longleftrightarrow> is_alnum c \<or> c \<in> set ''_.-~/''"

definition quote :: "string \<Rightarrow> string" where
  "quote s = concat (map (\<lambda>c. if url_safe c then [c]
     else [CHR ''%'', hex_upper (of_char c div 16), hex_upper (of_char c mod 16)]) s)"

section \<open>Ordered dictionaries\<close>

text \<open>A Python dict keeps insertion order; an update in place keeps the key's position.\<close>

type_synonym ('k, 'v) dict = "('k \<times> 'v) list"

definition dict_get :: "('k, 'v) dict \<Rightarrow> 'k \<Rightarrow> 'v option" where
  "dict_get d k = map_of d k"

fun dict_set :: "'k \<Rightarrow> 'v \<Rightarrow> ('k, 'v) dict \<Rightarrow> ('k, 'v) dict" where
  "dict_set k v [] = [(k, v)]"
| "dict_set k v ((k', v') # d) = (if k' = k then (k, v) # d else (k', v') # dict_set k v d)"

definition dict_del :: "'k \<Rightarrow> ('k, 'v) dict \<Rightarrow> ('k, 'v) dict" where
  "dict_del k d = filter (\<lambda>p. fst p \<noteq> k) d"

definition dict_keys :: "('k, 'v) dict \<Rightarrow> 'k list" where
  "dict_keys d = map fst d"

text \<open>\<open>list(dict.fromkeys(xs))\<close>: the distinct elements in order of first occurrence.\<close>

fun fromkeys :: "'a list \<Rightarrow> 'a list" where
  "fromkeys [] = []"
| "fromkeys (x # xs) = x # filter (\<lambda>y. y \<noteq> x) (fromkeys xs)"

section \<open>Lemmas: strings\<close>

lemma split_on_not_Nil [simp]: "split_on c xs \<noteq> []"
  by (induction xs) (auto split: list.splits)

lemma split_on_Nil_iff [simp]: "(split_on c xs = []) = False"
  by simp

lemma join_split [str_simps]: "join_with c (split_on c xs) = xs"
proof (induction xs)
  case (Cons x xs)
  then show ?case by (cases "split_on c xs" rule: list.exhaust; cases "tl (split_on c xs)") auto
qed simp

lemma split_on_fresh [str_simps]: "c \<notin> set xs \<Longrightarrow> split_on c xs = [xs]"
  by (induction xs) auto

lemma split_on_append [str_simps]:
  "c \<notin> set xs \<Longrightarrow> split_on c (xs @ c # ys) = xs # split_on c ys"
  by (induction xs) auto

lemma split_join [str_simps]:
  "\<lbrakk>xs \<noteq> []; \<forall>x\<in>set xs. c \<notin> set x\<rbrakk> \<Longrightarrow> split_on c (join_with c xs) = xs"
  by (induction c xs rule: join_with.induct) (auto simp: split_on_fresh split_on_append)

lemma split_ws_word:
  "\<lbrakk>w \<noteq> []; \<forall>c\<in>set w. \<not> is_space_str c\<rbrakk> \<Longrightarrow> split_ws w = [w]"
proof (induction w)
  case (Cons c w)
  then show ?case by (cases w) auto
qed simp

lemma split_ws_append:
  "\<lbrakk>w \<noteq> []; \<forall>c\<in>set w. \<not> is_space_str c; is_space_str s\<rbrakk> \<Longrightarrow> split_ws (w @ s # r) = w # split_ws r"
proof (induction w)
  case (Cons c w)
  then show ?case by (cases w) auto
qed simp

lemma split_ws_join:
  "\<forall>w\<in>set ws. w \<noteq> [] \<and> (\<forall>c\<in>set w. \<not> is_space_str c) \<Longrightarrow> split_ws (join_with CHR '' '' ws) = ws"
  by (induction "CHR '' ''" ws rule: join_with.induct)
     (simp_all add: split_ws_word split_ws_append, simp_all add: split_ws_append is_space_str_def code_in_def)

lemma split_on_free: "x \<in> set (split_on c xs) \<Longrightarrow> c \<notin> set x"
  by (induction xs arbitrary: x) (auto split: if_splits list.splits)

lemma cut_Some: "cut c xs = Some (a, b) \<Longrightarrow> xs = a @ c # b \<and> c \<notin> set a"
  by (induction xs arbitrary: a) (auto split: if_splits option.splits)

lemma cut_None [simp]: "cut c xs = None \<longleftrightarrow> c \<notin> set xs"
  by (induction xs) (auto split: option.splits)

lemma cut_append [str_simps]: "c \<notin> set a \<Longrightarrow> cut c (a @ c # b) = Some (a, b)"
  by (induction a) auto

lemma rcut_Some: "rcut c xs = Some (a, b) \<Longrightarrow> xs = a @ c # b \<and> c \<notin> set b"
proof -
  assume "rcut c xs = Some (a, b)"
  then have "cut c (rev xs) = Some (rev b, rev a)" by (auto simp: rcut_def split: option.splits)
  then show ?thesis using cut_Some [of c "rev xs" "rev b" "rev a"] by (simp add: rev_eq_append_conv)
qed

lemma rcut_None [simp]: "rcut c xs = None \<longleftrightarrow> c \<notin> set xs"
proof -
  have "rcut c xs = None \<longleftrightarrow> cut c (rev xs) = None"
    by (cases "cut c (rev xs)") (auto simp: rcut_def simp del: cut_None)
  then show ?thesis by simp
qed

lemma rcut_append [str_simps]: "c \<notin> set b \<Longrightarrow> rcut c (a @ c # b) = Some (a, b)"
  by (simp add: rcut_def cut_append)

lemma py_replace_char [str_simps]:
  "py_replace [c] new s = concat (map (\<lambda>x. if x = c then new else [x]) s)"
  by (induction s) auto

section \<open>Lemmas: numbers\<close>

lemma of_char_digit_char: "n < 10 \<Longrightarrow> (of_char (digit_char n) :: nat) = 48 + n"
  by (simp add: digit_char_def)

lemma digit_val_digit_char [simp]: "n < 10 \<Longrightarrow> digit_val (digit_char n) = n"
  by (simp add: digit_val_def of_char_digit_char)

lemma is_digit_digit_char [simp]: "n < 10 \<Longrightarrow> is_digit (digit_char n)"
  by (simp add: is_digit_def code_in_def of_char_digit_char)

lemma nat_of_digits_snoc: "nat_of_digits (s @ [c]) = 10 * nat_of_digits s + digit_val c"
  by (simp add: nat_of_digits_def)

lemma is_digits_str_of_nat [simp]: "is_digits (str_of_nat n)"
proof (induction n rule: less_induct)
  case (less n)
  show ?case
  proof (cases "n < 10")
    case True
    then show ?thesis by (simp add: str_of_nat.simps is_digits_def)
  next
    case False
    then have "is_digits (str_of_nat (n div 10))" by (intro less) auto
    then show ?thesis using False by (subst str_of_nat.simps) (simp add: is_digits_def)
  qed
qed

lemma nat_of_digits_str_of_nat [simp]: "nat_of_digits (str_of_nat n) = n"
proof (induction n rule: less_induct)
  case (less n)
  show ?case
  proof (cases "n < 10")
    case True
    then show ?thesis by (simp add: str_of_nat.simps nat_of_digits_def)
  next
    case False
    then have "nat_of_digits (str_of_nat (n div 10)) = n div 10" by (intro less) auto
    then show ?thesis using False by (subst str_of_nat.simps) (simp add: nat_of_digits_snoc)
  qed
qed

lemma is_digit_not_space: "is_digit c \<Longrightarrow> \<not> is_space c"
  by (auto simp: is_digit_def is_space_def code_in_def)

lemma is_digits_set: "is_digits s \<Longrightarrow> c \<in> set s \<Longrightarrow> is_digit c"
  by (simp add: is_digits_def list_all_iff)

lemma py_lstrip_digits [simp]: "is_digits s \<Longrightarrow> py_lstrip s = s"
  by (cases s) (auto simp: is_digits_def py_lstrip_def is_digit_not_space)

lemma py_rstrip_digits [simp]: "is_digits s \<Longrightarrow> py_rstrip s = s"
  by (cases s rule: rev_cases) (auto simp: is_digits_def py_rstrip_def is_digit_not_space)

lemma is_digits_filter [simp]: "is_digits s \<Longrightarrow> filter is_digit s = s"
  by (simp add: is_digits_def filter_id_conv list_all_iff)

lemma digits_free: "\<not> is_digit c \<Longrightarrow> is_digits s \<Longrightarrow> c \<notin> set s"
  by (auto dest: is_digits_set)

lemma dropWhile_keeps: "\<lbrakk>c \<in> set s; \<not> P c\<rbrakk> \<Longrightarrow> c \<in> set (dropWhile P s)"
  by (induction s) auto

lemma py_strip_keeps: "\<lbrakk>c \<in> set s; \<not> is_space c\<rbrakk> \<Longrightarrow> c \<in> set (py_strip s)"
  by (simp add: py_strip_def py_rstrip_def py_lstrip_def dropWhile_keeps)

lemma split_on_mem: "\<lbrakk>x \<in> set xs; x \<noteq> c\<rbrakk> \<Longrightarrow> \<exists>p\<in>set (split_on c xs). x \<in> set p"
  by (induction xs) (auto split: list.splits)

lemma py_int_chars:
  assumes "py_int s = Some n" "c \<in> set s"
  shows "is_digit c \<or> is_space c \<or> c \<in> set ''_+-''"
proof (rule ccontr)
  assume n: "\<not> ?thesis"
  then have "c \<in> set (py_strip s)" using assms(2) py_strip_keeps by blast
  then have "c \<in> set (snd (py_sign (py_strip s)))" using n by (cases "py_strip s") auto
  moreover have "c \<noteq> CHR ''_''" using n by auto
  ultimately obtain p where "p \<in> set (split_on CHR ''_'' (snd (py_sign (py_strip s))))" "c \<in> set p"
    using split_on_mem by meson
  moreover from this have "is_digits p"
    using assms(1) by (auto simp: py_int_def list_all_iff split: prod.splits if_splits)
  ultimately show False using n is_digits_set by blast
qed

lemma py_int_str_of_nat [simp]: "py_int (str_of_nat n) = Some (int n)"
proof -
  let ?s = "str_of_nat n"
  have d: "is_digits ?s" by simp
  then have fresh: "CHR ''_'' \<notin> set ?s" "CHR ''-'' \<notin> set ?s" "CHR ''+'' \<notin> set ?s"
    by (auto intro!: digits_free [OF _ d] simp: is_digit_def code_in_def)
  then have "py_sign ?s = (False, ?s)" by (cases ?s) auto
  then show ?thesis using d fresh by (simp add: py_int_def py_strip_def split_on_fresh)
qed

lemma hex_lower_code:
  "n < 16 \<Longrightarrow> code_in 48 57 (hex_lower n) \<or> code_in 97 102 (hex_lower n)"
  by (auto simp: hex_lower_def code_in_def)

lemma hex_string_chars: "c \<in> set (hex_string s) \<Longrightarrow> code_in 48 57 c \<or> code_in 97 102 c"
proof -
  have "(of_char x :: nat) < 256" for x :: char
    by (metis of_char_mod_256 mod_less_divisor zero_less_numeral)
  then have d: "(of_char x :: nat) div 16 < 16" "(of_char x :: nat) mod 16 < 16" for x :: char
    by (simp_all add: less_mult_imp_div_less)
  assume "c \<in> set (hex_string s)"
  then obtain n where "c = hex_lower n" "n < 16" using d unfolding hex_string_def by auto
  then show ?thesis using hex_lower_code by simp
qed

section \<open>Lemmas: base64\<close>

lemma sextet_b64_char [simp]: "n < 64 \<Longrightarrow> sextet (b64_char n) = Some n"
  by (auto simp: b64_char_def sextet_def is_upper_def is_lower_def is_digit_def code_in_def)

lemma b64_char_not_pad [simp]: "n < 64 \<Longrightarrow> b64_char n \<noteq> CHR ''=''"
proof
  assume "n < 64" "b64_char n = CHR ''=''"
  then have "sextet (CHR ''='') = Some n" by (metis sextet_b64_char)
  then show False by (simp add: sextet_def is_upper_def is_lower_def is_digit_def code_in_def)
qed

lemma of_char_lt: "(of_char c :: nat) < 256"
  by (metis of_char_mod_256 mod_less_divisor zero_less_numeral)

lemma byte_parts:
  "(of_char c :: nat) div 4 < 64" "(of_char c :: nat) mod 4 * 16 + of_char d div 16 < 64"
  "(of_char c :: nat) mod 16 * 4 + of_char d div 64 < 64" "(of_char c :: nat) mod 64 < 64"
  "(of_char c :: nat) mod 4 * 16 < 64" "(of_char c :: nat) mod 16 * 4 < 64"
proof -
  have "(of_char c :: nat) mod 4 < 4" "(of_char c :: nat) mod 16 < 16" by simp_all
  moreover have "(of_char d :: nat) div 16 < 16" "(of_char d :: nat) div 64 < 4" "(of_char c :: nat) div 4 < 64"
    using of_char_lt [of d] of_char_lt [of c] by (simp_all add: less_mult_imp_div_less)
  ultimately show "(of_char c :: nat) div 4 < 64" "(of_char c :: nat) mod 4 * 16 + of_char d div 16 < 64"
    "(of_char c :: nat) mod 16 * 4 + of_char d div 64 < 64"
    "(of_char c :: nat) mod 4 * 16 < 64" "(of_char c :: nat) mod 16 * 4 < 64" by linarith+
  show "(of_char c :: nat) mod 64 < 64" by simp
qed

lemma b64url_length: "length (b64url s) = (4 * length s + 2) div 3"
  by (induction s rule: b64url.induct) (auto simp: Let_def)

text \<open>The sextets of a byte string, and their two inverses.\<close>

fun sextets :: "string \<Rightarrow> nat list" where
  "sextets [] = []"
| "sextets [a] = (let x = of_char a in [x div 4, x mod 4 * 16])"
| "sextets [a, b] = (let x = of_char a; y = of_char b in [x div 4, x mod 4 * 16 + y div 16, y mod 16 * 4])"
| "sextets (a # b # c # r) = (let x = of_char a; y = of_char b; z = of_char c in
     [x div 4, x mod 4 * 16 + y div 16, y mod 16 * 4 + z div 64, z mod 64] @ sextets r)"

lemma sextets_lt: "n \<in> set (sextets s) \<Longrightarrow> n < 64"
  by (induction s rule: sextets.induct) (auto simp: Let_def byte_parts)

lemma b64url_sextets: "b64url s = map b64_char (sextets s)"
  by (induction s rule: sextets.induct) (auto simp: Let_def)

lemma sextets_length: "length (sextets s) mod 4 \<noteq> 1"
  by (induction s rule: sextets.induct) (auto simp: Let_def)

lemma a2b_pads: "q = 0 \<or> (2 \<le> q \<and> 0 < k \<and> 4 \<le> q + p + k) \<Longrightarrow> a2b q p (replicate k CHR ''='') = Some []"
  by (induction k arbitrary: p) auto

lemma a2b_map:
  "\<lbrakk>\<forall>n\<in>set vs. n < 64; q < 4; (q + length vs) mod 4 \<noteq> 1; k = 4 - (q + length vs) mod 4\<rbrakk>
   \<Longrightarrow> a2b q 0 (map b64_char vs @ replicate k CHR ''='') = Some vs"
proof (induction vs arbitrary: q)
  case Nil
  then have "q = 0 \<or> (2 \<le> q \<and> 0 < k \<and> 4 \<le> q + 0 + k)" by auto
  then show ?case using a2b_pads [of q k 0] by simp
next
  case (Cons v vs)
  have "a2b ((q + 1) mod 4) 0 (map b64_char vs @ replicate k CHR ''='') = Some vs"
    by (rule Cons.IH) (use Cons.prems in \<open>auto simp: mod_simps ac_simps\<close>)
  then show ?case using Cons.prems(1) by simp
qed

lemma byte_quotients:
  "(of_char c :: nat) div 16 div 16 = 0" "(of_char c :: nat) div 16 mod 16 = of_char c div 16"
  "(of_char c :: nat) div 64 div 4 = 0" "(of_char c :: nat) div 64 mod 4 = of_char c div 64"
  using of_char_lt [of c] by (simp_all add: less_mult_imp_div_less flip: div_mult2_eq)

lemma sextet_bytes_sextets: "sextet_bytes (sextets s) = s"
  by (induction s rule: sextets.induct) (simp_all add: Let_def byte_quotients)

lemma b64_roundtrip: "b64_decode (b64url s) = Some s"
proof -
  have "a2b 0 0 (map b64_char (sextets s) @ replicate (4 - (0 + length (sextets s)) mod 4) CHR ''='') = Some (sextets s)"
    by (rule a2b_map) (use sextets_lt sextets_length in auto)
  then show ?thesis by (simp add: b64_decode_def b64url_sextets sextet_bytes_sextets)
qed

section \<open>Lemmas: dictionaries\<close>

lemma dict_get_Nil [simp, dict_simps]: "dict_get [] k = None"
  by (simp add: dict_get_def)

lemma dict_get_Cons [dict_simps]:
  "dict_get ((k', v) # d) k = (if k' = k then Some v else dict_get d k)"
  by (simp add: dict_get_def)

lemma dict_get_set [simp, dict_simps]:
  "dict_get (dict_set k v d) k' = (if k' = k then Some v else dict_get d k')"
  by (induction k v d rule: dict_set.induct) (auto simp: dict_get_def)

lemma dict_get_del [simp, dict_simps]:
  "dict_get (dict_del k d) k' = (if k' = k then None else dict_get d k')"
  by (induction d) (auto simp: dict_get_def dict_del_def)

lemma keys_dict_set:
  "dict_keys (dict_set k v d) = (if k \<in> set (dict_keys d) then dict_keys d else dict_keys d @ [k])"
  by (induction k v d rule: dict_set.induct) (auto simp: dict_keys_def)

lemma keys_dict_del: "dict_keys (dict_del k d) = filter (\<lambda>x. x \<noteq> k) (dict_keys d)"
  by (induction d) (auto simp: dict_keys_def dict_del_def)

lemma distinct_dict_set [simp, intro]:
  "distinct (dict_keys d) \<Longrightarrow> distinct (dict_keys (dict_set k v d))"
  by (simp add: keys_dict_set)

lemma distinct_dict_del [simp, intro]:
  "distinct (dict_keys d) \<Longrightarrow> distinct (dict_keys (dict_del k d))"
  by (simp add: keys_dict_del)

lemma dict_get_None_iff: "dict_get d k = None \<longleftrightarrow> k \<notin> set (dict_keys d)"
  by (simp add: dict_get_def dict_keys_def map_of_eq_None_iff)

lemma dict_get_mem: "dict_get d k = Some v \<Longrightarrow> (k, v) \<in> set d"
  by (simp add: dict_get_def map_of_SomeD)

lemma set_fromkeys [simp]: "set (fromkeys xs) = set xs"
  by (induction xs) auto

lemma distinct_fromkeys [simp]: "distinct (fromkeys xs)"
  by (induction xs) auto

lemma fromkeys_snoc:
  "fromkeys (xs @ [x]) = (if x \<in> set xs then fromkeys xs else fromkeys xs @ [x])"
  by (induction xs) auto

section \<open>Machines that keep an invariant\<close>

text \<open>Several components are machines: a step function over a state, driven by a list of
  inputs.  The contract of such a machine is that a step on an admissible input keeps an
  invariant; its clients get the invariant after any run of admissible inputs.\<close>

locale machine =
  fixes step :: "'s \<Rightarrow> 'i \<Rightarrow> 's" and ok :: "'i \<Rightarrow> bool" and inv :: "'s \<Rightarrow> bool"
  assumes inv_step: "\<lbrakk>inv s; ok i\<rbrakk> \<Longrightarrow> inv (step s i)"
begin

lemma inv_run: "\<lbrakk>inv s; list_all ok is\<rbrakk> \<Longrightarrow> inv (foldl step s is)"
  by (induction "is" arbitrary: s) (auto intro: inv_step)

end

end
