(* ===== verification/Podop_Dict.thy ===== *)
theory Podop_Dict
  imports Prelude
begin

text \<open>
  The Dovecot dict proxy of podop (\<open>src/core/base/libs/podop/podop/dovecot.py\<close>) and the HTTP
  table behind it (\<open>table.py\<close>).  A connection is the record \<open>dict_conn\<close>; one call of
  \<open>data_received\<close> parses every line of a chunk, changes the connection at once for hello,
  begin and set, and queues a task for lookup, iterate and commit.  The tasks run after the
  chunk, in order; a task that raises leaves what it wrote before.  The HTTP service is the
  argument \<open>http_get\<close>, which sees the requests posted so far, and \<open>http_post\<close>, which tells whether
  posting returns or raises; JSON text is read and written by the arguments \<open>loads\<close> and \<open>dumps\<close>.
\<close>

section \<open>Tab escaping\<close>

definition tabescape :: "string \<Rightarrow> string" where
  "tabescape s =
     py_replace [CHR 0x0D] [CHR 0x01, CHR ''r'']
      (py_replace [CHR 0x0A] [CHR 0x01, CHR ''n'']
       (py_replace [CHR 0x09] [CHR 0x01, CHR ''t'']
        (py_replace [CHR 0x00] [CHR 0x01, CHR ''0'']
         (py_replace [CHR 0x01] [CHR 0x01, CHR ''1''] s))))"

definition tabunescape :: "string \<Rightarrow> string" where
  "tabunescape s =
     py_replace [CHR 0x01, CHR ''1''] [CHR 0x01]
      (py_replace [CHR 0x01, CHR ''0''] [CHR 0x00]
       (py_replace [CHR 0x01, CHR ''t''] [CHR 0x09]
        (py_replace [CHR 0x01, CHR ''n''] [CHR 0x0A]
         (py_replace [CHR 0x01, CHR ''r''] [CHR 0x0D] s))))"

section \<open>The HTTP table\<close>

datatype json =
    JNull
  | JBool bool
  | JNum int
  | JStr string
  | JList "json list"
  | JObj "(string \<times> json) list"

datatype fetched = Found json | KeyErr | Raised

type_synonym posts = "(string \<times> json) list"

definition ns_key :: "string \<Rightarrow> string option \<Rightarrow> string" where
  "ns_key key ns = (case ns of None \<Rightarrow> key | Some n \<Rightarrow> key @ ''/'' @ n)"

definition url_get ::
  "(posts \<Rightarrow> string \<Rightarrow> nat \<times> json) \<Rightarrow> string \<Rightarrow> posts \<Rightarrow> string \<Rightarrow> string option \<Rightarrow> fetched" where
  "url_get http_get url_pattern posts key ns =
     (case py_format1 url_pattern (quote (ns_key key ns)) of
        None \<Rightarrow> Raised
      | Some url \<Rightarrow>
          (case http_get posts url of (status, body) \<Rightarrow>
             if status = 200 then Found body
             else if status = 404 then KeyErr
             else Raised))"

text \<open>The requests issued, and whether the last returned; the status of an answer is not looked at.\<close>

type_synonym post_service = "posts \<Rightarrow> string \<Rightarrow> json \<Rightarrow> bool"

definition url_set ::
  "post_service \<Rightarrow> string \<Rightarrow> posts \<Rightarrow> string \<Rightarrow> json \<Rightarrow> string option \<Rightarrow> posts \<times> bool" where
  "url_set http_post url_pattern posts key value ns =
     (case py_format1 url_pattern (quote (ns_key key ns)) of
        None \<Rightarrow> (posts, False)
      | Some url \<Rightarrow> (posts @ [(url, value)], http_post posts url value))"

text \<open>\<open>iter\<close> does not quote its argument, and returns None for any other status, on which the
  caller's \<open>len\<close> raises.\<close>

definition url_iter ::
  "(posts \<Rightarrow> string \<Rightarrow> nat \<times> json) \<Rightarrow> string \<Rightarrow> posts \<Rightarrow> string \<Rightarrow> json option" where
  "url_iter http_get url_pattern posts cat =
     (case py_format1 url_pattern cat of
        None \<Rightarrow> None
      | Some url \<Rightarrow>
          (case http_get posts url of (status, body) \<Rightarrow> if status = 200 then Some body else None))"

section \<open>Connections\<close>

record dict_conn =
  major :: "int option"
  minor :: "int option"
  value_type :: "int option"
  conn_user :: "string option"
  conn_dict :: "string option"
  transactions :: "(string, (string, string) dict) dict"
  transactions_user :: "(string, string) dict"

definition init_conn :: dict_conn where
  "init_conn = \<lparr>major = None, minor = None, value_type = None, conn_user = None,
     conn_dict = None, transactions = [], transactions_user = []\<rparr>"

datatype task =
    Lookup string "string option" bool
  | Iterate string string string "string option"
  | Commit string

definition reply :: "string \<Rightarrow> string list \<Rightarrow> string" where
  "reply command args = command @ join_with CHR 0x09 (map tabescape args) @ [CHR 0x0A]"

text \<open>The table map is an association list from a dict name to the URL pattern of its table
  (with the paragraph sign already replaced).\<close>

definition process_hello ::
  "(string, string) dict \<Rightarrow> string \<Rightarrow> string \<Rightarrow> string \<Rightarrow> string \<Rightarrow> string \<Rightarrow> dict_conn \<Rightarrow> dict_conn option" where
  "process_hello table_map maj mnr vt user dict_name c =
     (case (py_int maj, py_int mnr) of
        (Some ma, Some mi) \<Rightarrow>
          (case py_int vt of
             Some t \<Rightarrow>
               if t \<in> {0, 1} \<and> utf8_valid user \<and> list_all (code_in 0 127) dict_name
               then (case dict_get table_map dict_name of
                       Some pat \<Rightarrow> Some (c\<lparr>major := Some ma, minor := Some mi,
                         value_type := Some t, conn_user := Some user, conn_dict := Some pat\<rparr>)
                     | None \<Rightarrow> None)
               else None
           | None \<Rightarrow> None)
      | _ \<Rightarrow> None)"

definition process_begin :: "string \<Rightarrow> string \<Rightarrow> dict_conn \<Rightarrow> dict_conn option" where
  "process_begin tid user c =
     (let c' = c\<lparr>transactions := dict_set tid [] (transactions c)\<rparr>
      in if user \<noteq> []
         then (if utf8_valid user
               then Some (c'\<lparr>transactions_user := dict_set tid user (transactions_user c)\<rparr>)
               else None)
         else map_option (\<lambda>u. c'\<lparr>transactions_user := dict_set tid u (transactions_user c)\<rparr>)
                (conn_user c))"

definition process_set :: "string \<Rightarrow> string \<Rightarrow> string \<Rightarrow> dict_conn \<Rightarrow> dict_conn option" where
  "process_set tid key value c =
     (case dict_get (transactions c) tid of
        None \<Rightarrow> None
      | Some t \<Rightarrow> Some (c\<lparr>transactions := dict_set tid (dict_set key value t) (transactions c)\<rparr>))"

text \<open>One line of a chunk.  None is an exception or an unknown command: the transport is
  aborted.  A call with the wrong number of arguments is a TypeError.\<close>

definition dispatch ::
  "(string, string) dict \<Rightarrow> char \<Rightarrow> string list \<Rightarrow> dict_conn \<Rightarrow> (dict_conn \<times> task list) option" where
  "dispatch table_map cmd args c =
     (let sync = map_option (\<lambda>c'. (c', []))
      in if cmd = CHR ''H'' then
           (case args of [a, b, t, u, d] \<Rightarrow> sync (process_hello table_map a b t u d c) | _ \<Rightarrow> None)
         else if cmd = CHR ''L'' then
           (case args of [k] \<Rightarrow> Some (c, [Lookup k None False])
            | [k, u] \<Rightarrow> Some (c, [Lookup k (Some u) False])
            | [k, u, i] \<Rightarrow> Some (c, [Lookup k (Some u) (i \<noteq> [])])
            | _ \<Rightarrow> None)
         else if cmd = CHR ''I'' then
           (case args of [f, m, p] \<Rightarrow> Some (c, [Iterate f m p None])
            | [f, m, p, u] \<Rightarrow> Some (c, [Iterate f m p (Some u)])
            | _ \<Rightarrow> None)
         else if cmd = CHR ''B'' then
           (case args of [t] \<Rightarrow> sync (process_begin t [] c)
            | [t, u] \<Rightarrow> sync (process_begin t u c)
            | [t, u, e] \<Rightarrow> sync (process_begin t u c)
            | _ \<Rightarrow> None)
         else if cmd = CHR ''C'' then
           (case args of [t] \<Rightarrow> Some (c, [Commit t]) | _ \<Rightarrow> None)
         else if cmd = CHR ''S'' then
           (case args of [t, k, v] \<Rightarrow> sync (process_set t k v c) | _ \<Rightarrow> None)
         else None)"

fun process_lines ::
  "(string, string) dict \<Rightarrow> string list \<Rightarrow> dict_conn \<Rightarrow> (dict_conn \<times> task list) option" where
  "process_lines table_map [] c = Some (c, [])"
| "process_lines table_map (line # lines) c =
     (case line of
        cmd # d # rest \<Rightarrow>
          (case dispatch table_map cmd (split_on CHR 0x09 (py_strip (d # rest))) c of
             None \<Rightarrow> None
           | Some (c', ts) \<Rightarrow>
               map_option (\<lambda>(c'', ts'). (c'', ts @ ts')) (process_lines table_map lines c'))
      | _ \<Rightarrow> process_lines table_map lines c)"

definition data_received ::
  "(string, string) dict \<Rightarrow> string \<Rightarrow> dict_conn \<Rightarrow> (dict_conn \<times> task list) option" where
  "data_received table_map data c = process_lines table_map (split_on CHR 0x0A data) c"

section \<open>Tasks\<close>

text \<open>A task yields the bytes written to the transport and whether it returned normally.\<close>

definition namespace :: "dict_conn \<Rightarrow> string option \<Rightarrow> string option" where
  "namespace c user = (case user of Some u \<Rightarrow> (if u \<noteq> [] then Some u else conn_user c)
                                  | None \<Rightarrow> conn_user c)"

definition process_lookup ::
  "(posts \<Rightarrow> string \<Rightarrow> nat \<times> json) \<Rightarrow> (json \<Rightarrow> string) \<Rightarrow> dict_conn \<Rightarrow> posts \<Rightarrow>
   string \<Rightarrow> string option \<Rightarrow> bool \<Rightarrow> string \<times> bool" where
  "process_lookup http_get dumps c posts orig_key user is_iter =
     (if \<not> utf8_valid orig_key then ([], False)
      else (case cut CHR ''/'' orig_key of
         None \<Rightarrow> ([], False)
       | Some (key_type, key) \<Rightarrow>
           (let bad_user = (case user of Some u \<Rightarrow> \<not> utf8_valid u | None \<Rightarrow> False)
            in if key_type = ''priv'' \<and> (bad_user \<or> namespace c user = None) then ([], False)
               else (case conn_dict c of
                  None \<Rightarrow> ([], False)
                | Some pat \<Rightarrow>
                    (case url_get http_get pat posts key
                            (if key_type = ''priv'' then namespace c user else None) of
                       Found r \<Rightarrow>
                         (let response = (case r of JStr s \<Rightarrow> s | _ \<Rightarrow> dumps r)
                          in (if is_iter then reply ''O'' [orig_key, response]
                              else reply ''O'' [response], True))
                     | KeyErr \<Rightarrow> (reply ''N'' [], True)
                     | Raised \<Rightarrow> ([], False))))))"

fun run_rows :: "(string \<Rightarrow> string \<times> bool) \<Rightarrow> string list \<Rightarrow> string \<times> bool" where
  "run_rows f [] = ([], True)"
| "run_rows f (k # ks) =
     (case f k of (out, ok) \<Rightarrow>
        if ok then (case run_rows f ks of (out', ok') \<Rightarrow> (out @ out', ok')) else (out, False))"

text \<open>The elements a Python loop over the JSON value visits, None when it is not iterable; an
  element that is not a string (None) makes the concatenation with the path raise.\<close>

definition json_rows :: "json \<Rightarrow> string option list option" where
  "json_rows j = (case j of
       JList xs \<Rightarrow> Some (map (\<lambda>x. case x of JStr s \<Rightarrow> Some s | _ \<Rightarrow> None) xs)
     | JObj kvs \<Rightarrow> Some (map (Some \<circ> fst) kvs)
     | JStr s \<Rightarrow> Some (map (\<lambda>c. Some [c]) s)
     | _ \<Rightarrow> None)"

definition process_iterate ::
  "(posts \<Rightarrow> string \<Rightarrow> nat \<times> json) \<Rightarrow> (json \<Rightarrow> string) \<Rightarrow> dict_conn \<Rightarrow> posts \<Rightarrow>
   string \<Rightarrow> string \<Rightarrow> string \<Rightarrow> string option \<Rightarrow> string \<times> bool" where
  "process_iterate http_get dumps c posts flags max_rows path user =
     (if \<not> utf8_valid path then ([], False)
      else (case (cut CHR ''/'' path, py_int max_rows, py_int flags) of
         (Some (key_type, key), Some m, Some f) \<Rightarrow>
           if f \<noteq> 0 then (reply ''F'' [], True)
           else (case conn_dict c of
              None \<Rightarrow> ([], False)
            | Some pat \<Rightarrow>
                (case Option.bind (url_iter http_get pat posts key) json_rows of
                   None \<Rightarrow> ([], False)
                 | Some ks \<Rightarrow>
                     (let rows = (if m > 0 then take (nat m) ks else ks)
                      in if None \<in> set rows then ([], False)
                         else (case run_rows (\<lambda>k. process_lookup http_get dumps c posts (path @ k) user True)
                                      (map the rows) of
                                 (out, ok) \<Rightarrow> if ok then (out @ [CHR 0x0A], True) else (out, False)))))
       | _ \<Rightarrow> ([], False)))"

fun commit_sets ::
  "post_service \<Rightarrow> (string \<Rightarrow> json option) \<Rightarrow> string \<Rightarrow> string option \<Rightarrow> (string, string) dict \<Rightarrow> posts \<Rightarrow> posts \<times> bool" where
  "commit_sets http_post loads pat user [] posts = (posts, True)"
| "commit_sets http_post loads pat user ((key, value) # sets) posts =
     (if \<not> utf8_valid key then (posts, False)
      else (case (cut CHR ''/'' key, loads value) of
         (Some (key_type, k), Some v) \<Rightarrow>
           if key_type = ''priv'' \<and> user = None then (posts, False)
           else (case url_set http_post pat posts k v (if key_type = ''priv'' then user else None) of
                   (posts', returned) \<Rightarrow>
                     if returned then commit_sets http_post loads pat user sets posts' else (posts', False))
       | _ \<Rightarrow> (posts, False)))"

definition process_commit ::
  "post_service \<Rightarrow> (string \<Rightarrow> json option) \<Rightarrow> string \<Rightarrow> dict_conn \<Rightarrow> posts \<Rightarrow> dict_conn \<times> posts \<times> string \<times> bool" where
  "process_commit http_post loads tid c posts =
     (case dict_get (transactions c) tid of
        None \<Rightarrow> (c, posts, [], False)
      | Some sets \<Rightarrow>
          (case (case conn_dict c of
                   None \<Rightarrow> (posts, sets = [])
                 | Some pat \<Rightarrow> commit_sets http_post loads pat (dict_get (transactions_user c) tid) sets posts) of
             (posts', ok) \<Rightarrow>
               if ok \<and> dict_get (transactions_user c) tid \<noteq> None
               then (c\<lparr>transactions := dict_del tid (transactions c),
                       transactions_user := dict_del tid (transactions_user c)\<rparr>,
                     posts', reply ''O'' [tid], True)
               else (c\<lparr>transactions := (if ok then dict_del tid (transactions c) else transactions c)\<rparr>,
                     posts', [], False)))"

definition run_task ::
  "(posts \<Rightarrow> string \<Rightarrow> nat \<times> json) \<Rightarrow> post_service \<Rightarrow> (string \<Rightarrow> json option) \<Rightarrow> (json \<Rightarrow> string) \<Rightarrow>
   dict_conn \<times> posts \<times> string \<Rightarrow> task \<Rightarrow> dict_conn \<times> posts \<times> string" where
  "run_task http_get http_post loads dumps s t =
     (case s of (c, posts, out) \<Rightarrow>
        (case t of
           Lookup k u i \<Rightarrow> (c, posts, out @ fst (process_lookup http_get dumps c posts k u i))
         | Iterate f m p u \<Rightarrow> (c, posts, out @ fst (process_iterate http_get dumps c posts f m p u))
         | Commit tid \<Rightarrow>
             (case process_commit http_post loads tid c posts of (c', posts', o', _) \<Rightarrow> (c', posts', out @ o'))))"

definition handle_chunk ::
  "(posts \<Rightarrow> string \<Rightarrow> nat \<times> json) \<Rightarrow> post_service \<Rightarrow> (string \<Rightarrow> json option) \<Rightarrow> (json \<Rightarrow> string) \<Rightarrow>
   (string, string) dict \<Rightarrow> string \<Rightarrow> dict_conn \<Rightarrow> posts \<Rightarrow> (dict_conn \<times> posts \<times> string) option" where
  "handle_chunk http_get http_post loads dumps table_map data c posts =
     (case data_received table_map data c of
        None \<Rightarrow> None
      | Some (c', ts) \<Rightarrow> Some (foldl (run_task http_get http_post loads dumps) (c', posts, []) ts))"

section \<open>Escaping is reversible\<close>

text \<open>Every stage of \<open>tabunescape\<close> undoes one character of an encoding whose code words start
  with a byte 1 exactly when they have two characters.\<close>

definition esc1 :: "char \<Rightarrow> string" where
  "esc1 c = (if c = CHR 0x01 then [CHR 0x01, CHR ''1''] else if c = CHR 0x00 then [CHR 0x01, CHR ''0'']
     else if c = CHR 0x09 then [CHR 0x01, CHR ''t''] else if c = CHR 0x0A then [CHR 0x01, CHR ''n'']
     else if c = CHR 0x0D then [CHR 0x01, CHR ''r''] else [c])"

lemma concat_map_concat_map: "concat (map g (concat (map f s))) = concat (map (\<lambda>x. concat (map g (f x))) s)"
  by (induction s) auto

lemma tabescape_eq: "tabescape s = concat (map esc1 s)"
  unfolding tabescape_def py_replace_char concat_map_concat_map
  by (rule arg_cong [where f = concat], rule map_cong) (auto simp: esc1_def)

lemma unescape_stage:
  assumes "\<And>c. (e c = [c] \<and> c \<noteq> p) \<or> (\<exists>z. e c = [p, z] \<and> z \<noteq> p \<and> (z = x \<longleftrightarrow> c = y))" "e y = [p, x]"
  shows "py_replace [p, x] [y] (concat (map e s)) = concat (map (\<lambda>c. if c = y then [y] else e c) s)"
proof (induction s)
  case (Cons c s)
  consider "e c = [c]" "c \<noteq> p" | z where "e c = [p, z]" "z \<noteq> p" "z = x \<longleftrightarrow> c = y"
    using assms(1) [of c] by blast
  then show ?case
  proof cases
    case 1
    then show ?thesis using Cons assms(2) by auto
  next
    case 2
    then show ?thesis using Cons by (cases "z = x") auto
  qed
qed simp

lemma tabunescape_tabescape: "tabunescape (tabescape s) = s"
proof -
  let ?e1 = "\<lambda>c. if c = CHR 0x0D then [CHR 0x0D] else esc1 c"
  let ?e2 = "\<lambda>c. if c = CHR 0x0A then [CHR 0x0A] else ?e1 c"
  let ?e3 = "\<lambda>c. if c = CHR 0x09 then [CHR 0x09] else ?e2 c"
  let ?e4 = "\<lambda>c. if c = CHR 0x00 then [CHR 0x00] else ?e3 c"
  let ?e5 = "\<lambda>c. if c = CHR 0x01 then [CHR 0x01] else ?e4 c"
  have 1: "py_replace [CHR 0x01, CHR ''r''] [CHR 0x0D] (concat (map esc1 s)) = concat (map ?e1 s)"
    by (rule unescape_stage) (auto simp: esc1_def)
  have 2: "py_replace [CHR 0x01, CHR ''n''] [CHR 0x0A] (concat (map ?e1 s)) = concat (map ?e2 s)"
    by (rule unescape_stage) (auto simp: esc1_def)
  have 3: "py_replace [CHR 0x01, CHR ''t''] [CHR 0x09] (concat (map ?e2 s)) = concat (map ?e3 s)"
    by (rule unescape_stage) (auto simp: esc1_def)
  have 4: "py_replace [CHR 0x01, CHR ''0''] [CHR 0x00] (concat (map ?e3 s)) = concat (map ?e4 s)"
    by (rule unescape_stage) (auto simp: esc1_def)
  have 5: "py_replace [CHR 0x01, CHR ''1''] [CHR 0x01] (concat (map ?e4 s)) = concat (map ?e5 s)"
    by (rule unescape_stage) (auto simp: esc1_def)
  have "?e5 = (\<lambda>c. [c])" by (rule ext) (auto simp: esc1_def)
  then have "concat (map ?e5 s) = s" by (simp only: concat_map_singleton map_ident)
  then show ?thesis by (simp only: tabunescape_def tabescape_eq 1 2 3 4 5)
qed

lemma tabescape_clean: "c \<in> set (tabescape s) \<Longrightarrow> c \<notin> {CHR 0x00, CHR 0x09, CHR 0x0A, CHR 0x0D}"
  by (auto simp: tabescape_eq esc1_def split: if_splits)

text \<open>A reply is one line, and a reader recovers the command and every argument.\<close>

definition parse_reply :: "string \<Rightarrow> (string \<times> string list) option" where
  "parse_reply out = (case out of
     cmd # rest \<Rightarrow> (case cut CHR 0x0A rest of
        Some (body, []) \<Rightarrow> Some ([cmd], map tabunescape (split_on CHR 0x09 body))
      | _ \<Rightarrow> None)
   | [] \<Rightarrow> None)"

lemma join_clean: "\<lbrakk>c \<in> set (join_with d xs); c \<noteq> d\<rbrakk> \<Longrightarrow> \<exists>x\<in>set xs. c \<in> set x"
  by (induction d xs rule: join_with.induct) auto

lemma parse_reply_reply: "args \<noteq> [] \<Longrightarrow> parse_reply (reply [cmd] args) = Some ([cmd], args)"
proof -
  assume a: "args \<noteq> []"
  let ?b = "join_with CHR 0x09 (map tabescape args)"
  have nl: "CHR 0x0A \<notin> set ?b" using join_clean [of "CHR 0x0A" "CHR 0x09"] tabescape_clean by fastforce
  have "split_on CHR 0x09 ?b = map tabescape args"
    using a tabescape_clean by (intro split_join) auto
  then show ?thesis
    using cut_append [OF nl, of "[]"]
    by (simp add: parse_reply_def reply_def map_idI tabunescape_tabescape)
qed

section \<open>Transactions\<close>

fun process_sets :: "string \<Rightarrow> (string \<times> string) list \<Rightarrow> dict_conn \<Rightarrow> dict_conn option" where
  "process_sets tid [] c = Some c"
| "process_sets tid ((k, v) # kvs) c = Option.bind (process_set tid k v c) (process_sets tid kvs)"

definition writes :: "(string, string) dict \<Rightarrow> (string \<times> string) list \<Rightarrow> (string, string) dict" where
  "writes d kvs = foldl (\<lambda>d (k, v). dict_set k v d) d kvs"

lemma process_sets_eq:
  "dict_get (transactions c) tid = Some d \<Longrightarrow>
   \<exists>ts. process_sets tid kvs c = Some (c\<lparr>transactions := ts\<rparr>) \<and> dict_get ts tid = Some (writes d kvs)"
proof (induction kvs arbitrary: c d)
  case Nil
  then show ?case by (intro exI [of _ "transactions c"]) (simp add: writes_def)
next
  case (Cons kv kvs)
  obtain k v where kv: "kv = (k, v)" by (cases kv)
  let ?c = "c\<lparr>transactions := dict_set tid (dict_set k v d) (transactions c)\<rparr>"
  have "dict_get (transactions ?c) tid = Some (dict_set k v d)" by simp
  from Cons.IH [OF this] show ?case using Cons.prems by (auto simp: kv process_set_def writes_def)
qed

lemma writes_snoc: "writes d (kvs @ [(k, v)]) = dict_set k v (writes d kvs)"
  by (simp add: writes_def)

lemma writes_keys: "dict_keys (writes [] kvs) = fromkeys (map fst kvs)"
proof (induction kvs rule: rev_induct)
  case (snoc kv kvs)
  then show ?case by (cases kv) (simp add: writes_snoc keys_dict_set fromkeys_snoc)
qed (simp add: writes_def dict_keys_def)

lemma writes_get: "dict_get (writes [] kvs) k = map_of (rev kvs) k"
proof (induction kvs rule: rev_induct)
  case (snoc kv kvs)
  then show ?case by (cases kv) (simp add: writes_snoc)
qed (simp add: writes_def)

lemma writes_mem: "(k, v) \<in> set (writes [] kvs) \<Longrightarrow> (k, v) \<in> set kvs"
proof -
  assume m: "(k, v) \<in> set (writes [] kvs)"
  have "distinct (dict_keys (writes [] kvs))" by (simp add: writes_keys)
  then have "map_of (rev kvs) k = Some v" using m by (simp add: dict_keys_def dict_get_def flip: writes_get)
  then show ?thesis using map_of_SomeD by fastforce
qed

definition request :: "(string \<Rightarrow> json option) \<Rightarrow> string \<Rightarrow> string \<Rightarrow> string \<times> string \<Rightarrow> string \<times> json" where
  "request loads pat user kv =
     (case cut CHR ''/'' (fst kv) of Some (key_type, k) \<Rightarrow>
        (the (py_format1 pat (quote (ns_key k (if key_type = ''priv'' then Some user else None)))),
         the (loads (snd kv))))"

definition settable :: "(string \<Rightarrow> json option) \<Rightarrow> string \<times> string \<Rightarrow> bool" where
  "settable loads kv \<longleftrightarrow> utf8_valid (fst kv) \<and> CHR ''/'' \<in> set (fst kv) \<and> loads (snd kv) \<noteq> None"

lemma py_format1_total: "py_format1 pat x \<noteq> None \<Longrightarrow> py_format1 pat y \<noteq> None"
  by (induction pat y rule: py_format1.induct) (auto split: if_splits)

text \<open>Issuing requests one after the other, until one raises.\<close>

fun issue :: "post_service \<Rightarrow> posts \<Rightarrow> posts \<Rightarrow> posts \<times> bool" where
  "issue http_post [] posts = (posts, True)"
| "issue http_post ((url, v) # rs) posts =
     (if http_post posts url v then issue http_post rs (posts @ [(url, v)]) else (posts @ [(url, v)], False))"

lemma commit_sets_all:
  assumes "py_format1 pat [] \<noteq> None" "\<forall>kv\<in>set sets. settable loads kv"
  shows "commit_sets http_post loads pat (Some u) sets posts = issue http_post (map (request loads pat u) sets) posts"
  using assms(2)
proof (induction sets arbitrary: posts)
  case (Cons kv sets)
  obtain k v where kv: "kv = (k, v)" by (cases kv)
  have "settable loads (k, v)" using Cons.prems kv by simp
  then obtain t r j where "cut CHR ''/'' k = Some (t, r)" "loads v = Some j" "utf8_valid k"
    by (cases "cut CHR ''/'' k") (auto simp: settable_def)
  moreover obtain url where "py_format1 pat (quote (ns_key r (if t = ''priv'' then Some u else None))) = Some url"
    using py_format1_total [OF assms(1)] by blast
  ultimately show ?case using Cons by (simp add: kv url_set_def request_def split: if_splits)
qed simp

definition returns_at :: "post_service \<Rightarrow> posts \<Rightarrow> posts \<Rightarrow> nat \<Rightarrow> bool" where
  "returns_at http_post posts rs i \<longleftrightarrow> http_post (posts @ take i rs) (fst (rs ! i)) (snd (rs ! i))"

lemma issue_until:
  "\<exists>n\<le>length rs. (\<forall>i<n. returns_at http_post posts rs i)
     \<and> (if n = length rs then issue http_post rs posts = (posts @ rs, True)
        else \<not> returns_at http_post posts rs n \<and> issue http_post rs posts = (posts @ take (Suc n) rs, False))"
proof (induction rs arbitrary: posts)
  case (Cons r rs)
  obtain url v where r: "r = (url, v)" by (cases r)
  show ?case
  proof (cases "http_post posts url v")
    case True
    obtain n where n: "n \<le> length rs" "\<forall>i<n. returns_at http_post (posts @ [r]) rs i"
      "if n = length rs then issue http_post rs (posts @ [r]) = (posts @ r # rs, True)
       else \<not> returns_at http_post (posts @ [r]) rs n \<and> issue http_post rs (posts @ [r]) = (posts @ r # take (Suc n) rs, False)"
      using Cons.IH [of "posts @ [r]"] by auto
    have "returns_at http_post posts (r # rs) i" if "i < Suc n" for i
      using that n(2) True by (cases i) (simp_all add: returns_at_def r)
    then show ?thesis using n(1,3) True
      by (intro exI [of _ "Suc n"]) (auto simp: returns_at_def r split: if_splits)
  next
    case False
    then show ?thesis by (intro exI [of _ 0]) (simp add: returns_at_def r)
  qed
qed simp

text \<open>
  C28. A transaction of the dict proxy: after begin and any sequence of valid sets, commit posts
  one request per distinct key, in the order the keys were first set, each with the last value
  set for it and in the namespace of the transaction's user when the key is private.  When all
  of them return, the client is answered \<open>O<id>\<close> and the transaction is forgotten; when one raises,
  none of the later ones is posted, the client gets no answer and the connection stays as it was.
\<close>
theorem transaction_commit:
  assumes "conn_dict c = Some pat" "conn_user c = Some u" "py_format1 pat [] \<noteq> None"
    and "\<forall>kv\<in>set kvs. settable loads kv"
  shows "\<exists>c1 c2 ws n. process_begin tid [] c = Some c1 \<and> process_sets tid kvs c1 = Some c2
    \<and> map fst ws = fromkeys (map fst kvs) \<and> (\<forall>k. map_of ws k = map_of (rev kvs) k) \<and> n \<le> length ws
    \<and> (let rs = map (request loads pat u) ws in
         (\<forall>i<n. http_post (posts @ take i rs) (fst (rs ! i)) (snd (rs ! i)))
       \<and> (if n = length ws
          then \<exists>c3. process_commit http_post loads tid c2 posts = (c3, posts @ rs, reply ''O'' [tid], True)
                 \<and> dict_get (transactions c3) tid = None \<and> dict_get (transactions_user c3) tid = None
          else \<not> http_post (posts @ take n rs) (fst (rs ! n)) (snd (rs ! n))
            \<and> process_commit http_post loads tid c2 posts = (c2, posts @ take (Suc n) rs, [], False)))"
proof -
  let ?c1 = "c\<lparr>transactions := dict_set tid [] (transactions c),
               transactions_user := dict_set tid u (transactions_user c)\<rparr>"
  let ?ws = "writes [] kvs"
  let ?rs = "map (request loads pat u) ?ws"
  have b: "process_begin tid [] c = Some ?c1" using assms(2) by (simp add: process_begin_def)
  obtain ts where s: "process_sets tid kvs ?c1 = Some (?c1\<lparr>transactions := ts\<rparr>)"
    and t: "dict_get ts tid = Some ?ws"
    using process_sets_eq [of ?c1 tid "[]" kvs] by auto
  let ?c2 = "?c1\<lparr>transactions := ts\<rparr>"
  have "\<forall>kv\<in>set ?ws. settable loads kv" using assms(4) writes_mem by fast
  then have i: "commit_sets http_post loads pat (Some u) ?ws posts = issue http_post ?rs posts"
    by (rule commit_sets_all [OF assms(3)])
  obtain n where n: "n \<le> length ?ws" "\<forall>i<n. returns_at http_post posts ?rs i"
    "if n = length ?ws then issue http_post ?rs posts = (posts @ ?rs, True)
     else \<not> returns_at http_post posts ?rs n \<and> issue http_post ?rs posts = (posts @ take (Suc n) ?rs, False)"
    using issue_until [of ?rs http_post posts] by auto
  have "if n = length ?ws
     then \<exists>c3. process_commit http_post loads tid ?c2 posts = (c3, posts @ ?rs, reply ''O'' [tid], True)
        \<and> dict_get (transactions c3) tid = None \<and> dict_get (transactions_user c3) tid = None
     else \<not> returns_at http_post posts ?rs n
        \<and> process_commit http_post loads tid ?c2 posts = (?c2, posts @ take (Suc n) ?rs, [], False)"
    using n(3) t assms(1) i by (auto simp: process_commit_def split: if_splits)
  then show ?thesis unfolding returns_at_def
    using b s n(1) n(2) [unfolded returns_at_def] writes_keys [of kvs] writes_get [of kvs]
    unfolding Let_def dict_keys_def dict_get_def by blast
qed

theorem transaction_commit_witness:
  "\<exists>c1 c2 c3. process_begin ''1'' [] (init_conn\<lparr>conn_user := Some ''u'', conn_dict := Some ''h/{}''\<rparr>) = Some c1
    \<and> process_sets ''1'' [(''priv/a'', ''x''), (''priv/a'', ''y'')] c1 = Some c2
    \<and> process_commit (\<lambda>_ _ _. True) (\<lambda>s. Some (JStr s)) ''1'' c2 [] =
        (c3, [request (\<lambda>s. Some (JStr s)) ''h/{}'' ''u'' (''priv/a'', ''y'')], reply ''O'' [''1''], True)
    \<and> dict_get (transactions c3) ''1'' = None \<and> dict_get (transactions_user c3) ''1'' = None"
proof -
  let ?kvs = "[(''priv/a'', ''x''), (''priv/a'', ''y'')]"
  let ?c = "init_conn\<lparr>conn_user := Some ''u'', conn_dict := Some ''h/{}''\<rparr>"
  have h: "conn_dict ?c = Some ''h/{}''" "conn_user ?c = Some ''u''" "py_format1 ''h/{}'' [] \<noteq> None"
    "\<forall>kv\<in>set ?kvs. settable (\<lambda>s. Some (JStr s)) kv"
    by (simp_all add: settable_def code_in_def)
  obtain c1 c2 ws n where w: "process_begin ''1'' [] ?c = Some c1"
    "process_sets ''1'' ?kvs c1 = Some c2" "map fst ws = fromkeys (map fst ?kvs)" "\<forall>k. map_of ws k = map_of (rev ?kvs) k"
    and n: "n \<le> length ws" and r: "let rs = map (request (\<lambda>s. Some (JStr s)) ''h/{}'' ''u'') ws in
         (\<forall>i<n. True)
       \<and> (if n = length ws
          then \<exists>c3. process_commit (\<lambda>_ _ _. True) (\<lambda>s. Some (JStr s)) ''1'' c2 [] = (c3, [] @ rs, reply ''O'' [''1''], True)
                 \<and> dict_get (transactions c3) ''1'' = None \<and> dict_get (transactions_user c3) ''1'' = None
          else \<not> True
            \<and> process_commit (\<lambda>_ _ _. True) (\<lambda>s. Some (JStr s)) ''1'' c2 [] = (c2, [] @ take (Suc n) rs, [], False))"
    using transaction_commit [OF h, of "''1''" "\<lambda>_ _ _. True" "[]"] by blast
  have "map fst ws = [''priv/a'']" using w(3) by simp
  moreover have "map_of ws ''priv/a'' = Some ''y''" using w(4) by simp
  ultimately have "ws = [(''priv/a'', ''y'')]" by (cases ws) auto
  then show ?thesis using w(1,2) r by (auto simp: Let_def split: if_splits)
qed

text \<open>
  A reply of the dict proxy is a single line: whatever bytes its arguments contain, the only
  newline is the last byte, and a reader that cuts the line at tabs and unescapes each part
  recovers the command and exactly the arguments.
\<close>
theorem reply_roundtrip:
  assumes "args \<noteq> []"
  shows "parse_reply (reply [cmd] args) = Some ([cmd], args)
    \<and> (\<forall>i < length (reply [cmd] args). i > 0 \<and> reply [cmd] args ! i = CHR 0x0A
          \<longrightarrow> i = length (reply [cmd] args) - 1)"
proof -
  have "\<forall>i < length args'. args' ! i \<noteq> CHR 0x0A" if "CHR 0x0A \<notin> set args'" for args'
    using that by (metis nth_mem)
  moreover have "CHR 0x0A \<notin> set (join_with CHR 0x09 (map tabescape args))"
    using join_clean [of "CHR 0x0A" "CHR 0x09"] tabescape_clean by fastforce
  ultimately show ?thesis
    using parse_reply_reply [OF assms]
    by (auto simp: reply_def nth_append nth_Cons' split: if_splits)
qed

theorem reply_roundtrip_witness:
  "parse_reply (reply [CHR ''O''] [[CHR 0x09, CHR 0x01], []]) = Some ([CHR ''O''], [[CHR 0x09, CHR 0x01], []])"
  using reply_roundtrip [of "[[CHR 0x09, CHR 0x01], []]" "CHR ''O''"] by simp

end
