(* ===== verification/Mail_Db.thy ===== *)
theory Mail_Db
  imports Prelude "HOL-Library.List_Lexorder" "HOL-Library.Char_ord"
begin

text \<open>
  The data model of the administration service (\<open>models.py\<close>): one record per table, the
  database as a record of tables (each a list of rows in primary key insertion order), the
  column types that encode domain names, addresses and lists, and lookups by primary key.
  Rows hold the values as the program sees them (after \<open>process_result_value\<close>); two keys are
  the same row key when they bind to the same stored text.  IDNA encoding is an argument
  \<open>enc\<close>, with None for an IDNAError, and its inverse \<open>dec\<close>.
\<close>

section \<open>Column types\<close>

definition bind_domain :: "(string \<Rightarrow> string option) \<Rightarrow> string \<Rightarrow> string option" where
  "bind_domain enc value = enc (lower value)"

definition bind_email :: "(string \<Rightarrow> string option) \<Rightarrow> string \<Rightarrow> string option" where
  "bind_email enc value =
     (case rcut CHR ''@'' (lower value) of
        None \<Rightarrow> None
      | Some (localpart, domain_name) \<Rightarrow>
          if CHR ''@'' \<in> set localpart then None
          else map_option (\<lambda>d. localpart @ ''@'' @ d) (enc domain_name))"

definition result_email :: "(string \<Rightarrow> string) \<Rightarrow> string \<Rightarrow> string outcome" where
  "result_email dec value =
     (case rcut CHR ''@'' value of
        None \<Rightarrow> Exn ValueError
      | Some (localpart, domain_name) \<Rightarrow> Ret (localpart @ ''@'' @ dec domain_name))"

definition bind_list :: "string list \<Rightarrow> string option" where
  "bind_list value =
     (if \<exists>item\<in>set value. CHR '','' \<in> set item then None
      else Some (join_with CHR '','' (sort (remdups value))))"

definition result_list :: "string option \<Rightarrow> string list" where
  "result_list value =
     (case value of
        None \<Rightarrow> []
      | Some v \<Rightarrow> (if v = [] then [] else filter (\<lambda>i. i \<noteq> []) (map py_strip (split_on CHR '','' v))))"

section \<open>Rows\<close>

record passkey_policy =
  require_enrollment :: bool
  enforce_aaguid :: bool
  aaguid_mode :: string
  aaguids :: string
  require_uv :: bool
  backup_eligible_policy :: string
  backup_state_policy :: string
  require_sign_count_increase :: bool
  attestation_policy :: string
  policy_device_bound :: bool
  resident_key :: string

record domain =
  domain_name :: string
  max_users :: int
  max_aliases :: int
  max_quota_bytes :: int
  signup_enabled :: bool
  anonmail_enabled :: bool
  domain_policy :: passkey_policy
  domain_comment :: string

definition default_policy :: passkey_policy where
  "default_policy = \<lparr>require_enrollment = False, enforce_aaguid = False, aaguid_mode = ''allow'',
     aaguids = [], require_uv = True, backup_eligible_policy = ''optional'',
     backup_state_policy = ''optional'', require_sign_count_increase = False,
     attestation_policy = ''optional'', policy_device_bound = False, resident_key = ''preferred''\<rparr>"

definition new_domain :: "string \<Rightarrow> domain" where
  "new_domain name = \<lparr>domain_name = name, max_users = -1, max_aliases = -1, max_quota_bytes = 0,
     signup_enabled = False, anonmail_enabled = False, domain_policy = default_policy,
     domain_comment = []\<rparr>"

record alternative =
  alt_name :: string
  alt_domain :: string

record relay =
  relay_name :: string
  relay_smtp :: "string option"
  relay_comment :: string

record user =
  email :: string
  localpart :: string
  user_domain :: string
  password :: string
  quota_bytes :: int
  quota_bytes_used :: int
  global_admin :: bool
  enabled :: bool
  enable_imap :: bool
  enable_pop :: bool
  allow_spoofing :: bool
  forward_enabled :: bool
  forward_destination :: "string list"
  forward_keep :: bool
  reply_enabled :: bool
  reply_subject :: "string option"
  reply_body :: "string option"
  reply_body_html :: "string option"
  reply_startdate :: int
  reply_enddate :: int
  displayed_name :: string
  spam_enabled :: bool
  spam_mark_as_read :: bool
  spam_threshold :: int
  change_pw_next_login :: bool
  passkey_enroll_next_login :: bool
  user_comment :: string

record mail_alias =
  alias_email :: string
  alias_localpart :: string
  alias_domain :: string
  wildcard :: bool
  destination :: "string list"
  alias_hostname :: "string option"
  owner_email :: "string option"
  disabled :: bool
  alias_comment :: string

record token =
  token_id :: nat
  token_user :: string
  token_password :: string
  token_ip :: "string list"
  token_comment :: string

record passkey =
  credential_id :: string
  pk_user :: string
  public_key :: string
  sign_count :: int
  aaguid :: string
  device_bound :: "bool option"
  user_verified :: "bool option"
  user_present :: "bool option"
  backup_eligible :: "bool option"
  attestation_format :: "string option"
  credential_device_type :: "string option"
  backed_up :: "bool option"
  last_used_at :: "int option"
  pk_name :: string

record auth_code =
  code_hash :: string
  code_user :: string
  code_client :: string
  code_redirect :: string
  code_scope :: string
  code_challenge :: string
  code_expires :: int

record grant =
  grant_id :: string
  grant_user :: string
  grant_client :: string
  token_generation :: int
  grant_scope :: string
  access_expires_at :: int
  refresh_expires_at :: "int option"
  client_name :: string
  last_refresh_at :: "int option"

record domain_access =
  access_id :: nat
  access_domain :: string
  access_user :: "string option"

record db =
  domains :: "domain list"
  alternatives :: "alternative list"
  relays :: "relay list"
  users :: "user list"
  aliases :: "mail_alias list"
  managers :: "(string \<times> string) list"
  tokens :: "token list"
  passkeys :: "passkey list"
  codes :: "auth_code list"
  grants :: "grant list"
  accesses :: "domain_access list"

definition empty_db :: db where
  "empty_db = \<lparr>domains = [], alternatives = [], relays = [], users = [], aliases = [],
     managers = [], tokens = [], passkeys = [], codes = [], grants = [], accesses = []\<rparr>"

text \<open>A row with the column defaults, for examples.\<close>

definition sample_user :: "string \<Rightarrow> string \<Rightarrow> user" where
  "sample_user lp dn = \<lparr>email = lp @ ''@'' @ dn, localpart = lp, user_domain = dn, password = ''x'',
     quota_bytes = 1000000000, quota_bytes_used = 0, global_admin = False, enabled = True,
     enable_imap = True, enable_pop = True, allow_spoofing = False, forward_enabled = False,
     forward_destination = [], forward_keep = True, reply_enabled = False, reply_subject = None,
     reply_body = None, reply_body_html = None, reply_startdate = 0, reply_enddate = 1000000,
     displayed_name = [], spam_enabled = True, spam_mark_as_read = True, spam_threshold = 80,
     change_pw_next_login = False, passkey_enroll_next_login = False, user_comment = []\<rparr>"

section \<open>Lookups by primary key\<close>

text \<open>\<open>db.session.get(Model, key)\<close> binds the key through the column type, which may raise; the
  raised error reaches the caller as StatementError.\<close>

definition get_domain :: "(string \<Rightarrow> string option) \<Rightarrow> db \<Rightarrow> string \<Rightarrow> domain option outcome" where
  "get_domain enc d name =
     (case bind_domain enc name of
        None \<Rightarrow> Exn StatementError
      | Some k \<Rightarrow> Ret (find (\<lambda>r. bind_domain enc (domain_name r) = Some k) (domains d)))"

definition get_alternative ::
  "(string \<Rightarrow> string option) \<Rightarrow> db \<Rightarrow> string \<Rightarrow> alternative option outcome" where
  "get_alternative enc d name =
     (case bind_domain enc name of
        None \<Rightarrow> Exn StatementError
      | Some k \<Rightarrow> Ret (find (\<lambda>r. bind_domain enc (alt_name r) = Some k) (alternatives d)))"

definition get_relay :: "(string \<Rightarrow> string option) \<Rightarrow> db \<Rightarrow> string \<Rightarrow> relay option outcome" where
  "get_relay enc d name =
     (case bind_domain enc name of
        None \<Rightarrow> Exn StatementError
      | Some k \<Rightarrow> Ret (find (\<lambda>r. bind_domain enc (relay_name r) = Some k) (relays d)))"

definition get_user :: "(string \<Rightarrow> string option) \<Rightarrow> db \<Rightarrow> string \<Rightarrow> user option outcome" where
  "get_user enc d key =
     (case bind_email enc key of
        None \<Rightarrow> Exn StatementError
      | Some k \<Rightarrow> Ret (find (\<lambda>r. bind_email enc (email r) = Some k) (users d)))"

definition get_alias :: "(string \<Rightarrow> string option) \<Rightarrow> db \<Rightarrow> string \<Rightarrow> mail_alias option outcome" where
  "get_alias enc d key =
     (case bind_email enc key of
        None \<Rightarrow> Exn StatementError
      | Some k \<Rightarrow> Ret (find (\<lambda>r. bind_email enc (alias_email r) = Some k) (aliases d)))"

section \<open>Column round trips\<close>

lemma lower_char_idem [simp]: "lower_char (lower_char c) = lower_char c"
  by (auto simp: lower_char_def is_upper_def code_in_def)

lemma lower_idem [simp]: "lower (lower s) = lower s"
  by simp

lemma lower_at: "CHR ''@'' \<in> set (lower s) \<longleftrightarrow> CHR ''@'' \<in> set s"
proof -
  have "lower_char c = CHR ''@'' \<longleftrightarrow> c = CHR ''@''" for c
  proof (cases "is_upper c")
    case True
    then have u: "65 \<le> (of_char c :: nat)" "(of_char c :: nat) \<le> 90" by (simp_all add: is_upper_def code_in_def)
    then have "(of_char (lower_char c) :: nat) = of_char c + 32" using True by (simp add: lower_char_def)
    moreover have at: "(of_char CHR ''@'' :: nat) = 64" by simp
    ultimately have "(of_char (lower_char c) :: nat) \<noteq> of_char CHR ''@''" "(of_char c :: nat) \<noteq> of_char CHR ''@''"
      using u by linarith+
    then have "lower_char c \<noteq> CHR ''@'' \<and> c \<noteq> CHR ''@''" by (auto simp del: of_char_eq_iff)
    then show ?thesis by (simp only: simp_thms)
  qed (simp add: lower_char_def)
  then show ?thesis by (induction s) (simp_all, metis)
qed

lemma rcut_lower:
  assumes "rcut CHR ''@'' s = Some (a, b)"
  shows "rcut CHR ''@'' (lower s) = Some (lower a, lower b)"
proof -
  have s: "s = a @ CHR ''@'' # b" and b: "CHR ''@'' \<notin> set (lower b)"
    using rcut_Some [OF assms] lower_at by auto
  have "lower s = lower a @ CHR ''@'' # lower b"
    using s by (simp add: lower_char_def is_upper_def code_in_def)
  then show ?thesis using rcut_append [OF b] by simp
qed

lemma rcut_lower_free:
  "rcut CHR ''@'' s = Some (a, b) \<Longrightarrow> CHR ''@'' \<notin> set b"
  by (drule rcut_Some) simp

lemma get_user_SomeD:
  "get_user enc d key = Ret (Some u) \<Longrightarrow> u \<in> set (users d) \<and> bind_email enc (email u) = bind_email enc key"
  by (auto simp: get_user_def find_Some_iff split: option.splits)

lemma bind_list_result:
  assumes "bind_list xs = Some v" "\<forall>x\<in>set xs. x \<noteq> [] \<and> py_strip x = x"
  shows "set (result_list (Some v)) = set xs \<and> sorted (result_list (Some v)) \<and> distinct (result_list (Some v))"
proof (cases "xs = []")
  case True
  then show ?thesis using assms(1) by (simp add: bind_list_def result_list_def)
next
  case False
  let ?ys = "sort (remdups xs)"
  have v: "v = join_with CHR '','' ?ys" and c: "\<forall>x\<in>set ?ys. CHR '','' \<notin> set x"
    using assms(1) by (auto simp: bind_list_def split: if_splits)
  have ne: "?ys \<noteq> []" using False by (metis set_empty set_remdups set_sort)
  have sp: "split_on CHR '','' v = ?ys" unfolding v by (rule split_join [OF ne c])
  have "map py_strip ?ys = ?ys" using assms(2) by (intro map_idI) simp
  moreover have "filter (\<lambda>i. i \<noteq> []) ?ys = ?ys" using assms(2) by (simp add: filter_id_conv)
  moreover have "v \<noteq> []"
  proof
    assume "v = []"
    then have "?ys = [[]]" using sp by simp
    then have "[] \<in> set ?ys" by simp
    then show False using assms(2) by fastforce
  qed
  ultimately have "result_list (Some v) = ?ys" by (simp add: result_list_def sp)
  then show ?thesis by simp
qed

end
