(* ===== verification/Net.thy ===== *)
theory Net
  imports Prelude
begin

text \<open>
  What the program uses of Python's \<open>urllib.parse\<close> and \<open>ipaddress\<close>: splitting a URL into its
  parts, query encoding, parsing of addresses and networks, containment and supernets.  An
  address is its version and its integer; the scope of an IPv6 address is checked and dropped.
\<close>

section \<open>Partition\<close>

definition py_partition :: "char \<Rightarrow> string \<Rightarrow> string \<times> bool \<times> string" where
  "py_partition c s = (case cut c s of None \<Rightarrow> (s, False, []) | Some (a, b) \<Rightarrow> (a, True, b))"

definition py_rpartition :: "char \<Rightarrow> string \<Rightarrow> string \<times> bool \<times> string" where
  "py_rpartition c s = (case rcut c s of None \<Rightarrow> ([], False, s) | Some (a, b) \<Rightarrow> (a, True, b))"

section \<open>Addresses\<close>

datatype ip = V4 nat | V6 nat

definition is_hex :: "char \<Rightarrow> bool" where
  "is_hex c \<longleftrightarrow> is_digit c \<or> code_in 97 102 c \<or> code_in 65 70 c"

definition hex_val :: "char \<Rightarrow> nat" where
  "hex_val c = (if is_digit c then of_char c - 48 else if is_lower c then of_char c - 87 else of_char c - 55)"

definition nat_of_hex :: "string \<Rightarrow> nat" where
  "nat_of_hex s = foldl (\<lambda>a c. 16 * a + hex_val c) 0 s"

definition parse_octet :: "string \<Rightarrow> nat option" where
  "parse_octet s =
     (if is_digits s \<and> length s \<le> 3 \<and> (hd s = CHR ''0'' \<longrightarrow> length s = 1) \<and> nat_of_digits s \<le> 255
      then Some (nat_of_digits s) else None)"

definition parse_v4 :: "string \<Rightarrow> nat option" where
  "parse_v4 s =
     (case map parse_octet (split_on CHR ''.'' s) of
        [Some a, Some b, Some c, Some d] \<Rightarrow> Some (((a * 256 + b) * 256 + c) * 256 + d)
      | _ \<Rightarrow> None)"

definition parse_hextet :: "string \<Rightarrow> nat option" where
  "parse_hextet s = (if s \<noteq> [] \<and> list_all is_hex s \<and> length s \<le> 4 then Some (nat_of_hex s) else None)"

fun those_list :: "'a option list \<Rightarrow> 'a list option" where
  "those_list [] = Some []"
| "those_list (None # xs) = None"
| "those_list (Some x # xs) = map_option ((#) x) (those_list xs)"

text \<open>The groups of an IPv6 address: a dotted last part stands for two groups.\<close>

definition v6_parts :: "string \<Rightarrow> string list option" where
  "v6_parts s =
     (let parts = split_on CHR '':'' s in
      if length parts < 3 then None
      else if CHR ''.'' \<in> set (last parts)
      then map_option (\<lambda>n. butlast parts @
             [[hex_upper (n div 2^28 mod 16), hex_upper (n div 2^24 mod 16),
               hex_upper (n div 2^20 mod 16), hex_upper (n div 2^16 mod 16)],
              [hex_upper (n div 2^12 mod 16), hex_upper (n div 2^8 mod 16),
               hex_upper (n div 2^4 mod 16), hex_upper (n mod 16)]]) (parse_v4 (last parts))
      else Some parts)"

definition v6_value :: "nat list \<Rightarrow> nat" where
  "v6_value gs = foldl (\<lambda>a g. 65536 * a + g) 0 gs"

definition parse_v6_groups :: "string list \<Rightarrow> nat option" where
  "parse_v6_groups parts =
     (let inner = filter (\<lambda>i. parts ! i = []) [1..<length parts - 1] in
      if length parts > 9 then None
      else (case inner of
        [] \<Rightarrow> if length parts = 8 then map_option v6_value (those_list (map parse_hextet parts)) else None
      | [k] \<Rightarrow>
          (let hi = take k parts; lo = drop (k + 1) parts;
               hi' = (if hd parts = [] then tl hi else hi);
               lo' = (if last parts = [] then butlast lo else lo) in
           if (hd parts = [] \<and> hi' \<noteq> []) \<or> (last parts = [] \<and> lo' \<noteq> [])
              \<or> length hi' + length lo' \<ge> 8 then None
           else (case (those_list (map parse_hextet hi'), those_list (map parse_hextet lo')) of
                   (Some h, Some l) \<Rightarrow> Some (v6_value (h @ replicate (8 - length h - length l) 0 @ l))
                 | _ \<Rightarrow> None))
      | _ \<Rightarrow> None))"

definition parse_v6 :: "string \<Rightarrow> nat option" where
  "parse_v6 s =
     (case py_partition CHR ''%'' s of (addr, sep, scope) \<Rightarrow>
        if (sep \<and> (scope = [] \<or> CHR ''%'' \<in> set scope)) \<or> CHR ''/'' \<in> set s then None
        else Option.bind (v6_parts addr) parse_v6_groups)"

text \<open>\<open>ipaddress.ip_address\<close>; None is ValueError.\<close>

definition ip_address :: "string \<Rightarrow> ip option" where
  "ip_address s =
     (case parse_v4 s of Some n \<Rightarrow> Some (V4 n) | None \<Rightarrow> map_option V6 (parse_v6 s))"

definition ipv4_mapped :: "nat \<Rightarrow> nat option" where
  "ipv4_mapped n = (if n div 2^32 = 65535 then Some (n mod 2^32) else None)"

definition is_loopback :: "ip \<Rightarrow> bool" where
  "is_loopback a =
     (case a of V4 n \<Rightarrow> n div 2^24 = 127
      | V6 n \<Rightarrow> (case ipv4_mapped n of Some m \<Rightarrow> m div 2^24 = 127 | None \<Rightarrow> n = 1))"

section \<open>Networks\<close>

datatype network = Net4 nat nat | Net6 nat nat

definition parse_prefix :: "nat \<Rightarrow> string \<Rightarrow> nat option" where
  "parse_prefix w s = (if is_digits s \<and> nat_of_digits s \<le> w then Some (nat_of_digits s) else None)"

definition parse_mask4 :: "string \<Rightarrow> nat option" where
  "parse_mask4 s =
     (case parse_prefix 32 s of
        Some p \<Rightarrow> Some p
      | None \<Rightarrow>
          if is_digits s then None
          else Option.bind (parse_v4 s) (\<lambda>n.
            (case find (\<lambda>p. 2^32 - 2^(32 - p) = n) [0..<33] of
               Some p \<Rightarrow> Some p
             | None \<Rightarrow> find (\<lambda>p. 2^(32 - p) - 1 = n) [0..<33])))"

text \<open>\<open>ipaddress.ip_network(s, strict=False)\<close>: host bits are cleared.\<close>

definition ip_network :: "string \<Rightarrow> network option" where
  "ip_network s =
     (case split_on CHR ''/'' s of
        [a] \<Rightarrow> map_option (\<lambda>x. case x of V4 n \<Rightarrow> Net4 n 32 | V6 n \<Rightarrow> Net6 n 128) (ip_address a)
      | [a, m] \<Rightarrow>
          (case (parse_v4 a, parse_mask4 m) of
             (Some n, Some p) \<Rightarrow> Some (Net4 (n div 2^(32 - p) * 2^(32 - p)) p)
           | _ \<Rightarrow> (case (parse_v6 a, parse_prefix 128 m) of
                    (Some n, Some p) \<Rightarrow> Some (Net6 (n div 2^(128 - p) * 2^(128 - p)) p)
                  | _ \<Rightarrow> None))
      | _ \<Rightarrow> None)"

definition in_network :: "ip \<Rightarrow> network \<Rightarrow> bool" where
  "in_network a n =
     (case (a, n) of
        (V4 x, Net4 b p) \<Rightarrow> x div 2^(32 - p) * 2^(32 - p) = b
      | (V6 x, Net6 b p) \<Rightarrow> x div 2^(128 - p) * 2^(128 - p) = b
      | _ \<Rightarrow> False)"

section \<open>URLs\<close>

record url =
  scheme :: string
  netloc :: string
  path :: string
  query :: string
  fragment :: string

definition c0_or_space :: "char \<Rightarrow> bool" where
  "c0_or_space c \<longleftrightarrow> code_in 0 32 c"

definition scheme_char :: "char \<Rightarrow> bool" where
  "scheme_char c \<longleftrightarrow> is_alnum c \<or> c \<in> set ''+-.''"

definition hostinfo :: "string \<Rightarrow> string \<times> string" where
  "hostinfo nl =
     (let hi = snd (snd (py_rpartition CHR ''@'' nl)) in
      case py_partition CHR ''['' hi of
        (_, True, br) \<Rightarrow>
          (case py_partition CHR '']'' br of (h, _, rest) \<Rightarrow> (h, snd (snd (py_partition CHR '':'' rest))))
      | (_, False, _) \<Rightarrow>
          (case py_partition CHR '':'' hi of (h, _, p) \<Rightarrow> (h, p)))"

definition bracketed_ok :: "string \<Rightarrow> bool" where
  "bracketed_ok nl =
     (let hi = snd (snd (py_rpartition CHR ''@'' nl));
          host_ok = (\<lambda>h. if take 1 h = ''v''
             then (case py_partition CHR ''.'' (drop 1 h) of (a, sep, b) \<Rightarrow>
                     a \<noteq> [] \<and> list_all is_hex a \<and> sep \<and> b \<noteq> [])
             else parse_v4 h = None \<and> parse_v6 h \<noteq> None)
      in case py_partition CHR ''['' hi of
           (pre, True, br) \<Rightarrow>
             (case py_partition CHR '']'' br of (h, _, port) \<Rightarrow>
                pre = [] \<and> (port = [] \<or> hd port = CHR '':'') \<and> host_ok h)
         | (_, False, _) \<Rightarrow> host_ok (fst (py_partition CHR '':'' hi)))"

definition split_scheme :: "string \<Rightarrow> string \<times> string" where
  "split_scheme s =
     (case cut CHR '':'' s of
        Some (a, b) \<Rightarrow>
          if a \<noteq> [] \<and> (is_lower (hd a) \<or> is_upper (hd a)) \<and> list_all scheme_char a then (lower a, b) else ([], s)
      | None \<Rightarrow> ([], s))"

definition split_netloc :: "string \<Rightarrow> string \<times> string" where
  "split_netloc s =
     (if take 2 s = ''//''
      then (takeWhile (\<lambda>c. c \<notin> set ''/?#'') (drop 2 s), dropWhile (\<lambda>c. c \<notin> set ''/?#'') (drop 2 s))
      else ([], s))"

definition urlsplit :: "string \<Rightarrow> url option" where
  "urlsplit s =
     (let s0 = filter (\<lambda>c. c \<notin> {CHR 0x09, CHR 0x0A, CHR 0x0D}) (dropWhile c0_or_space s);
          (sch, rest) = split_scheme s0;
          (nl, rest2) = split_netloc rest;
          (rest3, _, frag) = py_partition CHR ''#'' rest2;
          (p, _, q) = py_partition CHR ''?'' rest3
      in if (CHR ''['' \<in> set nl) \<noteq> (CHR '']'' \<in> set nl) then None
         else if CHR ''['' \<in> set nl \<and> \<not> bracketed_ok nl then None
         else Some \<lparr>scheme = sch, netloc = nl, path = p, query = q, fragment = frag\<rparr>)"

definition url_hostname :: "url \<Rightarrow> string option" where
  "url_hostname u =
     (case fst (hostinfo (netloc u)) of
        [] \<Rightarrow> None
      | h \<Rightarrow> (case py_partition CHR ''%'' h of (a, sep, zone) \<Rightarrow>
               Some (lower a @ (if sep then ''%'' @ zone else []))))"

text \<open>\<open>url.port\<close>: absent, a number, or ValueError (None).\<close>

definition url_port :: "url \<Rightarrow> nat option option" where
  "url_port u =
     (case snd (hostinfo (netloc u)) of
        [] \<Rightarrow> Some None
      | p \<Rightarrow> if is_digits p \<and> nat_of_digits p \<le> 65535 then Some (Some (nat_of_digits p)) else None)"

definition url_username :: "url \<Rightarrow> string option" where
  "url_username u =
     (case py_rpartition CHR ''@'' (netloc u) of (ui, sep, _) \<Rightarrow>
        if sep then Some (fst (py_partition CHR '':'' ui)) else None)"

definition url_password :: "url \<Rightarrow> string option" where
  "url_password u =
     (case py_rpartition CHR ''@'' (netloc u) of (ui, sep, _) \<Rightarrow>
        if sep then (case py_partition CHR '':'' ui of (_, has, pw) \<Rightarrow> if has then Some pw else None)
        else None)"

text \<open>\<open>SplitResult.geturl\<close> for a URL with a network location.\<close>

definition geturl :: "url \<Rightarrow> string" where
  "geturl u =
     (if scheme u = [] then [] else scheme u @ '':'') @ ''//'' @ netloc u
     @ (if path u \<noteq> [] \<and> hd (path u) \<noteq> CHR ''/'' then ''/'' @ path u else path u)
     @ (if query u = [] then [] else ''?'' @ query u)
     @ (if fragment u = [] then [] else ''#'' @ fragment u)"

definition quote_plus :: "string \<Rightarrow> string" where
  "quote_plus s = concat (map (\<lambda>c. if c = CHR '' '' then ''+''
     else if c = CHR ''/'' then ''%2F'' else quote [c]) s)"

definition urlencode :: "(string \<times> string) list \<Rightarrow> string" where
  "urlencode ps = join_with CHR ''&'' (map (\<lambda>(k, v). quote_plus k @ ''='' @ quote_plus v) ps)"

section \<open>Lemmas\<close>

lemma parse_octet_le: "parse_octet s = Some n \<Longrightarrow> n \<le> 255"
  by (auto simp: parse_octet_def split: if_splits)

lemma in_own_network4: "p \<le> 32 \<Longrightarrow> in_network (V4 x) (Net4 (x div 2^(32 - p) * 2^(32 - p)) p)"
  by (simp add: in_network_def)

end
