(* ===== verification/OAuth_Tokens.thy ===== *)
theory OAuth_Tokens
  imports Mail_Db Net
begin

text \<open>
  The first part of \<open>oauth2.py\<close>: the environment of the OAuth server, the signing key, the mail
  tokens derived from it, scopes, redirect URIs and the client's display name.  HMAC-SHA-256 and
  SHA-256 are fields of the environment; a token is \<open>v1.<kind>.<grant>.<generation>.<mac>\<close>.
\<close>

section \<open>Environment\<close>

record oauth_env =
  o_enc :: "string \<Rightarrow> string option"
  o_hmac :: "string \<Rightarrow> string \<Rightarrow> string"
  o_sha256 :: "string \<Rightarrow> string"
  o_key :: string
  o_form_valid :: "string list \<Rightarrow> string list \<Rightarrow> bool"
  access_token_ttl :: int
  refresh_token_ttl :: int
  refresh_token_idle :: int
  tls_flavor :: string
  hostname_cfg :: string
  hostnames_cfg :: string
  web_admin :: string

definition CLIENT_ID :: string where "CLIENT_ID = ''mailu''"

definition RESOURCE_SCOPES :: "string list" where
  "RESOURCE_SCOPES = [''imap'', ''smtp'', ''pop3'', ''sieve'']"

definition ALL_SCOPES :: "string list" where
  "ALL_SCOPES = RESOURCE_SCOPES @ [''offline_access'']"

definition SCOPE_ORDER :: "string list" where
  "SCOPE_ORDER = [''imap'', ''pop3'', ''smtp'', ''sieve'', ''offline_access'']"

definition AUTHORIZATION_CODE_TTL :: int where "AUTHORIZATION_CODE_TTL = 300"

definition EXPIRED_GRANT_RETENTION :: int where "EXPIRED_GRANT_RETENTION = 30 * 24 * 60 * 60"

section \<open>The signing key\<close>

text \<open>\<open>bytes.fromhex\<close>: pairs of hexadecimal digits, white space between pairs.\<close>

fun from_hex :: "string \<Rightarrow> string option" where
  "from_hex [] = Some []"
| "from_hex (a # r) =
     (if is_space a then from_hex r
      else (case r of
              [] \<Rightarrow> None
            | b # s \<Rightarrow> if is_hex a \<and> is_hex b
                       then map_option ((#) (char_of (16 * hex_val a + hex_val b))) (from_hex s)
                       else None))"

text \<open>The key is cached on the application, else read from the config table, else a fresh hex
  string is stored there; \<open>reread\<close> is what the table holds when another process stored one
  first and the insertion fails.  The result is the key and the value in the table.\<close>

definition oauth2_signing_key ::
  "string option \<Rightarrow> string option \<Rightarrow> string \<Rightarrow> bool \<Rightarrow> string option \<Rightarrow> (string \<times> string option) outcome" where
  "oauth2_signing_key cached stored fresh commit_ok reread =
     (case cached of
        Some k \<Rightarrow> Ret (k, stored)
      | None \<Rightarrow>
          bind_out (case stored of
                      Some v \<Rightarrow> Ret v
                    | None \<Rightarrow> if commit_ok then Ret fresh
                              else (case reread of None \<Rightarrow> Exn OtherError | Some v \<Rightarrow> Ret v))
            (\<lambda>v. case from_hex v of
                   None \<Rightarrow> Exn RuntimeError
                 | Some k \<Rightarrow> if length k = 32 then Ret (k, Some v) else Exn RuntimeError))"

section \<open>Mail tokens\<close>

definition authorization_code_hash :: "oauth_env \<Rightarrow> string \<Rightarrow> string" where
  "authorization_code_hash e tok = hex_string (o_sha256 e tok)"

definition token_payload :: "string \<Rightarrow> string \<Rightarrow> int \<Rightarrow> string" where
  "token_payload kind gid gen = ''v1.'' @ kind @ ''.'' @ gid @ ''.'' @ str_of_int gen"

definition token_mac :: "oauth_env \<Rightarrow> string \<Rightarrow> string" where
  "token_mac e payload = hex_string (o_hmac e (o_hmac e (o_key e) ''MAILU_OAUTH2_TOKEN_KEY'') payload)"

definition derive_mail_token :: "oauth_env \<Rightarrow> string \<Rightarrow> string \<Rightarrow> int \<Rightarrow> string" where
  "derive_mail_token e kind gid gen =
     (let payload = token_payload kind gid gen in payload @ ''.'' @ token_mac e payload)"

definition grant_id_ok :: "string \<Rightarrow> bool" where
  "grant_id_ok s \<longleftrightarrow> length s = 22 \<and> list_all (\<lambda>c. is_alnum c \<or> c = CHR ''_'' \<or> c = CHR ''-'') s"

definition parse_mail_token ::
  "oauth_env \<Rightarrow> string \<Rightarrow> string option \<Rightarrow> (string \<times> string \<times> int) option" where
  "parse_mail_token e tok expected_kind =
     (case split_on CHR ''.'' tok of
        [version, kind, gid, raw_generation, supplied_mac] \<Rightarrow>
          (case py_int raw_generation of
             None \<Rightarrow> None
           | Some generation \<Rightarrow>
               if version \<noteq> ''v1'' \<or> kind \<notin> {''access'', ''refresh''} \<or> \<not> grant_id_ok gid \<or> generation < 0
               then None
               else if (case expected_kind of None \<Rightarrow> False | Some k \<Rightarrow> kind \<noteq> k) then None
               else (case rcut CHR ''.'' (derive_mail_token e kind gid generation) of
                       None \<Rightarrow> None
                     | Some (_, expected) \<Rightarrow>
                         if supplied_mac = expected then Some (kind, gid, generation) else None))
      | _ \<Rightarrow> None)"

section \<open>Scopes\<close>

definition scope_string :: "string list \<Rightarrow> string" where
  "scope_string scopes = join_with CHR '' '' (sort (remdups scopes))"

definition consent_scopes :: "string list \<Rightarrow> user \<Rightarrow> string list" where
  "consent_scopes scopes u =
     (let ordered = filter (\<lambda>s. s \<in> set scopes) SCOPE_ORDER
      in if \<not> enable_pop u then filter (\<lambda>s. s \<noteq> ''pop3'') ordered else ordered)"

section \<open>Redirect URIs and URLs of the server\<close>

definition rstrip_dots :: "string \<Rightarrow> string" where
  "rstrip_dots s = rev (dropWhile (\<lambda>c. c = CHR ''.'') (rev s))"

definition strip_brackets :: "string \<Rightarrow> string" where
  "strip_brackets s = rev (dropWhile (\<lambda>c. c \<in> set ''[]'') (rev (dropWhile (\<lambda>c. c \<in> set ''[]'') s)))"

definition valid_redirect_uri :: "string \<Rightarrow> bool" where
  "valid_redirect_uri value =
     (if \<not> (1 \<le> length value \<and> length value \<le> 2048) then False
      else (case urlsplit value of
         None \<Rightarrow> False
       | Some parsed \<Rightarrow>
           (case (url_hostname parsed, url_port parsed) of
              (Some host, Some _) \<Rightarrow>
                if url_username parsed \<notin> {None, Some []} \<or> url_password parsed \<notin> {None, Some []}
                   \<or> fragment parsed \<noteq> [] then False
                else if query parsed \<noteq> [] then False
                else (let h = rstrip_dots (lower host) in
                      if h = ''localhost'' then scheme parsed \<in> {''http'', ''https''}
                      else (case ip_address (strip_brackets h) of
                              None \<Rightarrow> False
                            | Some a \<Rightarrow> is_loopback a \<and> scheme parsed \<in> {''http'', ''https''}))
            | _ \<Rightarrow> False)))"

text \<open>\<open>issuer()\<close> for a request with the given Host header.\<close>

definition issuer :: "oauth_env \<Rightarrow> string \<Rightarrow> string" where
  "issuer e host =
     (let sch = (if tls_flavor e = ''notls'' then ''http'' else ''https'');
          requested = (case Option.bind (urlsplit (''//'' @ host)) url_hostname of
                         None \<Rightarrow> [] | Some h \<Rightarrow> rstrip_dots (lower h));
          configured = map (\<lambda>h. rstrip_dots (lower (py_strip h))) (split_on CHR '','' (hostnames_cfg e))
      in sch @ ''://'' @ (if requested \<in> set configured then requested else hostname_cfg e))"

definition rstrip_slashes :: "string \<Rightarrow> string" where
  "rstrip_slashes s = rev (dropWhile (\<lambda>c. c = CHR ''/'') (rev s))"

definition auth_url :: "oauth_env \<Rightarrow> string \<Rightarrow> string" where
  "auth_url e host = issuer e host @ rstrip_slashes (web_admin e) @ ''/oauth2/authorize''"

definition token_url :: "oauth_env \<Rightarrow> string \<Rightarrow> string" where
  "token_url e host = issuer e host @ rstrip_slashes (web_admin e) @ ''/oauth2/token''"

definition revocation_url :: "oauth_env \<Rightarrow> string \<Rightarrow> string" where
  "revocation_url e host = issuer e host @ rstrip_slashes (web_admin e) @ ''/oauth2/revoke''"

definition redirect_with_params ::
  "oauth_env \<Rightarrow> string \<Rightarrow> string \<Rightarrow> (string, string) dict \<Rightarrow> string option" where
  "redirect_with_params e host uri params =
     map_option (\<lambda>parsed.
        let iss = issuer e host;
            ps = (if take 6 iss = ''https:'' then dict_set ''iss'' iss params else params);
            q = join_with CHR ''&'' (filter (\<lambda>p. p \<noteq> []) [query parsed, urlencode ps])
        in geturl (parsed\<lparr>query := q\<rparr>)) (urlsplit uri)"

section \<open>The client's display name\<close>

definition product_char :: "char \<Rightarrow> bool" where
  "product_char c \<longleftrightarrow> is_alnum c \<or> c \<in> set '' ._-''"

definition version_char :: "char \<Rightarrow> bool" where
  "version_char c \<longleftrightarrow> is_alnum c \<or> c \<in> set ''.+_-''"

fun search_thunderbird :: "string \<Rightarrow> string option" where
  "search_thunderbird [] = None"
| "search_thunderbird (c # cs) =
     (let v = takeWhile version_char (drop 12 (c # cs))
      in if lower (take 12 (c # cs)) = ''thunderbird/'' \<and> v \<noteq> [] then Some v else search_thunderbird cs)"

fun search_product :: "string \<Rightarrow> (string \<times> string) option" where
  "search_product [] = None"
| "search_product (c # cs) =
     (let run = takeWhile product_char cs;
          rest = dropWhile product_char cs;
          v = takeWhile version_char (drop 1 rest)
      in if (is_lower c \<or> is_upper c) \<and> length run \<le> 50 \<and> take 1 rest = ''/'' \<and> v \<noteq> []
         then Some (c # run, v) else search_product cs)"

definition client_display_name :: "string \<Rightarrow> string" where
  "client_display_name user_agent =
     (case search_thunderbird user_agent of
        Some v \<Rightarrow> take 120 (''Thunderbird '' @ v)
      | None \<Rightarrow>
          (case search_product user_agent of
             Some (p, v) \<Rightarrow> take 120 (py_strip p @ '' '' @ v)
           | None \<Rightarrow> ''Mail app''))"

section \<open>Facts about tokens\<close>

lemma hex_string_free [simp]:
  "CHR ''.'' \<notin> set (hex_string s)"
  by (auto dest!: hex_string_chars simp: code_in_def)

lemma grant_id_free: "grant_id_ok s \<Longrightarrow> CHR ''.'' \<notin> set s"
  by (auto simp: grant_id_ok_def list_all_iff is_alnum_def is_digit_def is_lower_def is_upper_def code_in_def)

lemma str_of_int_free: "0 \<le> n \<Longrightarrow> CHR ''.'' \<notin> set (str_of_int n)"
  by (auto simp: str_of_int_def intro!: digits_free [OF _ is_digits_str_of_nat] simp: is_digit_def code_in_def)

lemma py_int_str_of_int: "0 \<le> n \<Longrightarrow> py_int (str_of_int n) = Some n"
  by (simp add: str_of_int_def)

lemma derive_rcut:
  "rcut CHR ''.'' (derive_mail_token e kind gid gen)
     = Some (token_payload kind gid gen, token_mac e (token_payload kind gid gen))"
proof -
  have "rcut CHR ''.'' (token_payload kind gid gen @ CHR ''.'' # token_mac e (token_payload kind gid gen))
    = Some (token_payload kind gid gen, token_mac e (token_payload kind gid gen))"
    by (rule rcut_append) (simp add: token_mac_def)
  then show ?thesis by (simp add: derive_mail_token_def Let_def)
qed

lemma split5:
  assumes "CHR ''.'' \<notin> set a" "CHR ''.'' \<notin> set b" "CHR ''.'' \<notin> set c" "CHR ''.'' \<notin> set d" "CHR ''.'' \<notin> set m"
  shows "split_on CHR ''.'' (a @ ''.'' @ b @ ''.'' @ c @ ''.'' @ d @ ''.'' @ m) = [a, b, c, d, m]"
  using assms by (simp add: split_on_append split_on_fresh)

definition presented :: "oauth_env \<Rightarrow> string \<Rightarrow> string \<Rightarrow> int \<Rightarrow> string \<Rightarrow> string" where
  "presented e kind gid gen raw =
     ''v1'' @ ''.'' @ kind @ ''.'' @ gid @ ''.'' @ raw @ ''.'' @ token_mac e (token_payload kind gid gen)"

lemma parse_mail_token_Some:
  assumes "parse_mail_token e tok ek = Some (kind, gid, gen)"
  shows "\<exists>raw. tok = presented e kind gid gen raw \<and> py_int raw = Some gen"
    and "kind \<in> {''access'', ''refresh''}" "ek = None \<or> ek = Some kind" "grant_id_ok gid" "0 \<le> gen"
proof -
  obtain raw mac where s: "split_on CHR ''.'' tok = [''v1'', kind, gid, raw, mac]"
    and r: "py_int raw = Some gen" "kind \<in> {''access'', ''refresh''}" "grant_id_ok gid" "0 \<le> gen"
      "ek = None \<or> ek = Some kind" "mac = token_mac e (token_payload kind gid gen)"
    using assms
    by (auto simp: parse_mail_token_def derive_rcut split: list.splits option.splits if_splits)
  have "tok = join_with CHR ''.'' [''v1'', kind, gid, raw, mac]" by (metis s join_split)
  then show "\<exists>raw. tok = presented e kind gid gen raw \<and> py_int raw = Some gen"
    using r by (auto simp: presented_def)
  show "kind \<in> {''access'', ''refresh''}" "ek = None \<or> ek = Some kind" "grant_id_ok gid" "0 \<le> gen"
    using r by auto
qed

lemma py_int_free: "py_int raw = Some n \<Longrightarrow> CHR ''.'' \<notin> set raw"
  by (auto dest!: py_int_chars [of _ _ "CHR ''.''"] simp: is_digit_def is_space_def code_in_def)

lemma presented_split:
  assumes "kind \<in> {''access'', ''refresh''}" "grant_id_ok gid" "py_int raw = Some gen"
  shows "split_on CHR ''.'' (presented e kind gid gen raw)
    = [''v1'', kind, gid, raw, token_mac e (token_payload kind gid gen)]"
  unfolding presented_def
  by (rule split5) (use assms grant_id_free py_int_free in \<open>auto simp: token_mac_def\<close>)

lemma parse_presented:
  assumes "kind \<in> {''access'', ''refresh''}" "grant_id_ok gid" "py_int raw = Some gen" "0 \<le> gen"
    and "ek = None \<or> ek = Some kind"
  shows "parse_mail_token e (presented e kind gid gen raw) ek = Some (kind, gid, gen)"
  using assms(3-5) assms(1,2)
  by (auto simp: parse_mail_token_def presented_split derive_rcut)

lemma derive_presented: "derive_mail_token e kind gid gen = presented e kind gid gen (str_of_int gen)"
  by (simp add: derive_mail_token_def presented_def token_payload_def)

text \<open>
  The tokens the server accepts: a presented string is read as the token of a kind, a grant
  and a generation exactly when it is the text of version, kind, grant, some numeral of the
  generation, and the MAC that the server's key gives for that kind, grant and generation; the
  kind must be the expected one, the grant identifier well formed and the generation not
  negative.  No other string is accepted.
\<close>
theorem mail_token_accepted_iff:
  "parse_mail_token e tok ek = Some (kind, gid, gen) \<longleftrightarrow>
     kind \<in> {''access'', ''refresh''} \<and> (ek = None \<or> ek = Some kind) \<and> grant_id_ok gid \<and> 0 \<le> gen
     \<and> (\<exists>raw. py_int raw = Some gen
          \<and> tok = ''v1.'' @ kind @ ''.'' @ gid @ ''.'' @ raw @ ''.'' @ token_mac e (token_payload kind gid gen))"
    (is "?l \<longleftrightarrow> ?r")
proof
  assume l: ?l
  show ?r using parse_mail_token_Some [OF l] by (auto simp: presented_def)
next
  assume ?r
  then obtain raw where "py_int raw = Some gen" "tok = presented e kind gid gen raw"
    by (auto simp: presented_def)
  then show ?l using \<open>?r\<close> parse_presented by blast
qed

lemma parse_derive:
  "\<lbrakk>kind \<in> {''access'', ''refresh''}; grant_id_ok gid; 0 \<le> gen; ek = None \<or> ek = Some kind\<rbrakk>
   \<Longrightarrow> parse_mail_token e (derive_mail_token e kind gid gen) ek = Some (kind, gid, gen)"
  unfolding derive_presented by (rule parse_presented) (auto simp: py_int_str_of_int)

text \<open>
  Every token the server derives for a grant is read back by the server as the same kind,
  grant and generation, when that kind is expected, and is rejected when the other kind is.
\<close>
theorem mail_token_roundtrip:
  assumes "kind \<in> {''access'', ''refresh''}" "grant_id_ok gid" "0 \<le> gen"
  shows "parse_mail_token e (derive_mail_token e kind gid gen) (Some kind) = Some (kind, gid, gen)
    \<and> parse_mail_token e (derive_mail_token e kind gid gen) None = Some (kind, gid, gen)
    \<and> (\<forall>other. other \<noteq> kind \<longrightarrow> parse_mail_token e (derive_mail_token e kind gid gen) (Some other) = None)"
proof -
  have "parse_mail_token e (derive_mail_token e kind gid gen) (Some other) = None" if "other \<noteq> kind" for other
  proof (rule ccontr)
    assume "parse_mail_token e (derive_mail_token e kind gid gen) (Some other) \<noteq> None"
    then obtain k g n where p: "parse_mail_token e (derive_mail_token e kind gid gen) (Some other) = Some (k, g, n)"
      by (cases "parse_mail_token e (derive_mail_token e kind gid gen) (Some other)") auto
    have "split_on CHR ''.'' (derive_mail_token e kind gid gen)
      = [''v1'', kind, gid, str_of_int gen, token_mac e (token_payload kind gid gen)]"
      unfolding derive_presented by (rule presented_split) (use assms py_int_str_of_int in auto)
    then have "k = kind" using p
      by (auto simp: parse_mail_token_def split: option.splits if_splits)
    then show False using parse_mail_token_Some(3) [OF p] that by simp
  qed
  then show ?thesis using parse_derive [OF assms] by simp
qed

definition sample_env :: oauth_env where
  "sample_env = \<lparr>o_enc = Some, o_hmac = (\<lambda>k m. k @ m), o_sha256 = (\<lambda>s. s), o_key = ''k'',
     o_form_valid = (\<lambda>cs sel. set sel \<subseteq> set cs), access_token_ttl = 86400,
     refresh_token_ttl = 7776000, refresh_token_idle = 604800, tls_flavor = ''cert'',
     hostname_cfg = ''mail.d.io'', hostnames_cfg = ''mail.d.io'', web_admin = ''/admin''\<rparr>"

definition sample_gid :: string where
  "sample_gid = ''abcdefghijklmnopqrst-_''"

theorem mail_token_roundtrip_witness:
  "parse_mail_token sample_env (derive_mail_token sample_env ''refresh'' sample_gid 7) (Some ''refresh'')
     = Some (''refresh'', sample_gid, 7)"
  using mail_token_roundtrip [of "''refresh''" sample_gid 7 sample_env]
  by (simp add: grant_id_ok_def sample_gid_def is_alnum_def is_lower_def code_in_def)

end
