(* ===== verification/OAuth_Server.thy ===== *)
theory OAuth_Server
  imports OAuth_Tokens
begin

text \<open>
  The OAuth server (\<open>oauth2.py\<close>) and the introspection endpoint of Dovecot
  (\<open>internal/views/oauth2.py\<close>): consent requests in the browser session, authorization codes,
  issue and rotation of tokens, replay detection, revocation, forced re-authentication and
  clean-up.  The current time, the random identifiers and the User-Agent of a request are
  arguments.  The state is the database of \<open>Mail_Db\<close> and, for the consent page, the ordered
  dictionary of pending requests of the session.
\<close>

section \<open>Clean-up\<close>

definition code_expired :: "int \<Rightarrow> auth_code \<Rightarrow> bool" where
  "code_expired now c \<longleftrightarrow> code_expires c \<le> now"

definition grant_collectable :: "oauth_env \<Rightarrow> int \<Rightarrow> grant \<Rightarrow> bool" where
  "grant_collectable e now g \<longleftrightarrow>
     (let cutoff = now - EXPIRED_GRANT_RETENTION; idle_cutoff = cutoff - refresh_token_idle e in
      (refresh_expires_at g = None \<and> access_expires_at g \<le> cutoff)
      \<or> (case refresh_expires_at g of None \<Rightarrow> False | Some t \<Rightarrow> t \<le> cutoff)
      \<or> (case last_refresh_at g of None \<Rightarrow> False | Some t \<Rightarrow> t \<le> idle_cutoff))"

definition cleanup_expired_records :: "oauth_env \<Rightarrow> int \<Rightarrow> db \<Rightarrow> db \<times> nat \<times> nat" where
  "cleanup_expired_records e now d =
     (d\<lparr>codes := filter (\<lambda>c. \<not> code_expired now c) (codes d),
        grants := filter (\<lambda>g. \<not> grant_collectable e now g) (grants d)\<rparr>,
      length (filter (code_expired now) (codes d)),
      length (filter (grant_collectable e now) (grants d)))"

section \<open>Responses\<close>

record token_response =
  access_token :: string
  expires_in :: int
  resp_scope :: string
  refresh_token :: "string option"

record claims =
  cl_iss :: string
  cl_email :: string
  cl_client :: string
  cl_scope :: string
  cl_exp :: int
  cl_port :: nat

datatype response =
    OAuthError nat string "string option"
  | TokenJson token_response
  | Redirect string
  | ToLogin
  | Abort nat
  | Consent string "string list"
  | Empty200
  | Active claims
  | Inactive

definition oauth_error :: "string \<Rightarrow> string option \<Rightarrow> response" where
  "oauth_error err descr = OAuthError 400 err descr"

definition redirect_resp :: "oauth_env \<Rightarrow> string \<Rightarrow> string \<Rightarrow> (string, string) dict \<Rightarrow> response" where
  "redirect_resp e host uri params =
     (case redirect_with_params e host uri params of None \<Rightarrow> Abort 500 | Some l \<Rightarrow> Redirect l)"

section \<open>The authorization request\<close>

record auth_request =
  req_client :: string
  req_redirect :: string
  req_scope :: string
  req_challenge :: string
  req_state :: string
  req_user :: string

definition challenge_char :: "char \<Rightarrow> bool" where
  "challenge_char c \<longleftrightarrow> is_alnum c \<or> c = CHR ''-'' \<or> c = CHR ''_''"

definition field :: "(string, string) dict \<Rightarrow> string \<Rightarrow> string" where
  "field values k = (case dict_get values k of None \<Rightarrow> [] | Some v \<Rightarrow> v)"

definition validate_authorization_request ::
  "oauth_env \<Rightarrow> string \<Rightarrow> (string, string) dict \<Rightarrow> response + auth_request" where
  "validate_authorization_request e host values =
     (let redirect_uri = field values ''redirect_uri'';
          state = field values ''state'';
          challenge = field values ''code_challenge'';
          requested = remdups (split_ws (field values ''scope'')) in
      if field values ''client_id'' \<noteq> CLIENT_ID
      then Inl (oauth_error ''invalid_request'' (Some ''Unknown client_id''))
      else if \<not> valid_redirect_uri redirect_uri
      then Inl (oauth_error ''invalid_request'' (Some ''Unsupported redirect_uri''))
      else if dict_get values ''response_type'' \<noteq> Some ''code''
      then Inl (redirect_resp e host redirect_uri
             [(''error'', ''unsupported_response_type''), (''state'', state)])
      else if dict_get values ''response_mode'' \<notin> {None, Some ''query''}
      then Inl (redirect_resp e host redirect_uri
             [(''error'', ''invalid_request''),
              (''error_description'', ''Only the query response mode is supported''), (''state'', state)])
      else if field values ''code_challenge_method'' \<noteq> ''S256''
              \<or> \<not> (43 \<le> length challenge \<and> length challenge \<le> 128)
      then Inl (redirect_resp e host redirect_uri
             [(''error'', ''invalid_request''), (''error_description'', ''PKCE with S256 is required''),
              (''state'', state)])
      else if \<not> list_all challenge_char challenge
      then Inl (redirect_resp e host redirect_uri [(''error'', ''invalid_request''), (''state'', state)])
      else if set requested \<inter> set RESOURCE_SCOPES = {} \<or> \<not> set requested \<subseteq> set ALL_SCOPES
      then Inl (redirect_resp e host redirect_uri [(''error'', ''invalid_scope''), (''state'', state)])
      else Inr \<lparr>req_client = CLIENT_ID, req_redirect = redirect_uri, req_scope = scope_string requested,
             req_challenge = challenge, req_state = state, req_user = []\<rparr>)"

section \<open>The consent page\<close>

type_synonym pending = "(string, auth_request) dict"

text \<open>\<open>while len(pending) > 5: pending.pop(next(iter(pending)))\<close>.\<close>

fun trim_pending :: "pending \<Rightarrow> pending" where
  "trim_pending [] = []"
| "trim_pending (p # ps) = (if length (p # ps) > 5 then trim_pending ps else p # ps)"

datatype auth_method =
    Get "(string, string) dict"
  | Post "(string, string) dict" "string list" bool

definition state_param :: "auth_request \<Rightarrow> (string, string) dict" where
  "state_param r = (if req_state r = [] then [] else [(''state'', req_state r)])"

definition authorize_get ::
  "oauth_env \<Rightarrow> string \<Rightarrow> user \<Rightarrow> string \<Rightarrow> (string, string) dict \<Rightarrow> pending \<Rightarrow> response \<times> pending" where
  "authorize_get e host u fresh args pend =
     (case validate_authorization_request e host args of
        Inl err \<Rightarrow> (err, pend)
      | Inr r \<Rightarrow>
          (let pend' = trim_pending (dict_set fresh (r\<lparr>req_user := email u\<rparr>) pend);
               requested = consent_scopes (split_ws (req_scope r)) u
           in if set requested \<inter> set RESOURCE_SCOPES = {}
              then (redirect_resp e host (req_redirect r) ([(''error'', ''invalid_scope'')] @ state_param r),
                    dict_del fresh pend')
              else (Consent fresh requested, pend')))"

text \<open>A posted consent form: the request it names, None when it is not the user's.\<close>

definition pending_request ::
  "user \<Rightarrow> (string, string) dict \<Rightarrow> pending \<Rightarrow> (string \<times> auth_request) option" where
  "pending_request u form pend =
     (let rid = field form ''request_id'';
          rid' = (if rid = [] \<and> length pend = 1 then fst (hd pend) else rid)
      in case dict_get pend rid' of
           None \<Rightarrow> None
         | Some r \<Rightarrow> if req_user r \<noteq> email u then None else Some (rid', r))"

definition new_code :: "oauth_env \<Rightarrow> int \<Rightarrow> string \<Rightarrow> user \<Rightarrow> auth_request \<Rightarrow> string \<Rightarrow> auth_code" where
  "new_code e now raw u r scope =
     \<lparr>code_hash = authorization_code_hash e raw, code_user = email u, code_client = req_client r,
      code_redirect = req_redirect r, code_scope = scope, code_challenge = req_challenge r,
      code_expires = now + AUTHORIZATION_CODE_TTL\<rparr>"

definition authorize_post ::
  "oauth_env \<Rightarrow> string \<Rightarrow> int \<Rightarrow> user \<Rightarrow> string \<Rightarrow> (string, string) dict \<Rightarrow> string list \<Rightarrow> bool \<Rightarrow>
   pending \<Rightarrow> db \<Rightarrow> response \<times> pending \<times> db" where
  "authorize_post e host now u raw form selected deny pend d =
     (case pending_request u form pend of
        None \<Rightarrow> (Abort 400, pend, d)
      | Some (rid, r) \<Rightarrow>
          (let choices = consent_scopes (split_ws (req_scope r)) u;
               denied = redirect_resp e host (req_redirect r) ([(''error'', ''access_denied'')] @ state_param r)
           in if \<not> o_form_valid e choices selected then (Consent rid choices, pend, d)
              else if deny then (denied, dict_del rid pend, d)
              else if set selected \<inter> set RESOURCE_SCOPES = {} then (Consent rid choices, pend, d)
              else (case get_user (o_enc e) d (email u) of
                 Exn _ \<Rightarrow> (Abort 500, pend, d)
               | Ret None \<Rightarrow> (denied, dict_del rid pend, d)
               | Ret (Some u') \<Rightarrow>
                   if \<not> enabled u' then (denied, dict_del rid pend, d)
                   else (let d' = fst (cleanup_expired_records e now d);
                             c = new_code e now raw u' r (scope_string selected)
                         in if code_hash c \<in> code_hash ` set (codes d') then (Abort 500, pend, d')
                            else (redirect_resp e host (req_redirect r) ([(''code'', raw)] @ state_param r),
                                  dict_del rid pend, d'\<lparr>codes := codes d' @ [c]\<rparr>)))))"

definition authorize ::
  "oauth_env \<Rightarrow> string \<Rightarrow> int \<Rightarrow> (string \<Rightarrow> bool) \<Rightarrow> string \<Rightarrow> user option \<Rightarrow> string \<Rightarrow> auth_method \<Rightarrow>
   pending \<Rightarrow> db \<Rightarrow> response \<times> pending \<times> db" where
  "authorize e host now remember target current fresh m pend d =
     (case current of
        None \<Rightarrow> (if remember target then ToLogin else Abort 400, pend, d)
      | Some u \<Rightarrow>
          if \<not> enabled u then (Abort 403, pend, d)
          else (case m of
             Get args \<Rightarrow> (case authorize_get e host u fresh args pend of (r, p) \<Rightarrow> (r, p, d))
           | Post form selected deny \<Rightarrow> authorize_post e host now u fresh form selected deny pend d))"

section \<open>Tokens\<close>

definition has_offline :: "string \<Rightarrow> bool" where
  "has_offline scope \<longleftrightarrow> ''offline_access'' \<in> set (split_ws scope)"

definition new_grant :: "oauth_env \<Rightarrow> int \<Rightarrow> string \<Rightarrow> string \<Rightarrow> string \<Rightarrow> string \<Rightarrow> string \<Rightarrow> grant" where
  "new_grant e now gid ua user_email client scope =
     \<lparr>grant_id = gid, grant_user = user_email, grant_client = client, token_generation = 0,
      grant_scope = scope, access_expires_at = now + access_token_ttl e,
      refresh_expires_at = (if has_offline scope then Some (now + refresh_token_ttl e) else None),
      client_name = client_display_name ua, last_refresh_at = Some now\<rparr>"

definition limit_access :: "oauth_env \<Rightarrow> int \<Rightarrow> string \<Rightarrow> grant \<Rightarrow> int" where
  "limit_access e now scope g =
     (let t = now + access_token_ttl e in
      if has_offline scope
      then (case (refresh_expires_at g, last_refresh_at g) of
              (Some r, Some l) \<Rightarrow> min t (min r (l + refresh_token_idle e))
            | _ \<Rightarrow> t)
      else t)"

text \<open>\<open>_issue_tokens\<close>: \<open>g\<close> is the row after the branch of the code that creates or touches it.\<close>

definition finish_issue :: "oauth_env \<Rightarrow> int \<Rightarrow> string \<Rightarrow> grant \<Rightarrow> grant \<times> token_response" where
  "finish_issue e now scope g =
     (let exp = limit_access e now scope g;
          g' = g\<lparr>grant_scope := scope, access_expires_at := exp\<rparr>
      in (g', \<lparr>access_token = derive_mail_token e ''access'' (grant_id g) (token_generation g),
               expires_in = max 0 (exp - now), resp_scope = scope,
               refresh_token = (if has_offline scope
                 then Some (derive_mail_token e ''refresh'' (grant_id g) (token_generation g)) else None)\<rparr>))"

definition put_grant :: "grant \<Rightarrow> db \<Rightarrow> db" where
  "put_grant g d = d\<lparr>grants := map (\<lambda>h. if grant_id h = grant_id g then g else h) (grants d)\<rparr>"

definition del_grant :: "string \<Rightarrow> db \<Rightarrow> db" where
  "del_grant gid d = d\<lparr>grants := filter (\<lambda>g. grant_id g \<noteq> gid) (grants d)\<rparr>"

definition find_grant :: "db \<Rightarrow> string \<Rightarrow> grant option" where
  "find_grant d gid = find (\<lambda>g. grant_id g = gid) (grants d)"

definition del_code :: "string \<Rightarrow> db \<Rightarrow> db" where
  "del_code h d = d\<lparr>codes := filter (\<lambda>c. code_hash c \<noteq> h) (codes d)\<rparr>"

definition issue_new ::
  "oauth_env \<Rightarrow> int \<Rightarrow> string \<Rightarrow> string \<Rightarrow> string \<Rightarrow> string \<Rightarrow> db \<Rightarrow> (token_response \<times> db) option" where
  "issue_new e now gid ua user_email scope d =
     (if gid \<in> grant_id ` set (grants d) then None
      else (case finish_issue e now scope (new_grant e now gid ua user_email CLIENT_ID scope) of
              (g, r) \<Rightarrow> Some (r, d\<lparr>grants := grants d @ [g]\<rparr>)))"

definition issue_refreshed ::
  "oauth_env \<Rightarrow> int \<Rightarrow> string \<Rightarrow> grant \<Rightarrow> db \<Rightarrow> token_response \<times> db" where
  "issue_refreshed e now ua g d =
     (case finish_issue e now (grant_scope g)
             (g\<lparr>client_name := client_display_name ua, last_refresh_at := Some now\<rparr>) of
        (g', r) \<Rightarrow> (r, put_grant g' d))"

section \<open>The token endpoint\<close>

definition verifier_char :: "char \<Rightarrow> bool" where
  "verifier_char c \<longleftrightarrow> is_alnum c \<or> c \<in> set ''-._~''"

definition valid_verifier :: "string \<Rightarrow> bool" where
  "valid_verifier v \<longleftrightarrow> 43 \<le> length v \<and> length v \<le> 128 \<and> list_all verifier_char v"

definition pkce_challenge :: "oauth_env \<Rightarrow> string \<Rightarrow> string" where
  "pkce_challenge e v = (if valid_verifier v then b64url (o_sha256 e v) else [])"

definition find_code :: "oauth_env \<Rightarrow> db \<Rightarrow> string \<Rightarrow> auth_code option" where
  "find_code e d raw =
     find (\<lambda>c. code_hash c = authorization_code_hash e raw \<and> code_client c = CLIENT_ID) (codes d)"

definition redeem_code ::
  "oauth_env \<Rightarrow> int \<Rightarrow> string \<Rightarrow> string \<Rightarrow> (string, string) dict \<Rightarrow> db \<Rightarrow> response \<times> db" where
  "redeem_code e now gid ua form d =
     (let bad = oauth_error ''invalid_grant'' None in
      case find_code e d (field form ''code'') of
        None \<Rightarrow> (bad, d)
      | Some c \<Rightarrow>
          if \<not> (code_expires c > now \<and> dict_get form ''redirect_uri'' = Some (code_redirect c)
                \<and> pkce_challenge e (field form ''code_verifier'') = code_challenge c)
          then (bad, d)
          else (case get_user (o_enc e) d (code_user c) of
             Exn _ \<Rightarrow> (Abort 500, d)
           | Ret None \<Rightarrow> (bad, del_code (code_hash c) d)
           | Ret (Some u) \<Rightarrow>
               if \<not> enabled u then (bad, del_code (code_hash c) d)
               else (case issue_new e now gid ua (email u) (code_scope c) (del_code (code_hash c) d) of
                       None \<Rightarrow> (Abort 500, d)
                     | Some (r, d') \<Rightarrow> (TokenJson r, d'))))"

definition refresh_expired :: "oauth_env \<Rightarrow> int \<Rightarrow> grant \<Rightarrow> bool" where
  "refresh_expired e now g =
     (case refresh_expires_at g of
        None \<Rightarrow> True
      | Some r \<Rightarrow>
          let last_use = (case last_refresh_at g of Some l \<Rightarrow> l | None \<Rightarrow> r - refresh_token_ttl e)
          in r \<le> now \<or> last_use + refresh_token_idle e \<le> now)"

definition refresh_grant ::
  "oauth_env \<Rightarrow> int \<Rightarrow> string \<Rightarrow> (string, string) dict \<Rightarrow> db \<Rightarrow> response \<times> db" where
  "refresh_grant e now ua form d =
     (let bad = oauth_error ''invalid_grant'' None in
      case parse_mail_token e (field form ''refresh_token'') (Some ''refresh'') of
        None \<Rightarrow> (bad, d)
      | Some (_, gid, generation) \<Rightarrow>
          (case find (\<lambda>g. grant_id g = gid \<and> grant_client g = CLIENT_ID) (grants d) of
             None \<Rightarrow> (bad, d)
           | Some g \<Rightarrow>
               if generation < token_generation g then (bad, del_grant gid d)
               else if generation \<noteq> token_generation g then (bad, d)
               else if refresh_expired e now g then (bad, del_grant gid d)
               else (case get_user (o_enc e) d (grant_user g) of
                  Exn _ \<Rightarrow> (Abort 500, d)
                | Ret None \<Rightarrow> (bad, del_grant gid d)
                | Ret (Some u) \<Rightarrow>
                    if \<not> enabled u then (bad, del_grant gid d)
                    else (case issue_refreshed e now ua
                                 (g\<lparr>token_generation := token_generation g + 1\<rparr>) d of
                            (r, d') \<Rightarrow> (TokenJson r, d')))))"

definition token_endpoint ::
  "oauth_env \<Rightarrow> int \<Rightarrow> string \<Rightarrow> string \<Rightarrow> (string, string) dict \<Rightarrow> db \<Rightarrow> response \<times> db" where
  "token_endpoint e now gid ua form d =
     (if dict_get form ''client_id'' \<noteq> Some CLIENT_ID then (oauth_error ''invalid_client'' None, d)
      else if dict_get form ''grant_type'' = Some ''authorization_code'' then redeem_code e now gid ua form d
      else if dict_get form ''grant_type'' = Some ''refresh_token'' then refresh_grant e now ua form d
      else (oauth_error ''unsupported_grant_type'' None, d))"

definition revoke :: "oauth_env \<Rightarrow> (string, string) dict \<Rightarrow> db \<Rightarrow> response \<times> db" where
  "revoke e form d =
     (if dict_get form ''client_id'' \<noteq> Some CLIENT_ID then (oauth_error ''invalid_client'' None, d)
      else (case parse_mail_token e (field form ''token'') None of
              None \<Rightarrow> (Empty200, d)
            | Some (_, gid, _) \<Rightarrow>
                (Empty200, case find_grant d gid of None \<Rightarrow> d | Some g \<Rightarrow> del_grant gid d)))"

section \<open>Forced re-authentication\<close>

definition force_reauthentication :: "int \<Rightarrow> grant \<Rightarrow> grant" where
  "force_reauthentication now g =
     g\<lparr>access_expires_at := min (access_expires_at g) now,
       refresh_expires_at := map_option (\<lambda>t. min t now) (refresh_expires_at g)\<rparr>"

definition force_user_reauthentication :: "int \<Rightarrow> string \<Rightarrow> db \<Rightarrow> db" where
  "force_user_reauthentication now who d =
     d\<lparr>grants := map (\<lambda>g. if grant_user g = who then force_reauthentication now g else g) (grants d)\<rparr>"

section \<open>Introspection\<close>

definition protocol_scope :: "string \<Rightarrow> string option" where
  "protocol_scope p = map_of [(''imap'', ''imap''), (''smtp'', ''smtp''), (''submission'', ''smtp''),
     (''pop3'', ''pop3''), (''sieve'', ''sieve'')] p"

definition protocol_port :: "string option \<Rightarrow> nat" where
  "protocol_port p =
     (case p of None \<Rightarrow> 143
      | Some p' \<Rightarrow> (case map_of [(''imap'', 143), (''smtp'', 10025), (''submission'', 2587),
                                  (''pop3'', 110), (''sieve'', 4190)] p' of None \<Rightarrow> 143 | Some n \<Rightarrow> n))"

definition protocol_enabled :: "string option \<Rightarrow> grant \<Rightarrow> user \<Rightarrow> bool" where
  "protocol_enabled protocol g u =
     (case protocol of
        None \<Rightarrow> True
      | Some p \<Rightarrow>
          (case (if p = [] then None else protocol_scope p) of
             None \<Rightarrow> False
           | Some s \<Rightarrow> s \<in> set (split_ws (grant_scope g))
               \<and> \<not> (p = ''imap'' \<and> \<not> enable_imap u) \<and> \<not> (p = ''pop3'' \<and> \<not> enable_pop u)))"

definition introspect ::
  "oauth_env \<Rightarrow> string \<Rightarrow> int \<Rightarrow> string option \<Rightarrow> string \<Rightarrow> db \<Rightarrow> response" where
  "introspect e host now protocol raw d =
     (if raw = [] then Inactive
      else (case parse_mail_token e raw (Some ''access'') of
         None \<Rightarrow> Inactive
       | Some (_, gid, generation) \<Rightarrow>
           (case find_grant d gid of
              None \<Rightarrow> Inactive
            | Some g \<Rightarrow>
                (case get_user (o_enc e) d (grant_user g) of
                   Exn _ \<Rightarrow> Abort 500
                 | Ret None \<Rightarrow> Inactive
                 | Ret (Some u) \<Rightarrow>
                     if generation \<noteq> token_generation g \<or> access_expires_at g \<le> now \<or> \<not> enabled u
                        \<or> \<not> protocol_enabled protocol g u
                     then Inactive
                     else Active \<lparr>cl_iss = issuer e host, cl_email = email u, cl_client = grant_client g,
                            cl_scope = grant_scope g, cl_exp = access_expires_at g,
                            cl_port = protocol_port protocol\<rparr>))))"

end
