(* ===== verification/OAuth_Machine.thy ===== *)
theory OAuth_Machine
  imports OAuth_Server
begin

text \<open>
  The OAuth server as a state machine: browser sessions with their pending consent requests, and
  the database.  Its inputs are the requests of the endpoints and the changes other parts of the
  program make to users and grants.  One lemma per operation shows that the invariant is kept;
  the interpretation of \<open>machine\<close> then gives it for every run.
\<close>

record oauth_state =
  os_sessions :: "(string, pending) dict"
  os_db :: db

datatype oauth_op =
    OpAuthorize string string int bool "user option" string auth_method
  | OpToken int string string "(string, string) dict"
  | OpRevoke "(string, string) dict"
  | OpForce int string
  | OpCleanup int
  | OpUsers "user list"
  | OpDeleteUser string

definition session_pending :: "oauth_state \<Rightarrow> string \<Rightarrow> pending" where
  "session_pending s sid = (case dict_get (os_sessions s) sid of None \<Rightarrow> [] | Some p \<Rightarrow> p)"

text \<open>Deleting a user cascades to its codes and grants.\<close>

definition delete_user_oauth :: "string \<Rightarrow> db \<Rightarrow> db" where
  "delete_user_oauth who d =
     d\<lparr>users := filter (\<lambda>u. email u \<noteq> who) (users d),
       codes := filter (\<lambda>c. code_user c \<noteq> who) (codes d),
       grants := filter (\<lambda>g. grant_user g \<noteq> who) (grants d)\<rparr>"

definition oauth_step :: "oauth_env \<Rightarrow> oauth_state \<Rightarrow> oauth_op \<Rightarrow> oauth_state" where
  "oauth_step e s op =
     (case op of
        OpAuthorize sid host now rem cur fresh m \<Rightarrow>
          (case authorize e host now (\<lambda>_. rem) [] cur fresh m (session_pending s sid) (os_db s) of
             (_, p, d) \<Rightarrow> \<lparr>os_sessions = dict_set sid p (os_sessions s), os_db = d\<rparr>)
      | OpToken now gid ua form \<Rightarrow> s\<lparr>os_db := snd (token_endpoint e now gid ua form (os_db s))\<rparr>
      | OpRevoke form \<Rightarrow> s\<lparr>os_db := snd (revoke e form (os_db s))\<rparr>
      | OpForce now who \<Rightarrow> s\<lparr>os_db := force_user_reauthentication now who (os_db s)\<rparr>
      | OpCleanup now \<Rightarrow> s\<lparr>os_db := fst (cleanup_expired_records e now (os_db s))\<rparr>
      | OpUsers us \<Rightarrow> s\<lparr>os_db := (os_db s)\<lparr>users := us\<rparr>\<rparr>
      | OpDeleteUser who \<Rightarrow> s\<lparr>os_db := delete_user_oauth who (os_db s)\<rparr>)"

text \<open>The identifier of a new grant comes from \<open>secrets.token_urlsafe(16)\<close>.\<close>

definition op_ok :: "oauth_op \<Rightarrow> bool" where
  "op_ok op = (case op of OpToken now gid ua form \<Rightarrow> grant_id_ok gid | _ \<Rightarrow> True)"

text \<open>What the code relies on: the form library rejects a choice that was not offered, and
  the configuration checks that the lifetimes are positive.\<close>

definition env_ok :: "oauth_env \<Rightarrow> bool" where
  "env_ok e \<longleftrightarrow> (\<forall>cs sel. o_form_valid e cs sel \<longrightarrow> set sel \<subseteq> set cs)
     \<and> 0 < access_token_ttl e \<and> 0 < refresh_token_ttl e \<and> 0 < refresh_token_idle e"

section \<open>The invariant\<close>

definition scopes_ok :: "string \<Rightarrow> bool" where
  "scopes_ok scope \<longleftrightarrow> set (split_ws scope) \<subseteq> set ALL_SCOPES \<and> set (split_ws scope) \<inter> set RESOURCE_SCOPES \<noteq> {}"

definition challenge_ok :: "string \<Rightarrow> bool" where
  "challenge_ok c \<longleftrightarrow> 43 \<le> length c \<and> length c \<le> 128 \<and> list_all challenge_char c"

definition request_ok :: "auth_request \<Rightarrow> bool" where
  "request_ok r \<longleftrightarrow> req_client r = CLIENT_ID \<and> valid_redirect_uri (req_redirect r)
     \<and> challenge_ok (req_challenge r) \<and> scopes_ok (req_scope r)"

definition code_ok :: "auth_code \<Rightarrow> bool" where
  "code_ok c \<longleftrightarrow> code_client c = CLIENT_ID \<and> valid_redirect_uri (code_redirect c)
     \<and> challenge_ok (code_challenge c) \<and> scopes_ok (code_scope c)"

definition grant_ok :: "oauth_env \<Rightarrow> grant \<Rightarrow> bool" where
  "grant_ok e g \<longleftrightarrow> grant_client g = CLIENT_ID \<and> grant_id_ok (grant_id g) \<and> 0 \<le> token_generation g
     \<and> scopes_ok (grant_scope g) \<and> (refresh_expires_at g \<noteq> None \<longleftrightarrow> has_offline (grant_scope g))
     \<and> (\<exists>l. last_refresh_at g = Some l \<and> access_expires_at g \<le> l + access_token_ttl e
          \<and> (case refresh_expires_at g of None \<Rightarrow> True
             | Some r \<Rightarrow> access_expires_at g \<le> r \<and> access_expires_at g \<le> l + refresh_token_idle e))"

definition pending_ok :: "pending \<Rightarrow> bool" where
  "pending_ok p \<longleftrightarrow> length p \<le> 5 \<and> distinct (dict_keys p) \<and> (\<forall>(k, r)\<in>set p. request_ok r)"

definition db_ok :: "oauth_env \<Rightarrow> db \<Rightarrow> bool" where
  "db_ok e d \<longleftrightarrow> distinct (map code_hash (codes d)) \<and> distinct (map grant_id (grants d))
     \<and> (\<forall>c\<in>set (codes d). code_ok c) \<and> (\<forall>g\<in>set (grants d). grant_ok e g)"

definition oauth_inv :: "oauth_env \<Rightarrow> oauth_state \<Rightarrow> bool" where
  "oauth_inv e s \<longleftrightarrow> env_ok e \<and> (\<forall>(sid, p)\<in>set (os_sessions s). pending_ok p) \<and> db_ok e (os_db s)"

section \<open>Scopes\<close>

lemma all_scopes_words: "w \<in> set ALL_SCOPES \<Longrightarrow> w \<noteq> [] \<and> (\<forall>c\<in>set w. \<not> is_space_str c)"
  by (auto simp: ALL_SCOPES_def RESOURCE_SCOPES_def is_space_str_def code_in_def)

lemma scope_string_words: "set xs \<subseteq> set ALL_SCOPES \<Longrightarrow> set (split_ws (scope_string xs)) = set xs"
proof -
  assume a: "set xs \<subseteq> set ALL_SCOPES"
  have "split_ws (scope_string xs) = sort (remdups xs)"
    unfolding scope_string_def by (rule split_ws_join) (use a all_scopes_words in auto)
  then show ?thesis by simp
qed

lemma consent_scopes_sub: "set (consent_scopes xs u) \<subseteq> set xs \<inter> set ALL_SCOPES"
  by (auto simp: consent_scopes_def SCOPE_ORDER_def ALL_SCOPES_def RESOURCE_SCOPES_def Let_def)

lemma validate_ok:
  assumes "validate_authorization_request e host values = Inr r"
  shows "request_ok r"
proof -
  let ?req = "remdups (split_ws (field values ''scope''))"
  have r: "set ?req \<inter> set RESOURCE_SCOPES \<noteq> {}" "set ?req \<subseteq> set ALL_SCOPES"
    "valid_redirect_uri (field values ''redirect_uri'')" "challenge_ok (field values ''code_challenge'')"
    "r = \<lparr>req_client = CLIENT_ID, req_redirect = field values ''redirect_uri'', req_scope = scope_string ?req,
          req_challenge = field values ''code_challenge'', req_state = field values ''state'', req_user = []\<rparr>"
    using assms by (auto simp: validate_authorization_request_def Let_def challenge_ok_def split: if_splits)
  then show ?thesis using scope_string_words [OF r(2)]
    by (simp add: request_ok_def scopes_ok_def)
qed

section \<open>Pending requests\<close>

lemma trim_pending_suffix: "\<exists>n. trim_pending p = drop n p"
proof (induction p)
  case (Cons q p)
  then obtain n where "trim_pending p = drop n p" by blast
  then have "trim_pending (q # p) = drop (if length (q # p) > 5 then Suc n else 0) (q # p)" by simp
  then show ?case by blast
qed (auto intro: exI [of _ 0])

lemma trim_pending_le: "length (trim_pending p) \<le> 5"
  by (induction p rule: trim_pending.induct) auto

lemma trim_pending_ok:
  assumes "distinct (dict_keys p)" "\<forall>(k, r)\<in>set p. request_ok r"
  shows "pending_ok (trim_pending p)"
proof -
  obtain n where n: "trim_pending p = drop n p" using trim_pending_suffix by blast
  have "distinct (dict_keys (drop n p))" using assms(1) by (simp add: dict_keys_def flip: drop_map)
  then show ?thesis using trim_pending_le [of p] assms(2) set_drop_subset [of n p]
    by (auto simp: pending_ok_def n)
qed

lemma dict_set_elems: "x \<in> set (dict_set k v d) \<Longrightarrow> x = (k, v) \<or> x \<in> set d"
  by (induction k v d rule: dict_set.induct) (auto split: if_splits)

lemma dict_del_elems: "x \<in> set (dict_del k d) \<Longrightarrow> x \<in> set d"
  by (simp add: dict_del_def)

lemma pending_ok_del: "pending_ok p \<Longrightarrow> pending_ok (dict_del k p)"
  unfolding pending_ok_def by (auto simp: dict_del_def intro: le_trans [OF length_filter_le] distinct_map_filter simp: dict_keys_def)

lemma request_ok_user: "request_ok r \<Longrightarrow> request_ok (r\<lparr>req_user := m\<rparr>)"
  by (simp add: request_ok_def)

lemma authorize_get_pending:
  assumes "pending_ok p" "authorize_get e host u fresh args p = (resp, p')"
  shows "pending_ok p'"
proof (cases "validate_authorization_request e host args")
  case (Inl err)
  then show ?thesis using assms by (simp add: authorize_get_def)
next
  case (Inr r)
  let ?p = "trim_pending (dict_set fresh (r\<lparr>req_user := email u\<rparr>) p)"
  have "request_ok (r\<lparr>req_user := email u\<rparr>)" by (rule request_ok_user [OF validate_ok [OF Inr]])
  then have "pending_ok ?p"
    using assms(1) by (intro trim_pending_ok) (auto simp: pending_ok_def dest!: dict_set_elems)
  then show ?thesis using assms(2) Inr pending_ok_del
    by (auto simp: authorize_get_def Let_def split: if_splits)
qed

section \<open>Codes and grants\<close>

lemma cleanup_ok: "db_ok e d \<Longrightarrow> db_ok e (fst (cleanup_expired_records e now d))"
  by (auto simp: db_ok_def cleanup_expired_records_def distinct_map_filter)

lemma del_code_ok: "db_ok e d \<Longrightarrow> db_ok e (del_code h d)"
  by (auto simp: db_ok_def del_code_def distinct_map_filter)

lemma del_grant_ok: "db_ok e d \<Longrightarrow> db_ok e (del_grant gid d)"
  by (auto simp: db_ok_def del_grant_def distinct_map_filter)

lemma pending_request_Some:
  "pending_request u form p = Some (rid, r) \<Longrightarrow> (rid, r) \<in> set p \<and> req_user r = email u"
  by (auto simp: pending_request_def Let_def split: option.splits if_splits dest: dict_get_mem)

text \<open>The outcome of a posted form, in one statement: either the database keeps its codes up to
  clean-up, or exactly one code was added for the request.\<close>

lemma authorize_post_cases:
  assumes "authorize_post e host now u raw form selected deny p d = (resp, p', d')"
  shows "(p' = p \<or> (\<exists>rid. p' = dict_del rid p))
    \<and> (d' = d \<or> d' = fst (cleanup_expired_records e now d)
       \<or> (\<exists>rid r u'. pending_request u form p = Some (rid, r) \<and> p' = dict_del rid p
            \<and> o_form_valid e (consent_scopes (split_ws (req_scope r)) u) selected \<and> \<not> deny
            \<and> set selected \<inter> set RESOURCE_SCOPES \<noteq> {}
            \<and> get_user (o_enc e) d (email u) = Ret (Some u') \<and> enabled u'
            \<and> code_hash (new_code e now raw u' r (scope_string selected))
                \<notin> code_hash ` set (codes (fst (cleanup_expired_records e now d)))
            \<and> resp = redirect_resp e host (req_redirect r) ([(''code'', raw)] @ state_param r)
            \<and> d' = (fst (cleanup_expired_records e now d))\<lparr>codes :=
                 codes (fst (cleanup_expired_records e now d)) @ [new_code e now raw u' r (scope_string selected)]\<rparr>))"
  using assms unfolding authorize_post_def Let_def
  by (auto split: option.splits if_splits outcome.splits prod.splits)

lemma new_code_ok:
  assumes "env_ok e" "request_ok r" "o_form_valid e (consent_scopes (split_ws (req_scope r)) u) selected"
    and "set selected \<inter> set RESOURCE_SCOPES \<noteq> {}"
  shows "code_ok (new_code e now raw u' r (scope_string selected))"
proof -
  have "set selected \<subseteq> set ALL_SCOPES"
    using assms(1,3) consent_scopes_sub unfolding env_ok_def by fast
  then show ?thesis using assms(2,4) scope_string_words [of selected]
    by (simp add: code_ok_def new_code_def request_ok_def scopes_ok_def)
qed

lemma authorize_post_ok:
  assumes "env_ok e" "pending_ok p" "db_ok e d"
    and "authorize_post e host now u raw form selected deny p d = (resp, p', d')"
  shows "pending_ok p' \<and> db_ok e d'"
proof -
  have p: "pending_ok p'" using authorize_post_cases [OF assms(4)] assms(2) pending_ok_del by blast
  consider "d' = d" | "d' = fst (cleanup_expired_records e now d)"
    | rid r and u' :: user where "pending_request u form p = Some (rid, r)"
      "o_form_valid e (consent_scopes (split_ws (req_scope r)) u) selected"
      "set selected \<inter> set RESOURCE_SCOPES \<noteq> {}"
      "code_hash (new_code e now raw u' r (scope_string selected))
         \<notin> code_hash ` set (codes (fst (cleanup_expired_records e now d)))"
      "d' = (fst (cleanup_expired_records e now d))\<lparr>codes :=
         codes (fst (cleanup_expired_records e now d)) @ [new_code e now raw u' r (scope_string selected)]\<rparr>"
    using authorize_post_cases [OF assms(4)] by blast
  then have "db_ok e d'"
  proof cases
    case 3
    have "request_ok r" using pending_request_Some [OF 3(1)] assms(2) by (auto simp: pending_ok_def)
    then have "code_ok (new_code e now raw u' r (scope_string selected))"
      by (rule new_code_ok [OF assms(1) _ 3(2,3)])
    then show ?thesis using 3(4,5) cleanup_ok [OF assms(3), of now] by (auto simp: db_ok_def)
  qed (use assms(3) cleanup_ok in auto)
  then show ?thesis using p by simp
qed

lemma finish_issue_ok:
  assumes "finish_issue e now scope g = (g', r)" "last_refresh_at g = Some now"
    and "grant_client g = CLIENT_ID" "grant_id_ok (grant_id g)" "0 \<le> token_generation g" "scopes_ok scope"
    and "refresh_expires_at g \<noteq> None \<longleftrightarrow> has_offline scope"
  shows "grant_ok e g' \<and> grant_id g' = grant_id g"
proof -
  have g': "g' = g\<lparr>grant_scope := scope, access_expires_at := limit_access e now scope g\<rparr>"
    using assms(1) by (simp add: finish_issue_def Let_def)
  show ?thesis
  proof (cases "refresh_expires_at g")
    case None
    then show ?thesis using assms(2-) by (simp add: g' grant_ok_def limit_access_def Let_def)
  next
    case (Some t)
    then show ?thesis using assms(2-)
      by (simp add: g' grant_ok_def limit_access_def Let_def min_le_iff_disj)
  qed
qed

lemma new_grant_ok:
  assumes "grant_id_ok gid" "scopes_ok scope"
    and "finish_issue e now scope (new_grant e now gid ua who CLIENT_ID scope) = (g, r)"
  shows "grant_ok e g \<and> grant_id g = gid"
  using finish_issue_ok [OF assms(3)] assms(1,2) by (simp add: new_grant_def)

text \<open>What a redemption can do: nothing, drop the code of a user that is gone or disabled, or
  replace the code by a grant.\<close>

lemma redeem_cases:
  assumes "redeem_code e now gid ua form d = (resp, d')"
  shows "(d' = d \<and> (\<forall>r. resp \<noteq> TokenJson r))
    \<or> (\<exists>c. find_code e d (field form ''code'') = Some c \<and> d' = del_code (code_hash c) d \<and> (\<forall>r. resp \<noteq> TokenJson r))
    \<or> (\<exists>c u g r. find_code e d (field form ''code'') = Some c \<and> code_expires c > now
         \<and> dict_get form ''redirect_uri'' = Some (code_redirect c)
         \<and> pkce_challenge e (field form ''code_verifier'') = code_challenge c
         \<and> get_user (o_enc e) d (code_user c) = Ret (Some u) \<and> enabled u
         \<and> gid \<notin> grant_id ` set (grants d)
         \<and> finish_issue e now (code_scope c) (new_grant e now gid ua (email u) CLIENT_ID (code_scope c)) = (g, r)
         \<and> resp = TokenJson r
         \<and> d' = (del_code (code_hash c) d)\<lparr>grants := grants d @ [g]\<rparr>)"
proof -
  have g: "grants (del_code h d) = grants d" for h by (simp add: del_code_def)
  show ?thesis using assms
    unfolding redeem_code_def Let_def issue_new_def g oauth_error_def
    by (auto split: option.splits outcome.splits if_splits prod.splits)
qed

lemma find_code_mem: "find_code e d raw = Some c \<Longrightarrow> c \<in> set (codes d) \<and> code_hash c = authorization_code_hash e raw"
  by (auto simp: find_code_def find_Some_iff)

lemma redeem_ok:
  assumes "db_ok e d" "grant_id_ok gid" "redeem_code e now gid ua form d = (resp, d')"
  shows "db_ok e d'"
proof -
  consider "d' = d" | c :: auth_code where "d' = del_code (code_hash c) d"
    | c :: auth_code and u :: user and g :: grant and r where "find_code e d (field form ''code'') = Some c" "gid \<notin> grant_id ` set (grants d)"
      "finish_issue e now (code_scope c) (new_grant e now gid ua (email u) CLIENT_ID (code_scope c)) = (g, r)"
      "d' = (del_code (code_hash c) d)\<lparr>grants := grants d @ [g]\<rparr>"
    using redeem_cases [OF assms(3)] by blast
  then show ?thesis
  proof cases
    case 3
    have "scopes_ok (code_scope c)" using find_code_mem [OF 3(1)] assms(1) by (auto simp: db_ok_def code_ok_def)
    then have "grant_ok e g \<and> grant_id g = gid" using new_grant_ok [OF assms(2) _ 3(3)] by blast
    then show ?thesis using 3(2,4) del_code_ok [OF assms(1), of "code_hash c"] assms(1) by (auto simp: db_ok_def)
  qed (use assms(1) del_code_ok in auto)
qed

text \<open>What a refresh can do: nothing, remove the grant, or rotate it.\<close>

lemma refresh_cases:
  assumes "refresh_grant e now ua form d = (resp, d')"
  shows "(d' = d \<and> (\<forall>r. resp \<noteq> TokenJson r))
    \<or> (\<exists>gid gen. parse_mail_token e (field form ''refresh_token'') (Some ''refresh'') = Some (''refresh'', gid, gen)
         \<and> d' = del_grant gid d \<and> (\<forall>r. resp \<noteq> TokenJson r))
    \<or> (\<exists>g u r g'. parse_mail_token e (field form ''refresh_token'') (Some ''refresh'')
             = Some (''refresh'', grant_id g, token_generation g)
         \<and> g \<in> set (grants d) \<and> \<not> refresh_expired e now g
         \<and> get_user (o_enc e) d (grant_user g) = Ret (Some u) \<and> enabled u
         \<and> finish_issue e now (grant_scope g) (g\<lparr>token_generation := token_generation g + 1,
              client_name := client_display_name ua, last_refresh_at := Some now\<rparr>) = (g', r)
         \<and> resp = TokenJson r \<and> d' = put_grant g' d)"
proof (cases "parse_mail_token e (field form ''refresh_token'') (Some ''refresh'')")
  case None
  then show ?thesis using assms by (auto simp: refresh_grant_def oauth_error_def)
next
  case (Some p)
  then obtain gid gen where p: "p = (''refresh'', gid, gen)"
    using parse_mail_token_Some(3) by (cases p) fastforce
  show ?thesis
  proof (cases "find (\<lambda>g. grant_id g = gid \<and> grant_client g = CLIENT_ID) (grants d)")
    case None
    then show ?thesis using assms Some p by (auto simp: refresh_grant_def oauth_error_def)
  next
    case (Some g)
    then have g: "g \<in> set (grants d)" "grant_id g = gid" by (auto simp: find_Some_iff)
    have parsed: "parse_mail_token e (field form ''refresh_token'') (Some ''refresh'') = Some (''refresh'', gid, gen)"
      using \<open>parse_mail_token e (field form ''refresh_token'') (Some ''refresh'') = Some p\<close> p by simp
    show ?thesis
    proof (cases "gen = token_generation g \<and> \<not> refresh_expired e now g
        \<and> (\<exists>u. get_user (o_enc e) d (grant_user g) = Ret (Some u) \<and> enabled u)")
      case True
      then obtain u where u: "get_user (o_enc e) d (grant_user g) = Ret (Some u)" "enabled u" by blast
      obtain g' r where f: "finish_issue e now (grant_scope g) (g\<lparr>token_generation := token_generation g + 1,
          client_name := client_display_name ua, last_refresh_at := Some now\<rparr>) = (g', r)" by fastforce
      have "resp = TokenJson r \<and> d' = put_grant g' d"
        using assms parsed Some True u f by (simp add: refresh_grant_def issue_refreshed_def)
      then show ?thesis using parsed g True u f by blast
    next
      case False
      then have "(d' = d \<or> d' = del_grant gid d) \<and> (\<forall>r. resp \<noteq> TokenJson r)"
        using assms parsed Some
        by (cases "get_user (o_enc e) d (grant_user g)")
           (auto simp: refresh_grant_def oauth_error_def Let_def split: if_splits option.splits)
      then show ?thesis using parsed by blast
    qed
  qed
qed

lemma put_grant_ok:
  assumes "db_ok e d" "grant_ok e g"
  shows "db_ok e (put_grant g d)"
proof -
  have "grant_id \<circ> (\<lambda>h. if grant_id h = grant_id g then g else h) = grant_id" by auto
  then show ?thesis using assms by (auto simp: db_ok_def put_grant_def)
qed

lemma refresh_ok:
  assumes "db_ok e d" "refresh_grant e now ua form d = (resp, d')"
  shows "db_ok e d'"
proof -
  consider "d' = d" | gid where "d' = del_grant gid d"
    | g :: grant and g' r where "g \<in> set (grants d)" "d' = put_grant g' d"
      "finish_issue e now (grant_scope g) (g\<lparr>token_generation := token_generation g + 1,
          client_name := client_display_name ua, last_refresh_at := Some now\<rparr>) = (g', r)"
      "\<not> refresh_expired e now g"
    using refresh_cases [OF assms(2)] by blast
  then show ?thesis
  proof cases
    case 3
    have "grant_ok e g" using 3(1) assms(1) by (auto simp: db_ok_def)
    then have "grant_ok e g'" using finish_issue_ok [OF 3(3)] by (simp add: grant_ok_def)
    then show ?thesis using 3(2) put_grant_ok [OF assms(1)] by simp
  qed (use assms(1) del_grant_ok in auto)
qed

lemma token_endpoint_ok:
  "\<lbrakk>db_ok e d; grant_id_ok gid\<rbrakk> \<Longrightarrow> db_ok e (snd (token_endpoint e now gid ua form d))"
  using redeem_ok [OF _ _ prod.collapse [symmetric]] refresh_ok [OF _ prod.collapse [symmetric]]
  by (simp add: token_endpoint_def)

lemma revoke_ok: "db_ok e d \<Longrightarrow> db_ok e (snd (revoke e form d))"
  by (auto simp: revoke_def del_grant_ok split: option.splits prod.splits)

lemma force_ok:
  assumes "db_ok e d"
  shows "db_ok e (force_user_reauthentication now who d)"
proof -
  have "grant_ok e (force_reauthentication now g)" if "grant_ok e g" for g
    using that by (auto simp: grant_ok_def force_reauthentication_def split: option.splits)
  moreover have "grant_id \<circ> (\<lambda>g. if grant_user g = who then force_reauthentication now g else g) = grant_id"
    by (auto simp: force_reauthentication_def)
  ultimately show ?thesis using assms by (auto simp: db_ok_def force_user_reauthentication_def)
qed

section \<open>Every step\<close>

lemma session_pending_ok: "oauth_inv e s \<Longrightarrow> pending_ok (session_pending s sid)"
  by (auto simp: oauth_inv_def session_pending_def pending_ok_def dict_keys_def
      split: option.splits dest!: dict_get_mem)

lemma authorize_ok:
  assumes "env_ok e" "pending_ok p" "db_ok e d"
    and "authorize e host now rem target cur fresh m p d = (resp, p', d')"
  shows "pending_ok p' \<and> db_ok e d'"
proof (cases cur)
  case None
  then show ?thesis using assms by (simp add: authorize_def)
next
  case (Some u)
  show ?thesis
  proof (cases "enabled u")
    case False
    then show ?thesis using assms Some by (simp add: authorize_def)
  next
    case True
    show ?thesis
    proof (cases m)
      case (Get args)
      then show ?thesis using assms Some True authorize_get_pending [OF assms(2), of e host u fresh args]
        by (auto simp: authorize_def split: prod.splits)
    next
      case (Post form sel deny)
      then show ?thesis using assms Some True authorize_post_ok [OF assms(1-3)] by (simp add: authorize_def)
    qed
  qed
qed

lemma oauth_step_inv: "\<lbrakk>oauth_inv e s; op_ok op\<rbrakk> \<Longrightarrow> oauth_inv e (oauth_step e s op)"
proof (cases op)
  case (OpAuthorize sid host now rem cur fresh m)
  assume i: "oauth_inv e s"
  obtain resp p d where a: "authorize e host now (\<lambda>_. rem) [] cur fresh m (session_pending s sid) (os_db s) = (resp, p, d)"
    by (cases "authorize e host now (\<lambda>_. rem) [] cur fresh m (session_pending s sid) (os_db s)")
  have "pending_ok p \<and> db_ok e d"
    by (rule authorize_ok [OF _ session_pending_ok [OF i] _ a]) (use i in \<open>auto simp: oauth_inv_def\<close>)
  then show ?thesis using i a
    by (auto simp: OpAuthorize oauth_step_def oauth_inv_def dest!: dict_set_elems)
next
  case (OpDeleteUser who)
  then show "oauth_inv e s \<Longrightarrow> ?thesis"
    by (auto simp: oauth_step_def oauth_inv_def db_ok_def delete_user_oauth_def distinct_map_filter)
next
  case (OpUsers us)
  then show "oauth_inv e s \<Longrightarrow> ?thesis" by (auto simp: oauth_step_def oauth_inv_def db_ok_def)
qed (auto simp: oauth_step_def oauth_inv_def op_ok_def token_endpoint_ok revoke_ok force_ok cleanup_ok)

interpretation oauth: machine "oauth_step e" op_ok "oauth_inv e" for e
  by unfold_locales (rule oauth_step_inv)

end
