(* ===== verification/OAuth_Props.thy ===== *)
theory OAuth_Props
  imports OAuth_Machine
begin

text \<open>
  What the OAuth server guarantees, over its operations and over its runs: who gets a code and a
  token, that codes and refresh tokens work once, that a replay revokes the family, when an
  access token is active, and what forced re-authentication and clean-up do.
\<close>

section \<open>Lookups\<close>

lemma parse_any_kind: "parse_mail_token e tok ek = Some x \<Longrightarrow> parse_mail_token e tok None = Some x"
  by (auto simp: parse_mail_token_def derive_rcut split: list.splits option.splits if_splits)

lemma get_user_users: "users d' = users d \<Longrightarrow> get_user enc d' k = get_user enc d k"
  by (simp add: get_user_def split: option.split)

lemma get_user_self: "get_user enc d k = Ret (Some u) \<Longrightarrow> get_user enc d (email u) = Ret (Some u)"
  using get_user_SomeD [of enc d k u] by (simp add: get_user_def)

lemma find_grant_Some: "find_grant d gid = Some g \<Longrightarrow> g \<in> set (grants d) \<and> grant_id g = gid"
  by (auto simp: find_grant_def find_Some_iff)

lemma find_distinct:
  assumes "distinct (map f xs)" "x \<in> set xs" "P x" "\<And>y. P y \<Longrightarrow> f y = f x"
  shows "find P xs = Some x"
  using assms(1,2)
proof (induction xs)
  case (Cons y ys)
  then show ?case using assms(3) assms(4) [of y] by (cases "y = x") (auto simp: rev_image_eqI)
qed simp

lemma find_grant_mem: "\<lbrakk>db_ok e d; g \<in> set (grants d)\<rbrakk> \<Longrightarrow> find_grant d (grant_id g) = Some g"
  unfolding find_grant_def by (rule find_distinct [of grant_id]) (auto simp: db_ok_def)

lemma find_grant_client:
  assumes "db_ok e d"
  shows "find (\<lambda>g. grant_id g = gid \<and> grant_client g = CLIENT_ID) (grants d) = find_grant d gid"
proof -
  have "\<forall>g\<in>set (grants d). grant_client g = CLIENT_ID" using assms by (auto simp: db_ok_def grant_ok_def)
  then show ?thesis unfolding find_grant_def by (intro find_cong) auto
qed

lemma grant_ok_mem: "\<lbrakk>db_ok e d; find_grant d gid = Some g\<rbrakk> \<Longrightarrow> grant_ok e g"
  by (auto simp: db_ok_def dest: find_grant_Some)

section \<open>Redeeming a code\<close>

definition code_form :: "string \<Rightarrow> string \<Rightarrow> string \<Rightarrow> (string, string) dict" where
  "code_form code uri verifier =
     [(''client_id'', CLIENT_ID), (''grant_type'', ''authorization_code''), (''code'', code),
      (''redirect_uri'', uri), (''code_verifier'', verifier)]"

definition refresh_form :: "string \<Rightarrow> (string, string) dict" where
  "refresh_form tok = [(''client_id'', CLIENT_ID), (''grant_type'', ''refresh_token''), (''refresh_token'', tok)]"

lemma token_endpoint_code [simp]:
  "token_endpoint e now gid ua (code_form code uri v) d = redeem_code e now gid ua (code_form code uri v) d"
  by (simp add: token_endpoint_def code_form_def dict_get_def)

lemma token_endpoint_refresh [simp]:
  "token_endpoint e now gid ua (refresh_form tok) d = refresh_grant e now ua (refresh_form tok) d"
  by (simp add: token_endpoint_def refresh_form_def dict_get_def)

lemma field_forms [simp]:
  "field (code_form code uri v) ''code'' = code" "field (code_form code uri v) ''code_verifier'' = v"
  "dict_get (code_form code uri v) ''redirect_uri'' = Some uri"
  "field (refresh_form tok) ''refresh_token'' = tok"
  by (simp_all add: field_def code_form_def refresh_form_def dict_get_def)

lemma challenge_pkce: "\<lbrakk>challenge_ok c; pkce_challenge e v = c\<rbrakk> \<Longrightarrow> valid_verifier v \<and> b64url (o_sha256 e v) = c"
  by (auto simp: challenge_ok_def pkce_challenge_def split: if_splits)

text \<open>
  C1. The token endpoint turns an authorization code into tokens exactly when the code is
  stored and not expired, was issued for the presented redirect URI, the presented verifier is
  well formed and hashes to the stored PKCE challenge, the user still exists and is enabled,
  and the random identifier of the new grant is unused.
\<close>
theorem code_redemption_iff:
  assumes "db_ok e d"
  shows "(\<exists>r. fst (token_endpoint e now gid ua (code_form code uri verifier) d) = TokenJson r) \<longleftrightarrow>
    (\<exists>c u. c \<in> set (codes d) \<and> code_hash c = authorization_code_hash e code \<and> now < code_expires c
       \<and> code_redirect c = uri \<and> valid_verifier verifier \<and> b64url (o_sha256 e verifier) = code_challenge c
       \<and> get_user (o_enc e) d (code_user c) = Ret (Some u) \<and> enabled u \<and> gid \<notin> grant_id ` set (grants d))"
    (is "?l \<longleftrightarrow> ?r")
proof
  let ?f = "code_form code uri verifier"
  assume ?l
  then obtain r d' where t: "redeem_code e now gid ua ?f d = (TokenJson r, d')"
    by (cases "redeem_code e now gid ua ?f d") auto
  obtain c :: auth_code and u :: user where c: "find_code e d code = Some c" "code_expires c > now" "uri = code_redirect c"
    "pkce_challenge e verifier = code_challenge c" "get_user (o_enc e) d (code_user c) = Ret (Some u)" "enabled u"
    "gid \<notin> grant_id ` set (grants d)"
    using redeem_cases [OF t] by auto
  have "c \<in> set (codes d)" "code_hash c = authorization_code_hash e code" using find_code_mem [OF c(1)] by auto
  moreover have "challenge_ok (code_challenge c)" using calculation(1) assms by (auto simp: db_ok_def code_ok_def)
  ultimately show ?r using c challenge_pkce by blast
next
  let ?f = "code_form code uri verifier"
  assume ?r
  then obtain c u where c: "c \<in> set (codes d)" "code_hash c = authorization_code_hash e code" "now < code_expires c"
    "code_redirect c = uri" "valid_verifier verifier" "b64url (o_sha256 e verifier) = code_challenge c"
    "get_user (o_enc e) d (code_user c) = Ret (Some u)" "enabled u" "gid \<notin> grant_id ` set (grants d)" by blast
  have "find_code e d code = Some c" unfolding find_code_def
    by (rule find_distinct [of code_hash]) (use c(1,2) assms in \<open>auto simp: db_ok_def code_ok_def\<close>)
  then show ?l using c
    by (auto simp: redeem_code_def issue_new_def pkce_challenge_def del_code_def split: prod.splits)
qed

section \<open>Codes work once\<close>

definition issues_hash :: "oauth_env \<Rightarrow> string \<Rightarrow> oauth_op \<Rightarrow> bool" where
  "issues_hash e h op =
     (case op of OpAuthorize sid host now rem cur fresh m \<Rightarrow> authorization_code_hash e fresh = h | _ \<Rightarrow> False)"

lemma authorize_post_codes:
  assumes "authorize_post e host now u fresh form sel deny p d = (resp, p', d')"
  shows "set (codes d') \<subseteq> set (codes d) \<union> {c. code_hash c = authorization_code_hash e fresh}"
proof -
  have cl: "set (codes (fst (cleanup_expired_records e now d))) \<subseteq> set (codes d)"
    by (auto simp: cleanup_expired_records_def)
  have new: "code_hash (new_code e now fresh u' r s) = authorization_code_hash e fresh" for u' r s
    by (simp add: new_code_def)
  consider "d' = d" | "d' = fst (cleanup_expired_records e now d)"
    | r and u' :: user where "d' = (fst (cleanup_expired_records e now d))\<lparr>codes :=
         codes (fst (cleanup_expired_records e now d)) @ [new_code e now fresh u' r (scope_string sel)]\<rparr>"
    using authorize_post_cases [OF assms] by blast
  then show ?thesis using cl new by cases auto
qed

lemma authorize_codes:
  assumes "authorize e host now rem target cur fresh m p d = (resp, p', d')"
  shows "set (codes d') \<subseteq> set (codes d) \<union> {c. code_hash c = authorization_code_hash e fresh}"
proof -
  consider "d' = d" | u form sel deny where "authorize_post e host now u fresh form sel deny p d = (resp, p', d')"
    using assms by (auto simp: authorize_def split: option.splits if_splits auth_method.splits prod.splits)
  then show ?thesis using authorize_post_codes by cases blast+
qed

lemma redeem_hashes: "redeem_code e now gid ua f d = (resp, d') \<Longrightarrow> set (codes d') \<subseteq> set (codes d)"
  by (drule redeem_cases) (auto simp: del_code_def)

lemma refresh_codes: "refresh_grant e now ua f d = (resp, d') \<Longrightarrow> codes d' = codes d"
  by (drule refresh_cases) (auto simp: del_grant_def put_grant_def)

lemma token_endpoint_codes: "set (codes (snd (token_endpoint e now gid ua f d))) \<subseteq> set (codes d)"
  using redeem_hashes [OF prod.collapse [symmetric]] refresh_codes [OF prod.collapse [symmetric]]
  by (simp add: token_endpoint_def)

lemma step_hashes:
  "\<lbrakk>h \<notin> code_hash ` set (codes (os_db s)); \<not> issues_hash e h op\<rbrakk>
   \<Longrightarrow> h \<notin> code_hash ` set (codes (os_db (oauth_step e s op)))"
proof (cases op)
  case (OpAuthorize sid host now rem cur fresh m)
  assume "h \<notin> code_hash ` set (codes (os_db s))" "\<not> issues_hash e h op"
  then show ?thesis
    using authorize_codes [of e host now "\<lambda>_. rem" "[]" cur fresh m "session_pending s sid" "os_db s"]
    by (cases "authorize e host now (\<lambda>_. rem) [] cur fresh m (session_pending s sid) (os_db s)")
       (fastforce simp: OpAuthorize oauth_step_def issues_hash_def)
next
  case (OpToken now gid ua f)
  assume "h \<notin> code_hash ` set (codes (os_db s))"
  then show ?thesis using token_endpoint_codes [of e now gid ua f "os_db s"] by (auto simp: OpToken oauth_step_def)
qed (auto simp: oauth_step_def revoke_def del_grant_def force_user_reauthentication_def
       cleanup_expired_records_def delete_user_oauth_def split: option.splits prod.splits)

interpretation spent: machine "oauth_step e" "\<lambda>op. \<not> issues_hash e h op"
  "\<lambda>s. h \<notin> code_hash ` set (codes (os_db s))" for e h
  by unfold_locales (rule step_hashes)

text \<open>
  C5. An authorization code works once: after a redemption that returned tokens, however the
  server runs on, as long as it does not draw the same random code again, no request with that
  code obtains tokens, at any time, with any verifier and redirect URI.
\<close>
theorem code_single_use:
  assumes "token_endpoint e now gid ua (code_form code uri v) (os_db s) = (TokenJson r, d1)"
    and "db_ok e (os_db s)"
    and "list_all (\<lambda>op. \<not> issues_hash e (authorization_code_hash e code) op) ops"
  shows "\<forall>r'. fst (token_endpoint e now' gid' ua' (code_form code uri' v')
      (os_db (foldl (oauth_step e) (s\<lparr>os_db := d1\<rparr>) ops))) \<noteq> TokenJson r'"
proof -
  let ?h = "authorization_code_hash e code"
  have t: "redeem_code e now gid ua (code_form code uri v) (os_db s) = (TokenJson r, d1)" using assms(1) by simp
  obtain c where "find_code e (os_db s) code = Some c" "codes d1 = codes (del_code (code_hash c) (os_db s))"
    using redeem_cases [OF t] by auto
  then have "?h \<notin> code_hash ` set (codes (os_db (s\<lparr>os_db := d1\<rparr>)))"
    using find_code_mem by (auto simp: del_code_def)
  then have "?h \<notin> code_hash ` set (codes (os_db (foldl (oauth_step e) (s\<lparr>os_db := d1\<rparr>) ops)))"
    by (rule spent.inv_run) (use assms(3) in simp)
  then have "find_code e (os_db (foldl (oauth_step e) (s\<lparr>os_db := d1\<rparr>) ops)) code = None"
    unfolding find_code_def find_None_iff by force
  then show ?thesis by (simp add: redeem_code_def Let_def oauth_error_def)
qed

section \<open>Where a grant comes from\<close>

lemma finish_issue_fields:
  assumes "finish_issue e now scope g = (g', r)"
  shows "grant_id g' = grant_id g" "token_generation g' = token_generation g"
    "refresh_expires_at g' = refresh_expires_at g" "last_refresh_at g' = last_refresh_at g"
    "grant_user g' = grant_user g" "grant_client g' = grant_client g" "grant_scope g' = scope"
    "access_expires_at g' = limit_access e now scope g"
    "access_token r = derive_mail_token e ''access'' (grant_id g) (token_generation g)"
    "refresh_token r = (if has_offline scope
       then Some (derive_mail_token e ''refresh'' (grant_id g) (token_generation g)) else None)"
    "expires_in r = max 0 (limit_access e now scope g - now)" "resp_scope r = scope"
  using assms by (auto simp: finish_issue_def Let_def)

definition rotated :: "oauth_env \<Rightarrow> int \<Rightarrow> grant \<Rightarrow> grant \<Rightarrow> bool" where
  "rotated e now g g' \<longleftrightarrow> \<not> refresh_expired e now g \<and> grant_id g' = grant_id g
     \<and> token_generation g' = token_generation g + 1 \<and> refresh_expires_at g' = refresh_expires_at g"

lemma token_grants:
  assumes "g' \<in> set (grants (snd (token_endpoint e now gid ua f d)))"
  shows "g' \<in> set (grants d) \<or> grant_id g' = gid \<or> (\<exists>g\<in>set (grants d). rotated e now g g')"
proof -
  have code: "g' \<in> set (grants d) \<or> grant_id g' = gid"
    if "redeem_code e now gid ua f d = (resp, d')" "g' \<in> set (grants d')" for resp d'
    using redeem_cases [OF that(1)] that(2)
    by (auto simp: del_code_def new_grant_def dest!: finish_issue_fields(1))
  have ref: "g' \<in> set (grants d) \<or> (\<exists>g\<in>set (grants d). rotated e now g g')"
    if r: "refresh_grant e now ua f d = (resp, d')" and m: "g' \<in> set (grants d')" for resp d'
  proof -
    consider "d' = d" | gid' where "d' = del_grant gid' d"
      | g :: grant and h t where "g \<in> set (grants d)" "\<not> refresh_expired e now g" "d' = put_grant h d"
        "finish_issue e now (grant_scope g) (g\<lparr>token_generation := token_generation g + 1,
          client_name := client_display_name ua, last_refresh_at := Some now\<rparr>) = (h, t)"
      using refresh_cases [OF r] by blast
    then show ?thesis
    proof cases
      case 3
      have "rotated e now g h" using finish_issue_fields(1-3) [OF 3(4)] 3(2) by (simp add: rotated_def)
      then show ?thesis using m 3(1,3) by (auto simp: put_grant_def split: if_splits)
    qed (use m in \<open>auto simp: del_grant_def\<close>)
  qed
  show ?thesis using assms code [OF prod.collapse [symmetric]] ref [OF prod.collapse [symmetric]]
    by (auto simp: token_endpoint_def split: if_splits)
qed

definition draws_grant :: "string \<Rightarrow> oauth_op \<Rightarrow> bool" where
  "draws_grant gid op = (case op of OpToken now g ua form \<Rightarrow> g = gid | _ \<Rightarrow> False)"

text \<open>Every grant after a step was there before, perhaps expired by force, or is new, or is the
  rotation of one that was there.\<close>

lemma step_grants:
  assumes "g' \<in> set (grants (os_db (oauth_step e s op)))"
  shows "g' \<in> set (grants (os_db s))
    \<or> (\<exists>now who g. op = OpForce now who \<and> g \<in> set (grants (os_db s)) \<and> g' = force_reauthentication now g)
    \<or> draws_grant (grant_id g') op
    \<or> (\<exists>now gid ua f g. op = OpToken now gid ua f \<and> g \<in> set (grants (os_db s)) \<and> rotated e now g g')"
proof (cases op)
  case (OpAuthorize sid host now rem cur fresh m)
  obtain resp p d where a: "authorize e host now (\<lambda>_. rem) [] cur fresh m (session_pending s sid) (os_db s) = (resp, p, d)"
    by (cases "authorize e host now (\<lambda>_. rem) [] cur fresh m (session_pending s sid) (os_db s)")
  have po: "set (grants d') \<subseteq> set (grants d0)"
    if "authorize_post e host now u fresh form sel deny p0 d0 = (resp, p', d')" for u form sel deny p0 d0 resp p' d'
    using authorize_post_cases [OF that] by (auto simp: cleanup_expired_records_def)
  have "set (grants d) \<subseteq> set (grants (os_db s))"
    using a po by (auto simp: authorize_def split: option.splits if_splits auth_method.splits prod.splits)
  then show ?thesis using assms a by (auto simp: OpAuthorize oauth_step_def)
next
  case (OpToken now gid ua f)
  then show ?thesis using assms token_grants [of g' e now gid ua f "os_db s"]
    by (auto simp: oauth_step_def draws_grant_def)
qed (use assms in \<open>auto simp: oauth_step_def revoke_def del_grant_def force_user_reauthentication_def
       cleanup_expired_records_def delete_user_oauth_def split: option.splits prod.splits if_splits\<close>)

section \<open>Refresh tokens rotate\<close>

definition beyond :: "string \<Rightarrow> int \<Rightarrow> oauth_state \<Rightarrow> bool" where
  "beyond gid n s \<longleftrightarrow> (\<forall>g\<in>set (grants (os_db s)). grant_id g = gid \<longrightarrow> n < token_generation g)"

lemma step_beyond: "\<lbrakk>beyond gid n s; \<not> draws_grant gid op\<rbrakk> \<Longrightarrow> beyond gid n (oauth_step e s op)"
  unfolding beyond_def
proof (intro ballI impI)
  fix g' assume b: "\<forall>g\<in>set (grants (os_db s)). grant_id g = gid \<longrightarrow> n < token_generation g"
    and nd: "\<not> draws_grant gid op" and m: "g' \<in> set (grants (os_db (oauth_step e s op)))" "grant_id g' = gid"
  show "n < token_generation g'"
    using step_grants [OF m(1)] b nd m(2) by (auto simp: rotated_def force_reauthentication_def)
qed

interpretation rotation: machine "oauth_step e" "\<lambda>op. \<not> draws_grant gid op" "beyond gid n" for e gid n
  by unfold_locales (rule step_beyond)

lemma refresh_success:
  assumes "refresh_grant e now ua (refresh_form tok) d = (TokenJson r, d1)" "db_ok e d"
  obtains g g' u where "parse_mail_token e tok (Some ''refresh'') = Some (''refresh'', grant_id g, token_generation g)"
    "find_grant d (grant_id g) = Some g" "\<not> refresh_expired e now g" "find_grant d1 (grant_id g) = Some g'"
    "finish_issue e now (grant_scope g) (g\<lparr>token_generation := token_generation g + 1,
       client_name := client_display_name ua, last_refresh_at := Some now\<rparr>) = (g', r)"
    "get_user (o_enc e) d (grant_user g) = Ret (Some u)" "enabled u" "db_ok e d1" "users d1 = users d"
proof -
  obtain g g' and u :: user where a: "parse_mail_token e tok (Some ''refresh'') = Some (''refresh'', grant_id g, token_generation g)"
    "g \<in> set (grants d)" "\<not> refresh_expired e now g" "get_user (o_enc e) d (grant_user g) = Ret (Some u)" "enabled u"
    "d1 = put_grant g' d" and f: "finish_issue e now (grant_scope g) (g\<lparr>token_generation := token_generation g + 1,
       client_name := client_display_name ua, last_refresh_at := Some now\<rparr>) = (g', r)"
    using refresh_cases [OF assms(1)] by auto
  have id: "grant_id g' = grant_id g" using finish_issue_fields(1) [OF f] by simp
  have ok: "db_ok e d1" by (rule refresh_ok [OF assms(2,1)])
  have "g' \<in> set (grants d1)" using a(2,6) id by (auto simp: put_grant_def image_iff)
  then have "find_grant d1 (grant_id g) = Some g'" using find_grant_mem [OF ok] id by metis
  moreover have "find_grant d (grant_id g) = Some g" by (rule find_grant_mem [OF assms(2) a(2)])
  moreover have "users d1 = users d" by (simp add: a(6) put_grant_def)
  ultimately show ?thesis using that a f ok by blast
qed

text \<open>
  C2. A refresh token works once: after a refresh that returned tokens, however the server runs
  on, presenting the same refresh token again never yields tokens; and if the grant is still
  stored, the second presentation removes it, so that the newer tokens of the thief and of the
  client die together.  (The runs considered do not draw the grant's random identifier again.)
\<close>
theorem refresh_single_use:
  assumes "token_endpoint e now gid ua (refresh_form tok) (os_db s) = (TokenJson r, d1)"
    and "oauth_inv e s"
    and "list_all (\<lambda>op. op_ok op \<and> \<not> draws_grant (fst (snd (the (parse_mail_token e tok (Some ''refresh''))))) op) ops"
  shows "let again = token_endpoint e now' gid' ua' (refresh_form tok)
                       (os_db (foldl (oauth_step e) (s\<lparr>os_db := d1\<rparr>) ops))
    in fst again = OAuthError 400 ''invalid_grant'' None
       \<and> find_grant (snd again) (fst (snd (the (parse_mail_token e tok (Some ''refresh''))))) = None"
proof -
  define s' where "s' = foldl (oauth_step e) (s\<lparr>os_db := d1\<rparr>) ops"
  have db: "db_ok e (os_db s)" using assms(2) by (simp add: oauth_inv_def)
  obtain g g' u where g: "parse_mail_token e tok (Some ''refresh'') = Some (''refresh'', grant_id g, token_generation g)"
    "find_grant d1 (grant_id g) = Some g'"
    and f: "finish_issue e now (grant_scope g) (g\<lparr>token_generation := token_generation g + 1,
       client_name := client_display_name ua, last_refresh_at := Some now\<rparr>) = (g', r)" and ok1: "db_ok e d1"
    using refresh_success [OF _ db] assms(1) token_endpoint_refresh by metis
  have ids: "list_all (\<lambda>op. \<not> draws_grant (grant_id g) op) ops" "list_all op_ok ops"
    using assms(3) g(1) by (auto simp: list_all_iff)
  have uniq: "h = g'" if "h \<in> set (grants d1)" "grant_id h = grant_id g" for h
    using find_grant_mem [OF ok1 that(1)] that(2) g(2) by simp
  have "beyond (grant_id g) (token_generation g) (s\<lparr>os_db := d1\<rparr>)"
    using uniq finish_issue_fields(2) [OF f] by (auto simp: beyond_def)
  then have b: "beyond (grant_id g) (token_generation g) s'"
    unfolding s'_def by (rule rotation.inv_run) (rule ids(1))
  have "oauth_inv e s'" unfolding s'_def
    by (rule oauth.inv_run) (use assms(2) ok1 ids(2) in \<open>auto simp: oauth_inv_def\<close>)
  then have db': "db_ok e (os_db s')" by (simp add: oauth_inv_def)
  let ?again = "token_endpoint e now' gid' ua' (refresh_form tok) (os_db s')"
  have "fst ?again = OAuthError 400 ''invalid_grant'' None \<and> find_grant (snd ?again) (grant_id g) = None"
  proof (cases "find_grant (os_db s') (grant_id g)")
    case None
    then show ?thesis using g(1) find_grant_client [OF db', of "grant_id g"]
      by (simp add: refresh_grant_def Let_def oauth_error_def)
  next
    case (Some h)
    then have "token_generation g < token_generation h" using b find_grant_Some [OF Some] by (auto simp: beyond_def)
    then have "?again = (OAuthError 400 ''invalid_grant'' None, del_grant (grant_id g) (os_db s'))"
      using g(1) Some find_grant_client [OF db', of "grant_id g"]
      by (simp add: refresh_grant_def Let_def oauth_error_def)
    then show ?thesis by (auto simp: find_grant_def find_None_iff del_grant_def)
  qed
  then show ?thesis using g(1) by (simp add: s'_def Let_def)
qed

section \<open>Active tokens\<close>

text \<open>
  C3. When Dovecot is told that a token is active: the string is an access token with the
  server's MAC for a stored grant and for that grant's current generation, the grant has not
  expired and was issued or refreshed no longer than the access lifetime ago, its user exists
  and is enabled, and the protocol asked for is one the grant's scope names and the user has
  enabled; the claims are those of the user and the grant.
\<close>
theorem introspect_sound:
  assumes "introspect e host now protocol raw d = Active cl" "db_ok e d"
  shows "\<exists>g u l n. g \<in> set (grants d) \<and> py_int n = Some (token_generation g)
      \<and> raw = presented e ''access'' (grant_id g) (token_generation g) n
      \<and> now < access_expires_at g \<and> last_refresh_at g = Some l \<and> now < l + access_token_ttl e
      \<and> (\<forall>r. refresh_expires_at g = Some r \<longrightarrow> now < r \<and> now < l + refresh_token_idle e)
      \<and> get_user (o_enc e) d (grant_user g) = Ret (Some u) \<and> enabled u
      \<and> (\<forall>p. protocol = Some p \<longrightarrow> (\<exists>sc. protocol_scope p = Some sc \<and> sc \<in> set (split_ws (grant_scope g)))
             \<and> (p = ''imap'' \<longrightarrow> enable_imap u) \<and> (p = ''pop3'' \<longrightarrow> enable_pop u))
      \<and> cl = \<lparr>cl_iss = issuer e host, cl_email = email u, cl_client = CLIENT_ID, cl_scope = grant_scope g,
              cl_exp = access_expires_at g, cl_port = protocol_port protocol\<rparr>"
proof -
  obtain kind gid gen g and u :: user where p: "parse_mail_token e raw (Some ''access'') = Some (kind, gid, gen)"
    and g: "find_grant d gid = Some g" and u: "get_user (o_enc e) d (grant_user g) = Ret (Some u)"
    and c: "gen = token_generation g" "now < access_expires_at g" "enabled u" "protocol_enabled protocol g u"
    and cl: "cl = \<lparr>cl_iss = issuer e host, cl_email = email u, cl_client = grant_client g, cl_scope = grant_scope g,
              cl_exp = access_expires_at g, cl_port = protocol_port protocol\<rparr>"
    using assms(1) by (auto simp: introspect_def split: if_splits option.splits prod.splits outcome.splits)
  have k: "kind = ''access''" using parse_mail_token_Some(3) [OF p] by simp
  have m: "g \<in> set (grants d)" "grant_id g = gid" using find_grant_Some [OF g] by auto
  obtain n where n: "raw = presented e ''access'' (grant_id g) (token_generation g) n"
    "py_int n = Some (token_generation g)"
    using parse_mail_token_Some(1) [OF p] k m c(1) by auto
  have ok: "grant_ok e g" using m assms(2) by (auto simp: db_ok_def)
  then obtain l where l: "last_refresh_at g = Some l" "access_expires_at g \<le> l + access_token_ttl e"
    "\<forall>r. refresh_expires_at g = Some r \<longrightarrow> access_expires_at g \<le> r \<and> access_expires_at g \<le> l + refresh_token_idle e"
    by (auto simp: grant_ok_def)
  have "\<forall>p. protocol = Some p \<longrightarrow> (\<exists>sc. protocol_scope p = Some sc \<and> sc \<in> set (split_ws (grant_scope g)))
             \<and> (p = ''imap'' \<longrightarrow> enable_imap u) \<and> (p = ''pop3'' \<longrightarrow> enable_pop u)"
    using c(4) by (auto simp: protocol_enabled_def split: option.splits if_splits)
  moreover have "grant_client g = CLIENT_ID" using ok by (simp add: grant_ok_def)
  ultimately show ?thesis using m n l c u cl by (intro exI [of _ g] exI [of _ u] exI [of _ l] exI [of _ n]) auto
qed

lemma introspect_derived:
  assumes "db_ok e d" "find_grant d gid = Some g" "get_user (o_enc e) d (grant_user g) = Ret (Some u)" "enabled u"
  shows "(\<exists>cl. introspect e host t None (derive_mail_token e ''access'' gid (token_generation g)) d = Active cl)
    \<longleftrightarrow> t < access_expires_at g"
proof -
  have "grant_id_ok gid" "0 \<le> token_generation g"
    using grant_ok_mem [OF assms(1,2)] find_grant_Some [OF assms(2)] by (auto simp: grant_ok_def)
  then have p: "parse_mail_token e (derive_mail_token e ''access'' gid (token_generation g)) (Some ''access'')
      = Some (''access'', gid, token_generation g)" by (intro parse_derive) auto
  have "derive_mail_token e ''access'' gid (token_generation g) \<noteq> []"
    by (simp add: derive_mail_token_def token_payload_def)
  then show ?thesis using p assms(2-4) by (simp add: introspect_def protocol_enabled_def)
qed

text \<open>
  C25. The access token of a redeemed code is active exactly during the lifetime the response
  announces: asked at any time t not before the redemption, introspection without a protocol
  says active if and only if t is before now plus \<open>expires_in\<close>; the lifetime is positive and at
  most the configured one.
\<close>
theorem issued_token_lifetime:
  assumes "token_endpoint e now gid ua (code_form code uri v) d = (TokenJson r, d')"
    and "db_ok e d" "env_ok e" "grant_id_ok gid" "now \<le> t"
  shows "((\<exists>cl. introspect e host t None (access_token r) d' = Active cl) \<longleftrightarrow> t < now + expires_in r)
    \<and> 0 < expires_in r \<and> expires_in r \<le> access_token_ttl e"
proof -
  have r: "redeem_code e now gid ua (code_form code uri v) d = (TokenJson r, d')" using assms(1) by simp
  obtain c :: auth_code and u :: user and g :: grant where c: "find_code e d code = Some c"
    and u: "get_user (o_enc e) d (code_user c) = Ret (Some u)" "enabled u"
    and f: "finish_issue e now (code_scope c) (new_grant e now gid ua (email u) CLIENT_ID (code_scope c)) = (g, r)"
    and d': "d' = (del_code (code_hash c) d)\<lparr>grants := grants d @ [g]\<rparr>"
    using redeem_cases [OF r] by auto
  have ok: "db_ok e d'" by (rule redeem_ok [OF assms(2,4) r])
  have gf: "grant_id g = gid" "token_generation g = 0" "grant_user g = email u"
    "access_expires_at g = limit_access e now (code_scope c) (new_grant e now gid ua (email u) CLIENT_ID (code_scope c))"
    using finish_issue_fields(1,2,5,8) [OF f] by (auto simp: new_grant_def)
  have fg: "find_grant d' gid = Some g" using find_grant_mem [OF ok, of g] gf(1) by (simp add: d')
  have "users d' = users d" by (simp add: d' del_code_def)
  then have "get_user (o_enc e) d' (grant_user g) = Ret (Some u)"
    using get_user_self [OF u(1)] get_user_users [of d' d] gf(3) by metis
  from introspect_derived [OF ok fg this u(2)]
  have "(\<exists>cl. introspect e host t None (access_token r) d' = Active cl) \<longleftrightarrow> t < access_expires_at g"
    using finish_issue_fields(9) [OF f] gf(2) by (simp add: new_grant_def)
  moreover have "now < access_expires_at g" "access_expires_at g \<le> now + access_token_ttl e"
    using assms(3) by (auto simp: gf(4) limit_access_def new_grant_def env_ok_def Let_def)
  moreover have "expires_in r = max 0 (access_expires_at g - now)"
    using finish_issue_fields(8,11) [OF f] by simp
  ultimately show ?thesis by auto
qed

section \<open>Forced re-authentication\<close>

definition dead :: "string \<Rightarrow> int \<Rightarrow> oauth_state \<Rightarrow> bool" where
  "dead gid T s \<longleftrightarrow> (\<forall>g\<in>set (grants (os_db s)). grant_id g = gid \<longrightarrow>
     access_expires_at g \<le> T \<and> (\<forall>r. refresh_expires_at g = Some r \<longrightarrow> r \<le> T))"

definition not_before :: "int \<Rightarrow> oauth_op \<Rightarrow> bool" where
  "not_before T op = (case op of OpToken now gid ua f \<Rightarrow> T \<le> now | _ \<Rightarrow> True)"

lemma step_dead:
  "\<lbrakk>dead gid T s; not_before T op \<and> \<not> draws_grant gid op\<rbrakk> \<Longrightarrow> dead gid T (oauth_step e s op)"
  unfolding dead_def
proof (intro ballI impI)
  fix g' assume b: "\<forall>g\<in>set (grants (os_db s)). grant_id g = gid \<longrightarrow>
      access_expires_at g \<le> T \<and> (\<forall>r. refresh_expires_at g = Some r \<longrightarrow> r \<le> T)"
    and nd: "not_before T op \<and> \<not> draws_grant gid op"
    and m: "g' \<in> set (grants (os_db (oauth_step e s op)))" "grant_id g' = gid"
  have "\<not> rotated e now g g'" if "op = OpToken now gid' ua f" "g \<in> set (grants (os_db s))" for now gid' ua f g
    using b nd m(2) that by (auto simp: rotated_def refresh_expired_def not_before_def Let_def split: option.splits)
  then show "access_expires_at g' \<le> T \<and> (\<forall>r. refresh_expires_at g' = Some r \<longrightarrow> r \<le> T)"
    using step_grants [OF m(1)] b nd m(2) by (fastforce simp: force_reauthentication_def)
qed

interpretation expiry: machine "oauth_step e" "\<lambda>op. not_before T op \<and> \<not> draws_grant gid op" "dead gid T" for e gid T
  by unfold_locales (rule step_dead)

text \<open>
  C4. Forced re-authentication is final: once every grant of a user is expired at time T, for
  example because the password was changed, then however the server runs on with token requests
  at time T or later, no token of a grant the user had at that moment is active at T or later
  and no refresh with one returns tokens.
\<close>
theorem forced_reauthentication_final:
  assumes "oauth_inv e s" "g \<in> set (grants (os_db s))" "grant_user g = who" "T \<le> t"
    and "list_all (\<lambda>op. op_ok op \<and> not_before T op \<and> \<not> draws_grant (grant_id g) op) ops"
    and "parse_mail_token e tok None = Some (kind, grant_id g, n)"
  shows "let d' = os_db (foldl (oauth_step e) (oauth_step e s (OpForce T who)) ops)
    in (\<forall>cl. introspect e host t protocol tok d' \<noteq> Active cl)
       \<and> (\<forall>r. fst (token_endpoint e t gid ua (refresh_form tok) d') \<noteq> TokenJson r)"
proof -
  define s1 where "s1 = oauth_step e s (OpForce T who)"
  define s' where "s' = foldl (oauth_step e) s1 ops"
  have inv1: "oauth_inv e s1" unfolding s1_def by (rule oauth_step_inv [OF assms(1)]) (simp add: op_ok_def)
  have uniq: "h = g" if "h \<in> set (grants (os_db s))" "grant_id h = grant_id g" for h
    using find_grant_mem [of e "os_db s"] that assms(1,2) unfolding oauth_inv_def by (metis option.inject)
  have "dead (grant_id g) T s1" unfolding dead_def
  proof (intro ballI impI)
    fix h assume h: "h \<in> set (grants (os_db s1))" "grant_id h = grant_id g"
    then obtain h0 where h0: "h0 \<in> set (grants (os_db s))"
      "h = (if grant_user h0 = who then force_reauthentication T h0 else h0)"
      by (auto simp: s1_def oauth_step_def force_user_reauthentication_def)
    then have "h0 = g" using uniq h(2) by (auto simp: force_reauthentication_def split: if_splits)
    then show "access_expires_at h \<le> T \<and> (\<forall>r. refresh_expires_at h = Some r \<longrightarrow> r \<le> T)"
      using h0 assms(3) by (auto simp: force_reauthentication_def)
  qed
  then have dead: "dead (grant_id g) T s'" unfolding s'_def
    by (rule expiry.inv_run) (use assms(5) in \<open>auto simp: list_all_iff\<close>)
  have "oauth_inv e s'" unfolding s'_def by (rule oauth.inv_run [OF inv1]) (use assms(5) in \<open>auto simp: list_all_iff\<close>)
  then have db: "db_ok e (os_db s')" by (simp add: oauth_inv_def)
  have same: "kind' = kind \<and> gid' = grant_id g \<and> n' = n" if "parse_mail_token e tok ek = Some (kind', gid', n')" for ek kind' gid' n'
  proof -
    have "parse_mail_token e tok None = Some (kind', gid', n')"
      using that by (rule parse_any_kind)
    then show ?thesis using assms(6) by simp
  qed
  have ex: "access_expires_at h \<le> T \<and> (\<forall>r. refresh_expires_at h = Some r \<longrightarrow> r \<le> T)"
    if "find_grant (os_db s') (grant_id g) = Some h" for h
    using dead find_grant_Some [OF that] unfolding dead_def by blast
  have "introspect e host t protocol tok (os_db s') \<noteq> Active cl" for cl
    using ex assms(4) same
    by (auto simp: introspect_def split: option.splits prod.splits outcome.splits if_splits)
  moreover have "fst (token_endpoint e t gid ua (refresh_form tok) (os_db s')) \<noteq> TokenJson r" for r
  proof
    assume "fst (token_endpoint e t gid ua (refresh_form tok) (os_db s')) = TokenJson r"
    then obtain d2 where "refresh_grant e t ua (refresh_form tok) (os_db s') = (TokenJson r, d2)"
      by (cases "refresh_grant e t ua (refresh_form tok) (os_db s')") auto
    then obtain h where h: "parse_mail_token e tok (Some ''refresh'') = Some (''refresh'', grant_id h, token_generation h)"
      "find_grant (os_db s') (grant_id h) = Some h" "\<not> refresh_expired e t h"
      using refresh_success [OF _ db] by metis
    have "grant_id h = grant_id g" using same [OF h(1)] by simp
    then show False using ex [of h] h(2,3) assms(4)
      by (auto simp: refresh_expired_def Let_def split: option.splits)
  qed
  ultimately show ?thesis by (simp add: s'_def s1_def Let_def)
qed

section \<open>Clean-up\<close>

text \<open>
  Clean-up deletes exactly the expired codes and never a usable grant: with an access
  lifetime of at most the retention period plus the idle period, each grant it removes has an
  expired access token and can no longer be refreshed, now or later; grants and codes it keeps
  are unchanged, and the counts it returns are the numbers of removed rows.
\<close>
theorem cleanup_safe:
  assumes "db_ok e d" "env_ok e" "access_token_ttl e \<le> EXPIRED_GRANT_RETENTION + refresh_token_idle e"
    and "cleanup_expired_records e now d = (d', n, m)"
  shows "set (codes d') = {c \<in> set (codes d). now < code_expires c}
    \<and> set (grants d') \<subseteq> set (grants d)
    \<and> (\<forall>g\<in>set (grants d) - set (grants d'). \<forall>t\<ge>now. access_expires_at g \<le> t \<and> refresh_expired e t g)
    \<and> n = length (codes d) - length (codes d') \<and> m = length (grants d) - length (grants d')"
proof -
  have d': "codes d' = filter (\<lambda>c. \<not> code_expired now c) (codes d)"
    "grants d' = filter (\<lambda>g. \<not> grant_collectable e now g) (grants d)"
    "n = length (filter (code_expired now) (codes d))" "m = length (filter (grant_collectable e now) (grants d))"
    using assms(4) by (auto simp: cleanup_expired_records_def)
  have pos: "0 < EXPIRED_GRANT_RETENTION" "0 < refresh_token_idle e"
    using assms(2) by (auto simp: EXPIRED_GRANT_RETENTION_def env_ok_def)
  have "access_expires_at g \<le> t \<and> refresh_expired e t g"
    if g: "g \<in> set (grants d)" "grant_collectable e now g" and t: "now \<le> t" for g t
  proof -
    obtain l where l: "last_refresh_at g = Some l" "access_expires_at g \<le> l + access_token_ttl e"
      "case refresh_expires_at g of None \<Rightarrow> True
         | Some r \<Rightarrow> access_expires_at g \<le> r \<and> access_expires_at g \<le> l + refresh_token_idle e"
      using g(1) assms(1) by (auto simp: db_ok_def grant_ok_def)
    show ?thesis
    proof (cases "refresh_expires_at g")
      case None
      then show ?thesis using g(2) l t pos assms(3)
        by (auto simp: grant_collectable_def refresh_expired_def Let_def)
    next
      case (Some r)
      then have "r \<le> now - EXPIRED_GRANT_RETENTION \<or> l + refresh_token_idle e \<le> now - EXPIRED_GRANT_RETENTION"
        using g(2) l(1) by (auto simp: grant_collectable_def Let_def)
      then show ?thesis using Some l t pos by (auto simp: refresh_expired_def Let_def)
    qed
  qed
  moreover have "length (filter P xs) = length xs - length (filter (\<lambda>x. \<not> P x) xs)" for P and xs :: "'a list"
    using sum_length_filter_compl [of P xs] by linarith
  ultimately show ?thesis
    using sum_length_filter_compl [of "code_expired now" "codes d"]
      sum_length_filter_compl [of "grant_collectable e now" "grants d"]
    by (auto simp: d' code_expired_def)
qed

section \<open>Consent\<close>

text \<open>
  C6. A code is created only by consent: if a request to the authorization endpoint adds a code,
  then it was a posted form of a logged-in, enabled user that was valid and not a refusal, for a
  request pending in that session and made by that user; the code is the user's, expires after
  five minutes, carries that request's redirect URI and PKCE challenge, and its scopes are among
  those requested, without POP3 when the user has it disabled, and at least one of them opens a
  mail protocol.
\<close>
theorem code_needs_consent:
  assumes "authorize e host now rem target cur fresh m p d = (resp, p', d')"
    and "c \<in> set (codes d')" "c \<notin> set (codes d)" "env_ok e" "pending_ok p"
  shows "\<exists>u form sel rid r u'. cur = Some u \<and> enabled u \<and> m = Post form sel False \<and> (rid, r) \<in> set p
    \<and> req_user r = email u \<and> rid \<notin> set (dict_keys p') \<and> valid_redirect_uri (req_redirect r)
    \<and> get_user (o_enc e) d (email u) = Ret (Some u') \<and> enabled u'
    \<and> c = new_code e now fresh u' r (scope_string sel) \<and> code_expires c = now + 300
    \<and> set (split_ws (code_scope c)) \<subseteq> set (split_ws (req_scope r))
    \<and> (\<not> enable_pop u \<longrightarrow> ''pop3'' \<notin> set (split_ws (code_scope c)))
    \<and> set (split_ws (code_scope c)) \<inter> set RESOURCE_SCOPES \<noteq> {}"
proof -
  obtain u where u: "cur = Some u" "enabled u"
    using assms(1,2,3) by (auto simp: authorize_def split: option.splits if_splits)
  obtain form sel deny where m: "m = Post form sel deny"
    using assms(1,2,3) u by (cases m) (auto simp: authorize_def split: prod.splits)
  have po: "authorize_post e host now u fresh form sel deny p d = (resp, p', d')"
    using assms(1) u m by (simp add: authorize_def)
  have cl: "set (codes (fst (cleanup_expired_records e now d))) \<subseteq> set (codes d)"
    by (auto simp: cleanup_expired_records_def)
  have ne: "d' \<noteq> d" "d' \<noteq> fst (cleanup_expired_records e now d)" using assms(2,3) cl by auto
  obtain rid r and u' :: user where r: "pending_request u form p = Some (rid, r)" "p' = dict_del rid p"
    "o_form_valid e (consent_scopes (split_ws (req_scope r)) u) sel" "\<not> deny"
    "set sel \<inter> set RESOURCE_SCOPES \<noteq> {}" "get_user (o_enc e) d (email u) = Ret (Some u')" "enabled u'"
    and d': "d' = (fst (cleanup_expired_records e now d))\<lparr>codes :=
       codes (fst (cleanup_expired_records e now d)) @ [new_code e now fresh u' r (scope_string sel)]\<rparr>"
    using authorize_post_cases [OF po] ne by blast
  have c: "c = new_code e now fresh u' r (scope_string sel)" using assms(2,3) cl by (auto simp: d')
  have mem: "(rid, r) \<in> set p" "req_user r = email u" using pending_request_Some [OF r(1)] by auto
  have sub: "set sel \<subseteq> set (consent_scopes (split_ws (req_scope r)) u)" using assms(4) r(3) by (auto simp: env_ok_def)
  then have sw: "set (split_ws (code_scope c)) = set sel"
    using scope_string_words [of sel] consent_scopes_sub [of "split_ws (req_scope r)" u]
    by (auto simp: c new_code_def)
  have "rid \<notin> set (dict_keys p')" by (simp add: r(2) keys_dict_del)
  moreover have "valid_redirect_uri (req_redirect r)" using mem(1) assms(5) by (auto simp: pending_ok_def request_ok_def)
  moreover have "\<not> enable_pop u \<longrightarrow> ''pop3'' \<notin> set sel" using sub by (auto simp: consent_scopes_def Let_def)
  moreover have "set sel \<subseteq> set (split_ws (req_scope r))" using sub consent_scopes_sub by fast
  moreover have "code_expires c = now + 300" by (simp add: c new_code_def AUTHORIZATION_CODE_TTL_def)
  ultimately show ?thesis using u m r(4-7) c mem sw by blast
qed

text \<open>
  C24. In every state the server reaches from an empty one, each session holds at most five
  pending requests, all of them valid; codes and grants have distinct keys; every code has a
  loopback redirect URI, a PKCE challenge and allowed scopes; every grant has a well-formed
  identifier, a refresh lifetime exactly when it has offline access, and an access expiry within
  the access lifetime, the refresh lifetime and the idle period of its last use.
\<close>
theorem oauth_reachable_ok:
  assumes "env_ok e" "codes d = []" "grants d = []" "list_all op_ok ops"
  shows "oauth_inv e (foldl (oauth_step e) \<lparr>os_sessions = [], os_db = d\<rparr> ops)"
  by (rule oauth.inv_run) (use assms in \<open>auto simp: oauth_inv_def db_ok_def\<close>)

section \<open>Examples\<close>

definition sample_verifier :: string where
  "sample_verifier = replicate 43 (CHR ''a'')"

definition sample_code :: auth_code where
  "sample_code = \<lparr>code_hash = ''63'', code_user = ''a@d.io'', code_client = CLIENT_ID,
     code_redirect = ''http://localhost/'', code_scope = ''imap offline_access'',
     code_challenge = b64url sample_verifier, code_expires = 300\<rparr>"

definition sample_grant :: grant where
  "sample_grant = \<lparr>grant_id = ''ABCDEFGHIJKLMNOPQRSTUV'', grant_user = ''a@d.io'', grant_client = CLIENT_ID,
     token_generation = 0, grant_scope = ''imap offline_access'', access_expires_at = 86400,
     refresh_expires_at = Some 7776000, client_name = ''Mail app'', last_refresh_at = Some 0\<rparr>"

definition sample_db :: db where
  "sample_db = empty_db\<lparr>users := [sample_user ''a'' ''d.io''], codes := [sample_code], grants := [sample_grant]\<rparr>"

definition sample_state :: oauth_state where
  "sample_state = \<lparr>os_sessions = [], os_db = sample_db\<rparr>"

fun is_token :: "response \<Rightarrow> bool" where
  "is_token (TokenJson r) = True"
| "is_token _ = False"

lemma is_token_pair: "is_token (fst x) \<Longrightarrow> \<exists>r d. x = (TokenJson r, d)"
  by (cases x; cases "fst x") auto

lemma sample_redirect: "valid_redirect_uri ''http://localhost/''"
  by code_simp

lemma sample_challenge: "challenge_ok (b64url sample_verifier)"
  by code_simp

lemma sample_scopes: "scopes_ok ''imap offline_access''" "scopes_ok ''imap''"
    "has_offline ''imap offline_access''"
  by code_simp+

lemma sample_code_ok: "code_ok sample_code"
  using sample_redirect sample_challenge sample_scopes by (simp add: code_ok_def sample_code_def)

lemma sample_grant_ok: "grant_ok sample_env sample_grant"
proof -
  have "grant_id_ok ''ABCDEFGHIJKLMNOPQRSTUV''"
    by (simp add: grant_id_ok_def is_alnum_def is_lower_def is_upper_def code_in_def)
  then show ?thesis using sample_scopes by (simp add: grant_ok_def sample_grant_def sample_env_def)
qed

lemma sample_env_ok: "env_ok sample_env"
  by (simp add: env_ok_def sample_env_def)

lemma sample_db_ok: "db_ok sample_env sample_db"
  using sample_code_ok sample_grant_ok by (simp add: db_ok_def sample_db_def empty_db_def)

lemma sample_inv: "oauth_inv sample_env sample_state"
  using sample_db_ok sample_env_ok by (simp add: oauth_inv_def sample_state_def)

lemma sample_lookup: "get_user Some sample_db ''a@d.io'' = Ret (Some (sample_user ''a'' ''d.io''))"
  by code_simp

lemma sample_hash: "authorization_code_hash sample_env ''c'' = ''63''"
  by code_simp

lemma sample_valid_verifier: "valid_verifier sample_verifier"
  by (simp add: list_all_iff valid_verifier_def sample_verifier_def verifier_char_def is_alnum_def is_lower_def code_in_def)

lemma sample_gid_ok: "grant_id_ok sample_gid" "grant_id_ok (grant_id sample_grant)"
  by (simp_all add: grant_id_ok_def sample_gid_def sample_grant_def is_alnum_def is_lower_def is_upper_def code_in_def)

lemma sample_redeems:
  "\<exists>r d. token_endpoint sample_env 10 sample_gid [] (code_form ''c'' ''http://localhost/'' sample_verifier) sample_db
    = (TokenJson r, d)"
proof -
  have f: "find_code sample_env sample_db ''c'' = Some sample_code"
    by (simp add: find_code_def sample_hash sample_db_def sample_code_def)
  have g: "sample_gid \<notin> grant_id ` set (grants sample_db)"
    by (simp add: sample_db_def sample_grant_def sample_gid_def)
  have p: "pkce_challenge sample_env sample_verifier = code_challenge sample_code"
    using sample_valid_verifier by (simp add: pkce_challenge_def sample_code_def sample_env_def)
  show ?thesis using f g p sample_lookup
    by (simp add: redeem_code_def issue_new_def sample_code_def sample_env_def sample_user_def del_code_def
        split: prod.split)
qed

lemma sample_refreshes:
  "\<exists>r d. token_endpoint sample_env 10 sample_gid [] (refresh_form (derive_mail_token sample_env ''refresh'' (grant_id sample_grant) 0)) sample_db
    = (TokenJson r, d)"
proof -
  have p: "parse_mail_token sample_env (derive_mail_token sample_env ''refresh'' (grant_id sample_grant) 0)
      (Some ''refresh'') = Some (''refresh'', grant_id sample_grant, 0)" by (rule parse_derive) (use sample_gid_ok in auto)
  show ?thesis
    using p sample_lookup by (simp add: refresh_grant_def sample_db_def sample_grant_def sample_env_def refresh_expired_def
        issue_refreshed_def sample_user_def CLIENT_ID_def split: prod.split)
qed

theorem code_redemption_iff_witness:
  "\<exists>r. fst (token_endpoint sample_env 10 sample_gid [] (code_form ''c'' ''http://localhost/'' sample_verifier) sample_db)
     = TokenJson r"
proof (rule code_redemption_iff [OF sample_db_ok, THEN iffD2], intro exI conjI)
  show "sample_code \<in> set (codes sample_db)" by (simp add: sample_db_def)
  show "code_hash sample_code = authorization_code_hash sample_env ''c''" by (simp add: sample_hash sample_code_def)
  show "10 < code_expires sample_code" by (simp add: sample_code_def)
  show "code_redirect sample_code = ''http://localhost/''" by (simp add: sample_code_def)
  show "valid_verifier sample_verifier" by (rule sample_valid_verifier)
  show "b64url (o_sha256 sample_env sample_verifier) = code_challenge sample_code"
    by (simp add: sample_env_def sample_code_def)
  show "get_user (o_enc sample_env) sample_db (code_user sample_code) = Ret (Some (sample_user ''a'' ''d.io''))"
    using sample_lookup by (simp add: sample_env_def sample_code_def)
  show "enabled (sample_user ''a'' ''d.io'')" by (simp add: sample_user_def)
  show "sample_gid \<notin> grant_id ` set (grants sample_db)"
    by (simp add: sample_db_def sample_grant_def sample_gid_def)
qed

theorem code_single_use_witness:
  "\<exists>r d1. token_endpoint sample_env 10 sample_gid [] (code_form ''c'' ''http://localhost/'' sample_verifier)
       (os_db sample_state) = (TokenJson r, d1)
     \<and> (\<forall>r'. fst (token_endpoint sample_env 11 ''x'' [] (code_form ''c'' ''http://localhost/'' sample_verifier)
          (os_db (foldl (oauth_step sample_env) (sample_state\<lparr>os_db := d1\<rparr>) [OpCleanup 11]))) \<noteq> TokenJson r')"
proof -
  obtain r d where t: "token_endpoint sample_env 10 sample_gid [] (code_form ''c'' ''http://localhost/'' sample_verifier)
      (os_db sample_state) = (TokenJson r, d)" using sample_redeems by (auto simp: sample_state_def)
  have "list_all (\<lambda>op. \<not> issues_hash sample_env (authorization_code_hash sample_env ''c'') op) [OpCleanup 11]"
    by (simp add: issues_hash_def)
  from code_single_use [OF t _ this] show ?thesis using t sample_db_ok by (simp add: sample_state_def)
qed

theorem refresh_single_use_witness:
  "\<exists>r d1. let tok = derive_mail_token sample_env ''refresh'' (grant_id sample_grant) 0;
       again = token_endpoint sample_env 11 ''x'' [] (refresh_form tok)
         (os_db (foldl (oauth_step sample_env) (sample_state\<lparr>os_db := d1\<rparr>) []))
     in token_endpoint sample_env 10 sample_gid [] (refresh_form tok) (os_db sample_state) = (TokenJson r, d1)
       \<and> fst again = OAuthError 400 ''invalid_grant'' None"
proof -
  let ?tok = "derive_mail_token sample_env ''refresh'' (grant_id sample_grant) 0"
  obtain r d where t: "token_endpoint sample_env 10 sample_gid [] (refresh_form ?tok) (os_db sample_state) = (TokenJson r, d)"
    using sample_refreshes by (auto simp: sample_state_def)
  from refresh_single_use [OF t sample_inv, of "[]" 11 "''x''" "[]"] t show ?thesis
    by (auto simp: Let_def)
qed

theorem introspect_sound_witness:
  "\<exists>cl. introspect sample_env ''mail.d.io'' 20 (Some ''imap'')
       (derive_mail_token sample_env ''access'' (grant_id sample_grant) 0) sample_db = Active cl
     \<and> cl_email cl = ''a@d.io'' \<and> (\<exists>g\<in>set (grants sample_db). 20 < access_expires_at g)"
proof -
  let ?tok = "derive_mail_token sample_env ''access'' (grant_id sample_grant) 0"
  have p: "parse_mail_token sample_env ?tok (Some ''access'') = Some (''access'', grant_id sample_grant, 0)"
    by (rule parse_derive) (use sample_gid_ok in auto)
  have pe: "protocol_enabled (Some ''imap'') sample_grant (sample_user ''a'' ''d.io'')" by code_simp
  have ne: "?tok \<noteq> []" by (simp add: derive_mail_token_def token_payload_def)
  obtain cl where c: "introspect sample_env ''mail.d.io'' 20 (Some ''imap'') ?tok sample_db = Active cl"
    "cl_email cl = ''a@d.io''"
    using p sample_lookup pe ne by (simp add: introspect_def find_grant_def sample_db_def sample_grant_def sample_env_def sample_user_def)
  show ?thesis using introspect_sound [OF c(1) sample_db_ok] c by blast
qed

theorem issued_token_lifetime_witness:
  "\<exists>r d'. token_endpoint sample_env 10 sample_gid [] (code_form ''c'' ''http://localhost/'' sample_verifier) sample_db
       = (TokenJson r, d')
     \<and> ((\<exists>cl. introspect sample_env ''h'' 20 None (access_token r) d' = Active cl) \<longleftrightarrow> 20 < 10 + expires_in r)"
proof -
  obtain r d where t: "token_endpoint sample_env 10 sample_gid [] (code_form ''c'' ''http://localhost/'' sample_verifier)
      sample_db = (TokenJson r, d)" using sample_redeems by auto
  from issued_token_lifetime [OF t sample_db_ok sample_env_ok sample_gid_ok(1), of 20 "''h''"] t show ?thesis by auto
qed

theorem forced_reauthentication_final_witness:
  "let d' = os_db (foldl (oauth_step sample_env) (oauth_step sample_env sample_state (OpForce 5 ''a@d.io'')) [OpCleanup 6])
   in \<forall>cl. introspect sample_env ''h'' 7 None (derive_mail_token sample_env ''access'' (grant_id sample_grant) 0) d' \<noteq> Active cl"
proof -
  have p: "parse_mail_token sample_env (derive_mail_token sample_env ''access'' (grant_id sample_grant) 0) None
    = Some (''access'', grant_id sample_grant, 0)" by (rule parse_derive) (use sample_gid_ok in auto)
  have g: "sample_grant \<in> set (grants (os_db sample_state))" "grant_user sample_grant = ''a@d.io''"
    by (simp_all add: sample_state_def sample_db_def sample_grant_def)
  have "list_all (\<lambda>op. op_ok op \<and> not_before 5 op \<and> \<not> draws_grant (grant_id sample_grant) op) [OpCleanup 6]"
    by (simp add: op_ok_def not_before_def draws_grant_def)
  from forced_reauthentication_final [OF sample_inv g _ this p, of 7] show ?thesis by (simp add: Let_def)
qed

theorem cleanup_safe_witness:
  "set (codes (fst (cleanup_expired_records sample_env 300 sample_db))) = {c \<in> set (codes sample_db). 300 < code_expires c}"
proof -
  obtain d n m where c: "cleanup_expired_records sample_env 300 sample_db = (d, n, m)"
    by (cases "cleanup_expired_records sample_env 300 sample_db")
  have "access_token_ttl sample_env \<le> EXPIRED_GRANT_RETENTION + refresh_token_idle sample_env"
    by (simp add: sample_env_def EXPIRED_GRANT_RETENTION_def)
  from cleanup_safe [OF sample_db_ok sample_env_ok this c] c show ?thesis by simp
qed

definition sample_request :: auth_request where
  "sample_request = \<lparr>req_client = CLIENT_ID, req_redirect = ''http://localhost/'', req_scope = ''imap'',
     req_challenge = b64url sample_verifier, req_state = [], req_user = ''a@d.io''\<rparr>"

theorem code_needs_consent_witness:
  "\<exists>resp p' d'. authorize sample_env ''mail.d.io'' 10 (\<lambda>_. True) [] (Some (sample_user ''a'' ''d.io'')) ''n''
       (Post [(''request_id'', ''q'')] [''imap''] False) [(''q'', sample_request)] sample_db = (resp, p', d')
     \<and> (\<exists>c\<in>set (codes d'). c \<notin> set (codes sample_db) \<and> code_expires c = 10 + 300)"
proof -
  let ?a = "authorize sample_env ''mail.d.io'' 10 (\<lambda>_. True) [] (Some (sample_user ''a'' ''d.io'')) ''n''
       (Post [(''request_id'', ''q'')] [''imap''] False) [(''q'', sample_request)] sample_db"
  let ?c = "new_code sample_env 10 ''n'' (sample_user ''a'' ''d.io'') sample_request (scope_string [''imap''])"
  have h: "authorization_code_hash sample_env ''n'' = ''6e''" by code_simp
  have cs: "o_form_valid sample_env (consent_scopes (split_ws ''imap'') (sample_user ''a'' ''d.io'')) [''imap'']"
    by code_simp
  have "pending_request (sample_user ''a'' ''d.io'') [(''request_id'', ''q'')] [(''q'', sample_request)]
      = Some (''q'', sample_request)"
    by (simp add: pending_request_def field_def dict_get_def sample_request_def sample_user_def)
  then have m: "?c \<in> set (codes (snd (snd ?a)))" "?c \<notin> set (codes sample_db)"
    using h cs sample_lookup
    by (simp_all add: authorize_def authorize_post_def cleanup_expired_records_def code_expired_def new_code_def
        sample_user_def sample_env_def sample_db_def sample_code_def sample_request_def RESOURCE_SCOPES_def)
  have "pending_ok [(''q'', sample_request)]"
    using sample_redirect sample_challenge sample_scopes
    by (simp add: pending_ok_def dict_keys_def request_ok_def sample_request_def)
  moreover obtain resp p' d' where a: "?a = (resp, p', d')" by (cases ?a)
  ultimately have "code_expires ?c = 10 + 300"
    using code_needs_consent [OF a _ m(2) sample_env_ok] m(1) by auto
  then show ?thesis using a m by auto
qed

theorem oauth_reachable_ok_witness:
  "oauth_inv sample_env (foldl (oauth_step sample_env)
     \<lparr>os_sessions = [], os_db = empty_db\<lparr>users := [sample_user ''a'' ''d.io'']\<rparr>\<rparr>
     [OpAuthorize ''s'' ''mail.d.io'' 10 True (Some (sample_user ''a'' ''d.io'')) ''r''
        (Get [(''client_id'', ''mailu'')]), OpToken 11 sample_gid [] (refresh_form ''x''), OpCleanup 12])"
  by (intro oauth_reachable_ok [OF sample_env_ok]) (simp_all add: empty_db_def op_ok_def sample_gid_ok)

end
