(* ===== verification/Values.thy ===== *)
theory Values
  imports Mail_Db "HOL-Library.Product_Lexorder"
begin

text \<open>
  Values that cross the program's boundaries: JSON as the \<open>json\<close> module loads it (a float by its
  mantissa and exponent), UTC times of the Gregorian calendar with their arithmetic, and
  UUIDs as \<open>uuid.UUID\<close> parses and prints them.
\<close>

section \<open>JSON\<close>

datatype pyfloat = Finite int int | Infinite bool | NaN

datatype json = JNull | JBool bool | JInt int | JFloat pyfloat | JStr string | JList "json list"
  | JObj "(string \<times> json) list"

text \<open>Truth of a loaded value, as \<open>or\<close> and \<open>if\<close> use it.\<close>

fun truthy :: "json \<Rightarrow> bool" where
  "truthy JNull = False"
| "truthy (JBool b) = b"
| "truthy (JInt i) = (i \<noteq> 0)"
| "truthy (JFloat (Finite m e)) = (m \<noteq> 0)"
| "truthy (JFloat _) = True"
| "truthy (JStr s) = (s \<noteq> [])"
| "truthy (JList xs) = (xs \<noteq> [])"
| "truthy (JObj d) = (d \<noteq> [])"

definition get_default :: "(string, json) dict \<Rightarrow> string \<Rightarrow> json \<Rightarrow> json" where
  "get_default d k v = (case dict_get d k of None \<Rightarrow> v | Some x \<Rightarrow> x)"

text \<open>\<open>d.get(k) or other\<close>.\<close>

definition get_or :: "(string, json) dict \<Rightarrow> string \<Rightarrow> json \<Rightarrow> json" where
  "get_or d k v = (let x = get_default d k JNull in if truthy x then x else v)"

fun strings_of :: "json list \<Rightarrow> string list" where
  "strings_of [] = []"
| "strings_of (JStr s # xs) = s # strings_of xs"
| "strings_of (_ # xs) = strings_of xs"

section \<open>Time\<close>

text \<open>Year, month, day and the time of day in a fixed unit; ordered lexicographically.\<close>

type_synonym datetime = "int \<times> int \<times> int \<times> int"

definition is_leap :: "int \<Rightarrow> bool" where
  "is_leap y \<longleftrightarrow> y mod 4 = 0 \<and> (y mod 100 \<noteq> 0 \<or> y mod 400 = 0)"

definition month_days :: "int \<Rightarrow> int \<Rightarrow> int" where
  "month_days y m = (if m = 2 then (if is_leap y then 29 else 28) else if m \<in> {4, 6, 9, 11} then 30 else 31)"

definition date_ok :: "datetime \<Rightarrow> bool" where
  "date_ok t \<longleftrightarrow> (case t of (y, m, d, s) \<Rightarrow> 1 \<le> m \<and> m \<le> 12 \<and> 1 \<le> d \<and> d \<le> month_days y m)"

definition next_day :: "datetime \<Rightarrow> datetime" where
  "next_day t = (case t of (y, m, d, s) \<Rightarrow>
     if d < month_days y m then (y, m, d + 1, s) else if m < 12 then (y, m + 1, 1, s) else (y + 1, 1, 1, s))"

definition prev_day :: "datetime \<Rightarrow> datetime" where
  "prev_day t = (case t of (y, m, d, s) \<Rightarrow>
     if 1 < d then (y, m, d - 1, s)
     else if 1 < m then (y, m - 1, month_days y (m - 1), s) else (y - 1, 12, 31, s))"

definition add_days :: "int \<Rightarrow> datetime \<Rightarrow> datetime" where
  "add_days n t = (if 0 \<le> n then (next_day ^^ nat n) t else (prev_day ^^ nat (- n)) t)"

section \<open>UUIDs\<close>

text \<open>\<open>int(s, 16)\<close>; None is ValueError.\<close>

definition py_int16 :: "string \<Rightarrow> int option" where
  "py_int16 s =
     (case py_sign (strip_str s) of (neg, d) \<Rightarrow>
        let d' = (if prefix ''0x'' (lower d) then (if prefix ''_'' (drop 2 d) then drop 3 d else drop 2 d) else d) in
        if list_all (\<lambda>g. g \<noteq> [] \<and> list_all (\<lambda>c. is_digit c \<or> code_in 97 102 c \<or> code_in 65 70 c) g)
             (split_on CHR ''_'' d')
        then (let n = foldl (\<lambda>a c. 16 * a + (if is_digit c then of_char c - 48
                    else if is_lower c then of_char c - 87 else of_char c - 55)) (0 :: nat)
                    (filter (\<lambda>c. c \<noteq> CHR ''_'') d')
              in Some (if neg then - int n else int n))
        else None)"

definition uuid_text :: "nat \<Rightarrow> string" where
  "uuid_text n =
     (let h = map (\<lambda>k. hex_lower (n div 16 ^ (31 - k) mod 16)) [0..<32] in
      take 8 h @ ''-'' @ take 4 (drop 8 h) @ ''-'' @ take 4 (drop 12 h) @ ''-'' @ take 4 (drop 16 h)
      @ ''-'' @ drop 20 h)"

text \<open>\<open>str(uuid.UUID(s))\<close>; None is ValueError.\<close>

definition uuid_canon :: "string \<Rightarrow> string option" where
  "uuid_canon s =
     (let h = filter (\<lambda>c. c \<noteq> CHR ''-'')
                (strip_chars (\<lambda>c. c \<in> set ''{}'') (py_replace ''uuid:'' [] (py_replace ''urn:'' [] s))) in
      if str_len h \<noteq> 32 then None
      else (case py_int16 h of
              None \<Rightarrow> None
            | Some i \<Rightarrow> if 0 \<le> i \<and> i < 2 ^ 128 then Some (uuid_text (nat i)) else None))"

section \<open>Lemmas\<close>

lemma month_days_bounds: "28 \<le> month_days y m \<and> month_days y m \<le> 31"
  by (simp add: month_days_def)

lemma next_day_ok: "date_ok t \<Longrightarrow> date_ok (next_day t)"
  using month_days_bounds by (auto simp: date_ok_def next_day_def split: prod.splits intro: order_trans [OF _ conjunct1 [OF month_days_bounds]])

lemma prev_day_ok: "date_ok t \<Longrightarrow> date_ok (prev_day t)"
  using month_days_bounds
  by (auto simp: date_ok_def prev_day_def month_days_def split: prod.splits)

lemma add_days_ok: "date_ok t \<Longrightarrow> date_ok (add_days n t)"
proof -
  assume t: "date_ok t"
  have "date_ok ((next_day ^^ k) t)" "date_ok ((prev_day ^^ k) t)" for k
    using t by (induction k) (auto intro: next_day_ok prev_day_ok)
  then show ?thesis by (simp add: add_days_def)
qed

lemma next_day_later: "t < next_day t"
  by (cases t) (auto simp: next_day_def less_prod_def)

lemma add_days_mono: "0 \<le> n \<Longrightarrow> t \<le> add_days n t"
proof -
  assume n: "0 \<le> n"
  have "t \<le> (next_day ^^ k) t" for k
    by (induction k) (auto intro: order_trans less_imp_le [OF next_day_later])
  then show ?thesis using n by (simp add: add_days_def)
qed

end
