(* ===== verification/Quarantine_Repo.thy ===== *)
theory Quarantine_Repo
  imports Values
begin

text \<open>
  The file repository of rejected and greylisted messages (\<open>quarantine_repository.py\<close>).  A
  directory is two dictionaries keyed by the stem of the file name: metadata files, each with the
  JSON it holds (None when it does not parse) and its modification time, and message files.  The
  ISO parser of \<open>datetime\<close> is an argument; I/O errors are not modelled, but \<open>store\<close> is also
  given as the sequence of its file operations.
\<close>

section \<open>Records\<close>

record repo =
  metas :: "(string, json option \<times> datetime) dict"
  mails :: "(string, string) dict"

definition GREYLIST_RETENTION_DAYS :: int where
  "GREYLIST_RETENTION_DAYS = 7"

definition kind_of :: "json \<Rightarrow> json" where
  "kind_of meta = (case meta of JObj d \<Rightarrow> get_default d ''kind'' (JStr ''quarantine'') | _ \<Rightarrow> JNull)"

definition is_key :: "string \<Rightarrow> bool" where
  "is_key s \<longleftrightarrow> length s = 64 \<and> list_all (\<lambda>c. is_digit c \<or> code_in 97 102 c) s"

definition record_id :: "string \<Rightarrow> string option" where
  "record_id s = (case uuid_canon s of Some u \<Rightarrow> Some u | None \<Rightarrow> if is_key s then Some s else None)"

definition is_uuid :: "string \<Rightarrow> bool" where
  "is_uuid s \<longleftrightarrow> uuid_canon s = Some s"

section \<open>Operations\<close>

text \<open>The file operations that make a stored record visible, in their order.\<close>

datatype file_op = Put_mail string string | Put_meta string json datetime

fun file_step :: "file_op \<Rightarrow> repo \<Rightarrow> repo" where
  "file_step (Put_mail i m) r = r\<lparr>mails := dict_set i m (mails r)\<rparr>"
| "file_step (Put_meta i j t) r = r\<lparr>metas := dict_set i (Some j, t) (metas r)\<rparr>"

definition valid_identity :: "string \<Rightarrow> string option \<Rightarrow> string \<Rightarrow> bool" where
  "valid_identity rid raw kind \<longleftrightarrow>
     kind \<in> {''quarantine'', ''greylist''}
     \<and> (kind = ''quarantine'' \<longrightarrow> is_uuid rid \<and> raw \<noteq> None \<and> raw \<noteq> Some [])
     \<and> (kind = ''greylist'' \<longrightarrow> is_key rid)"

definition stored_record :: "string \<Rightarrow> string \<Rightarrow> (string, json) dict \<Rightarrow> (string, json) dict" where
  "stored_record now_text kind metadata =
     (let r = dict_set ''kind'' (JStr kind) metadata in dict_set ''received'' (get_or r ''received'' (JStr now_text)) r)"

definition store_ops ::
  "datetime \<Rightarrow> string \<Rightarrow> string \<Rightarrow> string option \<Rightarrow> (string, json) dict \<Rightarrow> string \<Rightarrow> (string \<times> file_op list) outcome" where
  "store_ops now now_text rid0 raw metadata kind =
     (case record_id rid0 of
        None \<Rightarrow> Exn ValueError
      | Some rid \<Rightarrow>
          if \<not> valid_identity rid raw kind then Exn ValueError
          else Ret (rid, (case raw of None \<Rightarrow> [] | Some m \<Rightarrow> [Put_mail rid m])
                         @ [Put_meta rid (JObj (stored_record now_text kind metadata)) now]))"

definition store_record ::
  "datetime \<Rightarrow> string \<Rightarrow> string \<Rightarrow> string option \<Rightarrow> (string, json) dict \<Rightarrow> string \<Rightarrow> repo \<Rightarrow> (string \<times> repo) outcome" where
  "store_record now now_text rid0 raw metadata kind r =
     bind_out (store_ops now now_text rid0 raw metadata kind) (\<lambda>(rid, ops). Ret (rid, fold file_step ops r))"

definition received_time :: "(string \<Rightarrow> datetime option) \<Rightarrow> json \<Rightarrow> datetime option" where
  "received_time fromiso v =
     (case v of
        JStr s \<Rightarrow> fromiso (py_replace ''Z'' ''+00:00'' s)
      | JInt i \<Rightarrow> fromiso (str_of_int i)
      | _ \<Rightarrow> None)"

definition expired :: "(string \<Rightarrow> datetime option) \<Rightarrow> datetime \<Rightarrow> datetime \<Rightarrow> json \<Rightarrow> int \<Rightarrow> json \<Rightarrow> bool" where
  "expired fromiso now mtime meta retention kind =
     (if kind = JStr ''quarantine'' then add_days retention mtime < now
      else (case meta of
              JObj d \<Rightarrow> (case Option.bind (dict_get d ''received'') (received_time fromiso) of
                           None \<Rightarrow> True | Some t \<Rightarrow> add_days retention t < now)
            | _ \<Rightarrow> True))"

definition unlink_record :: "string \<Rightarrow> repo \<Rightarrow> repo" where
  "unlink_record i r = r\<lparr>metas := dict_del i (metas r), mails := dict_del i (mails r)\<rparr>"

definition retention_of :: "int \<Rightarrow> int \<Rightarrow> json \<Rightarrow> int" where
  "retention_of qret gret kind =
     (if kind = JStr ''quarantine'' then qret else if kind = JStr ''greylist'' then gret else 0)"

definition meta_dead :: "(string \<Rightarrow> datetime option) \<Rightarrow> datetime \<Rightarrow> int \<Rightarrow> int \<Rightarrow> json option \<times> datetime \<Rightarrow> bool" where
  "meta_dead fromiso now qret gret f =
     (case f of (None, _) \<Rightarrow> True
      | (Some meta, mtime) \<Rightarrow>
          (let kind = kind_of meta; ret = retention_of qret gret kind in
           ret = 0 \<or> expired fromiso now mtime meta ret kind))"

text \<open>One pass over the metadata files, then one over the message files; an unparsable file is
  removed without being counted.\<close>

definition cleanup_meta ::
  "(string \<Rightarrow> datetime option) \<Rightarrow> datetime \<Rightarrow> int \<Rightarrow> int \<Rightarrow> string \<times> json option \<times> datetime \<Rightarrow> repo \<times> nat \<Rightarrow> repo \<times> nat" where
  "cleanup_meta fromiso now qret gret f acc =
     (case (f, acc) of ((i, m), (r, n)) \<Rightarrow>
        if meta_dead fromiso now qret gret m
        then (unlink_record i r, if fst m = None then n else n + 1) else (r, n))"

definition cleanup_mail :: "string \<times> string \<Rightarrow> repo \<times> nat \<Rightarrow> repo \<times> nat" where
  "cleanup_mail f acc =
     (case (f, acc) of ((i, _), (r, n)) \<Rightarrow>
        if dict_get (metas r) i = None then (r\<lparr>mails := dict_del i (mails r)\<rparr>, n + 1) else (r, n))"

definition cleanup_expired ::
  "(string \<Rightarrow> datetime option) \<Rightarrow> datetime \<Rightarrow> int \<Rightarrow> int \<Rightarrow> repo \<Rightarrow> repo \<times> nat" where
  "cleanup_expired fromiso now qret gret r =
     (let (r1, n1) = fold (cleanup_meta fromiso now qret gret) (metas r) (r, 0)
      in fold cleanup_mail (mails r1) (r1, n1))"

definition entry_of :: "repo \<Rightarrow> string option \<Rightarrow> string \<times> json option \<times> datetime \<Rightarrow> (string, json) dict option" where
  "entry_of r kind f =
     (case f of
        (i, Some (JObj d), _) \<Rightarrow>
          (let k = kind_of (JObj d); mail = dict_get (mails r) i in
           if k \<notin> {JStr ''quarantine'', JStr ''greylist''} \<or> (\<exists>w\<in>set_option kind. w \<noteq> [] \<and> k \<noteq> JStr w) then None
           else if k = JStr ''quarantine'' \<and> mail = None then None
           else (let d1 = dict_set ''id'' (JStr i) (dict_set ''kind'' k d);
                     d2 = (case mail of None \<Rightarrow> d1 | Some m \<Rightarrow> dict_set ''size'' (JInt (int (length m))) d1)
                 in Some (if k = JStr ''greylist'' then dict_set ''greylisted'' (JBool True) d2 else d2)))
      | _ \<Rightarrow> None)"

text \<open>Newest first by the text of \<open>received\<close>, a stable sort; every record the program writes has
  one.  Comparing values of other types raises TypeError.\<close>

fun is_str :: "json \<Rightarrow> bool" where
  "is_str (JStr s) = True"
| "is_str _ = False"

fun text_of :: "json \<Rightarrow> string" where
  "text_of (JStr s) = s"
| "text_of _ = []"

definition sort_newest :: "(string, json) dict list \<Rightarrow> (string, json) dict list outcome" where
  "sort_newest xs =
     (let key = (\<lambda>d. get_default d ''received'' (JStr [])) in
      if list_all (\<lambda>d. is_str (key d)) xs then Ret (rev (sort_key (\<lambda>d. text_of (key d)) (rev xs)))
      else if length xs \<le> 1 then Ret xs else Exn TypeError)"

definition record_entries :: "string option \<Rightarrow> repo \<Rightarrow> (string, json) dict list outcome" where
  "record_entries kind r = sort_newest (List.map_filter (entry_of r kind) (metas r))"

definition delete_record :: "string \<Rightarrow> string option \<Rightarrow> repo \<Rightarrow> bool \<times> repo" where
  "delete_record rid0 kind r =
     (case record_id rid0 of
        None \<Rightarrow> (False, r)
      | Some i \<Rightarrow>
          (case dict_get (metas r) i of
             Some (Some meta, _) \<Rightarrow>
               if \<exists>k\<in>set_option kind. k \<noteq> [] \<and> kind_of meta \<noteq> JStr k then (False, r)
               else (True, unlink_record i r)
           | _ \<Rightarrow> (False, r)))"

definition get_record ::
  "(string \<Rightarrow> datetime option) \<Rightarrow> datetime \<Rightarrow> string \<Rightarrow> string \<Rightarrow> int \<Rightarrow> repo \<Rightarrow>
   ((string, json) dict \<times> string) option \<times> repo" where
  "get_record fromiso now rid0 kind retention r =
     (case record_id rid0 of
        None \<Rightarrow> (None, r)
      | Some i \<Rightarrow>
          if (kind = ''quarantine'' \<and> \<not> is_uuid i) \<or> (kind = ''greylist'' \<and> \<not> is_key i) then (None, r)
          else (case dict_get (metas r) i of
             Some (Some (JObj d), mtime) \<Rightarrow>
               if kind_of (JObj d) \<noteq> JStr kind then (None, r)
               else if expired fromiso now mtime (JObj d) retention (JStr kind) then (None, snd (delete_record i (Some kind) r))
               else (case dict_get (mails r) i of
                  None \<Rightarrow> (None, snd (delete_record i (Some kind) r))
                | Some m \<Rightarrow>
                    (let d1 = dict_set ''size'' (JInt (int (length m))) (dict_set ''id'' (JStr i) (dict_set ''kind'' (JStr kind) d))
                     in (Some (if kind = ''greylist'' then dict_set ''greylisted'' (JBool True) d1 else d1, m), r)))
           | _ \<Rightarrow> (None, r)))"

section \<open>Lemmas\<close>

lemma store_Ret:
  assumes "store_record now nt rid raw md kind r = Ret (i, r')"
  shows "record_id rid = Some i" "valid_identity i raw kind"
    "\<And>k. dict_get (metas r') k = (if k = i then Some (Some (JObj (stored_record nt kind md)), now) else dict_get (metas r) k)"
    "\<And>k. dict_get (mails r') k = (if k = i \<and> raw \<noteq> None then raw else dict_get (mails r) k)"
  using assms by (auto simp: store_record_def store_ops_def split: option.splits if_splits)

lemma unlink_get [simp]:
  "dict_get (metas (unlink_record i r)) k = (if k = i then None else dict_get (metas r) k)"
  "dict_get (mails (unlink_record i r)) k = (if k = i then None else dict_get (mails r) k)"
  by (simp_all add: unlink_record_def)

lemma fold_cleanup_meta:
  fixes fromiso now q g
  defines "dead \<equiv> meta_dead fromiso now q g"
  shows "dict_get (metas (fst (fold (cleanup_meta fromiso now q g) fs (r, n)))) i
      = (if \<exists>m. (i, m) \<in> set fs \<and> dead m then None else dict_get (metas r) i)
    \<and> dict_get (mails (fst (fold (cleanup_meta fromiso now q g) fs (r, n)))) i
      = (if \<exists>m. (i, m) \<in> set fs \<and> dead m then None else dict_get (mails r) i)"
proof (induction fs arbitrary: r n)
  case (Cons f fs)
  obtain j m where f: "f = (j, m)" by (cases f) blast
  have ex: "(\<exists>x. (i, x) \<in> set (f # fs) \<and> dead x) \<longleftrightarrow> (j = i \<and> dead m) \<or> (\<exists>x. (i, x) \<in> set fs \<and> dead x)"
    unfolding f list.set insert_iff prod.inject by blast
  show ?case
  proof (cases "dead m")
    case True
    then obtain n' where "cleanup_meta fromiso now q g f (r, n) = (unlink_record j r, n')"
      by (simp add: cleanup_meta_def f dead_def)
    then show ?thesis unfolding ex using Cons.IH [of "unlink_record j r" n'] True
      by (cases "j = i") (auto simp del: split_paired_Ex split_paired_All)
  next
    case False
    then have "cleanup_meta fromiso now q g f (r, n) = (r, n)" by (simp add: cleanup_meta_def f dead_def)
    then show ?thesis unfolding ex using Cons.IH [of r n] False
      by (simp del: split_paired_Ex split_paired_All)
  qed
qed simp

lemma fold_cleanup_mail:
  "metas (fst (fold cleanup_mail ms (r, n))) = metas r
   \<and> dict_get (mails (fst (fold cleanup_mail ms (r, n)))) i
      = (if i \<in> fst ` set ms \<and> dict_get (metas r) i = None then None else dict_get (mails r) i)"
  by (induction ms arbitrary: r n) (auto simp: cleanup_mail_def split: prod.splits)

section \<open>Properties\<close>

text \<open>
  C37. A stored quarantine message can be read back, under the identifier \<open>store\<close> returned, until
  its retention ends: with the message, the identifier and every field of its metadata; after
  that, reading it finds nothing and removes both files.  Other records are not touched.
\<close>
theorem stored_message_found:
  assumes "store_record now nt rid raw md ''quarantine'' r = Ret (i, r')"
  shows "(if add_days ret now < t then get_record fromiso t i ''quarantine'' ret r' = (None, unlink_record i r')
      else \<exists>d m. get_record fromiso t i ''quarantine'' ret r' = (Some (d, m), r') \<and> raw = Some m
             \<and> dict_get d ''id'' = Some (JStr i)
             \<and> (\<forall>k. k \<notin> {''id'', ''kind'', ''size'', ''received''} \<longrightarrow> dict_get d k = dict_get md k))
    \<and> (\<forall>k. k \<noteq> i \<longrightarrow> dict_get (metas r') k = dict_get (metas r) k \<and> dict_get (mails r') k = dict_get (mails r) k)"
proof -
  note st = store_Ret [OF assms]
  let ?d = "stored_record nt ''quarantine'' md"
  have id: "is_uuid i" "raw \<noteq> None" using st(2) by (auto simp: valid_identity_def)
  then have rec: "record_id i = Some i" by (simp add: record_id_def is_uuid_def)
  have k: "kind_of (JObj ?d) = JStr ''quarantine''"
    by (simp add: kind_of_def stored_record_def get_default_def Let_def)
  have del: "snd (delete_record i (Some ''quarantine'') r') = unlink_record i r'"
    using st(3) [of i] rec k by (simp add: delete_record_def)
  obtain m where m: "raw = Some m" using id(2) by blast
  have g: "get_record fromiso t i ''quarantine'' ret r' =
      (if add_days ret now < t then (None, unlink_record i r')
       else (Some (dict_set ''size'' (JInt (int (length m))) (dict_set ''id'' (JStr i) (dict_set ''kind'' (JStr ''quarantine'') ?d)), m), r'))"
    using st(3,4) rec id k del m by (simp add: get_record_def expired_def Let_def)
  have "dict_get ?d k = dict_get md k" if "k \<notin> {''id'', ''kind'', ''size'', ''received''}" for k
    using that by (simp add: stored_record_def Let_def)
  then show ?thesis using g m st(3,4) by auto
qed

text \<open>Every readable quarantine record has its message.\<close>

definition complete :: "repo \<Rightarrow> bool" where
  "complete r \<longleftrightarrow>
     (\<forall>i d t. dict_get (metas r) i = Some (Some (JObj d), t) \<and> kind_of (JObj d) = JStr ''quarantine''
        \<longrightarrow> dict_get (mails r) i \<noteq> None)"

text \<open>
  C38. Storing is safe against a crash.  Stopped after any number of its file operations, \<open>store\<close>
  leaves a repository in which every quarantine record still has its message, and until the last
  operation the metadata, which is what makes a record visible, is unchanged.
\<close>
theorem store_crash_safe:
  assumes "store_ops now nt rid raw md kind = Ret (i, ops)" "complete r"
  shows "complete (fold file_step (take n ops) r)
    \<and> (n < length ops \<longrightarrow> metas (fold file_step (take n ops) r) = metas r)"
proof -
  let ?put = "Put_meta i (JObj (stored_record nt kind md)) now"
  have ops: "ops = (case raw of None \<Rightarrow> [] | Some m \<Rightarrow> [Put_mail i m]) @ [?put]" and v: "valid_identity i raw kind"
    using assms(1) by (auto simp: store_ops_def split: option.splits if_splits)
  have k: "kind_of (JObj (stored_record nt kind md)) = JStr kind"
    by (simp add: kind_of_def stored_record_def get_default_def Let_def)
  show ?thesis
  proof (cases raw)
    case None
    then have nq: "kind \<noteq> ''quarantine''" using v by (auto simp: valid_identity_def)
    show ?thesis using assms(2) ops None k nq by (cases n) (auto simp: complete_def split: if_splits)
  next
    case (Some m)
    consider "n = 0" | "n = 1" | "2 \<le> n" by linarith
    then show ?thesis
      by cases (use assms(2) ops Some k in \<open>auto simp: complete_def take_Cons' split: if_splits\<close>)
  qed
qed

text \<open>
  Clean-up leaves exactly the records to keep: a metadata file survives, unchanged, if and only
  if it parses, is of a known kind and is within the retention of its kind, and a message file
  survives exactly next to a surviving metadata file; a second clean-up changes nothing.
\<close>
theorem repository_cleanup_exact:
  assumes "distinct (dict_keys (metas r))"
  shows "dict_get (metas (fst (cleanup_expired fromiso now q g r))) i =
      (case dict_get (metas r) i of
         Some m \<Rightarrow> if meta_dead fromiso now q g m then None else Some m
       | None \<Rightarrow> None)
    \<and> dict_get (mails (fst (cleanup_expired fromiso now q g r))) i =
      (if dict_get (metas (fst (cleanup_expired fromiso now q g r))) i = None then None else dict_get (mails r) i)"
proof -
  obtain r1 n1 where f: "fold (cleanup_meta fromiso now q g) (metas r) (r, 0) = (r1, n1)" by (rule prod.exhaust)
  have mem: "(\<exists>m. (i, m) \<in> set (metas r) \<and> meta_dead fromiso now q g m)
      \<longleftrightarrow> (\<exists>m. dict_get (metas r) i = Some m \<and> meta_dead fromiso now q g m)"
    using assms by (metis dict_get_def dict_keys_def map_of_eq_Some_iff)
  note r1 = fold_cleanup_meta [of fromiso now q g "metas r" r 0 i, unfolded f fst_conv mem]
  have c: "fst (cleanup_expired fromiso now q g r) = fst (fold cleanup_mail (mails r1) (r1, n1))"
    by (simp add: cleanup_expired_def f)
  note r2 = fold_cleanup_mail [of "mails r1" r1 n1, folded c]
  have "i \<in> fst ` set (mails r1) \<longleftrightarrow> dict_get (mails r1) i \<noteq> None"
    using dict_get_None_iff [of "mails r1" i] by (auto simp: dict_keys_def)
  then show ?thesis
    using r1 r2 by (cases "dict_get (metas r) i") auto
qed


section \<open>Examples\<close>

definition sample_id :: string where
  "sample_id = ''00000000-0000-0000-0000-00000000002a''"

lemma sample_id_uuid: "uuid_canon sample_id = Some sample_id"
proof -
  have h: "filter (\<lambda>c. c \<noteq> CHR ''-'') (strip_chars (\<lambda>c. c \<in> set ''{}'')
      (py_replace ''uuid:'' [] (py_replace ''urn:'' [] sample_id))) = replicate 30 (CHR ''0'') @ ''2a''"
    by (simp add: sample_id_def strip_chars_def eval_nat_numeral)
  have v: "py_int16 (replicate 30 (CHR ''0'') @ ''2a'') = Some 42"
    by (simp add: py_int16_def eval_nat_numeral strip_chars_def is_space_str_def code_in_def is_digit_def is_lower_def
        lower_char_def is_upper_def)
  have "(48 :: nat) = of_char CHR ''0''" "(50 :: nat) = of_char CHR ''2''" "(97 :: nat) = of_char CHR ''a''" by simp_all
  then have c: "char_of (48 :: nat) = CHR ''0''" "char_of (50 :: nat) = CHR ''2''" "char_of (97 :: nat) = CHR ''a''"
    by (simp_all only: char_of_char)
  have t: "uuid_text 42 = sample_id"
    by (simp add: uuid_text_def sample_id_def hex_lower_def upt_rec [of 0] upt_rec c)
  have "str_len (replicate 30 (CHR ''0'') @ ''2a'') = 32" by (simp add: str_len_def code_in_def)
  then show ?thesis unfolding uuid_canon_def h Let_def by (simp add: v t)
qed

definition sample_store :: "(string \<times> repo) outcome" where
  "sample_store = store_record (2024, 1, 31, 0) ''now'' sample_id (Some ''mail'') [(''from'', JStr ''a@x.org'')] ''quarantine''
     \<lparr>metas = [], mails = []\<rparr>"

lemma sample_store_Ret: "\<exists>r. sample_store = Ret (sample_id, r)"
  by (simp add: sample_store_def store_record_def store_ops_def record_id_def sample_id_uuid valid_identity_def is_uuid_def)

theorem stored_message_found_witness:
  "\<exists>r d m. sample_store = Ret (sample_id, r)
     \<and> get_record (\<lambda>_. None) (2024, 2, 2, 0) sample_id ''quarantine'' 7 r = (Some (d, m), r) \<and> m = ''mail''
     \<and> dict_get d ''from'' = Some (JStr ''a@x.org'')"
proof -
  obtain r where r: "sample_store = Ret (sample_id, r)" using sample_store_Ret by blast
  have "\<not> add_days 7 (2024, 1, 31, 0) < (2024, 2, 2, 0)" by code_simp
  then show ?thesis
    using r stored_message_found [OF r [unfolded sample_store_def], of 7 "(2024, 2, 2, 0)" "\<lambda>_. None"]
    by (auto simp: dict_get_Cons)
qed

theorem store_crash_safe_witness:
  "\<exists>ops. store_ops (2024, 1, 31, 0) ''now'' sample_id (Some ''mail'') [] ''quarantine'' = Ret (sample_id, ops)
     \<and> metas (fold file_step (take 1 ops) \<lparr>metas = [], mails = []\<rparr>) = [] \<and> length ops = 2"
proof -
  obtain ops where o: "store_ops (2024, 1, 31, 0) ''now'' sample_id (Some ''mail'') [] ''quarantine'' = Ret (sample_id, ops)"
    "length ops = 2"
    by (simp add: store_ops_def record_id_def sample_id_uuid valid_identity_def is_uuid_def)
  have "complete \<lparr>metas = [], mails = []\<rparr>" by (simp add: complete_def)
  from store_crash_safe [OF o(1) this, of 1] o show ?thesis by auto
qed

theorem repository_cleanup_exact_witness:
  "dict_get (metas (fst (cleanup_expired (\<lambda>_. None) (2024, 2, 2, 0) 7 7
      \<lparr>metas = [(''a'', (None, (2024, 2, 1, 0)))], mails = []\<rparr>))) ''a'' = None"
  using repository_cleanup_exact [of "\<lparr>metas = [(''a'', (None, (2024, 2, 1, 0)))], mails = []\<rparr>" "\<lambda>_. None"
      "(2024, 2, 2, 0)" 7 7 "''a''"]
  by (simp add: dict_keys_def dict_get_Cons meta_dead_def)

end
