(* ===== verification/Access.thy ===== *)
theory Access
  imports Mail_Db
begin

text \<open>
  Who may act on what in the web interface (\<open>ui/access.py\<close>, \<open>models.py\<close>): the domains a user
  manages, the permission wrapper and its handlers, access grants of the anonymous alias service,
  and the address and form checks of \<open>utils.py\<close>.  Objects are compared by primary key; the
  e-mail and domain validators are arguments.
\<close>

section \<open>Managed domains\<close>

definition managed_domains :: "db \<Rightarrow> user \<Rightarrow> string list" where
  "managed_domains d u =
     (if global_admin u then map domain_name (domains d)
      else map fst (filter (\<lambda>m. snd m = email u) (managers d)))"

definition managed_emails :: "bool \<Rightarrow> db \<Rightarrow> user \<Rightarrow> string list" where
  "managed_emails include_aliases d u =
     concat (map (\<lambda>dn. map email (filter (\<lambda>r. user_domain r = dn) (users d))
       @ (if include_aliases then map alias_email (filter (\<lambda>a. alias_domain a = dn) (aliases d)) else []))
       (managed_domains d u))"

definition can_manage_user :: "db \<Rightarrow> user \<Rightarrow> user \<Rightarrow> bool" where
  "can_manage_user d actor target \<longleftrightarrow>
     (if global_admin actor \<or> email target = email actor then True
      else if global_admin target then False
      else set (managed_domains d target) \<subseteq> set (managed_domains d actor))"

section \<open>Permission handlers\<close>

datatype access_result = Login_redirect | Denied nat | Allowed

definition permissions_wrapper :: "user option \<Rightarrow> (user \<Rightarrow> bool) \<Rightarrow> access_result" where
  "permissions_wrapper current handler =
     (case current of None \<Rightarrow> Login_redirect | Some u \<Rightarrow> if handler u then Allowed else Denied 403)"

text \<open>What a route names: a domain, a user, or a row with a domain and an owner.\<close>

datatype resource = Domain_row string | User_row user | Other_row string user

fun resource_domain :: "resource \<Rightarrow> string" where
  "resource_domain (Domain_row dn) = dn"
| "resource_domain (User_row u) = user_domain u"
| "resource_domain (Other_row dn u) = dn"

definition global_admin_only :: "user \<Rightarrow> bool" where
  "global_admin_only u = global_admin u"

definition spam_admin :: "db \<Rightarrow> user \<Rightarrow> bool" where
  "spam_admin d u \<longleftrightarrow> global_admin u \<or> managed_domains d u \<noteq> []"

definition domain_admin :: "db \<Rightarrow> resource option \<Rightarrow> user \<Rightarrow> bool" where
  "domain_admin d obj u =
     (case obj of
        None \<Rightarrow> False
      | Some r \<Rightarrow>
          if resource_domain r \<notin> set (managed_domains d u) then False
          else (case r of User_row t \<Rightarrow> can_manage_user d u t | _ \<Rightarrow> True))"

text \<open>\<open>key_none\<close> holds when the route names no user, which then is the current one.\<close>

definition owner :: "db \<Rightarrow> bool \<Rightarrow> resource option \<Rightarrow> user \<Rightarrow> bool" where
  "owner d key_none obj u =
     (if key_none then True
      else (let check = (\<lambda>t. if email t = email u then True
                 else user_domain t \<in> set (managed_domains d u) \<and> can_manage_user d u t) in
            case obj of
              Some (User_row t) \<Rightarrow> check t
            | Some (Other_row dn t) \<Rightarrow> check t
            | _ \<Rightarrow> False))"

datatype 'a confirmed = Done 'a | Ask string

definition confirmation_required :: "bool \<Rightarrow> bool \<Rightarrow> string \<Rightarrow> 'a \<Rightarrow> 'a confirmed" where
  "confirmation_required valid submitted action result = (if valid \<and> submitted then Done result else Ask action)"

section \<open>Access to the anonymous alias service\<close>

definition has_domain_access :: "(string \<Rightarrow> string option) \<Rightarrow> db \<Rightarrow> string \<Rightarrow> user option \<Rightarrow> bool outcome" where
  "has_domain_access enc d dn current =
     (case current of
        None \<Rightarrow> Ret False
      | Some u \<Rightarrow>
          if global_admin u then Ret True
          else bind_out (get_domain enc d dn) (\<lambda>dm.
            if \<exists>r\<in>set_option dm. (domain_name r, email u) \<in> set (managers d) then Ret True
            else Ret (\<exists>a\<in>set (accesses d). bind_domain enc (access_domain a) = bind_domain enc dn
                        \<and> access_user a = Some (email u))))"

section \<open>Address and form checks\<close>

definition is_demo_account :: "user \<Rightarrow> bool" where
  "is_demo_account u \<longleftrightarrow> email u = ''admin@test.mailu.io''"

definition is_valid_localpart :: "(string \<Rightarrow> bool) \<Rightarrow> string \<Rightarrow> bool" where
  "is_valid_localpart validate_email lp \<longleftrightarrow>
     lp \<noteq> [] \<and> \<not> (\<exists>c\<in>{lp, lower lp}. length c > 64) \<and> validate_email (lp @ ''@example.com'')"

definition is_valid_email ::
  "(string \<Rightarrow> string option) \<Rightarrow> (string \<Rightarrow> bool) \<Rightarrow> (string \<Rightarrow> bool) \<Rightarrow> string \<Rightarrow> bool" where
  "is_valid_email enc validate_email valid_domain adr \<longleftrightarrow>
     (case rcut CHR ''@'' adr of
        None \<Rightarrow> False
      | Some (lp, dn) \<Rightarrow>
          CHR ''@'' \<notin> set lp \<and> enc (lower dn) \<noteq> None \<and> is_valid_localpart validate_email lp \<and> valid_domain dn)"

definition isBadOrPwned :: "string option \<Rightarrow> string option \<Rightarrow> string option outcome" where
  "isBadOrPwned pw pwned =
     (case pw of
        None \<Rightarrow> Exn TypeError
      | Some p \<Rightarrow>
          if str_len p < 8 then Ret (Some ''This password is too short.'')
          else (case pwned of
            None \<Rightarrow> Exn TypeError
          | Some n \<Rightarrow>
             (let breaches = (case py_int n of None \<Rightarrow> -1 | Some i \<Rightarrow> i) in
              Ret (if breaches > 0
                   then Some (''This password appears in '' @ str_of_int breaches
                          @ '' data breaches! It is not unique; please change it.'')
                   else None))))"

text \<open>A field holds nothing, a text, or a list.\<close>

datatype csv_field = Text string | Items "string list"

definition formatCSVField :: "csv_field option \<Rightarrow> string" where
  "formatCSVField f =
     (case f of
        None \<Rightarrow> []
      | Some (Text t) \<Rightarrow> if t = [] then [] else join_str '', '' (split_on CHR '','' (filter (\<lambda>c. c \<noteq> CHR '' '') t))
      | Some (Items xs) \<Rightarrow> if xs = [] then [] else join_str '', '' xs)"

text \<open>\<open>tld\<close> is the registered name \<open>get_tld\<close> finds, \<open>word\<close> the random word or nothing, \<open>letters\<close> and
  \<open>token\<close> what the secrets module draws; a character outside ASCII counts as a letter.\<close>

definition generate_anonymous_alias_localpart ::
  "(string \<Rightarrow> string option) \<Rightarrow> string option \<Rightarrow> string \<Rightarrow> string \<Rightarrow> string option \<Rightarrow> string" where
  "generate_anonymous_alias_localpart tld word letters tok hostname =
     (let alnum = (\<lambda>c. is_alnum c \<or> code_in 128 255 c);
          pre = (case hostname of
             None \<Rightarrow> None
           | Some h \<Rightarrow> if h = [] then None else tld (if contains ''://'' h then h else ''http://'' @ h));
          name = (case pre of None \<Rightarrow> [] | Some p \<Rightarrow> if p = [] then [] else filter alnum (lower p)) in
      if pre \<in> {None, Some []} then tok
      else (let w = (case word of None \<Rightarrow> [] | Some c \<Rightarrow> lower (strip_str c));
                part = (if w \<noteq> [] \<and> list_all (\<lambda>c. is_lower c \<or> code_in 128 255 c) w then w else letters)
            in name @ ''.'' @ part))"

section \<open>Properties\<close>

text \<open>
  A manager cannot take over a higher-privileged account.  When a route guarded by \<open>owner\<close>
  or \<open>domain_admin\<close> lets someone who is not a global administrator act on another user's account
  (or on a row the other user owns), that user is not a global administrator, belongs to a domain
  the actor manages, and manages no domain the actor does not: acting as that user gives access
  to no further domain.
\<close>
theorem no_takeover:
  assumes "permissions_wrapper (Some actor) h = Allowed" "\<not> global_admin actor" "email target \<noteq> email actor"
    and "h = owner d False (Some (User_row target)) \<or> h = owner d False (Some (Other_row dn target))
         \<or> h = domain_admin d (Some (User_row target))"
  shows "\<not> global_admin target \<and> user_domain target \<in> set (managed_domains d actor)
    \<and> set (managed_domains d target) \<subseteq> set (managed_domains d actor)
    \<and> (\<forall>r. domain_admin d (Some (Domain_row r)) target \<longrightarrow> domain_admin d (Some (Domain_row r)) actor)"
proof -
  have "user_domain target \<in> set (managed_domains d actor) \<and> can_manage_user d actor target"
    using assms by (auto simp: permissions_wrapper_def owner_def domain_admin_def Let_def split: if_splits)
  then show ?thesis using assms(2,3) by (auto simp: can_manage_user_def domain_admin_def split: if_splits)
qed

theorem no_takeover_witness:
  "let d = empty_db\<lparr>managers := [(''x.org'', ''m@x.org'')]\<rparr>; actor = sample_user ''m'' ''x.org''; u = sample_user ''u'' ''x.org'' in
   permissions_wrapper (Some actor) (owner d False (Some (User_row u))) = Allowed \<and> managed_domains d u = []
   \<and> \<not> global_admin u"
proof -
  let ?d = "empty_db\<lparr>managers := [(''x.org'', ''m@x.org'')]\<rparr>"
  let ?a = "sample_user ''m'' ''x.org''" and ?u = "sample_user ''u'' ''x.org''"
  have m: "managed_domains ?d ?u = []" by (simp add: managed_domains_def sample_user_def)
  have "permissions_wrapper (Some ?a) (owner ?d False (Some (User_row ?u))) = Allowed"
    by (simp add: permissions_wrapper_def owner_def can_manage_user_def managed_domains_def sample_user_def)
  moreover from no_takeover [OF this, of ?u] have "\<not> global_admin ?u" by (simp add: sample_user_def)
  ultimately show ?thesis using m by (simp add: Let_def)
qed

end
