(* ===== verification/Mail_Routing.thy ===== *)
theory Mail_Routing
  imports Mail_Db "HOL-Library.Product_Lexorder"
begin

text \<open>
  Where a recipient address is delivered (\<open>models.py\<close>, classes \<open>Email\<close> and \<open>Alias\<close>): domain
  alternatives, users and their forwards, aliases with SQL LIKE wildcards, and the recipient
  delimiter.  \<open>resolve_destination\<close> returns the database as well, because the code appends to
  the forward list of the loaded row in place.  Whether LIKE ignores case is a property of the
  database backend and the argument \<open>ci\<close>.
\<close>

section \<open>SQL LIKE\<close>

fun like_match :: "string \<Rightarrow> string \<Rightarrow> bool" where
  "like_match s [] = (s = [])"
| "like_match [] (p # ps) = (p = CHR ''%'' \<and> like_match [] ps)"
| "like_match (c # cs) (p # ps) =
     (if p = CHR ''%'' then like_match (c # cs) ps \<or> like_match cs (p # ps)
      else (p = CHR ''_'' \<or> p = c) \<and> like_match cs ps)"

definition sql_like :: "bool \<Rightarrow> string \<Rightarrow> string \<Rightarrow> bool" where
  "sql_like ci s pat = (if ci then like_match (lower s) (lower pat) else like_match s pat)"

section \<open>Aliases\<close>

definition owner_enabled :: "(string \<Rightarrow> string option) \<Rightarrow> db \<Rightarrow> mail_alias \<Rightarrow> bool" where
  "owner_enabled enc d a =
     (case owner_email a of
        None \<Rightarrow> True
      | Some o' \<Rightarrow> \<exists>u\<in>set (users d). bind_email enc (email u) = Some o' \<and> enabled u)"

definition alias_order :: "mail_alias list \<Rightarrow> mail_alias option" where
  "alias_order as =
     (case sort_key (\<lambda>a. (wildcard a, - int (length (alias_localpart a)))) as of
        [] \<Rightarrow> None | a # _ \<Rightarrow> Some a)"

definition match_preserve_case :: "bool \<Rightarrow> string \<Rightarrow> mail_alias \<Rightarrow> bool" where
  "match_preserve_case ci lp a \<longleftrightarrow>
     (\<not> wildcard a \<and> alias_localpart a = lp) \<or> (wildcard a \<and> sql_like ci lp (alias_localpart a))"

definition match_lower_case :: "bool \<Rightarrow> string \<Rightarrow> mail_alias \<Rightarrow> bool" where
  "match_lower_case ci lp a \<longleftrightarrow>
     (\<not> wildcard a \<and> lower (alias_localpart a) = lower lp)
     \<or> (wildcard a \<and> sql_like ci (lower lp) (lower (alias_localpart a)))"

definition active_in :: "(string \<Rightarrow> string option) \<Rightarrow> db \<Rightarrow> string \<Rightarrow> mail_alias \<Rightarrow> bool" where
  "active_in enc d dm a \<longleftrightarrow>
     bind_domain enc (alias_domain a) = Some dm \<and> \<not> disabled a \<and> owner_enabled enc d a"

definition alias_resolve ::
  "(string \<Rightarrow> string option) \<Rightarrow> bool \<Rightarrow> db \<Rightarrow> string option \<Rightarrow> string \<Rightarrow> mail_alias option outcome" where
  "alias_resolve enc ci d lp dn =
     (case bind_domain enc dn of
        None \<Rightarrow> Exn StatementError
      | Some dm \<Rightarrow>
          (let active = filter (active_in enc d dm) (aliases d);
               preserve = (case lp of None \<Rightarrow> None
                           | Some l \<Rightarrow> alias_order (filter (match_preserve_case ci l) active));
               low = (case lp of None \<Rightarrow> None
                      | Some l \<Rightarrow> if l = [] then None
                                 else alias_order (filter (match_lower_case ci l) active))
           in Ret (case (preserve, low) of
                     (Some p, Some l) \<Rightarrow> if wildcard p then Some l else Some p
                   | (Some p, None) \<Rightarrow> Some p
                   | (None, Some l) \<Rightarrow> Some l
                   | (None, None) \<Rightarrow> None)))"

section \<open>Destinations\<close>

definition resolve_domain ::
  "(string \<Rightarrow> string option) \<Rightarrow> db \<Rightarrow> string \<Rightarrow> (string option \<times> string) outcome" where
  "resolve_domain enc d addr =
     (let (lp, dn) = (case rcut CHR ''@'' addr of None \<Rightarrow> (None, addr) | Some (l, n) \<Rightarrow> (Some l, n))
      in bind_out (get_alternative enc d dn)
           (\<lambda>alt. Ret (lp, case alt of None \<Rightarrow> dn | Some a \<Rightarrow> alt_domain a)))"

definition append_detail :: "string \<Rightarrow> string \<Rightarrow> string" where
  "append_detail address detail =
     (if detail = [] then address
      else (case rcut CHR ''@'' address of
              None \<Rightarrow> address
            | Some (l, n) \<Rightarrow> l @ detail @ ''@'' @ n))"

definition strip_detail :: "string option \<Rightarrow> string \<Rightarrow> string option" where
  "strip_detail delims lp =
     (case delims of
        None \<Rightarrow> None
      | Some ds \<Rightarrow> if \<exists>c\<in>set lp. c \<in> set ds then Some (takeWhile (\<lambda>c. c \<notin> set ds) lp) else None)"

definition set_user :: "user \<Rightarrow> db \<Rightarrow> db" where
  "set_user u d = d\<lparr>users := map (\<lambda>r. if email r = email u then u else r) (users d)\<rparr>"

definition user_destination :: "user \<Rightarrow> string \<Rightarrow> bool \<Rightarrow> db \<Rightarrow> string list \<times> db" where
  "user_destination u addr ignore_keep d =
     (if \<not> forward_enabled u then ([addr], d)
      else if forward_keep u \<or> ignore_keep
      then (forward_destination u @ [addr],
            set_user (u\<lparr>forward_destination := forward_destination u @ [addr]\<rparr>) d)
      else (forward_destination u, d))"

definition find_user ::
  "(string \<Rightarrow> string option) \<Rightarrow> db \<Rightarrow> string \<Rightarrow> string option \<Rightarrow> string \<Rightarrow> user option outcome" where
  "find_user enc d lp stripped dn =
     bind_out (get_user enc d (lp @ ''@'' @ dn))
       (\<lambda>u. case (u, stripped) of
              (None, Some s) \<Rightarrow> if s = [] then Ret None else get_user enc d (s @ ''@'' @ dn)
            | _ \<Rightarrow> Ret u)"

definition alias_destination :: "string \<Rightarrow> string option \<Rightarrow> mail_alias option \<Rightarrow> mail_alias option \<Rightarrow> string list option" where
  "alias_destination lp stripped pure stripped_alias =
     (case pure of
        Some p \<Rightarrow>
          if \<not> wildcard p then Some (destination p)
          else (case stripped_alias of
                  Some s \<Rightarrow> Some (if wildcard s then destination s
                     else map (\<lambda>dst. append_detail dst (drop (length (the stripped)) lp)) (destination s))
                | None \<Rightarrow> Some (destination p))
      | None \<Rightarrow>
          map_option (\<lambda>s. if wildcard s then destination s
             else map (\<lambda>dst. append_detail dst (drop (length (the stripped)) lp)) (destination s))
            stripped_alias)"

definition resolve_destination ::
  "(string \<Rightarrow> string option) \<Rightarrow> bool \<Rightarrow> string option \<Rightarrow> db \<Rightarrow> string \<Rightarrow> string \<Rightarrow> bool \<Rightarrow>
   (string list option \<times> db) outcome" where
  "resolve_destination enc ci delims d lp dn ignore_keep =
     (let stripped = strip_detail delims lp
      in bind_out (find_user enc d lp stripped dn)
        (\<lambda>u. case u of
           Some u' \<Rightarrow>
             (case user_destination u' (lp @ ''@'' @ dn) ignore_keep d of (dst, d') \<Rightarrow> Ret (Some dst, d'))
         | None \<Rightarrow>
             bind_out (alias_resolve enc ci d (Some lp) dn)
               (\<lambda>pure. bind_out (alias_resolve enc ci d stripped dn)
                 (\<lambda>s. Ret (alias_destination lp stripped pure s, d)))))"

section \<open>Which alias is chosen\<close>

lemma alias_order_None [simp]: "alias_order as = None \<longleftrightarrow> as = []"
  by (auto simp: alias_order_def split: list.splits) (metis set_empty set_sort)+

lemma alias_order_Some:
  assumes "alias_order as = Some a"
  shows "a \<in> set as"
    and "b \<in> set as \<Longrightarrow> (wildcard a, - int (length (alias_localpart a)))
           \<le> (wildcard b, - int (length (alias_localpart b)))"
proof -
  let ?f = "\<lambda>a. (wildcard a, - int (length (alias_localpart a)))"
  obtain bs where s: "sort_key ?f as = a # bs"
    using assms by (auto simp: alias_order_def split: list.splits)
  then have st: "set as = set (a # bs)" by (metis set_sort)
  then show "a \<in> set as" by simp
  have "sorted (map ?f (a # bs))" using sorted_sort_key [of ?f as] s by simp
  then show "b \<in> set as \<Longrightarrow> ?f a \<le> ?f b" using st by auto
qed

lemma alias_order_filter:
  assumes "alias_order (filter P as) = Some a"
  shows "a \<in> set as" "P a"
    and "\<And>b. \<lbrakk>b \<in> set as; P b; \<not> wildcard b\<rbrakk> \<Longrightarrow> \<not> wildcard a"
  using alias_order_Some [OF assms] by (auto simp: less_eq_prod_def)

lemma append_detail_split:
  assumes "rcut CHR ''@'' dst = Some (l, n)"
  shows "rcut CHR ''@'' (append_detail dst detail) = Some (l @ detail, n)"
proof (cases "detail = []")
  case False
  have "rcut CHR ''@'' ((l @ detail) @ CHR ''@'' # n) = Some (l @ detail, n)"
    by (rule rcut_append) (use rcut_Some [OF assms] in simp)
  then show ?thesis using assms False by (simp add: append_detail_def)
qed (use assms in \<open>simp add: append_detail_def\<close>)

lemma strip_detail_prefix:
  "strip_detail delims lp = Some s \<Longrightarrow> lp = s @ drop (length s) lp \<and> drop (length s) lp \<noteq> []"
proof -
  assume "strip_detail delims lp = Some s"
  then obtain ds c where s: "s = takeWhile (\<lambda>c. c \<notin> set ds) lp" and c: "c \<in> set lp" "c \<in> set ds"
    by (auto simp: strip_detail_def split: option.splits if_splits)
  have d: "drop (length s) lp = dropWhile (\<lambda>c. c \<notin> set ds) lp"
    by (simp add: s dropWhile_eq_drop)
  have "dropWhile (\<lambda>c. c \<notin> set ds) lp \<noteq> []" using c by (auto simp: dropWhile_eq_Nil_conv)
  then show ?thesis using d s by simp
qed

definition alias_matches :: "bool \<Rightarrow> string \<Rightarrow> mail_alias \<Rightarrow> bool" where
  "alias_matches ci lp a \<longleftrightarrow> match_preserve_case ci lp a \<or> match_lower_case ci lp a"

lemma alias_resolve_Some:
  assumes "alias_resolve enc ci d lp dn = Ret (Some a)"
  shows "\<exists>dm l. bind_domain enc dn = Some dm \<and> lp = Some l \<and> a \<in> set (aliases d)
    \<and> active_in enc d dm a \<and> alias_matches ci l a"
proof -
  obtain dm where dm: "bind_domain enc dn = Some dm"
    using assms by (cases "bind_domain enc dn") (auto simp: alias_resolve_def)
  obtain l where l: "lp = Some l"
    using assms dm by (cases lp) (auto simp: alias_resolve_def)
  show ?thesis using assms dm
    by (auto simp: alias_resolve_def l Let_def alias_matches_def split: option.splits if_splits
        dest!: alias_order_filter(1,2) alias_order_Some(1))
qed

lemma alias_resolve_exact:
  assumes "bind_domain enc dn = Some dm" "b \<in> set (aliases d)" "active_in enc d dm b"
    and "\<not> wildcard b" "alias_localpart b = lp"
  shows "\<exists>a. alias_resolve enc ci d (Some lp) dn = Ret (Some a) \<and> a \<in> set (aliases d)
    \<and> active_in enc d dm a \<and> \<not> wildcard a \<and> alias_localpart a = lp"
proof -
  let ?act = "filter (active_in enc d dm) (aliases d)"
  have b: "b \<in> set (filter (match_preserve_case ci lp) ?act)"
    using assms by (simp add: match_preserve_case_def)
  then obtain a where a: "alias_order (filter (match_preserve_case ci lp) ?act) = Some a"
    by (metis alias_order_None empty_iff not_None_eq set_empty)
  have "\<not> wildcard a"
    by (rule alias_order_filter(3) [OF a]) (use b assms(4) in auto)
  moreover have "a \<in> set ?act" "match_preserve_case ci lp a" using alias_order_filter(1,2) [OF a] .
  ultimately show ?thesis using assms(1) a
    by (auto simp: alias_resolve_def match_preserve_case_def split: option.splits)
qed

section \<open>Properties\<close>

text \<open>
  C27. Mail for an address with no mailbox goes where an alias says: the destinations come from
  an alias of that domain which is not disabled and whose owner, if it has one, is an enabled
  user, and which matches the local part, or the local part cut at the recipient delimiter; in
  the latter case an explicit alias gets the detail inserted before the at sign of every
  destination.  If an active explicit alias has exactly the local part, the chosen alias is
  such an alias, whatever wildcards match.
\<close>
theorem alias_route:
  assumes "find_user enc d lp (strip_detail delims lp) dn = Ret None"
    and "resolve_destination enc ci delims d lp dn k = Ret (Some dst, d')"
  shows "d' = d \<and> (\<exists>dm a. bind_domain enc dn = Some dm \<and> a \<in> set (aliases d) \<and> active_in enc d dm a
      \<and> ((alias_matches ci lp a \<and> dst = destination a)
         \<or> (\<exists>s. strip_detail delims lp = Some s \<and> alias_matches ci s a
              \<and> dst = (if wildcard a then destination a
                        else map (\<lambda>x. append_detail x (drop (length s) lp)) (destination a))))
      \<and> ((\<exists>b\<in>set (aliases d). active_in enc d dm b \<and> \<not> wildcard b \<and> alias_localpart b = lp)
          \<longrightarrow> \<not> wildcard a \<and> alias_localpart a = lp))"
proof -
  obtain pure s where p: "alias_resolve enc ci d (Some lp) dn = Ret pure"
    and s: "alias_resolve enc ci d (strip_detail delims lp) dn = Ret s"
    and dst: "alias_destination lp (strip_detail delims lp) pure s = Some dst" "d' = d"
    using assms by (auto simp: resolve_destination_def Let_def)
  obtain dm where dm: "bind_domain enc dn = Some dm"
    using p by (cases "bind_domain enc dn") (auto simp: alias_resolve_def)
  have ex: "\<exists>a. pure = Some a \<and> \<not> wildcard a \<and> alias_localpart a = lp"
    if "b \<in> set (aliases d)" "active_in enc d dm b" "\<not> wildcard b" "alias_localpart b = lp" for b
    using alias_resolve_exact [OF dm that, of ci] p by auto
  let ?exact = "\<lambda>a. \<not> wildcard a \<and> alias_localpart a = lp"
  let ?any = "\<exists>b\<in>set (aliases d). active_in enc d dm b \<and> ?exact b"
  have pick: "(\<exists>q. pure = Some q \<and> wildcard q) \<or> pure = None \<Longrightarrow> \<not> ?any" using ex by force
  show ?thesis
  proof (cases "\<exists>a. pure = Some a \<and> dst = destination a \<and> (wildcard a \<longrightarrow> s = None)")
    case True
    then obtain a where a: "pure = Some a" "dst = destination a" by blast
    have m: "a \<in> set (aliases d) \<and> active_in enc d dm a \<and> alias_matches ci lp a"
      using alias_resolve_Some [of enc ci d "Some lp" dn a] p dm a(1) by simp
    have "?any \<longrightarrow> ?exact a" using ex a(1) by auto
    then show ?thesis using m a(2) dm dst(2) by blast
  next
    case False
    then obtain a where a: "s = Some a" "pure = None \<or> (\<exists>q. pure = Some q \<and> wildcard q)"
      using dst by (auto simp: alias_destination_def split: option.splits if_splits)
    obtain l where l: "strip_detail delims lp = Some l"
      and m: "a \<in> set (aliases d) \<and> active_in enc d dm a \<and> alias_matches ci l a"
      using alias_resolve_Some [of enc ci d "strip_detail delims lp" dn a] s dm a(1) by auto
    have "dst = (if wildcard a then destination a
                 else map (\<lambda>x. append_detail x (drop (length l) lp)) (destination a))"
      using dst a l by (auto simp: alias_destination_def split: option.splits if_splits)
    moreover have "?any \<longrightarrow> ?exact a" using pick a(2) by blast
    ultimately show ?thesis using dm l m dst(2) by blast
  qed
qed

definition sample_alias :: "string \<Rightarrow> bool \<Rightarrow> string list \<Rightarrow> mail_alias" where
  "sample_alias lp w dst = \<lparr>alias_email = lp @ ''@d.io'', alias_localpart = lp, alias_domain = ''d.io'',
     wildcard = w, destination = dst, alias_hostname = None, owner_email = None, disabled = False,
     alias_comment = []\<rparr>"

definition sample_aliases :: db where
  "sample_aliases = empty_db\<lparr>aliases :=
     [sample_alias ''%'' True [''all@d.io''], sample_alias ''joe'' False [''joe@x.org'']]\<rparr>"

theorem alias_route_witness:
  "\<exists>dm a. bind_domain Some ''d.io'' = Some dm \<and> a \<in> set (aliases sample_aliases)
     \<and> active_in Some sample_aliases dm a
     \<and> resolve_destination Some False (Some ''+'') sample_aliases ''joe+tag'' ''d.io'' False
         = Ret (Some [''joe+tag@x.org''], sample_aliases)"
proof -
  have r: "resolve_destination Some False (Some ''+'') sample_aliases ''joe+tag'' ''d.io'' False
      = Ret (Some [''joe+tag@x.org''], sample_aliases)" by code_simp
  have f: "find_user Some sample_aliases ''joe+tag'' (strip_detail (Some ''+'') ''joe+tag'') ''d.io'' = Ret None"
    by code_simp
  show ?thesis using r alias_route [OF f r] by blast
qed

text \<open>
  Resolving a mailbox that forwards and keeps a copy adds the address to the forward list
  of the loaded row itself, so the same address resolved again in the same unit of work is
  listed twice: the destinations of the second call are the forward list and two copies.
\<close>
theorem forward_accumulates:
  assumes "get_user enc d (lp @ ''@'' @ dn) = Ret (Some u)" "forward_enabled u" "forward_keep u"
  shows "\<exists>d1 d2. resolve_destination enc ci delims d lp dn k
             = Ret (Some (forward_destination u @ [lp @ ''@'' @ dn]), d1)
    \<and> resolve_destination enc ci delims d1 lp dn k
             = Ret (Some (forward_destination u @ [lp @ ''@'' @ dn, lp @ ''@'' @ dn]), d2)"
proof -
  let ?a = "lp @ ''@'' @ dn"
  have f: "find_user enc d lp st dn = Ret (Some u)" for st using assms(1) by (simp add: find_user_def)
  let ?u = "u\<lparr>forward_destination := forward_destination u @ [?a]\<rparr>"
  let ?d = "set_user ?u d"
  have r1: "resolve_destination enc ci delims d lp dn k = Ret (Some (forward_destination u @ [?a]), ?d)"
    using assms(2,3) f by (simp add: resolve_destination_def user_destination_def)
  have find_set: "find P (map f xs) = map_option f (find P xs)" if "\<And>r. P (f r) = P r"
    for f :: "user \<Rightarrow> user" and P xs by (induction xs) (use that in auto)
  have "get_user enc ?d ?a = Ret (Some ?u)"
    using assms(1) unfolding get_user_def set_user_def
    by (cases "bind_email enc ?a") (simp_all add: find_set)
  then have f2: "find_user enc ?d lp st dn = Ret (Some ?u)" for st by (simp add: find_user_def)
  have "\<exists>d2. resolve_destination enc ci delims ?d lp dn k
      = Ret (Some (forward_destination u @ [?a, ?a]), d2)"
    unfolding resolve_destination_def Let_def f2 using assms(2,3) by (simp add: user_destination_def)
  then show ?thesis using r1 by blast
qed

theorem forward_accumulates_witness:
  "\<exists>d1 d2. resolve_destination Some False None
       (empty_db\<lparr>users := [sample_user ''a'' ''d.io''\<lparr>forward_enabled := True\<rparr>]\<rparr>) ''a'' ''d.io'' False
         = Ret (Some ([] @ [''a'' @ ''@'' @ ''d.io'']), d1)
    \<and> resolve_destination Some False None d1 ''a'' ''d.io'' False
         = Ret (Some ([] @ [''a'' @ ''@'' @ ''d.io'', ''a'' @ ''@'' @ ''d.io'']), d2)"
proof -
  let ?u = "sample_user ''a'' ''d.io''\<lparr>forward_enabled := True\<rparr>"
  have g: "get_user Some (empty_db\<lparr>users := [?u]\<rparr>) (''a'' @ ''@'' @ ''d.io'') = Ret (Some ?u)" by code_simp
  have k: "forward_enabled ?u" "forward_keep ?u" "forward_destination ?u = []"
    by (simp_all add: sample_user_def)
  show ?thesis using forward_accumulates [OF g k(1,2), of False None False] unfolding k(3) .
qed

end
