(* ===== verification/Quarantine.thy ===== *)
theory Quarantine
  imports Quarantine_Repo Access Mail_Routing Net
begin

text \<open>
  Held messages (\<open>quarantine.py\<close>, \<open>greylist.py\<close>, \<open>internal/views/quarantine.py\<close>,
  \<open>internal/views/rspamd.py\<close>, \<open>ui/views/quarantine.py\<close>): who may see and release them, the
  greylist kept in the same repository, the callbacks of the spam filter, and the digests sent
  to each mailbox.  HTTP and SMTP calls are given by their results; the HTML sanitiser, the
  HTML tokeniser, the hash and the ISO time format are arguments.
\<close>

section \<open>Iterating over JSON\<close>

text \<open>Iterating over a str yields its characters.\<close>

fun py_chars :: "string \<Rightarrow> string list" where
  "py_chars [] = []"
| "py_chars (c # cs) =
     (case py_chars cs of
        [] \<Rightarrow> [[c]]
      | w # ws \<Rightarrow> if code_in 128 191 (hd w) then (c # w) # ws else [c] # w # ws)"

definition iter_strings :: "json \<Rightarrow> string list outcome" where
  "iter_strings v =
     (case v of
        JList xs \<Rightarrow> Ret (strings_of xs)
      | JStr s \<Rightarrow> Ret (py_chars s)
      | JObj d \<Rightarrow> Ret (dict_keys d)
      | _ \<Rightarrow> Exn TypeError)"

definition recipients_of :: "(string, json) dict \<Rightarrow> string list outcome" where
  "recipients_of meta = iter_strings (get_default meta ''recipients'' (JList []))"

section \<open>Who sees a message\<close>

definition in_managed :: "string list \<Rightarrow> string \<Rightarrow> bool" where
  "in_managed managed address \<longleftrightarrow>
     (case rcut CHR ''@'' address of None \<Rightarrow> False | Some (_, dn) \<Rightarrow> lower dn \<in> set managed)"

definition visible_recipients :: "db \<Rightarrow> user \<Rightarrow> (string, json) dict \<Rightarrow> string list outcome" where
  "visible_recipients d u meta =
     bind_out (recipients_of meta) (\<lambda>rs.
       if global_admin u then Ret rs
       else (let managed = map lower (managed_domains d u) in
             Ret (filter (\<lambda>a. lower a = lower (email u) \<or> in_managed managed a) rs)))"

fun visible_entries :: "db \<Rightarrow> user \<Rightarrow> (string, json) dict list \<Rightarrow> (string, json) dict list outcome" where
  "visible_entries d u [] = Ret []"
| "visible_entries d u (m # ms) =
     bind_out (visible_recipients d u m) (\<lambda>rs. bind_out (visible_entries d u ms) (\<lambda>ys.
       Ret (if rs \<noteq> [] then m # ys else ys)))"

section \<open>The quarantine\<close>

record q_env =
  fromiso :: "string \<Rightarrow> datetime option"
  iso_text :: "datetime \<Rightarrow> string"
  q_retention :: int
  q_max_bytes :: nat
  q_key :: string
  sha256_hex :: "string \<Rightarrow> string"

definition q_cleanup_expired :: "q_env \<Rightarrow> datetime \<Rightarrow> int \<Rightarrow> repo \<Rightarrow> repo \<times> nat" where
  "q_cleanup_expired e now ret r = cleanup_expired (fromiso e) now ret GREYLIST_RETENTION_DAYS r"

definition q_entries :: "q_env \<Rightarrow> datetime \<Rightarrow> string option \<Rightarrow> repo \<Rightarrow> ((string, json) dict list \<times> repo) outcome" where
  "q_entries e now kind r =
     (let r' = fst (q_cleanup_expired e now (q_retention e) r) in
      bind_out (record_entries kind r') (\<lambda>xs. Ret (xs, r')))"

definition q_get :: "q_env \<Rightarrow> datetime \<Rightarrow> string \<Rightarrow> repo \<Rightarrow> ((string, json) dict \<times> string) option \<times> repo" where
  "q_get e now mid r =
     (case uuid_canon mid of
        None \<Rightarrow> (None, r)
      | Some i \<Rightarrow> get_record (fromiso e) now i ''quarantine'' (q_retention e) r)"

definition get_any :: "q_env \<Rightarrow> datetime \<Rightarrow> string \<Rightarrow> repo \<Rightarrow> ((string, json) dict \<times> string) option \<times> repo" where
  "get_any e now rid r =
     (case uuid_canon rid of
        Some i \<Rightarrow> q_get e now i r
      | None \<Rightarrow> if is_key rid then get_record (fromiso e) now rid ''greylist'' GREYLIST_RETENTION_DAYS r else (None, r))"

definition q_store ::
  "q_env \<Rightarrow> datetime \<Rightarrow> string \<Rightarrow> string \<Rightarrow> string \<Rightarrow> (string, json) dict \<Rightarrow> repo \<Rightarrow> (string \<times> repo) outcome" where
  "q_store e now now_text fresh raw meta r =
     (if raw = [] \<or> length raw > q_max_bytes e then Exn ValueError
      else store_record now now_text fresh (Some raw) meta ''quarantine'' r)"

definition q_delete :: "string \<Rightarrow> repo \<Rightarrow> bool \<times> repo" where
  "q_delete mid r =
     (case uuid_canon mid of
        Some i \<Rightarrow> delete_record i (Some ''quarantine'') r
      | None \<Rightarrow> if is_key mid then delete_record mid (Some ''greylist'') r else (False, r))"

definition flush :: "string list \<Rightarrow> repo \<Rightarrow> nat \<times> repo" where
  "flush ids r = fold (\<lambda>i (n, r). case delete_record i None r of (ok, r') \<Rightarrow> (if ok then n + 1 else n, r')) (fromkeys ids) (0, r)"

datatype post_result = Post_ok | Post_timeout | Post_http nat | Post_error

definition learn_ham :: "(string \<Rightarrow> (string, string) dict \<Rightarrow> string \<Rightarrow> post_result) \<Rightarrow> string \<Rightarrow> string list" where
  "learn_ham post raw =
     List.map_filter (\<lambda>(command, extra).
       (case post command ([(''Password'', ''mailu''), (''Content-Type'', ''application/octet-stream'')] @ extra) raw of
          Post_ok \<Rightarrow> None
        | Post_timeout \<Rightarrow> Some (command @ '': timeout'')
        | Post_http n \<Rightarrow> Some (command @ '': HTTP '' @ str_of_nat n)
        | Post_error \<Rightarrow> Some (command @ '': connection error'')))
       [(''learnham'', []), (''fuzzydel'', [(''Flag'', ''11'')]), (''fuzzyadd'', [(''Flag'', ''13''), (''Weight'', ''1'')])]"

section \<open>The greylist\<close>

definition clean_message_id :: "string \<Rightarrow> string" where
  "clean_message_id s = strip_str (strip_chars (\<lambda>c. c \<in> set ''<>'') (strip_str s))"

definition greylist_key :: "q_env \<Rightarrow> json \<Rightarrow> string option" where
  "greylist_key e v =
     (case v of
        JStr s \<Rightarrow>
          (let m = clean_message_id s in
           if m = [] \<or> str_len m > 998 \<or> list_ex (code_in 0 31) m then None else Some (sha256_hex e m))
      | _ \<Rightarrow> None)"

definition message_id_of :: "(string, json) dict \<Rightarrow> json" where
  "message_id_of meta = get_or meta ''message_id'' (get_default meta ''message-id'' JNull)"

definition address_list :: "bool \<Rightarrow> json list \<Rightarrow> string list" where
  "address_list bounded xs =
     sort (remdups (map (\<lambda>s. lower (strip_str s))
       (filter (\<lambda>s. CHR ''@'' \<in> set s \<and> (bounded \<longrightarrow> str_len s \<le> 320)) (strings_of xs))))"

definition listed :: "json \<Rightarrow> json list option" where
  "listed v = (case v of JStr s \<Rightarrow> Some [JStr s] | JList xs \<Rightarrow> Some xs | _ \<Rightarrow> None)"

definition recipient_list :: "json \<Rightarrow> string list" where
  "recipient_list v = (case listed v of None \<Rightarrow> [] | Some xs \<Rightarrow> address_list True xs)"

text \<open>\<open>s[:n]\<close> of a str keeps its first n characters.\<close>

definition take_chars :: "nat \<Rightarrow> string \<Rightarrow> string" where
  "take_chars n s = concat (take n (py_chars s))"

definition finite_score :: "json \<Rightarrow> json" where
  "finite_score v = (case v of JInt i \<Rightarrow> v | JFloat (Finite m x) \<Rightarrow> v | _ \<Rightarrow> JNull)"

definition greylist_entry :: "q_env \<Rightarrow> datetime \<Rightarrow> (string, json) dict \<Rightarrow> (string, json) dict" where
  "greylist_entry e now meta =
     [(''message_id'', JStr (clean_message_id (text_of (message_id_of meta)))),
      (''received'', JStr (iso_text e now)),
      (''from'', JStr (take_chars 512 (text_of (get_or meta ''from'' (get_or meta ''sender'' (JStr [])))))),
      (''subject'', JStr (take_chars 998 (text_of (get_or meta ''subject'' (JStr []))))),
      (''recipients'', JList (map JStr (recipient_list (get_default meta ''rcpt'' (get_default meta ''recipients'' (JList [])))))),
      (''score'', finite_score (get_default meta ''score'' JNull))]"

text \<open>The text of an action is compared with fixed words; other JSON prints as none of them.\<close>

definition action_of :: "(string, json) dict \<Rightarrow> string" where
  "action_of meta = lower (strip_str (text_of (get_default meta ''action'' (JStr []))))"

definition greylist_record ::
  "q_env \<Rightarrow> datetime \<Rightarrow> string \<Rightarrow> (string, json) dict \<Rightarrow> string option \<Rightarrow> repo \<Rightarrow> (bool option \<times> repo) outcome" where
  "greylist_record e now now_text meta raw r =
     (case greylist_key e (message_id_of meta) of
        None \<Rightarrow> Ret (None, r)
      | Some key \<Rightarrow>
          if action_of meta \<notin> {''soft reject'', ''soft_reject'', ''greylist''} then
            Ret (Some False,
                 if action_of meta \<in> {''no action'', ''accept'', ''add header'', ''rewrite subject''}
                 then snd (delete_record key (Some ''greylist'') r) else r)
          else bind_out (store_record now now_text key raw (greylist_entry e now meta) ''greylist'' r)
                 (\<lambda>(_, r'). Ret (Some True, r')))"

definition greylist_clear :: "q_env \<Rightarrow> (string, json) dict \<Rightarrow> repo \<Rightarrow> bool \<times> repo" where
  "greylist_clear e meta r =
     (case greylist_key e (message_id_of meta) of
        None \<Rightarrow> (False, r) | Some key \<Rightarrow> delete_record key (Some ''greylist'') r)"

definition greylist_entries :: "q_env \<Rightarrow> datetime \<Rightarrow> repo \<Rightarrow> ((string, json) dict list \<times> repo) outcome" where
  "greylist_entries e now r =
     bind_out (q_entries e now (Some ''greylist'') r) (\<lambda>(xs, r'). Ret (take 10000 xs, r'))"

definition greylist_get :: "q_env \<Rightarrow> datetime \<Rightarrow> string \<Rightarrow> repo \<Rightarrow> ((string, json) dict \<times> string) option \<times> repo" where
  "greylist_get e now rid r =
     (if is_key rid then get_record (fromiso e) now rid ''greylist'' GREYLIST_RETENTION_DAYS r else (None, r))"

definition greylist_delete :: "string \<Rightarrow> repo \<Rightarrow> bool \<times> repo" where
  "greylist_delete rid r = (if is_key rid then delete_record rid (Some ''greylist'') r else (False, r))"

end
