(* ===== verification/Sessions.thy ===== *)
theory Sessions
  imports Prelude
begin

text \<open>
  Server-side web sessions (\<open>utils.py\<close>): the two stores behind one interface, session keys made
  of the hashed user, a random part and the creation time, and the operations that open,
  regenerate, save, destroy, prune and clean up sessions, with the webmail tokens that point at
  them.  Stored values are pickled dictionaries or, for webmail tokens, a session key; loading
  anything but a pickled dictionary starts a new session.  The keyed hash is a field of the
  configuration.
\<close>

section \<open>Stores\<close>

datatype sval = Pickled "(string, string) dict" | Raw "string option"

record 's store =
  s_get :: "'s \<Rightarrow> string \<Rightarrow> sval option"
  s_put :: "string \<Rightarrow> sval \<Rightarrow> int option \<Rightarrow> 's \<Rightarrow> 's"
  s_delete :: "string \<Rightarrow> 's \<Rightarrow> 's"
  s_list :: "string option \<Rightarrow> 's \<Rightarrow> string list"

definition dict_store_list :: "string option \<Rightarrow> (string, sval) dict \<Rightarrow> string list" where
  "dict_store_list pre d =
     (case pre of None \<Rightarrow> dict_keys d | Some p \<Rightarrow> filter (prefix p) (dict_keys d))"

definition dict_store :: "(string, sval) dict store" where
  "dict_store = \<lparr>s_get = dict_get, s_put = (\<lambda>k v ttl. dict_set k v), s_delete = dict_del,
     s_list = dict_store_list\<rparr>"

text \<open>The redis store: \<open>rget\<close>, \<open>rset\<close>, \<open>rsetex\<close>, \<open>rdel\<close> and \<open>rscan\<close> are the server's commands.\<close>

definition redis_put ::
  "(string \<Rightarrow> sval \<Rightarrow> 's \<Rightarrow> 's) \<Rightarrow> (string \<Rightarrow> int \<Rightarrow> sval \<Rightarrow> 's \<Rightarrow> 's) \<Rightarrow>
   string \<Rightarrow> sval \<Rightarrow> int option \<Rightarrow> 's \<Rightarrow> 's" where
  "redis_put rset rsetex k v ttl s =
     (case ttl of None \<Rightarrow> rset k v s | Some t \<Rightarrow> if t = 0 then rset k v s else rsetex k t v s)"

definition redis_store ::
  "('s \<Rightarrow> string \<Rightarrow> sval option) \<Rightarrow> (string \<Rightarrow> sval \<Rightarrow> 's \<Rightarrow> 's) \<Rightarrow> (string \<Rightarrow> int \<Rightarrow> sval \<Rightarrow> 's \<Rightarrow> 's) \<Rightarrow>
   (string \<Rightarrow> 's \<Rightarrow> 's) \<Rightarrow> (string option \<Rightarrow> 's \<Rightarrow> string list) \<Rightarrow> 's store" where
  "redis_store rget rset rsetex rdel rscan =
     \<lparr>s_get = rget, s_put = redis_put rset rsetex, s_delete = rdel,
      s_list = (\<lambda>pre s. rscan (case pre of None \<Rightarrow> None | Some [] \<Rightarrow> Some [] | Some p \<Rightarrow> Some (p @ ''*'')) s)\<rparr>"

section \<open>Session keys\<close>

record session_cfg =
  sc_hmac :: "string \<Rightarrow> string"
  uid_len :: nat
  sid_len :: nat
  lifetime :: int
  session_timeout :: int

definition session_config :: "(string \<Rightarrow> string) \<Rightarrow> int option \<Rightarrow> int \<Rightarrow> int \<Rightarrow> session_cfg outcome" where
  "session_config mac key_bits life timeout =
     (let bits = (case key_bits of None \<Rightarrow> 64 | Some b \<Rightarrow> b) in
      if \<not> (64 \<le> bits \<and> bits \<le> 256) then Exn ValueError
      else Ret \<lparr>sc_hmac = mac, uid_len = nat (bits div 8 + (if bits mod 8 > 0 then 1 else 0)),
                sid_len = 16, lifetime = life, session_timeout = timeout\<rparr>)"

definition gen_sid :: "session_cfg \<Rightarrow> string \<Rightarrow> string" where
  "gen_sid cfg random = b64url (take (sid_len cfg) random)"

definition gen_uid :: "session_cfg \<Rightarrow> string \<Rightarrow> string" where
  "gen_uid cfg uid = b64url (take (uid_len cfg) (sc_hmac cfg uid))"

fun be_bytes :: "nat \<Rightarrow> string" where
  "be_bytes n = (if n = 0 then [] else be_bytes (n div 256) @ [char_of (n mod 256)])"

declare be_bytes.simps [simp del]

definition from_bytes :: "string \<Rightarrow> nat" where
  "from_bytes s = foldl (\<lambda>a c. 256 * a + of_char c) 0 s"

definition gen_created :: "int \<Rightarrow> string" where
  "gen_created now = b64url (be_bytes (nat now))"

definition uid_b64 :: "session_cfg \<Rightarrow> nat" where
  "uid_b64 cfg = length (b64url (replicate (uid_len cfg) (CHR 0x00)))"

definition key_min :: "session_cfg \<Rightarrow> nat" where
  "key_min cfg = uid_b64 cfg + length (b64url (replicate (sid_len cfg) (CHR 0x00)))"

definition key_max :: "session_cfg \<Rightarrow> nat" where
  "key_max cfg = key_min cfg + length (b64url (replicate 4 (CHR 0x00)))"

definition parse_key :: "session_cfg \<Rightarrow> int \<Rightarrow> string option \<Rightarrow> (string \<times> string \<times> string) option" where
  "parse_key cfg now key =
     (case key of
        None \<Rightarrow> None
      | Some k \<Rightarrow>
          if \<not> (key_min cfg \<le> length k \<and> length k \<le> key_max cfg) then None
          else (let uid = take (uid_b64 cfg) k;
                    sid = drop (uid_b64 cfg) (take (key_min cfg) k);
                    crt = drop (key_min cfg) k
                in case b64_decode crt of
                     None \<Rightarrow> None
                   | Some c \<Rightarrow>
                       if b64_decode uid = None \<or> b64_decode sid = None then None
                       else (let created = int (from_bytes c)
                             in if \<not> (created \<le> now \<and> now \<le> created + lifetime cfg) then None
                                else Some (uid, sid, crt))))"

section \<open>Sessions\<close>

record session =
  sdata :: "(string, string) dict"
  suid :: "string option"
  ssid :: "string option"
  screated :: "string option"
  skey :: "string option"
  smodified :: bool
  snew :: bool

definition new_session :: "int \<Rightarrow> session" where
  "new_session now = \<lparr>sdata = [], suid = None, ssid = None, screated = Some (gen_created now),
     skey = None, smodified = False, snew = True\<rparr>"

definition open_session :: "'s store \<Rightarrow> session_cfg \<Rightarrow> int \<Rightarrow> string option \<Rightarrow> 's \<Rightarrow> session" where
  "open_session S cfg now key st =
     (case (parse_key cfg now key, key) of
        (Some (uid, sid, crt), Some k) \<Rightarrow>
          (case s_get S st k of
             Some (Pickled d) \<Rightarrow> \<lparr>sdata = d, suid = Some uid, ssid = Some sid, screated = Some crt,
                                 skey = Some k, smodified = False, snew = False\<rparr>
           | _ \<Rightarrow> new_session now)
      | _ \<Rightarrow> new_session now)"

definition session_sid :: "session \<Rightarrow> string option" where
  "session_sid x =
     (case (suid x, ssid x, screated x) of (Some u, Some s, Some c) \<Rightarrow> Some (u @ s @ c) | _ \<Rightarrow> None)"

definition set_item :: "string \<Rightarrow> string \<Rightarrow> session \<Rightarrow> session" where
  "set_item k v x = x\<lparr>sdata := dict_set k v (sdata x), smodified := True\<rparr>"

definition session_delete :: "'s store \<Rightarrow> bool \<Rightarrow> session \<Rightarrow> 's \<Rightarrow> session \<times> 's" where
  "session_delete S clear_token x st =
     (case skey x of
        None \<Rightarrow> (x, st)
      | Some k \<Rightarrow>
          (let st' = (case dict_get (sdata x) ''webmail_token'' of
                        Some t \<Rightarrow> if clear_token then s_delete S t st else st
                      | None \<Rightarrow> st)
           in (x\<lparr>skey := None\<rparr>, s_delete S k st')))"

definition session_destroy :: "'s store \<Rightarrow> session \<Rightarrow> 's \<Rightarrow> session \<times> 's" where
  "session_destroy S x st =
     (case session_delete S True x st of (x', st') \<Rightarrow>
        (x'\<lparr>suid := None, ssid := None, screated := None, sdata := [], smodified := True, snew := False\<rparr>, st'))"

definition session_regenerate :: "'s store \<Rightarrow> session \<Rightarrow> 's \<Rightarrow> session \<times> 's" where
  "session_regenerate S x st =
     (case session_delete S False x st of (x', st') \<Rightarrow> (x'\<lparr>ssid := None, smodified := True\<rparr>, st'))"

definition assign_uid :: "session_cfg \<Rightarrow> session \<Rightarrow> session" where
  "assign_uid cfg x =
     (if suid x = None
      then x\<lparr>suid := Some (gen_uid cfg (case dict_get (sdata x) ''_user_id'' of None \<Rightarrow> [] | Some u \<Rightarrow> u))\<rparr>
      else x)"

definition assign_sid :: "session_cfg \<Rightarrow> string \<Rightarrow> session \<Rightarrow> session" where
  "assign_sid cfg random x = (if ssid x = None then x\<lparr>ssid := Some (gen_sid cfg random)\<rparr> else x)"

text \<open>\<open>save\<close> with the random part it may draw; a session that was destroyed has no creation
  time, hence no identifier, and saving it fails (None).\<close>

definition session_save ::
  "'s store \<Rightarrow> session_cfg \<Rightarrow> string \<Rightarrow> session \<Rightarrow> 's \<Rightarrow> (bool \<times> session \<times> 's) option" where
  "session_save S cfg random x st =
     (let fresh = (ssid x = None);
          x2 = assign_sid cfg random (assign_uid cfg x);
          st2 = (case dict_get (sdata x) ''webmail_token'' of
                   Some t \<Rightarrow> if fresh then s_put S t (Raw (session_sid x2)) (Some (lifetime cfg)) st else st
                 | None \<Rightarrow> st)
      in case session_sid x2 of
           None \<Rightarrow> None
         | Some key \<Rightarrow>
             (case (if Some key \<noteq> skey x2 then session_delete S True x2 st2 else (x2, st2)) of
                (x3, st3) \<Rightarrow>
                  Some (fresh, x3\<lparr>skey := Some key, smodified := False, snew := False\<rparr>,
                        s_put S key (Pickled (sdata x3)) (Some (session_timeout cfg)) st3)))"

datatype cookie_action = Keep_cookie | Delete_cookie | Set_cookie string

definition save_session ::
  "'s store \<Rightarrow> session_cfg \<Rightarrow> string \<Rightarrow> session \<Rightarrow> 's \<Rightarrow> (cookie_action \<times> session \<times> 's) option" where
  "save_session S cfg random x st =
     (if sdata x = []
      then (if smodified x
            then (case session_delete S True x st of (x', st') \<Rightarrow> Some (Delete_cookie, x', st'))
            else Some (Keep_cookie, x, st))
      else map_option (\<lambda>(set_cookie, x', st').
             (if set_cookie then Set_cookie (the (session_sid x')) else Keep_cookie, x', st'))
           (session_save S cfg random x st))"

section \<open>Clean-up and pruning\<close>

definition cleanup_key ::
  "'s store \<Rightarrow> session_cfg \<Rightarrow> int \<Rightarrow> string \<Rightarrow> 's \<times> nat \<Rightarrow> 's \<times> nat" where
  "cleanup_key S cfg now key acc =
     (case acc of (st, n) \<Rightarrow>
        if prefix ''token-'' key then
          (case s_get S st key of
             Some (Raw (Some sessid)) \<Rightarrow>
               if sessid = [] then (s_delete S key st, n + 1)
               else if parse_key cfg now (Some sessid) = None
               then (s_delete S key (s_delete S sessid st), n + 1) else (st, n)
           | Some (Pickled d) \<Rightarrow> (s_delete S key st, n + 1)
           | _ \<Rightarrow> (s_delete S key st, n + 1))
        else if parse_key cfg now (Some key) = None then (s_delete S key st, n + 1)
        else (st, n))"

definition cleanup_sessions :: "'s store \<Rightarrow> session_cfg \<Rightarrow> int \<Rightarrow> 's \<Rightarrow> 's \<times> nat" where
  "cleanup_sessions S cfg now st = fold (cleanup_key S cfg now) (s_list S None st) (st, 0)"

definition prune_sessions ::
  "'s store \<Rightarrow> session_cfg \<Rightarrow> string option \<Rightarrow> string set \<Rightarrow> 's \<Rightarrow> 's \<times> nat" where
  "prune_sessions S cfg uid keep st =
     (let doomed = filter (\<lambda>k. k \<notin> keep \<and> \<not> prefix ''token-'' k) (s_list S (map_option (gen_uid cfg) uid) st)
      in (fold (s_delete S) doomed st, length doomed))"

section \<open>Webmail tokens\<close>

definition verify_temp_token ::
  "'s store \<Rightarrow> session_cfg \<Rightarrow> int \<Rightarrow> string \<Rightarrow> string \<Rightarrow> 's \<Rightarrow> bool" where
  "verify_temp_token S cfg now mail tok st =
     (prefix ''token-'' tok \<and>
      (case s_get S st tok of
         Some (Raw (Some sessid)) \<Rightarrow>
           sessid \<noteq> [] \<and>
           (case dict_get (sdata (open_session S cfg now (Some sessid) st)) ''_user_id'' of
              None \<Rightarrow> mail = []
            | Some u \<Rightarrow> u = mail)
       | Some (Pickled d) \<Rightarrow> mail = []
       | _ \<Rightarrow> False))"

definition gen_temp_token ::
  "'s store \<Rightarrow> session_cfg \<Rightarrow> string \<Rightarrow> session \<Rightarrow> 's \<Rightarrow> string \<times> session \<times> 's" where
  "gen_temp_token S cfg random x st =
     (let tok = (case dict_get (sdata x) ''webmail_token'' of Some t \<Rightarrow> t | None \<Rightarrow> ''token-'' @ random);
          x' = set_item ''webmail_token'' tok x
      in (tok, x', s_put S tok (Raw (session_sid x')) (Some (lifetime cfg)) st))"

section \<open>Fields of a saved session\<close>

lemma assign_fields [simp]:
  "sdata (assign_sid cfg r (assign_uid cfg x)) = sdata x" "skey (assign_sid cfg r (assign_uid cfg x)) = skey x"
  "screated (assign_sid cfg r (assign_uid cfg x)) = screated x"
  by (simp_all add: assign_sid_def assign_uid_def)

lemma delete_fields [simp]:
  "sdata (fst (session_delete S c x st)) = sdata x" "suid (fst (session_delete S c x st)) = suid x"
  "ssid (fst (session_delete S c x st)) = ssid x" "screated (fst (session_delete S c x st)) = screated x"
  "session_sid (fst (session_delete S c x st)) = session_sid x"
  by (auto simp: session_delete_def Let_def session_sid_def split: option.splits)

lemma save_fields:
  assumes "session_save S cfg random x st = Some (fresh, x', st')"
  shows "session_sid x' = session_sid (assign_sid cfg random (assign_uid cfg x))"
    "session_sid x' \<noteq> None" "skey x' = session_sid x'" "sdata x' = sdata x"
    "\<exists>st3. st' = s_put S (the (session_sid x')) (Pickled (sdata x)) (Some (session_timeout cfg)) st3"
proof -
  let ?x = "assign_sid cfg random (assign_uid cfg x)"
  obtain key where key: "session_sid ?x = Some key"
    using assms by (auto simp: session_save_def Let_def split: option.splits)
  obtain x3 st3 where x3: "x' = x3\<lparr>skey := Some key, smodified := False, snew := False\<rparr>"
    "st' = s_put S key (Pickled (sdata x3)) (Some (session_timeout cfg)) st3"
    and f: "sdata x3 = sdata x" "session_sid x3 = Some key"
  proof -
    define st2 where "st2 = (case dict_get (sdata x) ''webmail_token'' of
       Some t \<Rightarrow> if ssid x = None then s_put S t (Raw (Some key)) (Some (lifetime cfg)) st else st | None \<Rightarrow> st)"
    define p where "p = (if Some key \<noteq> skey ?x then session_delete S True ?x st2 else (?x, st2))"
    have "session_save S cfg random x st = Some (ssid x = None, fst p\<lparr>skey := Some key, smodified := False, snew := False\<rparr>,
        s_put S key (Pickled (sdata (fst p))) (Some (session_timeout cfg)) (snd p))"
      unfolding session_save_def Let_def key option.case st2_def [symmetric] p_def [symmetric] split_beta ..
    then have "x' = fst p\<lparr>skey := Some key, smodified := False, snew := False\<rparr>"
      "st' = s_put S key (Pickled (sdata (fst p))) (Some (session_timeout cfg)) (snd p)"
      using assms by simp_all
    moreover have "sdata (fst p) = sdata x" "session_sid (fst p) = Some key"
      using key by (simp_all add: p_def)
    ultimately show thesis using that by blast
  qed
  show "session_sid x' = session_sid ?x" "session_sid x' \<noteq> None" "skey x' = session_sid x'" "sdata x' = sdata x"
    "\<exists>st3. st' = s_put S (the (session_sid x')) (Pickled (sdata x)) (Some (session_timeout cfg)) st3"
    using x3 f key by (auto simp: session_sid_def)
qed

section \<open>The interface of a store\<close>

locale session_store =
  fixes S :: "'s store"
  assumes get_put [simp]: "s_get S (s_put S k v ttl st) k' = (if k' = k then Some v else s_get S st k')"
    and get_delete [simp]: "s_get S (s_delete S k st) k' = (if k' = k then None else s_get S st k')"
    and list_keys: "k \<in> set (s_list S pre st) \<longleftrightarrow>
          s_get S st k \<noteq> None \<and> (case pre of None \<Rightarrow> True | Some p \<Rightarrow> prefix p k)"
begin

lemma get_fold_delete:
  "s_get S (fold (s_delete S) ks st) k = (if k \<in> set ks then None else s_get S st k)"
  by (induction ks arbitrary: st) auto

lemma prune_get:
  "s_get S (fst (prune_sessions S cfg uid keep st)) k =
     (if k \<notin> keep \<and> \<not> prefix ''token-'' k
         \<and> (case uid of None \<Rightarrow> True | Some u \<Rightarrow> prefix (gen_uid cfg u) k)
      then None else s_get S st k)"
  by (cases uid) (auto simp: prune_sessions_def Let_def get_fold_delete list_keys)

lemma save_get:
  assumes "session_save S cfg random x st = Some (fresh, x', st')"
  shows "\<exists>key. skey x' = Some key \<and> session_sid x' = Some key \<and> s_get S st' key = Some (Pickled (sdata x))
    \<and> sdata x' = sdata x"
  using save_fields [OF assms] by auto

lemma delete_get:
  "skey x = Some k \<Longrightarrow> session_delete S c x st = (x', st') \<Longrightarrow> s_get S st' k = None"
  by (auto simp: session_delete_def Let_def)

lemma cleanup_key_get:
  "s_get S st k = None \<Longrightarrow> s_get S (fst (cleanup_key S cfg now key (st, n))) k = None"
  by (auto simp: cleanup_key_def Let_def split: option.splits sval.splits)

lemma cleanup_fold_none:
  "s_get S (fst acc) k = None \<Longrightarrow> s_get S (fst (fold (cleanup_key S cfg now) ks acc)) k = None"
proof (induction ks arbitrary: acc)
  case (Cons key ks)
  then have "s_get S (fst (cleanup_key S cfg now key acc)) k = None" using cleanup_key_get by (cases acc) simp
  then show ?case using Cons.IH by simp
qed simp

text \<open>A live session is not touched by clean-up.\<close>

lemma cleanup_keeps_key:
  assumes "parse_key cfg now (Some k) \<noteq> None" "\<not> prefix ''token-'' k"
  shows "s_get S (fst (cleanup_key S cfg now key (st, n))) k = s_get S st k"
  using assms by (auto simp: cleanup_key_def Let_def split: option.splits sval.splits)

lemma cleanup_fold_keeps:
  assumes "parse_key cfg now (Some k) \<noteq> None" "\<not> prefix ''token-'' k"
  shows "s_get S (fst (fold (cleanup_key S cfg now) ks acc)) k = s_get S (fst acc) k"
proof (induction ks arbitrary: acc)
  case (Cons key ks)
  have "s_get S (fst (cleanup_key S cfg now key acc)) k = s_get S (fst acc) k"
    using cleanup_keeps_key [OF assms] by (cases acc) simp
  then show ?case using Cons.IH [of "cleanup_key S cfg now key acc"] by simp
qed simp

lemma cleanup_fold_removes:
  assumes "parse_key cfg now (Some k) = None" "\<not> prefix ''token-'' k" "k \<in> set ks"
  shows "s_get S (fst (fold (cleanup_key S cfg now) ks acc)) k = None"
  using assms(3)
proof (induction ks arbitrary: acc)
  case (Cons key ks)
  show ?case
  proof (cases "key = k")
    case True
    have "s_get S (fst (cleanup_key S cfg now k acc)) k = None"
      using assms(1,2) by (cases acc) (simp add: cleanup_key_def)
    then show ?thesis using True cleanup_fold_none by simp
  next
    case False
    then show ?thesis using Cons by simp
  qed
qed simp

lemma cleanup_get:
  assumes "\<not> prefix ''token-'' k"
  shows "s_get S (fst (cleanup_sessions S cfg now st)) k =
     (if parse_key cfg now (Some k) = None then None else s_get S st k)"
proof (cases "parse_key cfg now (Some k) = None")
  case True
  show ?thesis
  proof (cases "s_get S st k = None")
    case True
    then show ?thesis using cleanup_fold_none [of "(st, 0)" k] by (simp add: cleanup_sessions_def)
  next
    case False
    then have "k \<in> set (s_list S None st)" by (simp add: list_keys)
    then show ?thesis using True cleanup_fold_removes [OF True assms] by (simp add: cleanup_sessions_def)
  qed
next
  case False
  show ?thesis using False cleanup_fold_keeps [OF False assms, of _ "(st, 0)"] by (auto simp: cleanup_sessions_def)
qed

end

interpretation memory: session_store dict_store
proof
  fix k pre and st :: "(string, sval) dict"
  show "k \<in> set (s_list dict_store pre st) \<longleftrightarrow>
      s_get dict_store st k \<noteq> None \<and> (case pre of None \<Rightarrow> True | Some p \<Rightarrow> prefix p k)"
    using dict_get_None_iff [of st k]
    by (auto simp: dict_store_def dict_store_list_def split: option.splits)
qed (simp_all add: dict_store_def)

section \<open>Keys read back\<close>

lemma from_bytes_snoc: "from_bytes (s @ [c]) = 256 * from_bytes s + of_char c"
  by (simp add: from_bytes_def)

lemma from_bytes_be_bytes: "from_bytes (be_bytes n) = n"
proof (induction n rule: less_induct)
  case (less n)
  show ?case
  proof (cases "n = 0")
    case True
    then show ?thesis by (simp add: be_bytes.simps from_bytes_def)
  next
    case False
    then show ?thesis using less [of "n div 256"] by (simp add: be_bytes.simps [of n] from_bytes_snoc)
  qed
qed

lemma length_be_bytes: "n < 256 ^ k \<Longrightarrow> length (be_bytes n) \<le> k"
proof (induction k arbitrary: n)
  case (Suc k)
  have "n div 256 < 256 ^ k" using Suc.prems by (simp add: less_mult_imp_div_less mult.commute)
  then show ?case using Suc.IH [of "n div 256"] by (cases "n = 0") (simp_all add: be_bytes.simps [of n])
qed (simp add: be_bytes.simps [of 0])

text \<open>What the code relies on: the hash is at least as long as the part taken of it.\<close>

definition cfg_ok :: "session_cfg \<Rightarrow> bool" where
  "cfg_ok cfg \<longleftrightarrow> (\<forall>u. uid_len cfg \<le> length (sc_hmac cfg u)) \<and> 0 \<le> lifetime cfg"

lemma gen_uid_length: "cfg_ok cfg \<Longrightarrow> length (gen_uid cfg u) = uid_b64 cfg"
  by (simp add: gen_uid_def uid_b64_def b64url_length cfg_ok_def min_absorb2)

lemma gen_sid_length: "sid_len cfg \<le> length r \<Longrightarrow> uid_b64 cfg + length (gen_sid cfg r) = key_min cfg"
  by (simp add: gen_sid_def key_min_def b64url_length min_absorb2)

lemma parse_generated:
  assumes "cfg_ok cfg" "sid_len cfg \<le> length r" "0 \<le> t" "t < 2 ^ 32" "t \<le> now" "now \<le> t + lifetime cfg"
  shows "parse_key cfg now (Some (gen_uid cfg u @ gen_sid cfg r @ gen_created t))
    = Some (gen_uid cfg u, gen_sid cfg r, gen_created t)"
proof -
  note lens = gen_uid_length [OF assms(1), of u] gen_sid_length [OF assms(2)]
  have "nat t < 256 ^ 4" using assms(3,4) by (simp add: nat_less_iff)
  then have "length (be_bytes (nat t)) \<le> 4" by (rule length_be_bytes)
  then have "length (gen_created t) \<le> length (b64url (replicate 4 (CHR 0x00)))"
    by (simp add: gen_created_def b64url_length div_le_mono)
  then have k: "key_min cfg \<le> length (gen_uid cfg u @ gen_sid cfg r @ gen_created t)"
    "length (gen_uid cfg u @ gen_sid cfg r @ gen_created t) \<le> key_max cfg"
    using lens by (auto simp: key_max_def)
  have d: "b64_decode (gen_uid cfg u) \<noteq> None" "b64_decode (gen_sid cfg r) \<noteq> None"
    "b64_decode (gen_created t) = Some (be_bytes (nat t))"
    by (simp_all add: gen_uid_def gen_sid_def gen_created_def b64_roundtrip)
  have parts: "take (uid_b64 cfg) (gen_uid cfg u @ gen_sid cfg r @ gen_created t) = gen_uid cfg u"
    "drop (uid_b64 cfg) (take (key_min cfg) (gen_uid cfg u @ gen_sid cfg r @ gen_created t)) = gen_sid cfg r"
    "drop (key_min cfg) (gen_uid cfg u @ gen_sid cfg r @ gen_created t) = gen_created t"
    using lens by (simp_all flip: lens)
  show ?thesis unfolding parse_key_def option.case Let_def parts d(3)
    using k d(1,2) assms(3,5,6) by (simp add: from_bytes_be_bytes del: length_append)
qed

text \<open>Sessions whose parts were generated by the program.\<close>

definition generated :: "session_cfg \<Rightarrow> int \<Rightarrow> session \<Rightarrow> bool" where
  "generated cfg t x \<longleftrightarrow> screated x = Some (gen_created t) \<and> (\<forall>u. suid x = Some u \<longrightarrow> (\<exists>who. u = gen_uid cfg who))
     \<and> (\<forall>s. ssid x = Some s \<longrightarrow> (\<exists>r. sid_len cfg \<le> length r \<and> s = gen_sid cfg r))"

lemma generated_sid:
  assumes "generated cfg t x" "sid_len cfg \<le> length random"
  shows "\<exists>who r. sid_len cfg \<le> length r \<and> session_sid (assign_sid cfg random (assign_uid cfg x))
    = Some (gen_uid cfg who @ gen_sid cfg r @ gen_created t)
    \<and> (suid x = None \<longrightarrow> who = (case dict_get (sdata x) ''_user_id'' of None \<Rightarrow> [] | Some u \<Rightarrow> u))
    \<and> (\<forall>u. suid x = Some u \<longrightarrow> gen_uid cfg who = u) \<and> (ssid x = None \<longrightarrow> r = random)"
  using assms by (cases "suid x"; cases "ssid x") (auto simp: generated_def assign_sid_def assign_uid_def session_sid_def)

section \<open>Properties\<close>

text \<open>What redis documents of SETEX: the value is there until the given number of seconds has passed,
  and then it is not; \<open>pass\<close> lets time pass at the server.\<close>

definition setex_ok ::
  "('s \<Rightarrow> string \<Rightarrow> sval option) \<Rightarrow> (string \<Rightarrow> int \<Rightarrow> sval \<Rightarrow> 's \<Rightarrow> 's) \<Rightarrow> (int \<Rightarrow> 's \<Rightarrow> 's) \<Rightarrow> bool" where
  "setex_ok rget rsetex pass \<longleftrightarrow>
     (\<forall>k n v st dt. 0 < n \<longrightarrow> 0 \<le> dt \<longrightarrow> rget (pass dt (rsetex k n v st)) k = (if dt < n then Some v else None))"

definition session_window :: "session_cfg \<Rightarrow> int \<Rightarrow> int \<Rightarrow> bool" where
  "session_window cfg t now \<longleftrightarrow> t \<le> now \<and> now \<le> t + lifetime cfg"

lemma session_sid_parts:
  "\<lbrakk>suid x = Some u; ssid x = Some s; screated x = Some c\<rbrakk> \<Longrightarrow> session_sid x = Some (u @ s @ c)"
  by (simp add: session_sid_def)

text \<open>Opening the key of a saved session, whatever the store has become since.\<close>

lemma open_saved:
  assumes "session_save S cfg random x st = Some (fresh, x', st')"
    and "cfg_ok cfg" "generated cfg t x" "sid_len cfg \<le> length random" "0 \<le> t" "t < 2 ^ 32"
  obtains who r where "sid_len cfg \<le> length r"
    "session_sid x' = Some (gen_uid cfg who @ gen_sid cfg r @ gen_created t)"
    "\<And>now st2. open_session S cfg now (session_sid x') st2 =
       (case s_get S st2 (the (session_sid x')) of
          Some (Pickled d) \<Rightarrow>
            if session_window cfg t now
            then \<lparr>sdata = d, suid = Some (gen_uid cfg who), ssid = Some (gen_sid cfg r), screated = Some (gen_created t),
                  skey = session_sid x', smodified = False, snew = False\<rparr>
            else new_session now
        | _ \<Rightarrow> new_session now)"
proof -
  obtain who r where k: "session_sid x' = Some (gen_uid cfg who @ gen_sid cfg r @ gen_created t)"
    and r: "sid_len cfg \<le> length r"
    using generated_sid [OF assms(3,4)] save_fields(1) [OF assms(1)] by metis
  let ?k = "gen_uid cfg who @ gen_sid cfg r @ gen_created t"
  have inside: "parse_key cfg now (Some ?k) = Some (gen_uid cfg who, gen_sid cfg r, gen_created t)"
    if "session_window cfg t now" for now
    using parse_generated [OF assms(2) r assms(5,6)] that by (simp add: session_window_def)
  have t: "session_window cfg t t" using assms(2) by (simp add: session_window_def cfg_ok_def)
  have outside: "parse_key cfg now (Some ?k) = None" if "\<not> session_window cfg t now" for now
    using inside [OF t] that assms(5)
    by (auto simp: parse_key_def Let_def gen_created_def b64_roundtrip from_bytes_be_bytes session_window_def
        split: if_splits option.splits)
  show thesis
  proof (rule that [OF r k])
    fix now st2
    show "open_session S cfg now (session_sid x') st2 =
       (case s_get S st2 (the (session_sid x')) of
          Some (Pickled d) \<Rightarrow>
            if session_window cfg t now
            then \<lparr>sdata = d, suid = Some (gen_uid cfg who), ssid = Some (gen_sid cfg r), screated = Some (gen_created t),
                  skey = session_sid x', smodified = False, snew = False\<rparr>
            else new_session now
        | _ \<Rightarrow> new_session now)"
      unfolding k open_session_def
      by (cases "session_window cfg t now") (simp_all add: inside outside split: option.splits sval.splits)
  qed
qed

text \<open>The in-memory store of development setups keeps a session for its whole lifetime: it ignores
  the time-out.\<close>

lemma session_roundtrip_memory:
  assumes "session_save dict_store cfg random x st = Some (fresh, x', st')"
    and "cfg_ok cfg" "generated cfg t x" "sid_len cfg \<le> length random" "0 \<le> t" "t < 2 ^ 32"
  shows "sdata (open_session dict_store cfg now (session_sid x') st') =
    (if t \<le> now \<and> now \<le> t + lifetime cfg then sdata x else [])"
proof -
  have "s_get dict_store st' (the (session_sid x')) = Some (Pickled (sdata x))"
    using memory.save_get [OF assms(1)] by auto
  then show ?thesis by (cases rule: open_saved [OF assms]) (simp add: session_window_def new_session_def)
qed

text \<open>
  C31. A session saved in the redis store, the one of production, is found again as long as both limits
  allow, and not longer.  When its key is opened at a time between its creation and the end of its
  lifetime, less than the session time-out after it was saved, the session has the saved data and
  the same key and creation time, so that saving it renews the same entry; after the time-out, or
  outside the lifetime, opening the key gives a new, empty session.
\<close>
theorem session_roundtrip:
  assumes "S = redis_store rget rset rsetex rdel rscan" "setex_ok rget rsetex pass"
    and "session_save S cfg random x st = Some (fresh, x', st')"
    and "cfg_ok cfg" "generated cfg t x" "sid_len cfg \<le> length random" "0 \<le> t" "t < 2 ^ 32"
    and "0 < session_timeout cfg" "0 \<le> dt"
  shows "let y = open_session S cfg now (session_sid x') (pass dt st') in
    if t \<le> now \<and> now \<le> t + lifetime cfg \<and> dt < session_timeout cfg
    then sdata y = sdata x \<and> \<not> snew y \<and> session_sid y = session_sid x' \<and> generated cfg t y
    else y = new_session now"
proof -
  obtain st3 where "st' = s_put S (the (session_sid x')) (Pickled (sdata x)) (Some (session_timeout cfg)) st3"
    using save_fields(5) [OF assms(3)] by blast
  then have g: "s_get S (pass dt st') (the (session_sid x'))
      = (if dt < session_timeout cfg then Some (Pickled (sdata x)) else None)"
    using assms(2,9,10) by (simp add: assms(1) redis_store_def redis_put_def setex_ok_def)
  show ?thesis
  proof (rule open_saved [OF assms(3-8)])
    fix who r
    assume r: "sid_len cfg \<le> length r" and k: "session_sid x' = Some (gen_uid cfg who @ gen_sid cfg r @ gen_created t)"
      and o: "\<And>now st2. open_session S cfg now (session_sid x') st2 =
       (case s_get S st2 (the (session_sid x')) of
          Some (Pickled d) \<Rightarrow>
            if session_window cfg t now
            then \<lparr>sdata = d, suid = Some (gen_uid cfg who), ssid = Some (gen_sid cfg r), screated = Some (gen_created t),
                  skey = session_sid x', smodified = False, snew = False\<rparr>
            else new_session now
        | _ \<Rightarrow> new_session now)"
    have "session_sid (open_session S cfg now (session_sid x') (pass dt st')) = session_sid x'
        \<and> generated cfg t (open_session S cfg now (session_sid x') (pass dt st'))"
      if "session_window cfg t now" "dt < session_timeout cfg"
      using that r unfolding o g by (auto simp: k session_sid_parts generated_def)
    then show ?thesis unfolding session_window_def [symmetric] Let_def conj_assoc [symmetric]
      by (cases "session_window cfg t now"; cases "dt < session_timeout cfg") (simp_all add: o g)
  qed
qed


text \<open>
  Clean-up is exact: of the keys that are not webmail tokens, it removes those that are not
  well formed or whose lifetime is over, and leaves every other entry as it was.
\<close>
theorem cleanup_exact:
  assumes "\<not> prefix ''token-'' k"
  shows "dict_get (fst (cleanup_sessions dict_store cfg now st)) k =
    (if parse_key cfg now (Some k) = None then None else dict_get st k)"
  using memory.cleanup_get [OF assms, of cfg now st] by (simp add: dict_store_def)

text \<open>
  Which sessions a password change removes.  Pruning the sessions of a user removes every
  session that was first saved while the user was signed in.  But a session that was first saved
  before sign-in keeps the user part of its key, the hash of the empty name, through regeneration
  and sign-in: it is not found under the user's name and survives the pruning, signed in.
\<close>
theorem prune_misses_session:
  assumes "cfg_ok cfg" "gen_uid cfg u \<noteq> gen_uid cfg []"
    and "sid_len cfg \<le> length r1" "sid_len cfg \<le> length r2" "sid_len cfg \<le> length r3"
    and "dict_get d ''_user_id'' = None" "dict_get d ''webmail_token'' = None"
    and "session_save dict_store cfg r1 (new_session t\<lparr>sdata := d\<rparr>) st = Some (f1, x1, st1)"
    and "session_regenerate dict_store x1 st1 = (x2, st2)"
    and "session_save dict_store cfg r2 (set_item ''_user_id'' u x2) st2 = Some (f3, x3, st3)"
    and "\<not> prefix ''token-'' (the (session_sid x3))"
    and "session_save dict_store cfg r3 (set_item ''_user_id'' u (new_session t)) st = Some (f4, x4, st4)"
    and "\<not> prefix ''token-'' (the (session_sid x4))"
  shows "dict_get (fst (prune_sessions dict_store cfg (Some u) {} st3)) (the (session_sid x3))
           = Some (Pickled (sdata x3)) \<and> dict_get (sdata x3) ''_user_id'' = Some u
    \<and> dict_get (fst (prune_sessions dict_store cfg (Some u) {} st4)) (the (session_sid x4)) = None"
proof -
  let ?x0 = "new_session t\<lparr>sdata := d\<rparr>"
  have g0: "generated cfg t ?x0" by (simp add: generated_def new_session_def)
  have s1: "suid x1 = Some (gen_uid cfg [])" "screated x1 = Some (gen_created t)"
    using assms(6,8) by (auto simp: session_save_def Let_def new_session_def assign_uid_def assign_sid_def
        session_sid_def session_delete_def split: option.splits if_splits)
  have s2: "suid x2 = Some (gen_uid cfg [])" "screated x2 = Some (gen_created t)" "ssid x2 = None"
    using assms(9) s1 by (auto simp: session_regenerate_def split: prod.splits dest!: arg_cong [where f = fst])
  have "generated cfg t (set_item ''_user_id'' u x2)" using s2 by (auto simp: generated_def set_item_def)
  then obtain who r where k3: "session_sid x3 = Some (gen_uid cfg who @ gen_sid cfg r @ gen_created t)"
    "gen_uid cfg who = gen_uid cfg []"
    using generated_sid [OF _ assms(4)] save_fields(1) [OF assms(10)] s2 by (fastforce simp: set_item_def)
  have np: "\<not> prefix (gen_uid cfg u) (the (session_sid x3))"
  proof
    assume "prefix (gen_uid cfg u) (the (session_sid x3))"
    then obtain zs where "gen_uid cfg [] @ gen_sid cfg r @ gen_created t = gen_uid cfg u @ zs"
      using k3 by (auto simp: prefix_def)
    then show False using assms(2) gen_uid_length [OF assms(1)] by simp
  qed
  have "s_get dict_store st3 (the (session_sid x3)) = Some (Pickled (sdata x3))"
    using memory.save_get [OF assms(10)] by auto
  then have 1: "dict_get (fst (prune_sessions dict_store cfg (Some u) {} st3)) (the (session_sid x3)) = Some (Pickled (sdata x3))"
    using memory.prune_get [of cfg "Some u" "{}" st3 "the (session_sid x3)"] np by (simp add: dict_store_def)
  have 2: "dict_get (sdata x3) ''_user_id'' = Some u"
    using save_fields(4) [OF assms(10)] by (simp add: set_item_def)
  have "generated cfg t (set_item ''_user_id'' u (new_session t))"
    by (simp add: generated_def new_session_def set_item_def)
  moreover have "suid (set_item ''_user_id'' u (new_session t)) = None"
    "dict_get (sdata (set_item ''_user_id'' u (new_session t))) ''_user_id'' = Some u"
    by (simp_all add: new_session_def set_item_def dict_get_def)
  ultimately obtain r' where k4: "session_sid x4 = Some (gen_uid cfg u @ gen_sid cfg r' @ gen_created t)"
    using generated_sid [of cfg t "set_item ''_user_id'' u (new_session t)", OF _ assms(5)]
      save_fields(1) [OF assms(12)] by auto
  then have "prefix (gen_uid cfg u) (the (session_sid x4))" by simp
  then have 3: "dict_get (fst (prune_sessions dict_store cfg (Some u) {} st4)) (the (session_sid x4)) = None"
    using memory.prune_get [of cfg "Some u" "{}" st4 "the (session_sid x4)"] assms(13) by (simp add: dict_store_def)
  show ?thesis using 1 2 3 by simp
qed

section \<open>Examples\<close>

definition sample_cfg :: session_cfg where
  "sample_cfg = \<lparr>sc_hmac = (\<lambda>u. u @ replicate 8 (CHR ''h'')), uid_len = 8, sid_len = 2, lifetime = 1000, session_timeout = 100\<rparr>"

lemma sample_cfg_ok: "cfg_ok sample_cfg"
  by (simp add: cfg_ok_def sample_cfg_def)

lemma save_total:
  "\<lbrakk>screated x \<noteq> None\<rbrakk> \<Longrightarrow> \<exists>f x' st'. session_save S cfg r x st = Some (f, x', st')"
  by (auto simp: session_save_def Let_def session_sid_def assign_sid_def assign_uid_def split: option.splits prod.splits)

text \<open>A small server with a clock and, for each key, the time it expires, if it does.\<close>

type_synonym timed = "int \<times> (string, sval \<times> int option) dict"

definition timed_get :: "timed \<Rightarrow> string \<Rightarrow> sval option" where
  "timed_get s k = (case dict_get (snd s) k of
     None \<Rightarrow> None | Some (v, None) \<Rightarrow> Some v | Some (v, Some e) \<Rightarrow> if fst s < e then Some v else None)"

definition timed_set :: "string \<Rightarrow> sval \<Rightarrow> timed \<Rightarrow> timed" where
  "timed_set k v s = (fst s, dict_set k (v, None) (snd s))"

definition timed_setex :: "string \<Rightarrow> int \<Rightarrow> sval \<Rightarrow> timed \<Rightarrow> timed" where
  "timed_setex k n v s = (fst s, dict_set k (v, Some (fst s + n)) (snd s))"

definition timed_del :: "string \<Rightarrow> timed \<Rightarrow> timed" where
  "timed_del k s = (fst s, dict_del k (snd s))"

definition timed_scan :: "string option \<Rightarrow> timed \<Rightarrow> string list" where
  "timed_scan pattern s = filter (\<lambda>k. timed_get s k \<noteq> None
     \<and> (case pattern of None \<Rightarrow> True | Some p \<Rightarrow> prefix (butlast p) k)) (dict_keys (snd s))"

definition timed_pass :: "int \<Rightarrow> timed \<Rightarrow> timed" where
  "timed_pass dt s = (fst s + dt, snd s)"

definition timed_store :: "timed store" where
  "timed_store = redis_store timed_get timed_set timed_setex timed_del timed_scan"

lemma timed_setex_ok: "setex_ok timed_get timed_setex timed_pass"
  by (simp add: setex_ok_def timed_get_def timed_setex_def timed_pass_def)

theorem session_roundtrip_witness:
  "\<exists>f x' st'. session_save timed_store sample_cfg ''rr'' (new_session 5\<lparr>sdata := [(''a'', ''b'')]\<rparr>) (5, []) = Some (f, x', st')
    \<and> sdata (open_session timed_store sample_cfg 50 (session_sid x') (timed_pass 45 st')) = [(''a'', ''b'')]
    \<and> sdata (open_session timed_store sample_cfg 105 (session_sid x') (timed_pass 100 st')) = []"
proof -
  let ?x = "new_session 5\<lparr>sdata := [(''a'', ''b'')]\<rparr>"
  obtain f x' st' where s: "session_save timed_store sample_cfg ''rr'' ?x (5, []) = Some (f, x', st')"
    using save_total [of ?x] by (fastforce simp: new_session_def)
  have g: "generated sample_cfg 5 ?x" "sid_len sample_cfg \<le> length ''rr''"
    "lifetime sample_cfg = 1000" "session_timeout sample_cfg = 100"
    by (simp_all add: generated_def new_session_def sample_cfg_def)
  note r = session_roundtrip [OF timed_store_def timed_setex_ok s sample_cfg_ok g(1,2)]
  show ?thesis using s r [of 45 50] r [of 100 105] g(3,4) by (auto simp: Let_def new_session_def)
qed

lemma sid_prefix:
  "\<lbrakk>suid x = Some u; ssid x = Some a; u @ a @ c = u @ b @ d; length a = length b\<rbrakk> \<Longrightarrow> a = b"
  by simp


theorem cleanup_exact_witness:
  "dict_get (fst (cleanup_sessions dict_store sample_cfg 50 [(''x'', Pickled [])])) ''x'' = None"
  using cleanup_exact [of "''x''" sample_cfg 50 "[(''x'', Pickled [])]"]
  by (simp add: parse_key_def key_min_def uid_b64_def b64url_length sample_cfg_def)

theorem prune_misses_session_witness:
  "\<exists>f1 x1 st1 x2 st2 f3 x3 st3.
      session_save dict_store sample_cfg ''rr'' (new_session 5\<lparr>sdata := [(''c'', ''d'')]\<rparr>) [] = Some (f1, x1, st1)
    \<and> session_regenerate dict_store x1 st1 = (x2, st2)
    \<and> session_save dict_store sample_cfg ''ss'' (set_item ''_user_id'' ''joe'' x2) st2 = Some (f3, x3, st3)
    \<and> dict_get (fst (prune_sessions dict_store sample_cfg (Some ''joe'') {} st3)) (the (session_sid x3))
        = Some (Pickled (sdata x3))"
proof -
  let ?d = "[(''c'', ''d'')]"
  obtain f1 x1 st1 where s1: "session_save dict_store sample_cfg ''rr'' (new_session 5\<lparr>sdata := ?d\<rparr>) [] = Some (f1, x1, st1)"
    using save_total [of "new_session 5\<lparr>sdata := ?d\<rparr>"] by (fastforce simp: new_session_def)
  obtain x2 st2 where r: "session_regenerate dict_store x1 st1 = (x2, st2)" by fastforce
  have "screated x1 \<noteq> None" using save_fields(2) [OF s1] by (auto simp: session_sid_def split: option.splits)
  then have "screated (set_item ''_user_id'' ''joe'' x2) \<noteq> None"
    using r by (auto simp: session_regenerate_def set_item_def split: prod.splits dest!: arg_cong [where f = fst])
  then obtain f3 x3 st3 where s3: "session_save dict_store sample_cfg ''ss'' (set_item ''_user_id'' ''joe'' x2) st2 = Some (f3, x3, st3)"
    using save_total by metis
  obtain f4 x4 st4 where s4: "session_save dict_store sample_cfg ''tt'' (set_item ''_user_id'' ''joe'' (new_session 5)) [] = Some (f4, x4, st4)"
    using save_total [of "set_item ''_user_id'' ''joe'' (new_session 5)"] by (fastforce simp: new_session_def set_item_def)
  have l: "sid_len sample_cfg \<le> length ''rr''" "sid_len sample_cfg \<le> length ''ss''" "sid_len sample_cfg \<le> length ''tt''"
    by (simp_all add: sample_cfg_def)
  have u: "gen_uid sample_cfg ''joe'' \<noteq> gen_uid sample_cfg []" by code_simp
  have "case session_save dict_store sample_cfg ''rr'' (new_session 5\<lparr>sdata := ?d\<rparr>) [] of
      Some (f, y1, t1) \<Rightarrow> (case session_regenerate dict_store y1 t1 of (y2, t2) \<Rightarrow>
        (case session_save dict_store sample_cfg ''ss'' (set_item ''_user_id'' ''joe'' y2) t2 of
           Some (g, y3, t3) \<Rightarrow> \<not> prefix ''token-'' (the (session_sid y3)) | None \<Rightarrow> False)) | None \<Rightarrow> False"
    by code_simp
  moreover have "case session_save dict_store sample_cfg ''tt'' (set_item ''_user_id'' ''joe'' (new_session 5)) [] of
      Some (f, y, t) \<Rightarrow> \<not> prefix ''token-'' (the (session_sid y)) | None \<Rightarrow> False" by code_simp
  ultimately have np: "\<not> prefix ''token-'' (the (session_sid x3))" "\<not> prefix ''token-'' (the (session_sid x4))"
    using s1 r s3 s4 by simp_all
  from prune_misses_session [OF sample_cfg_ok u l _ _ s1 r s3 np(1) s4 np(2)] s1 r s3
  show ?thesis by (auto simp: dict_get_def)
qed

end
