(* ===== verification/Rate_Limit.thy ===== *)
theory Rate_Limit
  imports Net
begin

text \<open>
  Rate limiting of authentication (\<open>limiter.py\<close> and the address helpers of \<open>utils.py\<close>): which
  addresses are subject to limits, the per-network and per-user limiters with their
  deduplication of repeated passwords, and device cookies.  The limits library and its storage
  are the record \<open>limits_lib\<close> of functions over a storage type; what the code relies on of it is
  the predicate \<open>limits_ok\<close>.  An address is normalised once, where it enters.
\<close>

section \<open>Addresses\<close>

definition normalize_ip :: "string \<Rightarrow> ip option" where
  "normalize_ip s =
     (case ip_address s of
        None \<Rightarrow> None
      | Some (V4 n) \<Rightarrow> Some (V4 n)
      | Some (V6 n) \<Rightarrow> (case ipv4_mapped n of Some m \<Rightarrow> Some (V4 m) | None \<Rightarrow> Some (V6 n)))"

definition network_of :: "nat \<Rightarrow> nat \<Rightarrow> ip \<Rightarrow> ip" where
  "network_of v4_mask v6_mask a =
     (case a of V4 n \<Rightarrow> V4 (n div 2^(32 - v4_mask) * 2^(32 - v4_mask))
              | V6 n \<Rightarrow> V6 (n div 2^(128 - v6_mask) * 2^(128 - v6_mask)))"

text \<open>\<open>is_ip_in_subnet\<close>: an address that does not parse raises; a subnet that does not parse
  makes the answer False.\<close>

definition is_ip_in_subnet :: "string \<Rightarrow> string list \<Rightarrow> bool outcome" where
  "is_ip_in_subnet s subnets =
     (case normalize_ip s of
        None \<Rightarrow> Exn ValueError
      | Some a \<Rightarrow>
          Ret (list_all (\<lambda>n. ip_network n \<noteq> None) subnets
               \<and> list_ex (\<lambda>n. case ip_network n of None \<Rightarrow> False | Some w \<Rightarrow> in_network a w) subnets))"

section \<open>The limiter\<close>

datatype lkey = Exempt ip | Dedup ip string | Dedup2 string string

datatype ident = Network ip | Name string

record 'l limits_lib =
  ll_test :: "string \<Rightarrow> string \<Rightarrow> ident \<Rightarrow> 'l \<Rightarrow> bool"
  ll_hit :: "string \<Rightarrow> string \<Rightarrow> ident \<Rightarrow> 'l \<Rightarrow> 'l"
  ll_get :: "lkey \<Rightarrow> 'l \<Rightarrow> nat"
  ll_incr :: "lkey \<Rightarrow> int \<Rightarrow> 'l \<Rightarrow> 'l"
  ll_clear :: "lkey \<Rightarrow> 'l \<Rightarrow> 'l"

record rl_cfg =
  ip_limit :: string
  user_limit :: string
  ip_granularity :: int
  user_granularity :: int
  v4_mask :: nat
  v6_mask :: nat
  exemptions :: "network list"
  exemption_length :: int
  cookie_mac :: "string \<Rightarrow> string"
  password_mac :: "string \<Rightarrow> string \<Rightarrow> string"

definition is_exempt_from_ratelimits :: "rl_cfg \<Rightarrow> ip \<Rightarrow> bool" where
  "is_exempt_from_ratelimits cfg a = list_ex (in_network a) (exemptions cfg)"

definition is_subject :: "'l limits_lib \<Rightarrow> rl_cfg \<Rightarrow> ip \<Rightarrow> 'l \<Rightarrow> bool" where
  "is_subject L cfg a l = (if is_exempt_from_ratelimits cfg a then False else \<not> (ll_get L (Exempt a) l > 0))"

definition exempt_ip :: "'l limits_lib \<Rightarrow> rl_cfg \<Rightarrow> ip \<Rightarrow> 'l \<Rightarrow> 'l" where
  "exempt_ip L cfg a l = ll_incr L (Exempt a) (exemption_length cfg) (ll_clear L (Exempt a) l)"

definition client_network :: "rl_cfg \<Rightarrow> ip \<Rightarrow> ip" where
  "client_network cfg a = network_of (v4_mask cfg) (v6_mask cfg) a"

definition should_rate_limit_ip :: "'l limits_lib \<Rightarrow> rl_cfg \<Rightarrow> ip \<Rightarrow> 'l \<Rightarrow> bool" where
  "should_rate_limit_ip L cfg a l \<longleftrightarrow>
     is_subject L cfg a l \<and> \<not> ll_test L (ip_limit cfg) ''auth-ip'' (Network (client_network cfg a)) l"

definition rate_limit_ip :: "'l limits_lib \<Rightarrow> rl_cfg \<Rightarrow> ip \<Rightarrow> string option \<Rightarrow> 'l \<Rightarrow> 'l" where
  "rate_limit_ip L cfg a username l =
     (let net = client_network cfg a;
          key = Dedup net (case username of None \<Rightarrow> ''None'' | Some u \<Rightarrow> u) in
      if \<not> is_subject L cfg a l then l
      else if username \<noteq> None \<and> username \<noteq> Some [] \<and> ll_get L key l > 0 then l
      else ll_hit L (ip_limit cfg) ''auth-ip'' (Network net) (ll_incr L key (ip_granularity cfg) l))"

definition user_ident :: "string \<Rightarrow> (string \<times> string) option \<Rightarrow> ident" where
  "user_ident username cookie =
     (case cookie of Some (nonce, name) \<Rightarrow> Name (if name = username then nonce else username)
                   | None \<Rightarrow> Name username)"

definition should_rate_limit_user ::
  "'l limits_lib \<Rightarrow> rl_cfg \<Rightarrow> string \<Rightarrow> ip \<Rightarrow> (string \<times> string) option \<Rightarrow> 'l \<Rightarrow> bool" where
  "should_rate_limit_user L cfg username a cookie l \<longleftrightarrow>
     is_subject L cfg a l \<and> \<not> ll_test L (user_limit cfg) ''auth-user'' (user_ident username cookie) l"

definition truncated_password :: "rl_cfg \<Rightarrow> string \<Rightarrow> string \<Rightarrow> string" where
  "truncated_password cfg username pw =
     (let h = hex_string (password_mac cfg username pw) in drop (length h - 6) h)"

definition rate_limit_user ::
  "'l limits_lib \<Rightarrow> rl_cfg \<Rightarrow> string \<Rightarrow> ip \<Rightarrow> (string \<times> string) option \<Rightarrow> string \<Rightarrow> 'l \<Rightarrow> 'l" where
  "rate_limit_user L cfg username a cookie pw l =
     (let key = Dedup2 username (truncated_password cfg username pw) in
      if \<not> is_subject L cfg a l then l
      else if pw \<noteq> [] \<and> ll_get L key l > 0 then l
      else rate_limit_ip L cfg a (Some username)
             (ll_hit L (user_limit cfg) ''auth-user'' (user_ident username cookie)
               (ll_incr L key (user_granularity cfg) l)))"

section \<open>Device cookies\<close>

definition device_cookie :: "rl_cfg \<Rightarrow> string \<Rightarrow> string \<Rightarrow> string" where
  "device_cookie cfg username nonce =
     username @ ''$'' @ nonce @ ''$'' @ b64url (drop 20 (cookie_mac cfg (''device_cookie|'' @ username @ ''|'' @ nonce)))"

definition parse_device_cookie :: "rl_cfg \<Rightarrow> string option \<Rightarrow> (string \<times> string) option" where
  "parse_device_cookie cfg cookie =
     (case cookie of
        None \<Rightarrow> None
      | Some c \<Rightarrow>
          (case split_on CHR ''$'' c of
             [login, nonce, _] \<Rightarrow>
               if nonce \<noteq> [] \<and> c = device_cookie cfg login nonce then Some (nonce, login) else None
           | _ \<Rightarrow> None))"

section \<open>What the code relies on of the limits library\<close>

definition limits_ok :: "'l limits_lib \<Rightarrow> bool" where
  "limits_ok L \<longleftrightarrow>
     (\<forall>k t l. 0 < ll_get L k (ll_incr L k t l))
   \<and> (\<forall>k k' t l. k' \<noteq> k \<longrightarrow> ll_get L k' (ll_incr L k t l) = ll_get L k' l)
   \<and> (\<forall>lim ns i k l. ll_get L k (ll_hit L lim ns i l) = ll_get L k l)
   \<and> (\<forall>lim ns i k t l. ll_test L lim ns i (ll_incr L k t l) = ll_test L lim ns i l)"

lemma limits_okD:
  assumes "limits_ok L"
  shows "0 < ll_get L k (ll_incr L k t l)" "k' \<noteq> k \<Longrightarrow> ll_get L k' (ll_incr L k t l) = ll_get L k' l"
    "ll_get L k (ll_hit L lim ns i l) = ll_get L k l"
  using assms by (auto simp: limits_ok_def)

lemma rate_limit_ip_get:
  assumes "limits_ok L" "0 < ll_get L k l"
  shows "0 < ll_get L k (rate_limit_ip L cfg a u l)"
  using assms(2) limits_okD [OF assms(1)]
  by (cases "k = Dedup (client_network cfg a) (case u of None \<Rightarrow> ''None'' | Some u \<Rightarrow> u)")
     (auto simp: rate_limit_ip_def Let_def)

section \<open>Properties\<close>

text \<open>
  Retyping a wrong password does not use up attempts: while the counters live, reporting a
  second failure of the same user with the same non-empty password from the same address changes
  nothing.  Without a password (the empty default) the second report is counted again: it hits
  the user's limiter once more.
\<close>
theorem repeated_password_counts_once:
  assumes "limits_ok L" "l1 = rate_limit_user L cfg u a cookie pw l" "is_subject L cfg a l1"
  shows "rate_limit_user L cfg u a cookie pw l1 =
    (if pw \<noteq> [] then l1
     else rate_limit_ip L cfg a (Some u) (ll_hit L (user_limit cfg) ''auth-user'' (user_ident u cookie)
            (ll_incr L (Dedup2 u (truncated_password cfg u [])) (user_granularity cfg) l1)))"
proof (cases "pw = []")
  case True
  then show ?thesis using assms(3) by (simp add: rate_limit_user_def Let_def)
next
  case False
  let ?k = "Dedup2 u (truncated_password cfg u pw)"
  note law = limits_okD [OF assms(1)]
  have "0 < ll_get L ?k l1 \<or> l1 = l \<and> \<not> is_subject L cfg a l"
  proof (cases "is_subject L cfg a l \<and> \<not> (pw \<noteq> [] \<and> ll_get L ?k l > 0)")
    case True
    then have "l1 = rate_limit_ip L cfg a (Some u) (ll_hit L (user_limit cfg) ''auth-user'' (user_ident u cookie)
        (ll_incr L ?k (user_granularity cfg) l))"
      by (auto simp: assms(2) rate_limit_user_def Let_def)
    then show ?thesis using rate_limit_ip_get [OF assms(1)] law by simp
  next
    case False
    then show ?thesis using assms(2) by (auto simp: rate_limit_user_def Let_def)
  qed
  then show ?thesis using False assms(3) by (auto simp: rate_limit_user_def Let_def)
qed

text \<open>
  Device cookies: the cookie the server makes for a user name and nonce without dollar signs
  is read back as that nonce and name, and a cookie is accepted only if it is exactly the one the
  server makes for the name and nonce it carries.
\<close>
theorem device_cookie_roundtrip:
  "(CHR ''$'' \<notin> set u \<and> CHR ''$'' \<notin> set n \<and> n \<noteq> []
      \<longrightarrow> parse_device_cookie cfg (Some (device_cookie cfg u n)) = Some (n, u))
   \<and> (parse_device_cookie cfg (Some c) = Some (n, u) \<longrightarrow> c = device_cookie cfg u n)"
proof -
  have free: "CHR ''$'' \<notin> set (b64url s)" for s
  proof -
    have "b64_char k \<noteq> CHR ''$''" if "k < 64" for k
    proof
      assume "b64_char k = CHR ''$''"
      then have "sextet (CHR ''$'') = Some k" using sextet_b64_char [OF that] by simp
      then show False by (simp add: sextet_def is_upper_def is_lower_def is_digit_def code_in_def)
    qed
    then show ?thesis using sextets_lt by (force simp: b64url_sextets)
  qed
  then have "split_on CHR ''$'' (device_cookie cfg u n)
      = [u, n, b64url (drop 20 (cookie_mac cfg (''device_cookie|'' @ u @ ''|'' @ n)))]"
    if "CHR ''$'' \<notin> set u" "CHR ''$'' \<notin> set n"
    using that by (simp add: device_cookie_def split_on_append split_on_fresh)
  then show ?thesis
    by (auto simp: parse_device_cookie_def split: list.splits if_splits)
qed

section \<open>Examples\<close>

definition counter_lib :: "((lkey \<Rightarrow> nat) \<times> ident list) limits_lib" where
  "counter_lib = \<lparr>ll_test = (\<lambda>lim ns i (c, h). length (filter ((=) i) h) < 5),
     ll_hit = (\<lambda>lim ns i (c, h). (c, i # h)), ll_get = (\<lambda>k (c, h). c k),
     ll_incr = (\<lambda>k t (c, h). (c(k := c k + 1), h)), ll_clear = (\<lambda>k (c, h). (c(k := 0), h))\<rparr>"

lemma counter_lib_ok: "limits_ok counter_lib"
  by (auto simp: limits_ok_def counter_lib_def split: prod.splits)

definition sample_rl :: rl_cfg where
  "sample_rl = \<lparr>ip_limit = ''5/hour'', user_limit = ''50/day'', ip_granularity = 3600, user_granularity = 86400,
     v4_mask = 24, v6_mask = 48, exemptions = [], exemption_length = 86400,
     cookie_mac = (\<lambda>s. s @ s), password_mac = (\<lambda>u p. p)\<rparr>"

theorem repeated_password_counts_once_witness:
  "let l1 = rate_limit_user counter_lib sample_rl ''u'' (V4 1) None ''secret'' (\<lambda>_. 0, [])
   in rate_limit_user counter_lib sample_rl ''u'' (V4 1) None ''secret'' l1 = l1"
proof -
  have "is_subject counter_lib sample_rl (V4 1) (rate_limit_user counter_lib sample_rl ''u'' (V4 1) None ''secret'' (\<lambda>_. 0, []))"
    by (simp add: rate_limit_user_def rate_limit_ip_def is_subject_def is_exempt_from_ratelimits_def counter_lib_def
        sample_rl_def Let_def)
  from repeated_password_counts_once [OF counter_lib_ok refl this] show ?thesis by (simp add: Let_def)
qed

theorem device_cookie_roundtrip_witness:
  "parse_device_cookie sample_rl (Some (device_cookie sample_rl ''joe'' ''n1'')) = Some (''n1'', ''joe'')"
  using device_cookie_roundtrip [of "''joe''" "''n1''" sample_rl] by simp

end
