(* ===== verification/Credentials.thy ===== *)
theory Credentials
  imports Mail_Db Sessions Rate_Limit OAuth_Server
begin

text \<open>
  Passwords and application tokens (\<open>models.py\<close>, \<open>utils.py\<close>) and the credential check shared by
  the mail proxy and the basic authentication endpoint (\<open>internal/nginx.py\<close>).  passlib is the
  record \<open>crypto\<close>: its verifications may raise, on a hash it does not know or a secret that is too
  long.  The state is the database and the credential cache of the worker process.
\<close>

section \<open>Passwords\<close>

record crypto =
  cr_verify :: "string \<Rightarrow> string \<Rightarrow> (bool \<times> string option) outcome"
  cr_hash :: "string \<Rightarrow> string"
  fast_hash :: "string \<Rightarrow> string"
  fast_verify :: "string \<Rightarrow> string \<Rightarrow> bool outcome"
  sha256_verify :: "string \<Rightarrow> string \<Rightarrow> bool outcome"

type_synonym cache = "(string, string \<times> string) dict"

definition current_salt :: "string \<Rightarrow> string option" where
  "current_salt h = (let parts = split_on CHR ''$'' h in if length parts = 5 then Some (parts ! 3) else None)"

definition strip_scheme :: "string \<Rightarrow> string" where
  "strip_scheme h =
     (if list_ex (\<lambda>s. prefix s h) [''{PBKDF2}'', ''{BLF-CRYPT}'', ''{SHA512-CRYPT}'', ''{SHA256-CRYPT}'',
           ''{MD5-CRYPT}'', ''{CRYPT}'']
      then (case cut CHR ''}'' h of Some (_, r) \<Rightarrow> r | None \<Rightarrow> h) else h)"

text \<open>The slow path: verify against the stored hash, store the new hash when there is one, and
  remember a success in the cache; a stored hash with fewer than four parts is an IndexError.\<close>

definition verify_slow :: "crypto \<Rightarrow> user \<Rightarrow> string \<Rightarrow> cache \<Rightarrow> (bool \<times> user \<times> cache) outcome" where
  "verify_slow cr u pw cache =
     bind_out (cr_verify cr pw (strip_scheme (password u))) (\<lambda>(result, new_hash).
        let u' = (case new_hash of None \<Rightarrow> u | Some h \<Rightarrow> if h = [] then u else u\<lparr>password := h\<rparr>);
            parts = split_on CHR ''$'' (password u')
        in if \<not> result then Ret (False, u', cache)
           else if length parts \<le> 3 then Exn IndexError
           else Ret (True, u', dict_set (email u) (parts ! 3, fast_hash cr pw) cache))"

definition check_password :: "crypto \<Rightarrow> user \<Rightarrow> string \<Rightarrow> cache \<Rightarrow> (bool \<times> user \<times> cache) outcome" where
  "check_password cr u pw cache =
     (if pw = [] then Ret (False, u, cache)
      else (case (dict_get cache (email u), current_salt (password u)) of
         (Some (cache_salt, cache_hash), Some salt) \<Rightarrow>
           if salt = [] then verify_slow cr u pw cache
           else if cache_salt = salt then bind_out (fast_verify cr pw cache_hash) (\<lambda>ok. Ret (ok, u, cache))
           else verify_slow cr u pw (dict_del (email u) cache)
       | _ \<Rightarrow> verify_slow cr u pw cache))"

definition put_user :: "user \<Rightarrow> db \<Rightarrow> db" where
  "put_user u d = d\<lparr>users := map (\<lambda>r. if email r = email u then u else r) (users d)\<rparr>"

text \<open>\<open>set_password\<close>; \<open>keep\<close> is None for True (keep every session), else the set to keep.\<close>

definition set_password ::
  "'s store \<Rightarrow> session_cfg \<Rightarrow> crypto \<Rightarrow> int \<Rightarrow> bool \<Rightarrow> string set option \<Rightarrow> bool \<Rightarrow> user \<Rightarrow> string \<Rightarrow>
   db \<times> 's \<Rightarrow> db \<times> 's" where
  "set_password S scfg cr now raw keep persistent u pw s =
     (case s of (d, st) \<Rightarrow>
        let d1 = put_user (u\<lparr>password := (if raw then pw else cr_hash cr pw)\<rparr>) d;
            d2 = (if persistent then force_user_reauthentication now (email u) d1 else d1);
            st' = (case keep of None \<Rightarrow> st | Some k \<Rightarrow> fst (prune_sessions S scfg (Some (email u)) k st))
        in (d2, st'))"

definition passkeys_of :: "db \<Rightarrow> user \<Rightarrow> passkey list" where
  "passkeys_of d u = filter (\<lambda>p. pk_user p = email u) (passkeys d)"

record auth_state =
  a_db :: db
  a_cache :: cache

definition user_login ::
  "(string \<Rightarrow> string option) \<Rightarrow> crypto \<Rightarrow> bool \<Rightarrow> string \<Rightarrow> string \<Rightarrow> auth_state \<Rightarrow>
   (user option \<times> auth_state) outcome" where
  "user_login enc cr passkey_required mail pw s =
     bind_out (get_user enc (a_db s) mail)
       (\<lambda>r. case r of
          None \<Rightarrow> Ret (None, s)
        | Some u \<Rightarrow>
            if \<not> enabled u \<or> passkey_required \<or> passkeys_of (a_db s) u \<noteq> [] then Ret (None, s)
            else bind_out (check_password cr u pw (a_cache s))
              (\<lambda>(ok, u', c). Ret (if ok then Some u' else None, \<lparr>a_db = put_user u' (a_db s), a_cache = c\<rparr>)))"

section \<open>Application tokens\<close>

definition is_app_token :: "string \<Rightarrow> bool" where
  "is_app_token s \<longleftrightarrow> length s = 32 \<and> list_all (\<lambda>c. is_digit c \<or> code_in 97 102 c) s"

definition token_check_password :: "crypto \<Rightarrow> token \<Rightarrow> string \<Rightarrow> (bool \<times> token) outcome" where
  "token_check_password cr t pw =
     (if prefix ''$5$'' (token_password t)
      then bind_out (sha256_verify cr pw (token_password t)) (\<lambda>ok.
        Ret (ok, if ok then t\<lparr>token_password := fast_hash cr pw\<rparr> else t))
      else bind_out (fast_verify cr pw (token_password t)) (\<lambda>ok. Ret (ok, t)))"

definition put_token :: "token \<Rightarrow> db \<Rightarrow> db" where
  "put_token t d = d\<lparr>tokens := map (\<lambda>r. if token_id r = token_id t then t else r) (tokens d)\<rparr>"

definition tokens_of :: "db \<Rightarrow> user \<Rightarrow> token list" where
  "tokens_of d u = filter (\<lambda>t. token_user t = email u) (tokens d)"

text \<open>The loop over a user's tokens: the first that matches decides, by its address list.\<close>

fun try_tokens :: "crypto \<Rightarrow> string \<Rightarrow> string \<Rightarrow> token list \<Rightarrow> db \<Rightarrow> (bool \<times> db) outcome" where
  "try_tokens cr pw addr [] d = Ret (False, d)"
| "try_tokens cr pw addr (t # ts) d =
     bind_out (token_check_password cr t pw) (\<lambda>(ok, t').
        if ok then
          (if token_ip t = [] then Ret (True, put_token t' d)
           else bind_out (is_ip_in_subnet addr (token_ip t)) (\<lambda>b. Ret (b, put_token t' d)))
        else try_tokens cr pw addr ts d)"

definition check_credentials_for_api ::
  "crypto \<Rightarrow> user option \<Rightarrow> string \<Rightarrow> string \<Rightarrow> db \<Rightarrow> (bool \<times> db) outcome" where
  "check_credentials_for_api cr u pw addr d =
     (case u of
        None \<Rightarrow> Ret (False, d)
      | Some u' \<Rightarrow>
          if \<not> enabled u' then Ret (False, d)
          else if is_app_token pw then try_tokens cr pw addr (tokens_of d u') d
          else Ret (False, d))"

section \<open>The credential check of the proxy\<close>

record 's auth_env =
  ae_enc :: "string \<Rightarrow> string option"
  ae_crypto :: crypto
  ae_store :: "'s store"
  ae_session_cfg :: session_cfg
  require_tokens :: bool

definition WEBMAIL_PORTS :: "string list" where
  "WEBMAIL_PORTS = [''14190'', ''10143'', ''10025'']"

definition check_credentials ::
  "'s auth_env \<Rightarrow> int \<Rightarrow> 's \<Rightarrow> user option \<Rightarrow> string \<Rightarrow> string \<Rightarrow> string \<Rightarrow> string option \<Rightarrow> auth_state \<Rightarrow>
   (bool \<times> auth_state) outcome" where
  "check_credentials e now st u pw addr protocol auth_port s =
     (let webmail = (\<exists>p\<in>set WEBMAIL_PORTS. auth_port = Some p) in
      case u of
        None \<Rightarrow> Ret (False, s)
      | Some u' \<Rightarrow>
          if \<not> enabled u' \<or> (protocol = ''imap'' \<and> \<not> enable_imap u' \<and> \<not> webmail)
             \<or> (protocol = ''pop3'' \<and> \<not> enable_pop u') then Ret (False, s)
          else if webmail \<and> prefix ''token-'' pw
                  \<and> verify_temp_token (ae_store e) (ae_session_cfg e) now (email u') pw st then Ret (True, s)
          else if is_app_token pw then
            bind_out (try_tokens (ae_crypto e) pw addr (tokens_of (a_db s) u') (a_db s))
              (\<lambda>(ok, d). Ret (ok, s\<lparr>a_db := d\<rparr>))
          else bind_out (check_password (ae_crypto e) u' pw (a_cache s))
            (\<lambda>(ok, u'', c).
               let s' = \<lparr>a_db = put_user u'' (a_db s), a_cache = c\<rparr> in
               if ok then Ret (\<not> (require_tokens e \<and> protocol \<notin> {''web'', ''sso''}), s')
               else Ret (False, s')))"

section \<open>What the cache may change\<close>

text \<open>What passlib documents: verification offers a new hash only together with success, the new
  hash is one of the default scheme, which has five parts, and verifies the same password; and a
  fast hash made of a password that was accepted verifies that password.  Nothing is said of other
  passwords: schemes exist that read only the beginning of one.\<close>

definition passlib_ok :: "crypto \<Rightarrow> bool" where
  "passlib_ok cr \<longleftrightarrow>
     (\<forall>p h b h'. cr_verify cr p h = Ret (b, Some h') \<longrightarrow> b \<and> length (split_on CHR ''$'' h') = 5
         \<and> (\<exists>n. cr_verify cr p (strip_scheme h') = Ret (True, n)))
   \<and> (\<forall>p h n. cr_verify cr p h = Ret (True, n) \<longrightarrow> fast_verify cr p (fast_hash cr p) = Ret True)"

definition correct_password :: "crypto \<Rightarrow> user \<Rightarrow> string \<Rightarrow> bool" where
  "correct_password cr u pw \<longleftrightarrow> pw \<noteq> [] \<and> (\<exists>n. cr_verify cr pw (strip_scheme (password u)) = Ret (True, n))"

text \<open>An entry whose salt is the current one remembers a correct password: salts are random,
  so the same salt means the same hash.\<close>

definition cache_ok :: "crypto \<Rightarrow> user \<Rightarrow> cache \<Rightarrow> bool" where
  "cache_ok cr u cache \<longleftrightarrow>
     (\<forall>s h. dict_get cache (email u) = Some (s, h) \<and> current_salt (password u) = Some s
        \<longrightarrow> (\<exists>p. correct_password cr u p \<and> h = fast_hash cr p))"

lemma verify_slow_cases:
  assumes "passlib_ok cr" "pw \<noteq> []"
  obtains (raised) x where "verify_slow cr u pw cache = Exn x" "cr_verify cr pw (strip_scheme (password u)) = Exn x"
  | (short) "verify_slow cr u pw cache = Exn IndexError" "length (split_on CHR ''$'' (password u)) \<le> 3"
  | (refused) "verify_slow cr u pw cache = Ret (False, u, cache)" "\<not> correct_password cr u pw"
  | (accepted) h where "verify_slow cr u pw cache
       = Ret (True, u\<lparr>password := h\<rparr>, dict_set (email u) (split_on CHR ''$'' h ! 3, fast_hash cr pw) cache)"
      "correct_password cr u pw" "correct_password cr (u\<lparr>password := h\<rparr>) pw" "3 < length (split_on CHR ''$'' h)"
proof (cases "cr_verify cr pw (strip_scheme (password u))")
  case (Exn x)
  then show thesis by (intro raised) (simp_all add: verify_slow_def)
next
  case (Ret r)
  obtain b n where r: "cr_verify cr pw (strip_scheme (password u)) = Ret (b, n)" using Ret by (cases r) simp
  show thesis
  proof (cases n)
    case None
    then show thesis
      using r assms(2) refused short accepted [of "password u"]
      by (cases b; cases "length (split_on CHR ''$'' (password u)) \<le> 3")
        (simp_all add: verify_slow_def correct_password_def)
  next
    case (Some h)
    then have h: "b" "length (split_on CHR ''$'' h) = 5" "\<exists>m. cr_verify cr pw (strip_scheme h) = Ret (True, m)"
      using assms(1) r unfolding passlib_ok_def by blast+
    then have "h \<noteq> []" by auto
    then show thesis using Some r h assms(2) by (intro accepted [of h]) (simp_all add: verify_slow_def correct_password_def)
  qed
qed

lemma check_password_cases:
  assumes "pw \<noteq> []"
  obtains (hit) s h where "dict_get cache (email u) = Some (s, h)" "current_salt (password u) = Some s" "s \<noteq> []"
      "check_password cr u pw cache = bind_out (fast_verify cr pw h) (\<lambda>ok. Ret (ok, u, cache))"
  | (stale) "check_password cr u pw cache = verify_slow cr u pw (dict_del (email u) cache)"
  | (miss) "check_password cr u pw cache = verify_slow cr u pw cache"
      "dict_get cache (email u) = None \<or> current_salt (password u) = None \<or> current_salt (password u) = Some []"
proof (cases "dict_get cache (email u)"; cases "current_salt (password u)")
  fix e salt
  assume a: "dict_get cache (email u) = Some e" "current_salt (password u) = Some salt"
  obtain s h where e: "e = (s, h)" by fastforce
  consider "salt = []" | "salt \<noteq> []" "s = salt" | "salt \<noteq> []" "s \<noteq> salt" by blast
  then show thesis
    by cases (use a e assms hit stale miss in \<open>simp_all add: check_password_def\<close>)
qed (use assms miss in \<open>simp_all add: check_password_def split: option.splits\<close>)

text \<open>A password that was just accepted is accepted again.\<close>

lemma accepted_again:
  assumes "passlib_ok cr" "correct_password cr u pw" "3 < length (split_on CHR ''$'' (password u))"
    and "dict_get cache (email u) = Some (split_on CHR ''$'' (password u) ! 3, fast_hash cr pw)"
  shows "\<exists>v c. check_password cr u pw cache = Ret (True, v, c)"
proof -
  have pw: "pw \<noteq> []" using assms(2) by (simp add: correct_password_def)
  have f: "fast_verify cr pw (fast_hash cr pw) = Ret True"
    using assms(1,2) unfolding passlib_ok_def correct_password_def by blast
  have slow: "\<exists>v c. verify_slow cr u pw ca = Ret (True, v, c)" for ca
    using assms(2,3) by (cases rule: verify_slow_cases [OF assms(1) pw, of u ca]) (auto simp: correct_password_def)
  from pw show ?thesis
  proof (cases rule: check_password_cases [where cr = cr and cache = cache and u = u])
    case (hit s h)
    then show ?thesis using assms(4) f by simp
  qed (simp_all add: slow)
qed

lemma cache_ok_del: "cache_ok cr u (dict_del (email u) cache)"
  by (simp add: cache_ok_def)

definition checked_ok :: "crypto \<Rightarrow> user \<Rightarrow> string \<Rightarrow> bool \<times> user \<times> cache \<Rightarrow> bool" where
  "checked_ok cr u pw r \<longleftrightarrow> (case r of (ok, u', cache') \<Rightarrow>
     (ok \<longrightarrow> (\<exists>p. correct_password cr u p \<and> (p = pw \<or> fast_verify cr pw (fast_hash cr p) = Ret True)))
   \<and> (\<not> ok \<longrightarrow> \<not> correct_password cr u pw
        \<or> (\<exists>p. p \<noteq> pw \<and> correct_password cr u p \<and> fast_verify cr pw (fast_hash cr p) = Ret False))
   \<and> cache_ok cr u' cache' \<and> email u' = email u \<and> (u' = u \<or> correct_password cr u pw \<and> correct_password cr u' pw)
   \<and> (ok \<longrightarrow> (\<exists>v c. check_password cr u' pw cache' = Ret (True, v, c))))"

lemma verify_slow_ok:
  assumes "passlib_ok cr" "pw \<noteq> []" "cache_ok cr u cache" "verify_slow cr u pw cache = Ret r"
  shows "checked_ok cr u pw r"
proof -
  from assms(1,2) show ?thesis
  proof (cases rule: verify_slow_cases [where cr = cr and pw = pw and u = u and cache = cache])
    case (accepted h)
    let ?u = "u\<lparr>password := h\<rparr>" and ?c = "dict_set (email u) (split_on CHR ''$'' h ! 3, fast_hash cr pw) cache"
    have "cache_ok cr ?u ?c" using accepted(3) by (auto simp: cache_ok_def)
    moreover have "\<exists>v c. check_password cr ?u pw ?c = Ret (True, v, c)"
      using accepted(3,4) by (intro accepted_again [OF assms(1)]) simp_all
    ultimately show ?thesis using accepted assms(4) by (auto simp: checked_ok_def)
  qed (use assms in \<open>auto simp: checked_ok_def\<close>)
qed

lemma check_password_ok:
  assumes "passlib_ok cr" "cache_ok cr u cache" "check_password cr u pw cache = Ret r"
  shows "checked_ok cr u pw r"
proof (cases "pw = []")
  case True
  then show ?thesis using assms(2,3) by (auto simp: check_password_def checked_ok_def correct_password_def)
next
  case False
  then show ?thesis
  proof (cases rule: check_password_cases [where cr = cr and cache = cache and u = u])
    case (hit s h)
    obtain p where p: "correct_password cr u p" "h = fast_hash cr p"
      using hit(1,2) assms(2) unfolding cache_ok_def by blast
    obtain b where b: "fast_verify cr pw h = Ret b" "r = (b, u, cache)"
      using hit(4) assms(3) by (cases "fast_verify cr pw h") auto
    have "p \<noteq> pw" if "\<not> b" "correct_password cr u pw"
      using assms(1) that b(1) p(2) unfolding passlib_ok_def correct_password_def by fastforce
    then show ?thesis using p b assms(2,3) by (auto simp: checked_ok_def)
  next
    case stale
    then show ?thesis using verify_slow_ok [OF assms(1) False cache_ok_del] assms(3) by simp
  next
    case miss
    then show ?thesis using verify_slow_ok [OF assms(1) False assms(2)] assms(3) by simp
  qed
qed

lemma check_password_raises:
  assumes "passlib_ok cr" "check_password cr u pw cache = Exn x"
  shows "cr_verify cr pw (strip_scheme (password u)) = Exn x
    \<or> (\<exists>s h. dict_get cache (email u) = Some (s, h) \<and> fast_verify cr pw h = Exn x)
    \<or> x = IndexError \<and> length (split_on CHR ''$'' (password u)) \<le> 3"
proof -
  have pw: "pw \<noteq> []" using assms(2) by (auto simp: check_password_def)
  have slow: "verify_slow cr u pw ca = Exn x \<Longrightarrow> cr_verify cr pw (strip_scheme (password u)) = Exn x
      \<or> x = IndexError \<and> length (split_on CHR ''$'' (password u)) \<le> 3" for ca
    by (cases rule: verify_slow_cases [OF assms(1) pw, of u ca]) auto
  from pw show ?thesis
  proof (cases rule: check_password_cases [where cr = cr and cache = cache and u = u])
    case (hit s h)
    then show ?thesis using assms(2) by (cases "fast_verify cr pw h") auto
  qed (use assms(2) slow in auto)
qed

section \<open>What is accepted\<close>

text \<open>A password matches when it verifies against the remembered fast hash, where there is one for the
  current salt, else against the stored hash, which must then split into its parts.\<close>

definition stored_matches :: "crypto \<Rightarrow> user \<Rightarrow> string \<Rightarrow> bool" where
  "stored_matches cr u pw \<longleftrightarrow>
     (case cr_verify cr pw (strip_scheme (password u)) of
        Ret (True, n) \<Rightarrow>
          3 < length (split_on CHR ''$'' (case n of Some h \<Rightarrow> (if h = [] then password u else h) | None \<Rightarrow> password u))
      | _ \<Rightarrow> False)"

definition password_matches :: "crypto \<Rightarrow> user \<Rightarrow> string \<Rightarrow> cache \<Rightarrow> bool" where
  "password_matches cr u pw cache \<longleftrightarrow> pw \<noteq> [] \<and>
     (case dict_get cache (email u) of
        None \<Rightarrow> stored_matches cr u pw
      | Some (s, h) \<Rightarrow>
          if s \<noteq> [] \<and> current_salt (password u) = Some s then fast_verify cr pw h = Ret True
          else stored_matches cr u pw)"

lemma verify_slow_iff: "(\<exists>v c. verify_slow cr u pw cache = Ret (True, v, c)) \<longleftrightarrow> stored_matches cr u pw"
  by (cases "cr_verify cr pw (strip_scheme (password u))")
    (auto simp: verify_slow_def stored_matches_def Let_def split: option.splits bool.splits if_splits)

lemma check_password_iff:
  "(\<exists>v c. check_password cr u pw cache = Ret (True, v, c)) \<longleftrightarrow> password_matches cr u pw cache"
proof (cases "pw = []")
  case False
  have fast: "(\<exists>v c. bind_out (fast_verify cr pw h) (\<lambda>ok. Ret (ok, u, cache)) = Ret (True, v, c))
      \<longleftrightarrow> fast_verify cr pw h = Ret True" for h by (cases "fast_verify cr pw h") auto
  show ?thesis
    using False by (auto simp: check_password_def password_matches_def fast verify_slow_iff split: option.splits)
qed (simp add: check_password_def password_matches_def)

definition token_accepts :: "crypto \<Rightarrow> string \<Rightarrow> token \<Rightarrow> bool" where
  "token_accepts cr pw t \<longleftrightarrow> (\<exists>t'. token_check_password cr t pw = Ret (True, t'))"

definition token_refuses :: "crypto \<Rightarrow> string \<Rightarrow> token \<Rightarrow> bool" where
  "token_refuses cr pw t \<longleftrightarrow> (\<exists>t'. token_check_password cr t pw = Ret (False, t'))"

lemma try_tokens_iff:
  "(\<exists>d'. try_tokens cr pw addr ts d = Ret (True, d')) \<longleftrightarrow>
   (\<exists>t. find (\<lambda>t. \<not> token_refuses cr pw t) ts = Some t \<and> token_accepts cr pw t
        \<and> (token_ip t = [] \<or> is_ip_in_subnet addr (token_ip t) = Ret True))"
proof (induction ts)
  case (Cons t ts)
  show ?case
  proof (cases "token_check_password cr t pw")
    case (Ret r)
    then show ?thesis using Cons.IH
      by (cases r; cases "fst r") (auto simp: token_accepts_def token_refuses_def)
  qed (simp add: token_accepts_def token_refuses_def)
qed simp

definition webmail_port :: "string option \<Rightarrow> bool" where
  "webmail_port auth_port \<longleftrightarrow> (\<exists>p\<in>set WEBMAIL_PORTS. auth_port = Some p)"

section \<open>Properties\<close>

text \<open>
  C30. The credential cache answers as the stored hash does, as far as passlib's hashes tell passwords
  apart.  A check that returns accepts only a password that verifies against the stored hash or
  whose fast hash is that of one that does; it refuses a password that verifies only when another
  password that verifies too was remembered; it keeps the invariant of the cache, changes the row
  only to a new hash of the accepted password, and what it accepted it accepts again.  It raises
  only what passlib raised, or because the stored hash has fewer than four parts.
\<close>
theorem password_cache_transparent:
  assumes "passlib_ok cr" "cache_ok cr u cache"
  shows "case check_password cr u pw cache of
      Exn x \<Rightarrow> cr_verify cr pw (strip_scheme (password u)) = Exn x
        \<or> (\<exists>s h. dict_get cache (email u) = Some (s, h) \<and> fast_verify cr pw h = Exn x)
        \<or> x = IndexError \<and> length (split_on CHR ''$'' (password u)) \<le> 3
    | Ret (ok, u', cache') \<Rightarrow>
        (ok \<longrightarrow> (\<exists>p. correct_password cr u p \<and> (p = pw \<or> fast_verify cr pw (fast_hash cr p) = Ret True)))
        \<and> (\<not> ok \<longrightarrow> \<not> correct_password cr u pw
             \<or> (\<exists>p. p \<noteq> pw \<and> correct_password cr u p \<and> fast_verify cr pw (fast_hash cr p) = Ret False))
        \<and> cache_ok cr u' cache' \<and> email u' = email u
        \<and> (u' = u \<or> correct_password cr u pw \<and> correct_password cr u' pw)
        \<and> (ok \<longrightarrow> (\<exists>v c. check_password cr u' pw cache' = Ret (True, v, c)))"
proof (cases "check_password cr u pw cache")
  case (Exn x)
  then show ?thesis using check_password_raises [OF assms(1)] by simp
next
  case (Ret r)
  obtain ok v c where r: "r = (ok, v, c)" by (cases r)
  show ?thesis using check_password_ok [OF assms Ret] unfolding Ret r checked_ok_def by simp
qed

text \<open>
  C29. The credential check accepts exactly: an enabled user for whom the protocol is enabled
  (a webmail port lifts the IMAP flag only), who presents the webmail token of a live session of
  that user on a webmail port; or an application token, where the first of the user's tokens that
  does not refuse it accepts it and has no address list or one that contains the client; or, for
  anything not shaped like a token, a password that matches the remembered or else the stored hash,
  unless tokens are required and the protocol is neither web nor sso.
\<close>
theorem credentials_accepted_iff:
  fixes e :: "'s auth_env" and u :: user
  shows "(\<exists>s'. check_credentials e now st (Some u) pw addr protocol auth_port s = Ret (True, s')) \<longleftrightarrow>
    enabled u \<and> (protocol = ''imap'' \<longrightarrow> enable_imap u \<or> webmail_port auth_port) \<and> (protocol = ''pop3'' \<longrightarrow> enable_pop u)
    \<and> (webmail_port auth_port \<and> verify_temp_token (ae_store e) (ae_session_cfg e) now (email u) pw st
       \<or> is_app_token pw
         \<and> (\<exists>t. find (\<lambda>t. \<not> token_refuses (ae_crypto e) pw t) (tokens_of (a_db s) u) = Some t
               \<and> token_accepts (ae_crypto e) pw t
               \<and> (token_ip t = [] \<or> is_ip_in_subnet addr (token_ip t) = Ret True))
       \<or> \<not> is_app_token pw \<and> password_matches (ae_crypto e) u pw (a_cache s)
         \<and> (require_tokens e \<longrightarrow> protocol \<in> {''web'', ''sso''}))"
proof -
  have wm: "(\<exists>p\<in>set WEBMAIL_PORTS. auth_port = Some p) = webmail_port auth_port" by (simp add: webmail_port_def)
  have vt: "verify_temp_token (ae_store e) (ae_session_cfg e) now (email u) pw st \<Longrightarrow> prefix ''token-'' pw"
    by (simp add: verify_temp_token_def)
  have tt: "(\<exists>s'. bind_out (try_tokens (ae_crypto e) pw addr (tokens_of (a_db s) u) (a_db s))
       (\<lambda>(ok, d). Ret (ok, s\<lparr>a_db := d\<rparr>)) = Ret (True, s'))
     \<longleftrightarrow> (\<exists>d'. try_tokens (ae_crypto e) pw addr (tokens_of (a_db s) u) (a_db s) = Ret (True, d'))"
    by (cases "try_tokens (ae_crypto e) pw addr (tokens_of (a_db s) u) (a_db s)") (auto split: prod.splits)
  let ?fits = "require_tokens e \<longrightarrow> protocol \<in> {''web'', ''sso''}"
  have pp: "(\<exists>s'. bind_out (check_password (ae_crypto e) u pw (a_cache s)) (\<lambda>(ok, u'', c).
        let s' = \<lparr>a_db = put_user u'' (a_db s), a_cache = c\<rparr>
        in if ok then Ret (\<not> (require_tokens e \<and> protocol \<notin> {''web'', ''sso''}), s') else Ret (False, s')) = Ret (True, s'))
     \<longleftrightarrow> password_matches (ae_crypto e) u pw (a_cache s) \<and> ?fits"
    unfolding check_password_iff [symmetric]
    by (cases "check_password (ae_crypto e) u pw (a_cache s)"; cases ?fits) (auto simp: Let_def split: if_splits)
  let ?gate = "\<not> enabled u \<or> protocol = ''imap'' \<and> \<not> enable_imap u \<and> \<not> webmail_port auth_port
      \<or> protocol = ''pop3'' \<and> \<not> enable_pop u"
  let ?temp = "webmail_port auth_port \<and> prefix ''token-'' pw
      \<and> verify_temp_token (ae_store e) (ae_session_cfg e) now (email u) pw st"
  note unfolded = check_credentials_def Let_def wm option.case
  let ?tok = "\<exists>t. find (\<lambda>t. \<not> token_refuses (ae_crypto e) pw t) (tokens_of (a_db s) u) = Some t
      \<and> token_accepts (ae_crypto e) pw t \<and> (token_ip t = [] \<or> is_ip_in_subnet addr (token_ip t) = Ret True)"
  let ?pass = "password_matches (ae_crypto e) u pw (a_cache s) \<and> ?fits"
  have "(\<exists>s'. check_credentials e now st (Some u) pw addr protocol auth_port s = Ret (True, s'))
     \<longleftrightarrow> (if ?gate then False else if ?temp then True else if is_app_token pw then ?tok else ?pass)"
  proof (cases "?gate"; cases "?temp"; cases "is_app_token pw")
    assume c: "\<not> ?gate" "\<not> ?temp" "is_app_token pw"
    show ?thesis unfolding unfolded if_not_P [OF c(1)] if_not_P [OF c(2)] if_P [OF c(3)] tt try_tokens_iff ..
  next
    assume c: "\<not> ?gate" "\<not> ?temp" "\<not> is_app_token pw"
    show ?thesis
      unfolding pp [symmetric] unfolding unfolded if_not_P [OF c(1)] if_not_P [OF c(2)] if_not_P [OF c(3)] ..
  qed (simp_all add: unfolded)
  then show ?thesis using vt
    by (cases "enabled u"; cases "protocol = ''imap''"; cases "enable_imap u"; cases "webmail_port auth_port";
        cases "enable_pop u") (simp_all only: simp_thms if_True if_False split: if_splits, argo+)
qed

section \<open>Examples\<close>

definition sample_crypto :: crypto where
  "sample_crypto = \<lparr>cr_verify = (\<lambda>p h. Ret (h = ''$x$1$salt$'' @ p, None)), cr_hash = (\<lambda>p. ''$x$1$salt$'' @ p),
     fast_hash = (\<lambda>p. p), fast_verify = (\<lambda>p h. Ret (p = h)), sha256_verify = (\<lambda>p h. Ret (h = ''$5$'' @ p))\<rparr>"

lemma sample_crypto_ok: "passlib_ok sample_crypto"
  by (auto simp: passlib_ok_def sample_crypto_def)

definition sample_login :: user where
  "sample_login = (sample_user ''joe'' ''x.org'')\<lparr>password := ''$x$1$salt$pw''\<rparr>"

lemma sample_login_parts: "split_on CHR ''$'' (password sample_login) = [[], ''x'', ''1'', ''salt'', ''pw'']"
  by (simp add: sample_login_def)

lemma sample_login_correct: "correct_password sample_crypto sample_login p \<longleftrightarrow> p = ''pw''"
  by (auto simp: correct_password_def sample_crypto_def sample_login_def strip_scheme_def)

lemma sample_cache_ok: "cache_ok sample_crypto sample_login [(''joe@x.org'', (''salt'', ''pw''))]"
proof -
  have "email sample_login = ''joe@x.org''" by (simp add: sample_login_def sample_user_def)
  moreover have "fast_hash sample_crypto ''pw'' = ''pw''" by (simp add: sample_crypto_def)
  ultimately show ?thesis by (auto simp: cache_ok_def sample_login_correct dict_get_Cons)
qed

lemma sample_check:
  "check_password sample_crypto sample_login pw [(''joe@x.org'', (''salt'', ''pw''))]
     = Ret (pw = ''pw'', sample_login, [(''joe@x.org'', (''salt'', ''pw''))])"
proof -
  have "current_salt (password sample_login) = Some ''salt''" by (simp add: current_salt_def sample_login_parts)
  moreover have "email sample_login = ''joe@x.org''" by (simp add: sample_login_def sample_user_def)
  ultimately show ?thesis by (simp add: check_password_def sample_crypto_def dict_get_Cons)
qed

theorem password_cache_transparent_witness:
  "\<exists>p. check_password sample_crypto sample_login ''pw'' [(''joe@x.org'', (''salt'', ''pw''))]
       = Ret (True, sample_login, [(''joe@x.org'', (''salt'', ''pw''))])
     \<and> correct_password sample_crypto sample_login p"
  using password_cache_transparent [OF sample_crypto_ok sample_cache_ok, of "''pw''"] by (auto simp: sample_check)

definition sample_auth :: "(string, sval) dict auth_env" where
  "sample_auth = \<lparr>ae_enc = Some, ae_crypto = sample_crypto, ae_store = dict_store, ae_session_cfg = sample_cfg,
     require_tokens = False\<rparr>"

theorem credentials_accepted_iff_witness:
  "\<exists>s'. check_credentials sample_auth 0 [] (Some sample_login) ''pw'' ''10.0.0.1'' ''imap'' (Some ''143'')
     \<lparr>a_db = empty_db, a_cache = [(''joe@x.org'', (''salt'', ''pw''))]\<rparr> = Ret (True, s')"
proof -
  have tok: "\<not> is_app_token ''pw''" by (simp add: is_app_token_def)
  have en: "enabled sample_login" "enable_imap sample_login" by (simp_all add: sample_login_def sample_user_def)
  have "password_matches sample_crypto sample_login ''pw'' [(''joe@x.org'', (''salt'', ''pw''))]"
    by (simp add: check_password_iff [symmetric] sample_check)
  then show ?thesis
    using credentials_accepted_iff [of sample_auth 0 "[]" sample_login "''pw''" "''10.0.0.1''" "''imap''" "Some ''143''"
        "\<lparr>a_db = empty_db, a_cache = [(''joe@x.org'', (''salt'', ''pw''))]\<rparr>"] tok en
    by (simp add: sample_auth_def)
qed

end
