(* ===== verification/Nginx_Auth.thy ===== *)
theory Nginx_Auth
  imports Credentials
begin

text \<open>
  Authentication of requests: the answers to the front proxy (\<open>internal/nginx.py\<close>,
  \<open>internal/views/auth.py\<close>) and the decorators of the REST API (\<open>api/common.py\<close>), composed of the
  credential check and the rate limiter.  Request and response headers are dictionaries; a
  header that is indexed and absent raises KeyError.
\<close>

section \<open>Percent decoding\<close>

fun unquote_bytes :: "string \<Rightarrow> string" where
  "unquote_bytes (p # a # b # cs) =
     (if p = CHR ''%'' \<and> is_hex a \<and> is_hex b then char_of (16 * hex_val a + hex_val b) # unquote_bytes cs
      else p # unquote_bytes (a # b # cs))"
| "unquote_bytes cs = cs"

text \<open>\<open>bytes.decode("utf-8", "replace")\<close>: the length of the sequence at the head of the input and
  whether it is well formed; a malformed one is replaced by U+FFFD.\<close>

fun utf8_head :: "string \<Rightarrow> nat \<times> bool" where
  "utf8_head [] = (0, True)"
| "utf8_head (c # cs) =
     (let cont = (\<lambda>lo hi i. i < length cs \<and> code_in lo hi (cs ! i)) in
      if code_in 0 127 c then (1, True)
      else if code_in 194 223 c then (if cont 128 191 0 then (2, True) else (1, False))
      else if code_in 224 239 c then
        (if \<not> cont (if c = CHR 0xE0 then 160 else 128) (if c = CHR 0xED then 159 else 191) 0 then (1, False)
         else if cont 128 191 1 then (3, True) else (2, False))
      else if code_in 240 244 c then
        (if \<not> cont (if c = CHR 0xF0 then 144 else 128) (if c = CHR 0xF4 then 143 else 191) 0 then (1, False)
         else if \<not> cont 128 191 1 then (2, False)
         else if cont 128 191 2 then (4, True) else (3, False))
      else (1, False))"

lemma utf8_head_pos: "s \<noteq> [] \<Longrightarrow> 0 < fst (utf8_head s)"
  by (cases s) (simp_all add: Let_def)

function utf8_replace :: "string \<Rightarrow> string" where
  "utf8_replace s =
     (if s = [] then []
      else (case utf8_head s of (n, ok) \<Rightarrow>
              (if ok then take n s else [CHR 0xEF, CHR 0xBF, CHR 0xBD]) @ utf8_replace (drop n s)))"
  by pat_completeness auto
termination
proof (relation "measure length", goal_cases)
  case (2 s n ok)
  then have "0 < fst (utf8_head s)" by (intro utf8_head_pos) simp
  moreover have "fst (utf8_head s) = n" using 2(2) by (cases "utf8_head s") simp
  ultimately show ?case using 2(1) by (simp del: utf8_head.simps)
qed simp

declare utf8_replace.simps [simp del]

text \<open>\<open>urllib.parse.unquote\<close> decodes each run of ASCII characters by itself.\<close>

function unquote :: "string \<Rightarrow> string" where
  "unquote s =
     (if s = [] then []
      else (let ascii = code_in 0 127; run = takeWhile ascii s; rest = dropWhile ascii s;
                lit = takeWhile (\<lambda>c. \<not> ascii c) rest; rest' = dropWhile (\<lambda>c. \<not> ascii c) rest
            in utf8_replace (unquote_bytes run) @ lit @ unquote rest'))"
  by pat_completeness auto
termination
proof (relation "measure length", goal_cases)
  case (2 s)
  have "length (dropWhile (\<lambda>c. \<not> code_in 0 127 c) (dropWhile (code_in 0 127) s)) < length s"
  proof (cases s)
    case (Cons c cs)
    then show ?thesis
      using length_dropWhile_le [of "\<lambda>c. \<not> code_in 0 127 c" "dropWhile (code_in 0 127) cs"]
        length_dropWhile_le [of "code_in 0 127" cs] length_dropWhile_le [of "\<lambda>c. \<not> code_in 0 127 c" cs]
      by auto
  qed (use 2 in simp)
  then show ?case using 2 by simp
qed simp

declare unquote.simps [simp del]

section \<open>The authentication handler of the proxy\<close>

definition hdr :: "(string, string) dict \<Rightarrow> string \<Rightarrow> string outcome" where
  "hdr hs k = (case dict_get hs k of None \<Rightarrow> Exn KeyError | Some v \<Rightarrow> Ret v)"

definition STATUSES :: "(string, string \<times> (string, string) dict) dict" where
  "STATUSES =
     [(''authentication'', (''Authentication credentials invalid'',
        [(''imap'', ''AUTHENTICATIONFAILED''), (''smtp'', ''535 5.7.8''), (''submission'', ''535 5.7.8''),
         (''lmtp'', ''535 5.7.8''), (''pop3'', ''-ERR Authentication failed''), (''sieve'', ''AuthFailed'')])),
      (''encryption'', (''Must issue a STARTTLS command first'',
        [(''imap'', ''PRIVACYREQUIRED''), (''smtp'', ''530 5.7.0''), (''submission'', ''530 5.7.0''),
         (''lmtp'', ''530 5.7.0''), (''pop3'', ''-ERR Authentication canceled.''), (''sieve'', ''ENCRYPT-NEEDED'')])),
      (''ratelimit'', (''Temporary authentication failure (rate-limit)'',
        [(''imap'', ''LIMIT''), (''smtp'', ''451 4.3.2''), (''submission'', ''451 4.3.2''),
         (''lmtp'', ''451 4.3.2''), (''pop3'', ''-ERR [LOGIN-DELAY] Retry later''), (''sieve'', ''AuthFailed'')]))]"

definition get_status :: "string \<Rightarrow> string \<Rightarrow> (string \<times> string) outcome" where
  "get_status protocol status =
     (case dict_get STATUSES status of
        None \<Rightarrow> Exn KeyError
      | Some (text, table) \<Rightarrow> bind_out (hdr table protocol) (\<lambda>code. Ret (text, code)))"

record ('s, 'l) proxy_env =
  px_auth :: "'s auth_env"
  px_limits :: "'l limits_lib"
  px_rl :: rl_cfg
  inbound_tls_enforce :: bool
  imap_address :: string
  smtp_address :: string
  resolve_hostname :: "string \<Rightarrow> string outcome"

text \<open>An unknown protocol leaves the host name unassigned, which raises at its use.\<close>

definition server_target :: "('s, 'l) proxy_env \<Rightarrow> string \<Rightarrow> bool \<Rightarrow> (string \<times> nat) option" where
  "server_target e protocol authenticated =
     (if protocol = ''imap'' then Some (imap_address e, 143)
      else if protocol = ''pop3'' then Some (imap_address e, 110)
      else if protocol = ''smtp'' then (if authenticated then Some (smtp_address e, 10025) else Some (smtp_address e, 25))
      else if protocol = ''submission'' then Some (imap_address e, 2587)
      else if protocol = ''lmtp'' then Some (imap_address e, 2525)
      else if protocol = ''sieve'' then Some (imap_address e, 4190)
      else None)"

definition get_server :: "('s, 'l) proxy_env \<Rightarrow> string \<Rightarrow> bool \<Rightarrow> (string \<times> nat) outcome" where
  "get_server e protocol authenticated =
     (case server_target e protocol authenticated of
        None \<Rightarrow> Exn OtherError
      | Some (h, port) \<Rightarrow>
          if ip_address h \<noteq> None then Ret (h, port)
          else bind_out (resolve_hostname e h) (\<lambda>a. Ret (a, port)))"

definition py_bool :: "bool \<Rightarrow> string" where
  "py_bool b = (if b then ''True'' else ''False'')"

definition incoming :: "string \<Rightarrow> string \<Rightarrow> bool" where
  "incoming meth protocol \<longleftrightarrow> meth \<in> {[], ''none''} \<and> protocol \<in> {''smtp'', ''lmtp''}"

definition handle_incoming ::
  "('s, 'l) proxy_env \<Rightarrow> (string, string) dict \<Rightarrow> string \<Rightarrow> (string, string) dict outcome" where
  "handle_incoming e hs protocol =
     bind_out (get_server e protocol False) (\<lambda>(server, port).
       if inbound_tls_enforce e \<and> protocol = ''smtp'' \<and> dict_get hs ''Auth-SSL'' \<noteq> Some ''on''
       then bind_out (get_status protocol ''encryption'') (\<lambda>(status, code).
              Ret [(''Auth-Status'', status), (''Auth-Error-Code'', code), (''Auth-Wait'', ''0'')])
       else Ret [(''Auth-Status'', ''OK''), (''Auth-Server'', server), (''Auth-Port'', str_of_nat port)])"

text \<open>The user name, and the password and address when all three headers are there.\<close>

definition decode_login :: "(string, string) dict \<Rightarrow> string \<times> (string \<times> string) option" where
  "decode_login hs =
     (case dict_get hs ''Auth-User'' of
        None \<Rightarrow> (''invalid'', None)
      | Some u \<Rightarrow>
          (unquote u, case (dict_get hs ''Auth-Pass'', dict_get hs ''Client-Ip'') of
             (Some p, Some a) \<Rightarrow> Some (unquote p, unquote a) | _ \<Rightarrow> None))"

definition lookup_login :: "('s, 'l) proxy_env \<Rightarrow> auth_state \<Rightarrow> string \<Rightarrow> user option outcome" where
  "lookup_login e s mail =
     (if CHR ''@'' \<in> set mail then get_user (ae_enc (px_auth e)) (a_db s) mail else Ret None)"

definition refuse :: "string \<Rightarrow> string \<Rightarrow> bool \<Rightarrow> auth_state \<Rightarrow> ((string, string) dict \<times> auth_state) outcome" where
  "refuse protocol mail known s =
     bind_out (get_status protocol ''authentication'') (\<lambda>(status, code).
       Ret ([(''Auth-Status'', status), (''Auth-Error-Code'', code), (''Auth-User'', mail),
             (''Auth-User-Exists'', py_bool known), (''Auth-Wait'', ''0'')], s))"

definition handle_login ::
  "('s, 'l) proxy_env \<Rightarrow> int \<Rightarrow> 's \<Rightarrow> (string, string) dict \<Rightarrow> string \<Rightarrow> string \<Rightarrow> auth_state \<Rightarrow>
   ((string, string) dict \<times> auth_state) outcome" where
  "handle_login e now st hs raw_protocol protocol s =
     (case decode_login hs of
        (mail, None) \<Rightarrow> refuse protocol mail False s
      | (mail, Some (pw, addr)) \<Rightarrow>
          (case lookup_login e s mail of
             Exn err \<Rightarrow> refuse protocol mail False s
           | Ret u \<Rightarrow>
               bind_out (hdr hs ''Auth-Port'') (\<lambda>auth_port.
               bind_out (hdr hs ''Client-Port'') (\<lambda>source_port.
               bind_out (check_credentials (px_auth e) now st u pw addr protocol (Some auth_port) s)
                 (\<lambda>(ok, s').
                    if ok then bind_out (get_server e raw_protocol True) (\<lambda>(server, port).
                      Ret ([(''Auth-Status'', ''OK''), (''Auth-Server'', server), (''Auth-User'', mail),
                            (''Auth-User-Exists'', py_bool (u \<noteq> None)), (''Auth-Port'', str_of_nat port)], s'))
                    else refuse protocol mail (u \<noteq> None) s')))))"

definition handle_authentication ::
  "('s, 'l) proxy_env \<Rightarrow> int \<Rightarrow> 's \<Rightarrow> (string, string) dict \<Rightarrow> auth_state \<Rightarrow>
   ((string, string) dict \<times> auth_state) outcome" where
  "handle_authentication e now st hs s =
     bind_out (hdr hs ''Auth-Method'') (\<lambda>raw_method.
     bind_out (hdr hs ''Auth-Protocol'') (\<lambda>raw_protocol.
       let meth = lower raw_method; protocol = lower raw_protocol in
       if incoming meth protocol then bind_out (handle_incoming e hs protocol) (\<lambda>r. Ret (r, s))
       else if meth \<in> {''plain'', ''login''} then handle_login e now st hs raw_protocol protocol s
       else Exn OtherError))"

section \<open>The authentication endpoint of the proxy\<close>

record 'l proxy_state =
  p_auth :: auth_state
  p_limits :: 'l

definition with_ip :: "string \<Rightarrow> (ip \<Rightarrow> 'a outcome) \<Rightarrow> 'a outcome" where
  "with_ip s f = (case normalize_ip s of None \<Rightarrow> Exn ValueError | Some a \<Rightarrow> f a)"

definition rate_limited_reply :: "(string, string) dict \<Rightarrow> 'l proxy_state \<Rightarrow> ((string, string) dict \<times> 'l proxy_state) outcome" where
  "rate_limited_reply hs s =
     bind_out (hdr hs ''Auth-Protocol'') (\<lambda>protocol.
     bind_out (get_status protocol ''ratelimit'') (\<lambda>(status, code).
       Ret ([(''Auth-Status'', status), (''Auth-Error-Code'', code)], s)))"

text \<open>What follows the handler: the reply without the user name, and the limiter's bookkeeping.  The
  handler's answer has no \<open>Auth-Pass\<close>, so failures of known users are reported with an empty password.\<close>

definition settle ::
  "('s, 'l) proxy_env \<Rightarrow> (string, string) dict \<Rightarrow> string \<Rightarrow> string \<Rightarrow> bool \<Rightarrow> (string, string) dict \<Rightarrow>
   'l proxy_state \<Rightarrow> ((string, string) dict \<times> 'l proxy_state) outcome" where
  "settle e hs client port app_token r s =
     (let webmail = (port \<in> {''10143'', ''10025''});
          username = dict_get r ''Auth-User'';
          name = (case username of None \<Rightarrow> ''None'' | Some u \<Rightarrow> u);
          known = (dict_get r ''Auth-User-Exists'' = Some ''True'');
          reply = filter (\<lambda>p. fst p \<noteq> ''Auth-User'') r;
          fin = (if dict_get r ''Auth-Status'' = Some ''OK'' then
                   (if port = ''25'' then Ret (reply, s)
                    else with_ip client (\<lambda>a. Ret (reply, s\<lparr>p_limits := exempt_ip (px_limits e) (px_rl e) a (p_limits s)\<rparr>)))
                 else if known then
                   with_ip client (\<lambda>a. Ret (reply, s\<lparr>p_limits :=
                     rate_limit_user (px_limits e) (px_rl e) name a None
                       (unquote (case dict_get r ''Auth-Pass'' of None \<Rightarrow> [] | Some p \<Rightarrow> p)) (p_limits s)\<rparr>))
                 else if \<not> webmail then
                   with_ip client (\<lambda>a. Ret (reply, s\<lparr>p_limits := rate_limit_ip (px_limits e) (px_rl e) a username (p_limits s)\<rparr>))
                 else Ret (reply, s))
      in if known \<and> \<not> webmail \<and> \<not> app_token
         then with_ip client (\<lambda>a.
                if should_rate_limit_user (px_limits e) (px_rl e) name a None (p_limits s)
                then rate_limited_reply hs s else fin)
         else fin)"

definition nginx_authentication ::
  "('s, 'l) proxy_env \<Rightarrow> int \<Rightarrow> 's \<Rightarrow> (string, string) dict \<Rightarrow> 'l proxy_state \<Rightarrow>
   ((string, string) dict \<times> 'l proxy_state) outcome" where
  "nginx_authentication e now st hs s =
     bind_out (hdr hs ''Client-Ip'') (\<lambda>client.
     bind_out (hdr hs ''Auth-Port'') (\<lambda>port.
     bind_out (if port = ''25'' then hdr hs ''Auth-Method'' else Ret ''none'') (\<lambda>meth.
       if meth \<noteq> ''none'' then
         with_ip client (\<lambda>a. Ret ([(''Auth-Status'', ''AUTH not supported''), (''Auth-Error-Code'', ''502 5.5.1'')],
             s\<lparr>p_limits := rate_limit_ip (px_limits e) (px_rl e) a None (p_limits s)\<rparr>))
       else
         (let app_token = is_app_token (case dict_get hs ''Auth-Pass'' of None \<Rightarrow> [] | Some p \<Rightarrow> p);
              go = bind_out (handle_authentication e now st hs (p_auth s)) (\<lambda>(r, a').
                     settle e hs client port app_token r (s\<lparr>p_auth := a'\<rparr>))
          in if port \<notin> {''10143'', ''10025'', ''25''} \<and> \<not> app_token
             then with_ip client (\<lambda>a. if should_rate_limit_ip (px_limits e) (px_rl e) a (p_limits s)
                                       then rate_limited_reply hs s else go)
             else go))))"

section \<open>Subrequests of the web proxy\<close>

type_synonym http = "nat \<times> (string, string) dict"

definition admin_authentication :: "user option \<Rightarrow> http" where
  "admin_authentication current =
     (case current of None \<Rightarrow> (403, []) | Some u \<Rightarrow> if global_admin u \<and> enabled u then (200, []) else (403, []))"

definition bind_or_raise :: "(string \<Rightarrow> string option) \<Rightarrow> string \<Rightarrow> string outcome" where
  "bind_or_raise enc value = (case bind_email enc value of None \<Rightarrow> Exn ValueError | Some v \<Rightarrow> Ret v)"

definition no_disabled_owner :: "(string \<Rightarrow> string option) \<Rightarrow> db \<Rightarrow> mail_alias \<Rightarrow> bool" where
  "no_disabled_owner enc d a =
     (case owner_email a of
        None \<Rightarrow> True
      | Some o' \<Rightarrow> (case find (\<lambda>u. bind_email enc (email u) = Some o') (users d) of None \<Rightarrow> True | Some u \<Rightarrow> enabled u))"

definition user_alias_addresses :: "(string \<Rightarrow> string option) \<Rightarrow> db \<Rightarrow> string \<Rightarrow> string list outcome" where
  "user_alias_addresses enc d storage_email =
     bind_out (map_out (\<lambda>a. bind_or_raise enc (alias_email a))
       (filter (\<lambda>a. contains storage_email (join_with CHR '','' (destination a)) \<and> \<not> wildcard a \<and> \<not> disabled a
                  \<and> no_disabled_owner enc d a \<and> storage_email \<in> set (destination a)) (aliases d)))
       (\<lambda>xs. Ret (sort (remdups xs)))"

definition alias_headers :: "string list \<Rightarrow> (string, string) dict" where
  "alias_headers addresses =
     (let serialized = join_with CHR '','' addresses in
      if str_len serialized \<le> 2048
      then [(''X-User-Aliases'', serialized), (''X-User-Aliases-Complete'', ''true'')]
      else [(''X-User-Aliases-Complete'', ''false'')])"

definition user_authentication ::
  "(string \<Rightarrow> string option) \<Rightarrow> 's store \<Rightarrow> session_cfg \<Rightarrow> string \<Rightarrow> user option \<Rightarrow> (string, string) dict \<Rightarrow>
   db \<Rightarrow> session \<Rightarrow> 's \<Rightarrow> (http \<times> session \<times> 's) outcome" where
  "user_authentication enc S cfg random current hs d x st =
     (case current of
        None \<Rightarrow> Ret ((403, []), x, st)
      | Some u \<Rightarrow>
          if \<not> enabled u then Ret ((403, []), x, st)
          else bind_out (bind_or_raise enc (email u)) (\<lambda>xuser.
            (case gen_temp_token S cfg random x st of (tok, x', st') \<Rightarrow>
               let base = [(''X-User'', xuser), (''X-User-Token'', tok)];
                   uri = (case dict_get hs ''X-Mailu-Original-URI'' of None \<Rightarrow> [] | Some v \<Rightarrow> v);
                   original = (case cut CHR ''?'' uri of None \<Rightarrow> uri | Some (a, _) \<Rightarrow> a) in
               if suffix ''/sso.php'' original
               then bind_out (user_alias_addresses enc d xuser) (\<lambda>adr. Ret ((200, base @ alias_headers adr), x', st'))
               else Ret ((200, base), x', st'))))"

section \<open>Basic authentication\<close>

text \<open>\<open>base64.b64decode\<close> of a str: non-ASCII text is a ValueError, other characters outside the
  alphabet are skipped, and the padding must be there.\<close>

definition std_b64_decode :: "string \<Rightarrow> string option" where
  "std_b64_decode s =
     (if list_all (code_in 0 127) s
      then map_option sextet_bytes (a2b 0 0 (filter (\<lambda>c. c \<notin> {CHR ''-'', CHR ''_''}) s)) else None)"

definition parse_basic :: "string \<Rightarrow> (string \<times> string) option" where
  "parse_basic authorization =
     (case std_b64_decode (py_replace ''Basic '' [] authorization) of
        None \<Rightarrow> None
      | Some raw \<Rightarrow>
          (case cut CHR '':'' raw of
             None \<Rightarrow> None
           | Some (mail, pw) \<Rightarrow> if utf8_valid mail then Some (mail, pw) else None))"

definition unauthorized :: "string \<Rightarrow> http" where
  "unauthorized realm = (401, [(''WWW-Authenticate'', ''Basic realm='' @ CHR 0x22 # realm @ [CHR 0x22])])"

definition limited_401 :: "string \<Rightarrow> http" where
  "limited_401 realm = (401, snd (unauthorized realm) @ [(''Retry-After'', ''60'')])"

text \<open>After the user is looked up: the check uses the header \<open>X-Real-Port\<close> as the authentication
  port.\<close>

definition basic_check ::
  "('s, 'l) proxy_env \<Rightarrow> int \<Rightarrow> 's \<Rightarrow> (string, string) dict \<Rightarrow> string \<Rightarrow> ip \<Rightarrow> user option \<Rightarrow> string \<Rightarrow> string \<Rightarrow>
   'l proxy_state \<Rightarrow> (http \<times> 'l proxy_state) outcome" where
  "basic_check e now st hs client a u mail pw s =
     (let L = px_limits e; cfg = px_rl e;
          failed = (\<lambda>s. Ret (unauthorized ''Login Required'', s\<lparr>p_limits :=
             (if u \<noteq> None then rate_limit_user L cfg mail a None [] (p_limits s)
              else rate_limit_ip L cfg a (Some mail) (p_limits s))\<rparr>)) in
      case u of
        None \<Rightarrow> failed s
      | Some u' \<Rightarrow>
          if \<not> utf8_valid pw then Exn ValueError
          else bind_out (check_credentials (px_auth e) now st u pw client ''web'' (dict_get hs ''X-Real-Port'') (p_auth s))
            (\<lambda>(ok, a').
               let s' = s\<lparr>p_auth := a'\<rparr> in
               if ok then bind_out (bind_or_raise (ae_enc (px_auth e)) (email u')) (\<lambda>xuser.
                 Ret ((200, [(''X-User'', xuser)]), s'\<lparr>p_limits := exempt_ip L cfg a (p_limits s')\<rparr>))
               else failed s'))"

definition basic_authentication ::
  "('s, 'l) proxy_env \<Rightarrow> int \<Rightarrow> 's \<Rightarrow> string \<Rightarrow> (string, string) dict \<Rightarrow> 'l proxy_state \<Rightarrow>
   (http \<times> 'l proxy_state) outcome" where
  "basic_authentication e now st remote_addr hs s =
     (let client = (case dict_get hs ''X-Real-IP'' of None \<Rightarrow> remote_addr | Some c \<Rightarrow> c) in
      with_ip client (\<lambda>a.
        if should_rate_limit_ip (px_limits e) (px_rl e) a (p_limits s)
        then Ret (limited_401 ''Authentication rate limit from one source exceeded'', s)
        else (case Option.bind (case dict_get hs ''Authorization'' of None \<Rightarrow> None
                                | Some v \<Rightarrow> if prefix ''Basic '' v then Some v else None) parse_basic of
                None \<Rightarrow> Ret (unauthorized ''Login Required'', s)
              | Some (mail, pw) \<Rightarrow>
                  if should_rate_limit_user (px_limits e) (px_rl e) mail a None (p_limits s)
                  then Ret (limited_401 ''Authentication rate limit for this username exceeded'', s)
                  else (case lookup_login e (p_auth s) mail of
                          Exn err \<Rightarrow> Ret (unauthorized ''Login Required'', s)
                        | Ret u \<Rightarrow> basic_check e now st hs client a u mail pw s))))"

section \<open>The gates of the REST API\<close>

datatype 'a gate = Refused nat string | Admitted 'a

definition remove_prefix :: "string \<Rightarrow> string \<Rightarrow> string" where
  "remove_prefix p s = (if prefix p s then drop (length p) s else s)"

text \<open>\<open>compare_digest\<close> raises TypeError on text that is not ASCII.\<close>

definition compare_digest :: "string \<Rightarrow> string \<Rightarrow> bool outcome" where
  "compare_digest a b = (if list_all (code_in 0 127) (a @ b) then Ret (a = b) else Exn TypeError)"

definition api_token_authorization ::
  "'l limits_lib \<Rightarrow> rl_cfg \<Rightarrow> string \<Rightarrow> string \<Rightarrow> (string, string) dict \<Rightarrow> 'l \<Rightarrow> (unit gate \<times> 'l) outcome" where
  "api_token_authorization L cfg api_token remote_addr hs l =
     (let client = (case dict_get hs ''X-Real-IP'' of None \<Rightarrow> remote_addr | Some c \<Rightarrow> c) in
      with_ip client (\<lambda>a.
        if should_rate_limit_ip L cfg a l
        then Ret (Refused 429 ''Too many attempts from your IP (rate-limit)'', l)
        else (let auth = (case dict_get hs ''Authorization'' of None \<Rightarrow> [] | Some v \<Rightarrow> v) in
              if auth = [] then Ret (Refused 401 ''A valid Authorization header is mandatory'', l)
              else bind_out (if str_len api_token < 4 then Ret False
                             else compare_digest (remove_prefix ''Bearer '' auth) api_token) (\<lambda>ok.
                if \<not> ok then Ret (Refused 403 ''Invalid API token'', rate_limit_ip L cfg a None l)
                else Ret (Admitted (), l)))))"

definition user_token_authorization ::
  "('s, 'l) proxy_env \<Rightarrow> string \<Rightarrow> user option \<Rightarrow> (string, string) dict \<Rightarrow> 'l proxy_state \<Rightarrow>
   (user gate \<times> 'l proxy_state) outcome" where
  "user_token_authorization e remote_addr current hs s =
     (let client = (case dict_get hs ''X-Real-IP'' of None \<Rightarrow> remote_addr | Some c \<Rightarrow> c);
          L = px_limits e; cfg = px_rl e;
          auth = (case dict_get hs ''Authentication'' of None \<Rightarrow> [] | Some v \<Rightarrow> v) in
      with_ip client (\<lambda>a.
        let punished = s\<lparr>p_limits := rate_limit_ip L cfg a None (p_limits s)\<rparr> in
        if should_rate_limit_ip L cfg a (p_limits s)
        then Ret (Refused 429 ''Too many attempts from your IP (rate-limit)'', s)
        else if auth = [] then
          (case current of
             None \<Rightarrow> Ret (Refused 401 ''A valid Authentication header is mandatory'', s)
           | Some u \<Rightarrow> Ret (Admitted u, s))
        else (case py_partition CHR '':'' auth of (raw_mail, _, raw_token) \<Rightarrow>
          if raw_token = [] then Ret (Refused 401 ''Invalid credentials format (expected email:token)'', punished)
          else (case get_user (ae_enc (px_auth e)) (a_db (p_auth s)) (unquote raw_mail) of
                  Ret (Some u) \<Rightarrow>
                    bind_out (check_credentials_for_api (ae_crypto (px_auth e)) (Some u) (unquote raw_token) client
                                (a_db (p_auth s)))
                      (\<lambda>(ok, d).
                         let upd = (\<lambda>t. t\<lparr>p_auth := (p_auth s)\<lparr>a_db := d\<rparr>\<rparr>) in
                         if ok then Ret (Admitted u, upd s) else Ret (Refused 403 ''Invalid credentials'', upd punished))
                | _ \<Rightarrow> Ret (Refused 403 ''Invalid credentials'', punished)))))"

definition fqdn_in_use :: "(string \<Rightarrow> string option) \<Rightarrow> db \<Rightarrow> string \<Rightarrow> bool outcome" where
  "fqdn_in_use enc d name =
     (case bind_domain enc name of
        None \<Rightarrow> Exn StatementError
      | Some k \<Rightarrow> Ret (\<exists>n\<in>set (map domain_name (domains d) @ map alt_name (alternatives d) @ map relay_name (relays d)).
                   bind_domain enc n = Some k))"

section \<open>Lemmas\<close>

lemma get_status_not_OK:
  assumes "get_status p k = Ret (t, c)"
  shows "t \<noteq> ''OK''"
proof -
  have "list_all (\<lambda>x. fst (snd x) \<noteq> ''OK'') STATUSES" by (simp add: STATUSES_def)
  moreover obtain table where "dict_get STATUSES k = Some (t, table)"
    using assms by (auto simp: get_status_def split: option.splits)
  ultimately show ?thesis by (auto dest!: dict_get_mem simp: list_all_iff)
qed

lemma rate_limited_not_OK:
  "rate_limited_reply hs s = Ret (r, s') \<Longrightarrow> dict_get r ''Auth-Status'' \<noteq> Some ''OK''"
  using get_status_not_OK by (fastforce simp: rate_limited_reply_def dict_get_Cons)

lemma refuse_not_OK:
  "refuse p m k s = Ret (r, s') \<Longrightarrow> dict_get r ''Auth-Status'' \<noteq> Some ''OK'' \<and> s' = s"
  using get_status_not_OK by (fastforce simp: refuse_def dict_get_Cons)

lemma get_filter_user: "dict_get (filter (\<lambda>p. fst p \<noteq> ''Auth-User'') r) ''Auth-Status'' = dict_get r ''Auth-Status''"
  by (induction r) (auto simp: dict_get_Cons)

lemma settle_OK:
  assumes "settle e hs client port tok r s = Ret (r', s')" "dict_get r' ''Auth-Status'' = Some ''OK''"
  shows "dict_get r ''Auth-Status'' = Some ''OK'' \<and> p_auth s' = p_auth s"
  using assms rate_limited_not_OK [of hs s]
  by (auto simp: settle_def Let_def with_ip_def get_filter_user split: if_splits option.splits)

lemma handle_login_OK:
  assumes "handle_login e now st hs rp p s = Ret (r, s')" "dict_get r ''Auth-Status'' = Some ''OK''"
  obtains mail pw addr u port where "decode_login hs = (mail, Some (pw, addr))" "lookup_login e s mail = Ret (Some u)"
    "dict_get hs ''Auth-Port'' = Some port"
    "check_credentials (px_auth e) now st (Some u) pw addr p (Some port) s = Ret (True, s')"
proof -
  obtain mail rest where dl: "decode_login hs = (mail, rest)" by fastforce
  show thesis
  proof (cases rest)
    case None
    then show ?thesis using assms dl refuse_not_OK by (auto simp: handle_login_def)
  next
    case (Some pa)
    obtain pw addr where pa: "pa = (pw, addr)" by fastforce
    show ?thesis
    proof (cases "lookup_login e s mail")
      case (Exn err)
      then show ?thesis using assms dl Some pa refuse_not_OK by (auto simp: handle_login_def)
    next
      case (Ret u)
      obtain port ok s1 where port: "dict_get hs ''Auth-Port'' = Some port"
        and cc: "check_credentials (px_auth e) now st u pw addr p (Some port) s = Ret (ok, s1)"
        and fin: "ok \<Longrightarrow> s' = s1" "\<not> ok \<Longrightarrow> refuse p mail (u \<noteq> None) s1 = Ret (r, s')"
        using assms(1) dl Some pa Ret by (auto simp: handle_login_def hdr_def split: option.splits if_splits prod.splits)
      have ok: ok using fin(2) refuse_not_OK assms(2) by blast
      then have "u \<noteq> None" using cc by (cases u) (auto simp: check_credentials_def)
      then show ?thesis using that dl Some pa Ret port cc ok fin(1) by auto
    qed
  qed
qed


section \<open>Properties\<close>

text \<open>
  C33. The proxy admits a mail connection only for a reason.  When the endpoint answers OK, either
  the connection is incoming mail (no authentication, SMTP or LMTP), over TLS where that is
  enforced; or it is a login on a port other than 25 whose decoded user exists and whose password
  the credential check accepted for that protocol and port, from an address that was not rate
  limited unless it came through the webmail or presented something shaped like a token.
\<close>
theorem nginx_ok_sound:
  assumes "nginx_authentication e now st hs s = Ret (r, s')" "dict_get r ''Auth-Status'' = Some ''OK''"
  shows "\<exists>m p client port. dict_get hs ''Auth-Method'' = Some m \<and> dict_get hs ''Auth-Protocol'' = Some p
      \<and> dict_get hs ''Client-Ip'' = Some client \<and> dict_get hs ''Auth-Port'' = Some port
      \<and> (port \<in> {''10143'', ''10025'', ''25''} \<or> (\<exists>pw. dict_get hs ''Auth-Pass'' = Some pw \<and> is_app_token pw)
         \<or> (\<exists>a. normalize_ip client = Some a \<and> \<not> should_rate_limit_ip (px_limits e) (px_rl e) a (p_limits s)))
      \<and> (incoming (lower m) (lower p)
           \<and> (inbound_tls_enforce e \<and> lower p = ''smtp'' \<longrightarrow> dict_get hs ''Auth-SSL'' = Some ''on'')
         \<or> lower m \<in> {''plain'', ''login''} \<and> port \<noteq> ''25''
           \<and> (\<exists>mail pw addr u. decode_login hs = (mail, Some (pw, addr)) \<and> lookup_login e (p_auth s) mail = Ret (Some u)
                \<and> check_credentials (px_auth e) now st (Some u) pw addr (lower p) (Some port) (p_auth s)
                    = Ret (True, p_auth s')))"
proof -
  obtain client port where cp: "dict_get hs ''Client-Ip'' = Some client" "dict_get hs ''Auth-Port'' = Some port"
    using assms(1) by (auto simp: nginx_authentication_def hdr_def split: option.splits)
  let ?tok = "is_app_token (case dict_get hs ''Auth-Pass'' of None \<Rightarrow> [] | Some p \<Rightarrow> p)"
  let ?go = "bind_out (handle_authentication e now st hs (p_auth s)) (\<lambda>(r, a').
      settle e hs client port ?tok r (s\<lparr>p_auth := a'\<rparr>))"
  have m25: "port = ''25'' \<Longrightarrow> dict_get hs ''Auth-Method'' = Some ''none''" and go: "?go = Ret (r, s')"
    and lim: "port \<in> {''10143'', ''10025'', ''25''} \<or> ?tok
      \<or> (\<exists>a. normalize_ip client = Some a \<and> \<not> should_rate_limit_ip (px_limits e) (px_rl e) a (p_limits s))"
    using assms cp rate_limited_not_OK [of hs s r s']
    by (auto simp: nginx_authentication_def hdr_def with_ip_def Let_def dict_get_Cons
        split: option.splits if_splits)
  obtain r1 a1 where h: "handle_authentication e now st hs (p_auth s) = Ret (r1, a1)"
    and set: "settle e hs client port ?tok r1 (s\<lparr>p_auth := a1\<rparr>) = Ret (r, s')"
    using go by auto
  have ok: "dict_get r1 ''Auth-Status'' = Some ''OK''" and a1: "p_auth s' = a1"
    using settle_OK [OF set assms(2)] by simp_all
  obtain m p where mp: "dict_get hs ''Auth-Method'' = Some m" "dict_get hs ''Auth-Protocol'' = Some p"
    using h by (auto simp: handle_authentication_def hdr_def split: option.splits)
  have tok: "?tok \<Longrightarrow> \<exists>pw. dict_get hs ''Auth-Pass'' = Some pw \<and> is_app_token pw"
    by (cases "dict_get hs ''Auth-Pass''") (auto simp: is_app_token_def)
  consider (inc) "incoming (lower m) (lower p)" | (log) "\<not> incoming (lower m) (lower p)" "lower m \<in> {''plain'', ''login''}"
    using h mp by (auto simp: handle_authentication_def hdr_def Let_def split: if_splits)
  then show ?thesis
  proof cases
    case inc
    then have "handle_incoming e hs (lower p) = Ret r1"
      using h mp by (auto simp: handle_authentication_def hdr_def Let_def)
    then have "inbound_tls_enforce e \<and> lower p = ''smtp'' \<longrightarrow> dict_get hs ''Auth-SSL'' = Some ''on''"
      using ok get_status_not_OK by (fastforce simp: handle_incoming_def dict_get_Cons split: if_splits)
    then show ?thesis using inc cp mp lim tok by blast
  next
    case log
    then have hl: "handle_login e now st hs p (lower p) (p_auth s) = Ret (r1, a1)"
      using h mp by (auto simp: handle_authentication_def hdr_def Let_def)
    have "port \<noteq> ''25''"
    proof
      assume "port = ''25''"
      then have "lower m = ''none''" using m25 mp by (simp add: lower_char_def is_upper_def code_in_def)
      then show False using log(2) by simp
    qed
    moreover obtain mail pw addr u port' where "decode_login hs = (mail, Some (pw, addr))"
      "lookup_login e (p_auth s) mail = Ret (Some u)" "dict_get hs ''Auth-Port'' = Some port'"
      "check_credentials (px_auth e) now st (Some u) pw addr (lower p) (Some port') (p_auth s) = Ret (True, a1)"
      using handle_login_OK [OF hl ok] by blast
    ultimately show ?thesis using log(2) cp mp lim tok a1 by fastforce
  qed
qed

text \<open>
  Guessing from a rate-limited address learns nothing: on a port that is neither 25 nor the
  webmail's, whatever password that is not shaped like a token is tried, the answer is the
  rate-limit status of the protocol, the password is not checked, and no state changes.
\<close>
theorem rate_limited_learns_nothing:
  assumes "dict_get hs ''Client-Ip'' = Some client" "normalize_ip client = Some a"
    and "should_rate_limit_ip (px_limits e) (px_rl e) a (p_limits s)"
    and "dict_get hs ''Auth-Port'' = Some port" "port \<notin> {''10143'', ''10025'', ''25''}"
    and "dict_get hs ''Auth-Protocol'' = Some p" "get_status p ''ratelimit'' = Ret (t, c)" "\<not> is_app_token pw"
  shows "nginx_authentication e now st (dict_set ''Auth-Pass'' pw hs) s
    = Ret ([(''Auth-Status'', t), (''Auth-Error-Code'', c)], s)"
  using assms by (simp add: nginx_authentication_def hdr_def with_ip_def rate_limited_reply_def)

text \<open>
  C34. The user gate of the API opens only for the logged-in web user, when no credentials are sent,
  or for an enabled user who sends an application token of theirs whose address list allows the
  client; never to a rate-limited address.
\<close>
theorem user_gate_sound:
  assumes "user_token_authorization e remote current hs s = Ret (Admitted u, s')"
  shows "(\<exists>a. normalize_ip (case dict_get hs ''X-Real-IP'' of None \<Rightarrow> remote | Some c \<Rightarrow> c) = Some a
        \<and> \<not> should_rate_limit_ip (px_limits e) (px_rl e) a (p_limits s))
    \<and> (dict_get hs ''Authentication'' \<in> {None, Some []} \<and> current = Some u \<and> s' = s
       \<or> (\<exists>auth mail tok t. dict_get hs ''Authentication'' = Some auth \<and> cut CHR '':'' auth = Some (mail, tok)
            \<and> get_user (ae_enc (px_auth e)) (a_db (p_auth s)) (unquote mail) = Ret (Some u) \<and> enabled u
            \<and> is_app_token (unquote tok) \<and> t \<in> set (tokens_of (a_db (p_auth s)) u)
            \<and> token_accepts (ae_crypto (px_auth e)) (unquote tok) t
            \<and> (token_ip t = [] \<or> is_ip_in_subnet (case dict_get hs ''X-Real-IP'' of None \<Rightarrow> remote | Some c \<Rightarrow> c)
                                    (token_ip t) = Ret True)))"
proof -
  let ?client = "case dict_get hs ''X-Real-IP'' of None \<Rightarrow> remote | Some c \<Rightarrow> c"
  let ?auth = "case dict_get hs ''Authentication'' of None \<Rightarrow> [] | Some v \<Rightarrow> v"
  obtain a where a: "normalize_ip ?client = Some a"
    using assms by (auto simp: user_token_authorization_def with_ip_def Let_def split: option.splits)
  then have lim: "\<not> should_rate_limit_ip (px_limits e) (px_rl e) a (p_limits s)"
    using assms by (auto simp: user_token_authorization_def with_ip_def Let_def)
  show ?thesis
  proof (cases "?auth = []")
    case True
    then show ?thesis using assms a lim
      by (auto simp: user_token_authorization_def with_ip_def Let_def split: option.splits)
  next
    case False
    obtain mail sep tok where pt: "py_partition CHR '':'' ?auth = (mail, sep, tok)" by (metis prod_cases3)
    have ne: "tok \<noteq> []" using assms a lim False pt by (auto simp: user_token_authorization_def with_ip_def Let_def)
    then have cut: "cut CHR '':'' ?auth = Some (mail, tok)"
      using pt by (auto simp: py_partition_def split: option.splits)
    obtain u' where gu: "get_user (ae_enc (px_auth e)) (a_db (p_auth s)) (unquote mail) = Ret (Some u')"
      using assms a lim False pt ne
      by (auto simp: user_token_authorization_def with_ip_def Let_def split: outcome.splits option.splits)
    obtain d where cc: "check_credentials_for_api (ae_crypto (px_auth e)) (Some u') (unquote tok) ?client (a_db (p_auth s)) = Ret (True, d)"
      and u: "u' = u"
      using assms a lim False pt ne gu
      by (auto simp: user_token_authorization_def with_ip_def Let_def split: if_splits)
    obtain t where t: "find (\<lambda>t. \<not> token_refuses (ae_crypto (px_auth e)) (unquote tok) t) (tokens_of (a_db (p_auth s)) u) = Some t"
      and ok: "token_accepts (ae_crypto (px_auth e)) (unquote tok) t"
      and ip: "token_ip t = [] \<or> is_ip_in_subnet ?client (token_ip t) = Ret True"
      using cc try_tokens_iff [of "ae_crypto (px_auth e)" "unquote tok" ?client "tokens_of (a_db (p_auth s)) u" "a_db (p_auth s)"] u
      by (auto simp: check_credentials_for_api_def split: if_splits)
    have "enabled u" "is_app_token (unquote tok)"
      using cc u by (auto simp: check_credentials_for_api_def split: if_splits)
    moreover have "t \<in> set (tokens_of (a_db (p_auth s)) u)" using t by (auto simp: find_Some_iff)
    moreover obtain auth where "dict_get hs ''Authentication'' = Some auth" "?auth = auth"
      using False by (cases "dict_get hs ''Authentication''") auto
    ultimately show ?thesis using a lim cut gu u ip ok by auto
  qed
qed


section \<open>Examples\<close>

definition sample_proxy :: "((string, sval) dict, (lkey \<Rightarrow> nat) \<times> ident list) proxy_env" where
  "sample_proxy = \<lparr>px_auth = sample_auth, px_limits = counter_lib, px_rl = sample_rl, inbound_tls_enforce = True,
     imap_address = ''10.1.0.3'', smtp_address = ''10.1.0.4'', resolve_hostname = (\<lambda>h. Exn OtherError)\<rparr>"

definition sample_proxy_state :: "ident list \<Rightarrow> ((lkey \<Rightarrow> nat) \<times> ident list) proxy_state" where
  "sample_proxy_state hits = \<lparr>p_auth = \<lparr>a_db = empty_db, a_cache = []\<rparr>, p_limits = (\<lambda>_. 0, hits)\<rparr>"

definition sample_headers :: "string \<Rightarrow> string \<Rightarrow> string \<Rightarrow> (string, string) dict" where
  "sample_headers m p port = [(''Auth-Method'', m), (''Auth-Protocol'', p), (''Client-Ip'', ''10.0.0.1''),
     (''Auth-Port'', port), (''Client-Port'', ''5''), (''Auth-SSL'', ''on'')]"

lemma sample_client: "normalize_ip ''10.0.0.1'' = Some (V4 167772161)" "ip_address ''10.1.0.4'' = Some (V4 167837700)"
  by (simp_all add: normalize_ip_def ip_address_def parse_v4_def parse_octet_def is_digits_def is_digit_def code_in_def nat_of_digits_def digit_val_def)

theorem nginx_ok_sound_witness:
  "dict_get (sample_headers ''none'' ''smtp'' ''25'') ''Auth-SSL'' = Some ''on''
   \<and> (\<exists>r s'. nginx_authentication sample_proxy 0 [] (sample_headers ''none'' ''smtp'' ''25'') (sample_proxy_state [])
        = Ret (r, s') \<and> dict_get r ''Auth-Server'' = Some ''10.1.0.4'')"
proof -
  let ?r = "[(''Auth-Status'', ''OK''), (''Auth-Server'', ''10.1.0.4''), (''Auth-Port'', str_of_nat 25)]"
  have "nginx_authentication sample_proxy 0 [] (sample_headers ''none'' ''smtp'' ''25'') (sample_proxy_state [])
      = Ret (?r, sample_proxy_state [])"
    by (simp add: nginx_authentication_def hdr_def sample_headers_def dict_get_Cons handle_authentication_def incoming_def
        handle_incoming_def get_server_def server_target_def sample_proxy_def settle_def sample_client
        lower_char_def is_upper_def code_in_def is_app_token_def sample_proxy_state_def)
  then show ?thesis
    using nginx_ok_sound [of sample_proxy 0 "[]" "sample_headers ''none'' ''smtp'' ''25''" "sample_proxy_state []" ?r]
    by (auto simp: dict_get_Cons sample_headers_def)
qed

theorem rate_limited_learns_nothing_witness:
  "nginx_authentication sample_proxy 0 [] (dict_set ''Auth-Pass'' ''guess'' (sample_headers ''plain'' ''imap'' ''143''))
     (sample_proxy_state (replicate 5 (Network (V4 167772160))))
   = Ret ([(''Auth-Status'', ''Temporary authentication failure (rate-limit)''), (''Auth-Error-Code'', ''LIMIT'')],
          sample_proxy_state (replicate 5 (Network (V4 167772160))))"
proof -
  have "should_rate_limit_ip (px_limits sample_proxy) (px_rl sample_proxy) (V4 167772161)
      (p_limits (sample_proxy_state (replicate 5 (Network (V4 167772160)))))"
    by (simp add: should_rate_limit_ip_def is_subject_def is_exempt_from_ratelimits_def sample_proxy_def
        sample_proxy_state_def counter_lib_def sample_rl_def client_network_def network_of_def)
  moreover have "get_status ''imap'' ''ratelimit'' = Ret (''Temporary authentication failure (rate-limit)'', ''LIMIT'')"
    by (simp add: get_status_def STATUSES_def dict_get_Cons hdr_def)
  moreover have "\<not> is_app_token ''guess''" by (simp add: is_app_token_def)
  ultimately show ?thesis
    by (intro rate_limited_learns_nothing [where client = "''10.0.0.1''" and a = "V4 167772161" and port = "''143''" and p = "''imap''"])
       (simp_all add: sample_headers_def dict_get_Cons sample_client)
qed

theorem user_gate_sound_witness:
  "user_token_authorization sample_proxy ''10.0.0.1'' (Some sample_login) [] (sample_proxy_state [])
     = Ret (Admitted sample_login, sample_proxy_state [])
   \<and> (\<exists>a. normalize_ip ''10.0.0.1'' = Some a
        \<and> \<not> should_rate_limit_ip counter_lib sample_rl a (p_limits (sample_proxy_state [])))"
proof -
  have "user_token_authorization sample_proxy ''10.0.0.1'' (Some sample_login) [] (sample_proxy_state [])
     = Ret (Admitted sample_login, sample_proxy_state [])"
    by (simp add: user_token_authorization_def with_ip_def sample_client should_rate_limit_ip_def sample_proxy_def
        sample_proxy_state_def counter_lib_def)
  from this user_gate_sound [OF this] show ?thesis by (simp add: sample_proxy_def)
qed

end
