(* ===== verification/Postfix_Maps.thy ===== *)
theory Postfix_Maps
  imports Mail_Routing Nginx_Auth
begin

text \<open>
  The lookup tables of Postfix and Dovecot (\<open>internal/views/postfix.py\<close>, \<open>internal/views/dovecot.py\<close>):
  which addresses are looked up at all, domains, mailboxes, aliases, transports to relays, who
  may send as an address, the sender rewriting scheme, and the passdb, userdb and quota tables.
  The SRS library, DANE lookups and the outbound limiter are arguments.
\<close>

datatype 'a answer = Found 'a | Status nat

section \<open>Lookup keys\<close>

definition count_char :: "char \<Rightarrow> string \<Rightarrow> nat" where
  "count_char c s = length (filter ((=) c) s)"

definition unsupported_address :: "(string \<Rightarrow> string option) \<Rightarrow> bool \<Rightarrow> string \<Rightarrow> bool" where
  "unsupported_address enc require_mailbox address \<longleftrightarrow>
     (require_mailbox \<and> count_char CHR ''@'' address \<noteq> 1)
     \<or> count_char CHR ''@'' address > 1 \<or> prefix [CHR 0x22] address
     \<or> enc (lower (case rcut CHR ''@'' address of None \<Rightarrow> address | Some (_, dn) \<Rightarrow> dn)) = None"

text \<open>The pattern \<open>^\[.*\]$\<close>: the dot does not match a newline, and the dollar sign also matches
  before a newline at the very end.\<close>

definition bracket_literal :: "string \<Rightarrow> bool" where
  "bracket_literal s \<longleftrightarrow>
     (let body = (if s \<noteq> [] \<and> last s = CHR 0x0A then butlast s else s) in
      2 \<le> length body \<and> hd body = CHR ''['' \<and> last body = CHR '']'' \<and> CHR 0x0A \<notin> set body)"

definition bracket_domain :: "string \<Rightarrow> bool" where
  "bracket_domain s \<longleftrightarrow>
     bracket_literal s
     \<or> list_ex (\<lambda>i. s ! i = CHR ''@'' \<and> CHR 0x0A \<notin> set (take i s) \<and> bracket_literal (drop (i + 1) s)) [0..<length s]"

definition idna_encode_one :: "(string \<Rightarrow> string option) \<Rightarrow> string \<Rightarrow> string outcome" where
  "idna_encode_one enc address =
     (case rcut CHR ''@'' address of
        None \<Rightarrow> Exn ValueError
      | Some (lp, dn) \<Rightarrow> (case enc dn of None \<Rightarrow> Exn ValueError | Some a \<Rightarrow> Ret (lp @ ''@'' @ a)))"

definition idna_encode :: "(string \<Rightarrow> string option) \<Rightarrow> string list \<Rightarrow> string list outcome" where
  "idna_encode enc addresses = map_out (idna_encode_one enc) addresses"

section \<open>Domains, mailboxes and aliases\<close>

definition postfix_dane_map :: "(string \<Rightarrow> bool) \<Rightarrow> string \<Rightarrow> string answer" where
  "postfix_dane_map has_dane_record dn = (if has_dane_record dn then Found ''dane-only'' else Status 404)"

definition postfix_mailbox_domain :: "(string \<Rightarrow> string option) \<Rightarrow> db \<Rightarrow> string \<Rightarrow> string answer outcome" where
  "postfix_mailbox_domain enc d dn =
     (if unsupported_address enc False dn \<or> bracket_literal dn then Ret (Status 404)
      else bind_out (get_domain enc d dn) (\<lambda>dm. case dm of
        Some r \<Rightarrow> Ret (Found (domain_name r))
      | None \<Rightarrow> bind_out (get_alternative enc d dn) (\<lambda>a. case a of
          Some r \<Rightarrow> Ret (Found (alt_name r)) | None \<Rightarrow> Ret (Status 404))))"

definition postfix_mailbox_map :: "(string \<Rightarrow> string option) \<Rightarrow> db \<Rightarrow> string \<Rightarrow> string answer outcome" where
  "postfix_mailbox_map enc d mail =
     (if unsupported_address enc True mail then Ret (Status 404)
      else bind_out (get_user enc d mail) (\<lambda>u. case u of Some r \<Rightarrow> Ret (Found (email r)) | None \<Rightarrow> Ret (Status 404)))"

record map_env =
  me_enc :: "string \<Rightarrow> string option"
  like_ci :: bool
  recipient_delimiter :: string
  wildcard_senders :: string

definition delimiters :: "map_env \<Rightarrow> string option" where
  "delimiters e = (if recipient_delimiter e = [] then None else Some (recipient_delimiter e))"

definition postfix_alias_map :: "map_env \<Rightarrow> db \<Rightarrow> string \<Rightarrow> (string answer \<times> db) outcome" where
  "postfix_alias_map e d adr =
     (if unsupported_address (me_enc e) False adr then Ret (Status 404, d)
      else bind_out (resolve_domain (me_enc e) d adr) (\<lambda>(lp, dn). case lp of
        None \<Rightarrow> Ret (Found dn, d)
      | Some l \<Rightarrow>
          bind_out (resolve_destination (me_enc e) (like_ci e) (delimiters e) d l dn False) (\<lambda>(dst, d'). case dst of
            Some (x # xs) \<Rightarrow> bind_out (idna_encode (me_enc e) (x # xs)) (\<lambda>ys. Ret (Found (join_with CHR '','' ys), d'))
          | _ \<Rightarrow> Ret (Status 404, d'))))"

section \<open>Transports\<close>

datatype scheme_kind = Plain | Mx | Lmtp

definition strip_transport :: "string \<Rightarrow> scheme_kind \<times> string" where
  "strip_transport target =
     (if prefix ''mx:'' target then (Mx, drop 3 target)
      else if prefix ''lmtp:'' target then (Lmtp, drop 5 target) else (Plain, target))"

text \<open>Host and port of a relay target; None is the invalid target that answers 400.\<close>

definition split_target :: "scheme_kind \<Rightarrow> string \<Rightarrow> (string \<times> string option) option" where
  "split_target k target =
     (if prefix ''['' target then
        (if k = Mx \<or> CHR '']'' \<notin> set target then None
         else (case cut CHR '']'' (drop 1 target) of
                 None \<Rightarrow> None
               | Some (host, rest) \<Rightarrow>
                   if prefix '':'' rest then Some (host, Some (drop 1 rest))
                   else if rest \<noteq> [] then None else Some (host, None)))
      else if count_char CHR '':'' target > 1 then None
      else (case rcut CHR '':'' target of None \<Rightarrow> Some (target, None) | Some (host, port) \<Rightarrow> Some (host, Some port)))"

definition default_host :: "scheme_kind \<Rightarrow> string \<Rightarrow> string \<Rightarrow> (scheme_kind \<times> string) option" where
  "default_host k relay host =
     (if host \<noteq> [] then Some (k, host) else if k \<noteq> Lmtp then Some (Mx, lower relay) else None)"

definition encode_host :: "(string \<Rightarrow> string option) \<Rightarrow> string \<Rightarrow> string option" where
  "encode_host enc host = (if CHR '':'' \<in> set host then Some (''ipv6:'' @ host) else enc host)"

definition transport_text :: "scheme_kind \<Rightarrow> string \<Rightarrow> int option \<Rightarrow> string" where
  "transport_text k host port =
     (if k = Lmtp then ''lmtp'' else ''smtp'') @ '':''
     @ (if prefix ''ipv6:'' host \<or> k = Plain then ''['' @ host @ '']'' else host)
     @ (case port of None \<Rightarrow> [] | Some p \<Rightarrow> '':'' @ str_of_int p)"

definition relay_transport :: "(string \<Rightarrow> string option) \<Rightarrow> string \<Rightarrow> string \<Rightarrow> string answer" where
  "relay_transport enc relay smtp =
     (case strip_transport (lower smtp) of (k, target) \<Rightarrow>
       (case split_target k target of None \<Rightarrow> Status 400
        | Some (host, port) \<Rightarrow>
       (case default_host k relay host of None \<Rightarrow> Status 400
        | Some (k', host') \<Rightarrow>
       (case encode_host enc host' of None \<Rightarrow> Status 400
        | Some h \<Rightarrow>
       (case port of None \<Rightarrow> Found (transport_text k' h None)
        | Some p \<Rightarrow> (case py_int p of None \<Rightarrow> Status 400 | Some i \<Rightarrow> Found (transport_text k' h (Some i))))))))"

definition postfix_transport :: "(string \<Rightarrow> string option) \<Rightarrow> db \<Rightarrow> string \<Rightarrow> string answer outcome" where
  "postfix_transport enc d mail =
     (if unsupported_address enc False mail \<or> mail = ''*'' \<or> bracket_domain mail then Ret (Status 404)
      else bind_out (resolve_domain enc d mail) (\<lambda>(_, dn).
           bind_out (get_relay enc d dn) (\<lambda>r. case r of
             None \<Rightarrow> Ret (Status 404)
           | Some relay \<Rightarrow> (case relay_smtp relay of
               None \<Rightarrow> Exn AttributeError
             | Some smtp \<Rightarrow> Ret (relay_transport enc (relay_name relay) smtp)))))"

section \<open>Senders\<close>

record srs =
  is_srs :: "string \<Rightarrow> bool"
  srs_reverse :: "string \<Rightarrow> string option"
  srs_forward :: "string \<Rightarrow> string \<Rightarrow> string"

definition postfix_recipient_map :: "srs \<Rightarrow> string \<Rightarrow> string answer" where
  "postfix_recipient_map s recipient =
     (if is_srs s recipient then (case srs_reverse s recipient of Some r \<Rightarrow> Found r | None \<Rightarrow> Status 404)
      else Status 404)"

definition postfix_sender_map ::
  "(string \<Rightarrow> string option) \<Rightarrow> srs \<Rightarrow> string \<Rightarrow> db \<Rightarrow> string \<Rightarrow> string answer outcome" where
  "postfix_sender_map enc s main_domain d sender =
     (case resolve_domain enc d sender of
        Exn err \<Rightarrow> Ret (Status 404)
      | Ret (lp, dn) \<Rightarrow> bind_out (get_domain enc d dn) (\<lambda>dm.
          if dm \<noteq> None then Ret (Status 404) else Ret (Found (srs_forward s sender main_domain))))"

definition wildcard_list :: "map_env \<Rightarrow> string list" where
  "wildcard_list e =
     filter (\<lambda>s. s \<noteq> []) (split_on CHR '','' (filter (\<lambda>c. c \<noteq> CHR '' '') (lower (wildcard_senders e))))"

text \<open>The logins are a Python set: the answer is their encodings, joined in some order.\<close>

definition sender_logins :: "map_env \<Rightarrow> db \<Rightarrow> string \<Rightarrow> string \<Rightarrow> (string list \<times> db) outcome" where
  "sender_logins e d lp dn =
     bind_out (resolve_destination (me_enc e) (like_ci e) (delimiters e) d
                 (takeWhile (\<lambda>c. c \<notin> set (recipient_delimiter e)) lp) dn True) (\<lambda>(dst, d').
       (case bind_domain (me_enc e) dn of
          None \<Rightarrow> Exn StatementError
        | Some dm \<Rightarrow>
            Ret (fromkeys ((case dst of None \<Rightarrow> [] | Some xs \<Rightarrow> xs) @ wildcard_list e
              @ map email (filter (\<lambda>u. allow_spoofing u \<and> bind_domain (me_enc e) (user_domain u) = Some dm) (users d'))), d')))"

definition postfix_sender_login :: "map_env \<Rightarrow> db \<Rightarrow> string \<Rightarrow> (string list answer \<times> db) outcome" where
  "postfix_sender_login e d sender =
     (if unsupported_address (me_enc e) False sender then Ret (Status 404, d)
      else bind_out (resolve_domain (me_enc e) d sender) (\<lambda>(lp, dn). case lp of
        None \<Rightarrow> Ret (if wildcard_list e \<noteq> [] then Found (wildcard_list e) else Status 404, d)
      | Some l \<Rightarrow> bind_out (sender_logins e d l dn) (\<lambda>(dst, d').
          if dst = [] then Ret (Status 404, d')
          else bind_out (idna_encode (me_enc e) dst) (\<lambda>ys. Ret (Found ys, d')))))"

definition postfix_sender_rate ::
  "(string \<Rightarrow> string option) \<Rightarrow> string list \<Rightarrow> (user \<Rightarrow> 'l \<Rightarrow> bool \<times> 'l) \<Rightarrow> db \<Rightarrow> string \<Rightarrow> 'l \<Rightarrow>
   (string answer \<times> 'l) outcome" where
  "postfix_sender_rate enc exempt hit d sender l =
     (if sender \<in> set exempt \<or> unsupported_address enc True sender then Ret (Status 404, l)
      else bind_out (get_user enc d sender) (\<lambda>u. case u of
        None \<Rightarrow> Ret (Status 404, l)
      | Some r \<Rightarrow> (case hit r l of (ok, l') \<Rightarrow>
          Ret (if ok then Status 404 else Found ''450 4.2.1 You are sending too many emails too fast.'', l'))))"

section \<open>Dovecot\<close>

definition user_or_404 :: "(string \<Rightarrow> string option) \<Rightarrow> db \<Rightarrow> string \<Rightarrow> user option" where
  "user_or_404 enc d mail = (case get_user enc d mail of Ret (Some u) \<Rightarrow> Some u | _ \<Rightarrow> None)"

definition dovecot_passdb_dict ::
  "(string \<Rightarrow> string option) \<Rightarrow> string \<Rightarrow> string option \<Rightarrow> db \<Rightarrow> string \<Rightarrow> (string, string option) dict answer" where
  "dovecot_passdb_dict enc subnet subnet6 d mail =
     (if user_or_404 enc d mail = None then Status 404
      else Found [(''password'', None), (''nopassword'', Some ''Y''), (''allow_real_nets'',
        Some (join_with CHR '','' (subnet # (case subnet6 of None \<Rightarrow> [] | Some n \<Rightarrow> if n = [] then [] else [n]))))])"

definition dovecot_userdb_dict_list :: "db \<Rightarrow> string list" where
  "dovecot_userdb_dict_list d = map email (filter enabled (users d))"

definition dovecot_userdb_dict :: "(string \<Rightarrow> string option) \<Rightarrow> db \<Rightarrow> string \<Rightarrow> (string, string) dict answer" where
  "dovecot_userdb_dict enc d mail =
     (case user_or_404 enc d mail of
        None \<Rightarrow> Status 404
      | Some u \<Rightarrow> Found [(''quota_storage_size'', str_of_int (quota_bytes u))])"

definition dovecot_quota :: "(string \<Rightarrow> string option) \<Rightarrow> string \<Rightarrow> int \<Rightarrow> db \<Rightarrow> string \<Rightarrow> unit answer \<times> db" where
  "dovecot_quota enc ns used d mail =
     (case user_or_404 enc d mail of
        None \<Rightarrow> (Status 404, d)
      | Some u \<Rightarrow> (Found (), if ns = ''storage'' then put_user (u\<lparr>quota_bytes_used := used\<rparr>) d else d))"

definition dovecot_sieve_name :: "string \<Rightarrow> string \<Rightarrow> string answer" where
  "dovecot_sieve_name script mail = Found script"

definition dovecot_sieve_data ::
  "(string \<Rightarrow> string option) \<Rightarrow> (user \<Rightarrow> string) \<Rightarrow> db \<Rightarrow> string \<Rightarrow> string answer" where
  "dovecot_sieve_data enc render d mail =
     (case user_or_404 enc d mail of None \<Rightarrow> Status 404 | Some u \<Rightarrow> Found (render u))"

section \<open>Addresses that can be looked up\<close>

definition deliverable :: "(string \<Rightarrow> string option) \<Rightarrow> string \<Rightarrow> bool" where
  "deliverable enc adr \<longleftrightarrow> (\<exists>r. idna_encode_one enc adr = Ret r)"

definition domain_ok :: "(string \<Rightarrow> string option) \<Rightarrow> string \<Rightarrow> bool" where
  "domain_ok enc dn \<longleftrightarrow> enc dn \<noteq> None \<and> enc (lower dn) \<noteq> None \<and> CHR ''@'' \<notin> set dn"

text \<open>Stored rows the lookups rely on: alternatives name domains that can be encoded, and
  destinations and forwards are addresses whose domain can be.\<close>

definition maps_ok :: "(string \<Rightarrow> string option) \<Rightarrow> db \<Rightarrow> bool" where
  "maps_ok enc d \<longleftrightarrow>
     (\<forall>a\<in>set (alternatives d). domain_ok enc (alt_domain a))
     \<and> (\<forall>a\<in>set (aliases d). \<forall>x\<in>set (destination a). deliverable enc x)
     \<and> (\<forall>u\<in>set (users d). \<forall>x\<in>set (forward_destination u). deliverable enc x)"

lemma idna_encode_returns: "\<forall>x\<in>set xs. deliverable enc x \<Longrightarrow> \<exists>ys. idna_encode enc xs = Ret ys"
  by (induction xs) (auto simp: idna_encode_def deliverable_def)

lemma deliverable_append_detail: "deliverable enc x \<Longrightarrow> deliverable enc (append_detail x t)"
proof -
  assume d: "deliverable enc x"
  then obtain l n where r: "rcut CHR ''@'' x = Some (l, n)"
    by (cases "rcut CHR ''@'' x") (auto simp: deliverable_def idna_encode_one_def simp del: rcut_None)
  then have "rcut CHR ''@'' (append_detail x t) = Some (l @ t, n)" by (rule append_detail_split)
  then show ?thesis using d r by (cases "enc n") (simp_all add: deliverable_def idna_encode_one_def)
qed

lemma deliverable_address: "domain_ok enc dn \<Longrightarrow> deliverable enc (lp @ ''@'' @ dn)"
  by (auto simp: deliverable_def idna_encode_one_def domain_ok_def rcut_append)

lemma get_user_returns:
  assumes "domain_ok enc dn" "CHR ''@'' \<notin> set lp"
  shows "\<exists>u. get_user enc d (lp @ ''@'' @ dn) = Ret u \<and> (\<forall>r. u = Some r \<longrightarrow> r \<in> set (users d))"
proof -
  have at: "lower_char CHR ''@'' = CHR ''@''" by (simp add: lower_char_def is_upper_def code_in_def)
  have "CHR ''@'' \<notin> set (lower dn)" "CHR ''@'' \<notin> set (lower lp)"
    using assms lower_at by (auto simp: domain_ok_def)
  then have "bind_email enc (lp @ ''@'' @ dn) \<noteq> None"
    using assms(1) by (simp add: bind_email_def at rcut_append domain_ok_def)
  then show ?thesis using get_user_SomeD [of enc d "lp @ ''@'' @ dn"] by (auto simp: get_user_def)
qed

lemma find_user_returns:
  assumes "domain_ok enc dn" "CHR ''@'' \<notin> set lp" "\<forall>s. st = Some s \<longrightarrow> CHR ''@'' \<notin> set s"
  shows "\<exists>u. find_user enc d lp st dn = Ret u \<and> (\<forall>r. u = Some r \<longrightarrow> r \<in> set (users d))"
proof -
  obtain u where u: "get_user enc d (lp @ ''@'' @ dn) = Ret u" "\<forall>r. u = Some r \<longrightarrow> r \<in> set (users d)"
    using get_user_returns [OF assms(1,2)] by blast
  show ?thesis
  proof (cases u)
    case None
    then show ?thesis using u get_user_returns [OF assms(1)] assms(3) by (cases st) (auto simp: find_user_def)
  next
    case (Some r)
    then show ?thesis using u by (simp add: find_user_def)
  qed
qed

lemma alias_resolve_returns: "domain_ok enc dn \<Longrightarrow> \<exists>a. alias_resolve enc ci d lp dn = Ret a"
  by (auto simp: alias_resolve_def bind_domain_def domain_ok_def Let_def)

lemma resolve_destination_returns:
  assumes ok: "maps_ok enc d" and dn: "domain_ok enc dn" and lp: "CHR ''@'' \<notin> set lp"
  shows "\<exists>dst d'. resolve_destination enc ci delims d lp dn k = Ret (dst, d') \<and> maps_ok enc d'
    \<and> (\<forall>xs. dst = Some xs \<longrightarrow> (\<forall>x\<in>set xs. deliverable enc x))"
proof -
  let ?st = "strip_detail delims lp"
  have st: "\<forall>s. ?st = Some s \<longrightarrow> CHR ''@'' \<notin> set s"
    using lp by (auto simp: strip_detail_def split: option.splits if_splits dest: set_takeWhileD)
  obtain u where u: "find_user enc d lp ?st dn = Ret u" "\<forall>r. u = Some r \<longrightarrow> r \<in> set (users d)"
    using find_user_returns [OF dn lp st] by blast
  show ?thesis
  proof (cases u)
    case (Some r)
    have r: "r \<in> set (users d)" using u(2) Some by simp
    then have f: "\<forall>x\<in>set (forward_destination r). deliverable enc x" using ok by (simp add: maps_ok_def)
    have a: "deliverable enc (lp @ ''@'' @ dn)" by (rule deliverable_address [OF dn])
    have "maps_ok enc (set_user (r\<lparr>forward_destination := forward_destination r @ [lp @ ''@'' @ dn]\<rparr>) d)"
      using ok f a by (auto simp: maps_ok_def set_user_def)
    then show ?thesis using u(1) Some f a ok
      by (auto simp: resolve_destination_def user_destination_def split: prod.splits if_splits)
  next
    case None
    obtain p s where ps: "alias_resolve enc ci d (Some lp) dn = Ret p" "alias_resolve enc ci d ?st dn = Ret s"
      using alias_resolve_returns [OF dn] by meson
    have al: "\<forall>x\<in>set (destination a). deliverable enc x" if "alias_resolve enc ci d l dn = Ret (Some a)" for l a
      using alias_resolve_Some [OF that] ok by (auto simp: maps_ok_def)
    have "\<forall>xs. alias_destination lp ?st p s = Some xs \<longrightarrow> (\<forall>x\<in>set xs. deliverable enc x)"
      using al ps deliverable_append_detail by (auto simp: alias_destination_def split: option.splits if_splits)
    then show ?thesis using u(1) None ps ok by (auto simp: resolve_destination_def)
  qed
qed

lemma supported_parts:
  assumes "\<not> unsupported_address enc False adr" "lower adr = adr" "maps_ok enc d"
  shows "\<exists>lp dn. resolve_domain enc d adr = Ret (lp, dn) \<and> domain_ok enc dn
    \<and> (\<forall>l. lp = Some l \<longrightarrow> CHR ''@'' \<notin> set l)"
proof -
  let ?p = "case rcut CHR ''@'' adr of None \<Rightarrow> (None, adr) | Some (l, n) \<Rightarrow> (Some l, n)"
  obtain lp n where p: "?p = (lp, n)" by fastforce
  have parts: "CHR ''@'' \<notin> set n \<and> (\<forall>l. lp = Some l \<longrightarrow> CHR ''@'' \<notin> set l) \<and> lower n = n \<and> enc (lower n) \<noteq> None"
  proof (cases "rcut CHR ''@'' adr")
    case None
    have "CHR ''@'' \<notin> set adr" using None by simp
    then show ?thesis using p assms(1,2) None
      by (auto simp: unsupported_address_def simp del: rcut_None)
  next
    case (Some ln)
    obtain l where ln: "ln = (l, n)" "lp = Some l" using p Some by (cases ln) auto
    have adr: "adr = l @ CHR ''@'' # n" "CHR ''@'' \<notin> set n" using rcut_Some [of _ adr l n] Some ln(1) by auto
    have "filter ((=) CHR ''@'') l = []"
      using assms(1) adr by (auto simp: unsupported_address_def count_char_def)
    then have "CHR ''@'' \<notin> set l" by (auto simp: filter_empty_conv)
    moreover have "lower n = n" using assms(2) adr(1) by simp
    ultimately show ?thesis using assms(1) Some ln adr(2) by (simp add: unsupported_address_def)
  qed
  have dn: "domain_ok enc n" using parts unfolding domain_ok_def by metis
  obtain k where "enc (lower n) = Some k" using parts by auto
  then have "\<exists>alt. get_alternative enc d n = Ret alt \<and> (\<forall>a. alt = Some a \<longrightarrow> a \<in> set (alternatives d))"
    by (auto simp: get_alternative_def bind_domain_def find_Some_iff)
  then obtain alt where alt: "get_alternative enc d n = Ret alt" "\<forall>a. alt = Some a \<longrightarrow> a \<in> set (alternatives d)" by blast
  then have "resolve_domain enc d adr = Ret (lp, case alt of None \<Rightarrow> n | Some a \<Rightarrow> alt_domain a)"
    using p by (simp add: resolve_domain_def)
  moreover have "domain_ok enc (case alt of None \<Rightarrow> n | Some a \<Rightarrow> alt_domain a)"
    using dn alt(2) assms(3) by (cases alt) (auto simp: maps_ok_def)
  ultimately show ?thesis using parts by blast
qed

section \<open>Properties\<close>

text \<open>
  C35. The alias table never fails on a lookup key.  Over rows whose domains can be encoded, the
  lookup of any lower-case key, however malformed (several at signs, a quoted local part, a
  domain IDNA rejects), returns an answer instead of raising, and leaves the rows in a state of
  which the same holds; an unsupported key answers 404.
\<close>
theorem alias_map_never_raises:
  assumes "maps_ok (me_enc e) d" "lower adr = adr"
  shows "\<exists>r d'. postfix_alias_map e d adr = Ret (r, d') \<and> maps_ok (me_enc e) d'
    \<and> (unsupported_address (me_enc e) False adr \<longrightarrow> r = Status 404)"
proof (cases "unsupported_address (me_enc e) False adr")
  case True
  then show ?thesis using assms(1) by (simp add: postfix_alias_map_def)
next
  case False
  obtain lp dn where p: "resolve_domain (me_enc e) d adr = Ret (lp, dn)" "domain_ok (me_enc e) dn"
    "\<forall>l. lp = Some l \<longrightarrow> CHR ''@'' \<notin> set l"
    using supported_parts [OF False assms(2,1)] by blast
  show ?thesis
  proof (cases lp)
    case None
    then show ?thesis using False p(1) assms(1) by (simp add: postfix_alias_map_def)
  next
    case (Some l)
    obtain dst d' where r: "resolve_destination (me_enc e) (like_ci e) (delimiters e) d l dn False = Ret (dst, d')"
      "maps_ok (me_enc e) d'" "\<forall>xs. dst = Some xs \<longrightarrow> (\<forall>x\<in>set xs. deliverable (me_enc e) x)"
      using resolve_destination_returns [OF assms(1) p(2), of l "like_ci e" "delimiters e" False] p(3) Some by auto
    consider (none) "dst = None \<or> dst = Some []" | (some) x xs where "dst = Some (x # xs)"
      by (metis list.exhaust option.exhaust)
    then show ?thesis
    proof cases
      case none
      then have "postfix_alias_map e d adr = Ret (Status 404, d')"
        using False p(1) Some r(1) by (auto simp: postfix_alias_map_def)
      then show ?thesis using r(2) False by blast
    next
      case some
      then obtain ys where "idna_encode (me_enc e) (x # xs) = Ret ys" using idna_encode_returns r(3) by blast
      then have "postfix_alias_map e d adr = Ret (Found (join_with CHR '','' ys), d')"
        using False p(1) Some r(1) some by (simp add: postfix_alias_map_def)
      then show ?thesis using r(2) False by blast
    qed
  qed
qed

text \<open>
  C36. Who may send as an address.  Every login the sender table answers for an address with a
  local part is the encoding of a destination that address resolves to (its own mailbox, its
  forwards or the targets of its alias), of a configured wildcard sender, or of a user of the
  same domain with the spoofing right; nobody of another domain gets in by that right.
\<close>
theorem sender_login_scope:
  assumes "postfix_sender_login e d sender = Ret (Found ys, d')" "y \<in> set ys"
    and "resolve_domain (me_enc e) d sender = Ret (Some lp, dn)"
  shows "\<exists>x dst. idna_encode_one (me_enc e) x = Ret y
    \<and> resolve_destination (me_enc e) (like_ci e) (delimiters e) d
         (takeWhile (\<lambda>c. c \<notin> set (recipient_delimiter e)) lp) dn True = Ret (dst, d')
    \<and> ((\<exists>xs. dst = Some xs \<and> x \<in> set xs) \<or> x \<in> set (wildcard_list e)
       \<or> (\<exists>u\<in>set (users d'). allow_spoofing u \<and> email u = x
            \<and> bind_domain (me_enc e) (user_domain u) = bind_domain (me_enc e) dn))"
proof -
  have enc: "\<forall>y\<in>set ys. \<exists>x\<in>set xs. idna_encode_one (me_enc e) x = Ret y"
    if "idna_encode (me_enc e) xs = Ret ys" for xs ys
    using that by (induction xs arbitrary: ys) (fastforce simp: idna_encode_def)+
  obtain xs where sl: "sender_logins e d lp dn = Ret (xs, d')" and en: "idna_encode (me_enc e) xs = Ret ys"
    using assms(1,3) by (auto simp: postfix_sender_login_def split: if_splits)
  obtain x where x: "x \<in> set xs" "idna_encode_one (me_enc e) x = Ret y" using enc [OF en] assms(2) by blast
  obtain dst where dst: "resolve_destination (me_enc e) (like_ci e) (delimiters e) d
      (takeWhile (\<lambda>c. c \<notin> set (recipient_delimiter e)) lp) dn True = Ret (dst, d')"
    using sl by (auto simp: sender_logins_def split: option.splits)
  have "(\<exists>zs. dst = Some zs \<and> x \<in> set zs) \<or> x \<in> set (wildcard_list e)
       \<or> (\<exists>u\<in>set (users d'). allow_spoofing u \<and> email u = x
            \<and> bind_domain (me_enc e) (user_domain u) = bind_domain (me_enc e) dn)"
  proof (cases "bind_domain (me_enc e) dn")
    case None
    then show ?thesis using sl dst by (simp add: sender_logins_def)
  next
    case (Some dm)
    have "xs = fromkeys ((case dst of None \<Rightarrow> [] | Some xs \<Rightarrow> xs) @ wildcard_list e
        @ map email (filter (\<lambda>u. allow_spoofing u \<and> bind_domain (me_enc e) (user_domain u) = Some dm) (users d')))"
      using sl dst Some by (simp add: sender_logins_def)
    then have "x \<in> set ((case dst of None \<Rightarrow> [] | Some xs \<Rightarrow> xs) @ wildcard_list e
        @ map email (filter (\<lambda>u. allow_spoofing u \<and> bind_domain (me_enc e) (user_domain u) = Some dm) (users d')))"
      using x(1) by simp
    then show ?thesis using Some by (cases dst) auto
  qed
  then show ?thesis using dst x(2) by blast
qed

section \<open>Examples\<close>

definition sample_map_env :: map_env where
  "sample_map_env = \<lparr>me_enc = Some, like_ci = False, recipient_delimiter = ''+'', wildcard_senders = ''root@x.org''\<rparr>"

theorem alias_map_never_raises_witness:
  "\<exists>r d'. postfix_alias_map sample_map_env sample_aliases ''a@b@d.io'' = Ret (r, d') \<and> r = Status 404"
proof -
  have "maps_ok (me_enc sample_map_env) sample_aliases"
    by (simp add: maps_ok_def sample_aliases_def empty_db_def sample_alias_def sample_map_env_def deliverable_def
        idna_encode_one_def rcut_def)
  moreover have "lower ''a@b@d.io'' = ''a@b@d.io''" by (simp add: lower_char_def is_upper_def code_in_def)
  moreover have "unsupported_address (me_enc sample_map_env) False ''a@b@d.io''"
    by (simp add: unsupported_address_def count_char_def)
  ultimately show ?thesis using alias_map_never_raises [of sample_map_env sample_aliases "''a@b@d.io''"] by metis
qed


theorem sender_login_scope_witness:
  "\<exists>ys d'. postfix_sender_login sample_map_env sample_aliases ''joe@d.io'' = Ret (Found ys, d') \<and> ''joe@x.org'' \<in> set ys
     \<and> (\<exists>x. idna_encode_one Some x = Ret ''joe@x.org'')"
proof -
  have r: "postfix_sender_login sample_map_env sample_aliases ''joe@d.io''
      = Ret (Found [''joe@x.org'', ''root@x.org''], sample_aliases)" by code_simp
  have p: "resolve_domain (me_enc sample_map_env) sample_aliases ''joe@d.io'' = Ret (Some ''joe'', ''d.io'')"
    by code_simp
  have "me_enc sample_map_env = Some" by (simp add: sample_map_env_def)
  then show ?thesis using sender_login_scope [OF r _ p, of "''joe@x.org''"] r by auto
qed

end
