(* ===== verification/Quarantine_Views.thy ===== *)
theory Quarantine_Views
  imports Quarantine Postfix_Maps
begin

text \<open>
  The callbacks of the spam filter that fill the quarantine and the greylist
  (\<open>internal/views/quarantine.py\<close>, \<open>internal/views/rspamd.py\<close>) and the pages that release and delete
  held messages (\<open>ui/views/quarantine.py\<close>).  A multipart upload is the record of what Flask
  parsed of it; a metadata part that is missing or not JSON is None.
\<close>

section \<open>Uploads of the spam filter\<close>

record upload =
  up_length :: "nat option"
  up_auth :: "(string \<times> string option) option"
  up_mime :: string
  up_is_json :: bool
  up_metadata :: "json option"
  up_message :: "string option"

definition authorized :: "q_env \<Rightarrow> upload \<Rightarrow> bool outcome" where
  "authorized e up =
     (case up_auth up of
        None \<Rightarrow> Ret False
      | Some (name, pw) \<Rightarrow>
          if name \<noteq> ''quarantine'' then Ret False
          else compare_digest (case pw of None \<Rightarrow> [] | Some p \<Rightarrow> p) (q_key e))"

text \<open>The mailboxes that the envelope recipients resolve to, in lower case.\<close>

fun mailboxes_of :: "map_env \<Rightarrow> string list \<Rightarrow> db \<Rightarrow> (string list \<times> db) outcome" where
  "mailboxes_of m [] d = Ret ([], d)"
| "mailboxes_of m (a # as) d =
     bind_out (resolve_domain (me_enc m) d a) (\<lambda>(lp, dn).
     bind_out (resolve_destination (me_enc m) (like_ci m) (delimiters m) d (case lp of None \<Rightarrow> [] | Some l \<Rightarrow> l) dn False)
       (\<lambda>(dst, d').
     bind_out (map_out (\<lambda>x. get_user (me_enc m) d' (lower x)) (case dst of None \<Rightarrow> [] | Some xs \<Rightarrow> xs)) (\<lambda>us.
     bind_out (mailboxes_of m as d') (\<lambda>(rest, d'').
       Ret (map (\<lambda>u. lower (email u)) (concat (map (\<lambda>u. case u of None \<Rightarrow> [] | Some u' \<Rightarrow> [u']) us)) @ rest, d'')))))"

definition held_recipients :: "map_env \<Rightarrow> string list \<Rightarrow> db \<Rightarrow> (string list \<times> db) outcome" where
  "held_recipients m envelope d =
     bind_out (mailboxes_of m envelope d) (\<lambda>(boxes, d').
       Ret (if boxes \<noteq> [] then sort (remdups boxes) else envelope, d'))"

record held_state =
  hs_db :: db
  hs_repo :: repo

definition rspamd_quarantine ::
  "q_env \<Rightarrow> map_env \<Rightarrow> datetime \<Rightarrow> string \<Rightarrow> string \<Rightarrow> upload \<Rightarrow> held_state \<Rightarrow> ((nat \<times> string) \<times> held_state) outcome" where
  "rspamd_quarantine e m now now_text fresh up s =
     (if \<exists>n\<in>set_option (up_length up). n > q_max_bytes e + 1048576 then Ret ((413, []), s)
      else bind_out (authorized e up) (\<lambda>ok.
        if \<not> ok then Ret ((403, []), s)
        else if \<not> prefix ''multipart/'' (up_mime up) then Ret ((415, []), s)
        else (case (up_metadata up, up_message up) of
          (Some j, Some msg) \<Rightarrow>
            if length msg > q_max_bytes e then Ret ((413, []), s)
            else (case j of JObj meta \<Rightarrow>
              if get_default meta ''action'' JNull \<noteq> JStr ''reject'' then Ret ((400, []), s)
              else (case listed (get_default meta ''rcpt'' (get_default meta ''recipients'' (JList []))) of
                None \<Rightarrow> Ret ((400, []), s)
              | Some rs \<Rightarrow>
                  (let envelope = address_list False rs in
                   bind_out (held_recipients m envelope (hs_db s)) (\<lambda>(boxes, d').
                     let meta' = dict_set ''received'' (JStr (iso_text e now))
                           (dict_set ''symbols'' (case get_default meta ''symbols'' JNull of JList xs \<Rightarrow> JList xs | _ \<Rightarrow> JList [])
                           (dict_set ''recipients'' (JList (map JStr boxes))
                           (dict_set ''envelope_recipients'' (JList (map JStr envelope)) meta)));
                         s' = s\<lparr>hs_db := d'\<rparr> in
                     case q_store e now now_text fresh msg meta' (hs_repo s) of
                       Exn err \<Rightarrow> if err = ValueError then Ret ((413, []), s') else Exn err
                     | Ret (mid, r') \<Rightarrow> Ret ((201, mid), s'\<lparr>hs_repo := snd (greylist_clear e meta' r')\<rparr>))))
            | _ \<Rightarrow> Ret ((400, []), s))
        | _ \<Rightarrow> Ret ((400, []), s))))"

text \<open>The answer of the greylist callback: a status, and whether a message was recorded.\<close>

definition rspamd_greylist ::
  "q_env \<Rightarrow> map_env \<Rightarrow> datetime \<Rightarrow> string \<Rightarrow> upload \<Rightarrow> held_state \<Rightarrow> ((nat \<times> bool) \<times> held_state) outcome" where
  "rspamd_greylist e m now now_text up s =
     (if \<exists>n\<in>set_option (up_length up). n > q_max_bytes e + 1048576 then Ret ((413, False), s)
      else bind_out (authorized e up) (\<lambda>ok.
        if \<not> ok then Ret ((403, False), s)
        else (let form = (up_mime up = ''multipart/form-data'');
                  answer = (\<lambda>s' res. case res of (None, r') \<Rightarrow> Ret ((400, False), s'\<lparr>hs_repo := r'\<rparr>)
                              | (Some b, r') \<Rightarrow> Ret ((200, b), s'\<lparr>hs_repo := r'\<rparr>)) in
          if \<not> form \<and> \<not> up_is_json up then Ret ((415, False), s)
          else (case (up_metadata up, up_message up) of
            (None, _) \<Rightarrow> Ret ((400, False), s)
          | (Some j, msg) \<Rightarrow>
              if form \<and> msg = None then Ret ((400, False), s)
              else if form \<and> length (the msg) > q_max_bytes e then Ret ((413, False), s)
              else (case j of
                JObj meta \<Rightarrow>
                  if \<not> form then bind_out (greylist_record e now now_text meta None (hs_repo s)) (answer s)
                  else (case listed (get_default meta ''rcpt'' (get_default meta ''recipients'' (JList []))) of
                    None \<Rightarrow> Ret ((400, False), s)
                  | Some rs \<Rightarrow>
                      (let envelope = address_list True rs in
                       bind_out (held_recipients m envelope (hs_db s)) (\<lambda>(boxes, d').
                         let meta' = dict_set ''rcpt'' (JList (map JStr boxes))
                               (dict_set ''envelope_recipients'' (JList (map JStr envelope)) meta);
                             s' = s\<lparr>hs_db := d'\<rparr> in
                         case greylist_record e now now_text meta' msg (hs_repo s) of
                           Exn err \<Rightarrow> if err = ValueError then Ret ((503, False), s') else Exn err
                         | Ret res \<Rightarrow> answer s' res)))
              | _ \<Rightarrow> Ret ((400, False), s))))))"

section \<open>Release\<close>

record release_env =
  re_valid_email :: "string \<Rightarrow> bool"
  re_post :: "string \<Rightarrow> (string, string) dict \<Rightarrow> string \<Rightarrow> post_result"
  re_sendmail :: "string \<Rightarrow> string list \<Rightarrow> string \<Rightarrow> bool"

definition release_recipients :: "release_env \<Rightarrow> db \<Rightarrow> user \<Rightarrow> (string, json) dict \<Rightarrow> string list outcome" where
  "release_recipients R d u meta =
     bind_out
       (if global_admin u then
          (let xs = (case listed (get_or meta ''envelope_recipients'' (get_default meta ''recipients'' (JList []))) of
                       None \<Rightarrow> [] | Some ys \<Rightarrow> strings_of ys)
           in Ret (map strip_str (filter (\<lambda>a. re_valid_email R (strip_str a)) xs)))
        else bind_out (visible_recipients d u meta) (\<lambda>rs. Ret (filter (re_valid_email R) rs)))
       (\<lambda>rs. bind_out (recipients_of meta) (\<lambda>all.
          Ret (fromkeys (rs @ (if list_ex (\<lambda>a. lower a = lower (email u)) all then [] else [email u])))))"

text \<open>None is the abort with status 400.\<close>

definition release_sender :: "release_env \<Rightarrow> (string, json) dict \<Rightarrow> string option" where
  "release_sender R meta =
     (case get_or meta ''from'' (get_or meta ''sender'' (JStr [])) of
        JStr s \<Rightarrow> if s \<in> {[], ''<>''} then Some [] else if re_valid_email R s then Some s else None
      | _ \<Rightarrow> None)"

text \<open>\<open>re_sendmail\<close> is the SMTP transaction on the reinjection port: False when it raises or any
  recipient is refused.\<close>

definition reinject :: "release_env \<Rightarrow> string \<Rightarrow> (string, json) dict \<Rightarrow> string list \<Rightarrow> nat option" where
  "reinject R raw meta rcpts =
     (case release_sender R meta of
        None \<Rightarrow> Some 400
      | Some sender \<Rightarrow> if re_sendmail R sender rcpts raw then None else Some 503)"

datatype page = Shown "(string, json) dict" | Listing "(string, json) dict list" | Form "string list"
  | Failed nat | Released "string list" "string list" | Removed nat

text \<open>Both release pages: \<open>found\<close> is the record read under the identifier, \<open>remove\<close> the deletion,
  \<open>submitted\<close> the recipients of a valid form.\<close>

definition release_message ::
  "release_env \<Rightarrow> db \<Rightarrow> user \<Rightarrow> string list option \<Rightarrow> ((string, json) dict \<times> string) option \<Rightarrow> (repo \<Rightarrow> bool \<times> repo) \<Rightarrow>
   repo \<Rightarrow> (page \<times> repo) outcome" where
  "release_message R d u submitted found remove r =
     (case found of
        None \<Rightarrow> Ret (Failed 404, r)
      | Some (meta, raw) \<Rightarrow>
          bind_out (visible_recipients d u meta) (\<lambda>vis.
            if vis = [] then Ret (Failed 404, r)
            else bind_out (release_recipients R d u meta) (\<lambda>rcpts.
              case submitted of
                None \<Rightarrow> Ret (Form rcpts, r)
              | Some sel0 \<Rightarrow>
                  (let selected = fromkeys sel0 in
                   if selected = [] \<or> list_ex (\<lambda>a. a \<notin> set rcpts \<or> \<not> re_valid_email R a) selected
                   then Ret (Failed 400, r)
                   else (case reinject R raw meta selected of
                           Some st \<Rightarrow> Ret (Failed st, r)
                         | None \<Rightarrow> Ret (Released selected (learn_ham (re_post R) raw), snd (remove r)))))))"

definition quarantine_release ::
  "release_env \<Rightarrow> q_env \<Rightarrow> datetime \<Rightarrow> db \<Rightarrow> user \<Rightarrow> string \<Rightarrow> string list option \<Rightarrow> repo \<Rightarrow> (page \<times> repo) outcome" where
  "quarantine_release R e now d u mid submitted r =
     (case q_get e now mid r of (found, r') \<Rightarrow> release_message R d u submitted found (q_delete mid) r')"

definition greylist_release ::
  "release_env \<Rightarrow> q_env \<Rightarrow> datetime \<Rightarrow> db \<Rightarrow> user \<Rightarrow> string \<Rightarrow> string list option \<Rightarrow> repo \<Rightarrow> (page \<times> repo) outcome" where
  "greylist_release R e now d u rid submitted r =
     (case greylist_get e now rid r of (found, r') \<Rightarrow> release_message R d u submitted found (greylist_delete rid) r')"

section \<open>Listing and deletion\<close>

definition quarantine_list :: "q_env \<Rightarrow> datetime \<Rightarrow> db \<Rightarrow> user \<Rightarrow> repo \<Rightarrow> (page \<times> repo) outcome" where
  "quarantine_list e now d u r =
     bind_out (q_entries e now None r) (\<lambda>(xs, r'). bind_out (visible_entries d u xs) (\<lambda>ys. Ret (Listing ys, r')))"

definition quarantine_detail :: "q_env \<Rightarrow> datetime \<Rightarrow> db \<Rightarrow> user \<Rightarrow> string \<Rightarrow> repo \<Rightarrow> (page \<times> repo) outcome" where
  "quarantine_detail e now d u mid r =
     (case q_get e now mid r of
        (None, r') \<Rightarrow> Ret (Failed 404, r')
      | (Some (meta, raw), r') \<Rightarrow> bind_out (visible_recipients d u meta) (\<lambda>vis.
          Ret (if vis = [] then Failed 404 else Shown meta, r')))"

definition quarantine_delete ::
  "q_env \<Rightarrow> datetime \<Rightarrow> db \<Rightarrow> user \<Rightarrow> string \<Rightarrow> bool \<Rightarrow> bool \<Rightarrow> repo \<Rightarrow> (page \<times> repo) outcome" where
  "quarantine_delete e now d u mid valid is_post r =
     (case get_any e now mid r of
        (None, r') \<Rightarrow> Ret (Failed 404, r')
      | (Some (meta, raw), r') \<Rightarrow> bind_out (visible_recipients d u meta) (\<lambda>vis.
          if vis = [] then Ret (Failed 404, r')
          else if valid then Ret (Removed 1, snd (q_delete mid r'))
          else Ret (if is_post then Failed 400 else Shown meta, r')))"

definition quarantine_flush ::
  "q_env \<Rightarrow> datetime \<Rightarrow> db \<Rightarrow> user \<Rightarrow> bool \<Rightarrow> bool \<Rightarrow> repo \<Rightarrow> (page \<times> repo) outcome" where
  "quarantine_flush e now d u valid is_post r =
     bind_out (q_entries e now None r) (\<lambda>(xs, r').
     bind_out (visible_entries d u xs) (\<lambda>ys.
       if valid then (case flush (map (\<lambda>m. text_of (get_default m ''id'' JNull)) ys) r' of (n, r'') \<Rightarrow> Ret (Removed n, r''))
       else Ret (if is_post then Failed 400 else Listing ys, r')))"

section \<open>Lemmas\<close>

lemma visible_recipients_user:
  assumes "visible_recipients d u meta = Ret vis" "\<not> global_admin u" "a \<in> set vis"
  shows "\<exists>rs. recipients_of meta = Ret rs \<and> a \<in> set rs
    \<and> (lower a = lower (email u) \<or> in_managed (map lower (managed_domains d u)) a)"
  using assms by (auto simp: visible_recipients_def Let_def)

lemma release_recipients_user:
  assumes "release_recipients R d u meta = Ret rcpts" "\<not> global_admin u" "a \<in> set rcpts"
  shows "a = email u \<or> (\<exists>rs. recipients_of meta = Ret rs \<and> a \<in> set rs
    \<and> (lower a = lower (email u) \<or> in_managed (map lower (managed_domains d u)) a))"
proof -
  obtain vis where "visible_recipients d u meta = Ret vis" "a \<in> set vis \<or> a = email u"
    using assms by (auto simp: release_recipients_def split: if_splits)
  then show ?thesis using visible_recipients_user assms(2) by blast
qed

lemma release_message_Released:
  assumes "release_message R d u sub found remove r = Ret (Released sel fails, r')"
  shows "\<exists>meta raw rcpts sender. found = Some (meta, raw) \<and> release_recipients R d u meta = Ret rcpts
    \<and> set sel \<subseteq> set rcpts \<and> sel \<noteq> [] \<and> (\<forall>a\<in>set sel. re_valid_email R a)
    \<and> release_sender R meta = Some sender \<and> re_sendmail R sender sel raw \<and> r' = snd (remove r)"
proof -
  obtain meta raw where f: "found = Some (meta, raw)"
    using assms by (cases found) (auto simp: release_message_def)
  obtain vis where v: "visible_recipients d u meta = Ret vis" "vis \<noteq> []"
    using assms f by (auto simp: release_message_def split: if_splits)
  obtain rcpts where rc: "release_recipients R d u meta = Ret rcpts"
    using assms f v by (auto simp: release_message_def)
  obtain sel0 where sub: "sub = Some sel0"
    using assms f v rc by (cases sub) (auto simp: release_message_def)
  let ?bad = "fromkeys sel0 = [] \<or> list_ex (\<lambda>a. a \<notin> set rcpts \<or> \<not> re_valid_email R a) (fromkeys sel0)"
  have nb: "\<not> ?bad" using assms f v rc sub by (auto simp: release_message_def Let_def simp del: set_fromkeys)
  have "reinject R raw meta (fromkeys sel0) = None" "sel = fromkeys sel0" "r' = snd (remove r)"
    using assms f v rc sub nb by (auto simp: release_message_def Let_def split: option.splits)
  then show ?thesis using f rc nb
    by (auto simp: reinject_def list_ex_iff split: option.splits if_splits simp del: set_fromkeys)
qed

lemma py_replace_fresh: "\<exists>c\<in>set old. c \<notin> set s \<Longrightarrow> py_replace old new s = s"
proof (induction s)
  case (Cons x s)
  then have "\<not> prefix old (x # s)" using set_mono_prefix by fastforce
  then show ?case using Cons by auto
qed simp

lemma key_not_uuid:
  assumes "is_key k"
  shows "uuid_canon k = None" "record_id k = Some k"
proof -
  have c: "\<And>x. x \<in> set k \<Longrightarrow> is_digit x \<or> code_in 97 102 x" using assms by (auto simp: is_key_def list_all_iff)
  have no: "CHR '':'' \<notin> set k" "CHR ''{'' \<notin> set k" "CHR ''}'' \<notin> set k" "CHR ''-'' \<notin> set k"
    using c by (force simp: is_digit_def code_in_def)+
  have r: "py_replace ''urn:'' [] k = k" "py_replace ''uuid:'' [] k = k"
    using no(1) by (auto intro!: py_replace_fresh)
  have d: "dropWhile (\<lambda>c. c \<in> set ''{}'') xs = xs" if "set xs \<subseteq> set k" for xs
    using that no(2,3) by (cases xs) auto
  have s: "strip_chars (\<lambda>c. c \<in> set ''{}'') k = k" by (simp add: strip_chars_def d del: set_simps)
  have f: "filter (\<lambda>c. c \<noteq> CHR ''-'') k = k" using no(4) by (auto simp: filter_id_conv)
  have "filter (\<lambda>c. \<not> code_in 128 191 c) k = k" using c by (force simp: filter_id_conv is_digit_def code_in_def)
  then have "str_len k = 64" using assms by (simp add: str_len_def is_key_def)
  then show u: "uuid_canon k = None" unfolding uuid_canon_def r s f by simp
  then show "record_id k = Some k" using assms by (simp add: record_id_def)
qed

section \<open>Properties\<close>

lemma release_message_kept:
  assumes "release_message R d u sub found remove r = Ret (a, r')" "\<forall>sel fails. a \<noteq> Released sel fails"
  shows "r' = r"
  using assms
  by (auto simp: release_message_def Let_def split: option.splits if_splits prod.splits bind_splits)

lemma found_record_kept: "q_get e now mid r = (Some x, r0) \<Longrightarrow> r0 = r"
  by (auto simp: q_get_def get_record_def Let_def split: option.splits if_splits prod.splits json.splits)

text \<open>
  C39. A held message is released only where its reader may send it, and goes only when it was
  delivered.  When the page answers that a message was released, the message exists and has not
  expired, it is delivered to at least one address, all of them valid, and is deleted then; for a
  reader who is not a global administrator, each of them is the reader's own address, or a recorded
  recipient that is the reader's own or in a domain the reader manages.  With every other answer,
  a failed delivery among them, the repository is what the look-up of the record left, which is the
  unchanged one whenever the record was found.
\<close>
theorem release_confined:
  assumes "quarantine_release R e now d u mid sub r = Ret (a, r')"
  shows "(fst (q_get e now mid r) \<noteq> None \<longrightarrow> snd (q_get e now mid r) = r)
    \<and> (case a of
         Released sel fails \<Rightarrow>
           \<exists>meta raw sender. q_get e now mid r = (Some (meta, raw), r) \<and> sel \<noteq> []
             \<and> release_sender R meta = Some sender \<and> re_sendmail R sender sel raw \<and> r' = snd (q_delete mid r)
             \<and> (\<forall>x\<in>set sel. re_valid_email R x)
             \<and> (\<not> global_admin u \<longrightarrow>
                 (\<forall>x\<in>set sel. x = email u \<or> (\<exists>rs. recipients_of meta = Ret rs \<and> x \<in> set rs
                    \<and> (lower x = lower (email u) \<or> in_managed (map lower (managed_domains d u)) x))))
       | _ \<Rightarrow> r' = snd (q_get e now mid r))"
proof -
  obtain found r0 where g: "q_get e now mid r = (found, r0)" by (rule prod.exhaust)
  then have m: "release_message R d u sub found (q_delete mid) r0 = Ret (a, r')"
    using assms by (simp add: quarantine_release_def)
  have kept: "found \<noteq> None \<Longrightarrow> r0 = r" using g found_record_kept by fastforce
  show ?thesis
  proof (cases "\<exists>sel fails. a = Released sel fails")
    case True
    then obtain sel fails where a: "a = Released sel fails" by blast
    obtain meta raw rcpts sender where *: "found = Some (meta, raw)" "release_recipients R d u meta = Ret rcpts"
      "set sel \<subseteq> set rcpts" "sel \<noteq> []" "\<forall>a\<in>set sel. re_valid_email R a" "release_sender R meta = Some sender"
      "re_sendmail R sender sel raw" "r' = snd (q_delete mid r0)"
      using release_message_Released [OF m [unfolded a]] by blast
    have "x = email u \<or> (\<exists>rs. recipients_of meta = Ret rs \<and> x \<in> set rs
        \<and> (lower x = lower (email u) \<or> in_managed (map lower (managed_domains d u)) x))"
      if "\<not> global_admin u" "x \<in> set sel" for x
      using release_recipients_user [OF *(2) that(1)] *(3) that(2) by blast
    then show ?thesis using g kept * a by simp
  next
    case False
    then have "r' = r0" using release_message_kept [OF m] by blast
    then show ?thesis using False g kept by (cases a) auto
  qed
qed

text \<open>
  A greylisted message is forgotten once it is accepted: after the callback of a soft reject
  and then one of an accepted delivery with the same message identifier, in whatever brackets or
  white space, no greylist record of that message is left, and every other record is untouched.
\<close>
theorem greylist_cycle:
  assumes "\<And>m. is_key (sha256_hex e m)"
    and "greylist_record e now t meta raw r = Ret (Some True, r1)"
    and "greylist_record e now' t' meta' raw' r1 = Ret (Some False, r2)"
    and "action_of meta' \<in> {''no action'', ''accept'', ''add header'', ''rewrite subject''}"
    and "message_id_of meta = JStr i" "message_id_of meta' = JStr i'" "clean_message_id i' = clean_message_id i"
  shows "let key = sha256_hex e (clean_message_id i) in
    dict_get (metas r2) key = None \<and> dict_get (mails r2) key = None
    \<and> (\<forall>k. k \<noteq> key \<longrightarrow> dict_get (metas r2) k = dict_get (metas r) k \<and> dict_get (mails r2) k = dict_get (mails r) k)"
proof -
  let ?key = "sha256_hex e (clean_message_id i)"
  have k: "greylist_key e (JStr i) = Some ?key" "greylist_key e (JStr i') = Some ?key"
    using assms(2,3,5-7) by (auto simp: greylist_record_def greylist_key_def Let_def split: option.splits if_splits)
  have id: "record_id ?key = Some ?key" by (rule key_not_uuid(2) [OF assms(1)])
  obtain j where st: "store_record now t ?key raw (greylist_entry e now meta) ''greylist'' r = Ret (j, r1)"
    using assms(2) k(1) assms(5) by (auto simp: greylist_record_def split: if_splits)
  note s = store_Ret [OF st]
  have j: "j = ?key" using s(1) id by simp
  have na: "action_of meta' \<notin> {''soft reject'', ''soft_reject'', ''greylist''}" using assms(4) by auto
  have r2: "r2 = snd (delete_record ?key (Some ''greylist'') r1)"
    using assms(3,4,6) k(2) na by (simp add: greylist_record_def)
  have "kind_of (JObj (stored_record t ''greylist'' (greylist_entry e now meta))) = JStr ''greylist''"
    by (simp add: kind_of_def stored_record_def get_default_def Let_def)
  then have "r2 = unlink_record ?key r1" using r2 id s(3) [of ?key] j by (simp add: delete_record_def)
  then show ?thesis using s(3,4) j by (simp add: Let_def)
qed

section \<open>Examples\<close>

definition sample_q :: q_env where
  "sample_q = \<lparr>fromiso = (\<lambda>_. None), iso_text = (\<lambda>_. ''now''), q_retention = 7, q_max_bytes = 1000, q_key = ''k'',
     sha256_hex = (\<lambda>_. replicate 64 (CHR ''a''))\<rparr>"

definition sample_release :: release_env where
  "sample_release = \<lparr>re_valid_email = (\<lambda>_. True), re_post = (\<lambda>_ _ _. Post_ok), re_sendmail = (\<lambda>_ _ _. True)\<rparr>"

definition sample_held :: repo where
  "sample_held = \<lparr>metas = [(sample_id, (Some (JObj [(''recipients'', JList [JStr ''joe@x.org''])]), (2024, 1, 31, 0)))],
     mails = [(sample_id, ''mail'')]\<rparr>"

theorem release_confined_witness:
  "\<exists>sel r'. quarantine_release sample_release sample_q (2024, 2, 1, 0) empty_db (sample_user ''joe'' ''x.org'') sample_id
     (Some [''joe@x.org'']) sample_held = Ret (Released sel [], r') \<and> sel = [''joe@x.org''] \<and> metas r' = []
     \<and> re_valid_email sample_release (hd sel)"
proof -
  let ?u = "sample_user ''joe'' ''x.org''"
  have t: "\<not> add_days 7 (2024, 1, 31, 0) < (2024, 2, 1, 0)" by code_simp
  have id: "record_id sample_id = Some sample_id" by (simp add: record_id_def sample_id_uuid)
  let ?m = "[(''recipients'', JList [JStr ''joe@x.org'']), (''kind'', JStr ''quarantine''), (''id'', JStr sample_id),
      (''size'', JInt 4)]"
  have g: "q_get sample_q (2024, 2, 1, 0) sample_id sample_held = (Some (?m, ''mail''), sample_held)"
    using t by (simp add: q_get_def sample_id_uuid get_record_def id is_uuid_def sample_held_def dict_get_Cons kind_of_def
        get_default_def expired_def sample_q_def Let_def)
  have v: "visible_recipients empty_db ?u ?m = Ret [''joe@x.org'']"
    by (simp add: visible_recipients_def recipients_of_def get_default_def dict_get_Cons iter_strings_def sample_user_def)
  have rec: "recipients_of ?m = Ret [''joe@x.org'']"
    by (simp add: recipients_of_def get_default_def dict_get_Cons iter_strings_def)
  have rr: "release_recipients sample_release empty_db ?u ?m = Ret [''joe@x.org'']"
  proof -
    have "\<not> global_admin ?u" "email ?u = ''joe@x.org''" by (simp_all add: sample_user_def)
    then show ?thesis by (simp add: release_recipients_def v rec sample_release_def)
  qed
  have rs: "release_sender sample_release ?m = Some []"
    by (simp add: release_sender_def get_or_def get_default_def dict_get_Cons)
  have del: "metas (snd (q_delete sample_id sample_held)) = []"
    by (simp add: q_delete_def sample_id_uuid delete_record_def id sample_held_def dict_get_Cons kind_of_def get_default_def
        unlink_record_def dict_del_def)
  have "quarantine_release sample_release sample_q (2024, 2, 1, 0) empty_db ?u sample_id (Some [''joe@x.org'']) sample_held
      = Ret (Released [''joe@x.org''] (learn_ham (re_post sample_release) ''mail''), snd (q_delete sample_id sample_held))"
  proof -
    have sm: "re_sendmail sample_release x y z" "re_valid_email sample_release x" for x y z
      by (simp_all add: sample_release_def)
    show ?thesis by (simp add: quarantine_release_def g release_message_def v rr reinject_def rs sm Let_def)
  qed
  moreover have "learn_ham (re_post sample_release) ''mail'' = []"
    by (simp add: learn_ham_def sample_release_def map_filter_simps)
  ultimately have q: "quarantine_release sample_release sample_q (2024, 2, 1, 0) empty_db ?u sample_id
      (Some [''joe@x.org'']) sample_held = Ret (Released [''joe@x.org''] [], snd (q_delete sample_id sample_held))" by simp
  from release_confined [OF q] q del show ?thesis by auto
qed

theorem greylist_cycle_witness:
  "\<exists>r1 r2. greylist_record sample_q (2024, 2, 1, 0) ''now'' [(''message_id'', JStr ''<1@x>''), (''action'', JStr ''greylist'')]
       None \<lparr>metas = [], mails = []\<rparr> = Ret (Some True, r1)
     \<and> greylist_record sample_q (2024, 2, 1, 1) ''now'' [(''message_id'', JStr ''1@x''), (''action'', JStr ''accept'')] None r1
       = Ret (Some False, r2)
     \<and> dict_get (metas r2) (replicate 64 (CHR ''a'')) = None"
proof -
  let ?m = "[(''message_id'', JStr ''<1@x>''), (''action'', JStr ''greylist'')]"
  let ?m' = "[(''message_id'', JStr ''1@x''), (''action'', JStr ''accept'')]"
  let ?k = "replicate 64 (CHR ''a'')"
  have key: "is_key (sha256_hex sample_q m)" for m by (simp add: sample_q_def is_key_def code_in_def list_all_iff)
  have i: "message_id_of ?m = JStr ''<1@x>''" "message_id_of ?m' = JStr ''1@x''"
    by (simp_all add: message_id_of_def get_or_def get_default_def dict_get_Cons)
  have c: "clean_message_id ''<1@x>'' = ''1@x''" "clean_message_id ''1@x'' = ''1@x''"
    by (simp_all add: clean_message_id_def strip_chars_def is_space_str_def code_in_def)
  have gk: "greylist_key sample_q (JStr ''<1@x>'') = Some ?k" "greylist_key sample_q (JStr ''1@x'') = Some ?k"
    by (simp_all add: greylist_key_def c str_len_def code_in_def sample_q_def)
  have a: "action_of ?m = ''greylist''" "action_of ?m' = ''accept''"
    by (simp_all add: action_of_def get_default_def dict_get_Cons strip_chars_def is_space_str_def code_in_def
        lower_char_def is_upper_def)
  have kk: "record_id ?k = Some ?k" "is_key ?k" using key_not_uuid key by (auto simp: sample_q_def)
  obtain r1 where r1: "greylist_record sample_q (2024, 2, 1, 0) ''now'' ?m None \<lparr>metas = [], mails = []\<rparr> = Ret (Some True, r1)"
    by (simp add: greylist_record_def i gk a store_record_def store_ops_def kk valid_identity_def)
  obtain r2 where r2: "greylist_record sample_q (2024, 2, 1, 1) ''now'' ?m' None r1 = Ret (Some False, r2)"
    by (simp add: greylist_record_def i gk a)
  have s: "sha256_hex sample_q x = ?k" for x by (simp add: sample_q_def)
  show ?thesis using r1 r2 greylist_cycle [OF key r1 r2 _ i(1,2), unfolded c a Let_def s] by simp
qed

end
