(* ===== verification/Log_Filter.thy ===== *)
theory Log_Filter
  imports Prelude
begin

text \<open>
  The log filter that runs a service and copies its output
  (\<open>src/core/base/libs/socrate/socrate/log_filter.py\<close>): splitting of pipe data into lines with
  bounded memory, pattern filtering, the bounded queue between the reading loop and the writer
  thread, and the writer.

  Compiled patterns are predicates on lines.  The writer thread runs at the same time as the
  reading loop; what it does between two of the loop's looks at the shared data (the queue and
  the set of disabled descriptors) is a list of moves of the state's schedule, and a theorem
  that holds for every schedule holds for every interleaving.  Starting the child, signals and
  process groups are not modelled.
\<close>

section \<open>State\<close>

definition MAX_LINE_SIZE :: nat where
  "MAX_LINE_SIZE = 65536"

definition MAX_QUEUED_LINES :: nat where
  "MAX_QUEUED_LINES = 64"

datatype pipe = Stdout | Stderr

datatype move = Take | Disable nat

text \<open>\<open>taken\<close> lists the items the writer has got from the queue, oldest first; \<open>schedule\<close> is
  what it will do before each of the loop's next looks at the shared data.\<close>

record filter_state =
  buffers :: "pipe \<Rightarrow> string"
  discarding :: "pipe set"
  dropped :: "nat \<Rightarrow> nat"
  queued :: "(nat \<times> string) list"
  disabled :: "nat set"
  taken :: "(nat \<times> string) list"
  schedule :: "move list list"

definition start_state :: "move list list \<Rightarrow> filter_state" where
  "start_state ms = \<lparr>buffers = (\<lambda>_. []), discarding = {}, dropped = (\<lambda>_. 0), queued = [],
     disabled = {}, taken = [], schedule = ms\<rparr>"

fun writer_move :: "move \<Rightarrow> filter_state \<Rightarrow> filter_state" where
  "writer_move Take s =
     (case queued s of [] \<Rightarrow> s | x # q \<Rightarrow> s\<lparr>queued := q, taken := taken s @ [x]\<rparr>)"
| "writer_move (Disable fd) s = s\<lparr>disabled := insert fd (disabled s)\<rparr>"

definition sync :: "filter_state \<Rightarrow> filter_state" where
  "sync s = (case schedule s of [] \<Rightarrow> s | ms # r \<Rightarrow> fold writer_move ms (s\<lparr>schedule := r\<rparr>))"

section \<open>Operations of the reading loop\<close>

definition put_nowait :: "nat \<times> string \<Rightarrow> filter_state \<Rightarrow> bool \<times> filter_state" where
  "put_nowait item s =
     (let s' = sync s in
      if length (queued s') < MAX_QUEUED_LINES then (True, s'\<lparr>queued := queued s' @ [item]\<rparr>)
      else (False, s'))"

definition drop_line :: "nat \<Rightarrow> filter_state \<Rightarrow> filter_state" where
  "drop_line fd s = s\<lparr>dropped := (dropped s)(fd := dropped s fd + 1)\<rparr>"

definition notice :: "nat \<Rightarrow> string" where
  "notice n = ''[mailu log filter] dropped '' @ str_of_nat n
     @ '' log lines (backpressure or oversized line)'' @ [CHR 0x0A]"

definition report_drops :: "nat \<Rightarrow> filter_state \<Rightarrow> filter_state" where
  "report_drops fd s =
     (if dropped s fd = 0 then s
      else (case put_nowait (fd, notice (dropped s fd)) s of
              (True, s') \<Rightarrow> s'\<lparr>dropped := (dropped s')(fd := 0)\<rparr>
            | (False, s') \<Rightarrow> s'))"

definition put_line :: "nat \<Rightarrow> string \<Rightarrow> filter_state \<Rightarrow> filter_state" where
  "put_line fd line s =
     (case put_nowait (fd, line) s of (True, s') \<Rightarrow> s' | (False, s') \<Rightarrow> drop_line fd s')"

definition emit :: "(string \<Rightarrow> bool) list \<Rightarrow> nat \<Rightarrow> string \<Rightarrow> filter_state \<Rightarrow> filter_state" where
  "emit patterns fd line s =
     (if list_ex (\<lambda>pattern. pattern line) patterns then s
      else let s1 = sync s in
        if fd \<in> disabled s1 then drop_line fd s1
        else put_line fd line (report_drops fd s1))"

definition emit_line ::
  "(string \<Rightarrow> bool) list \<Rightarrow> (pipe \<Rightarrow> nat) \<Rightarrow> pipe \<Rightarrow> string \<Rightarrow> filter_state \<Rightarrow> filter_state" where
  "emit_line patterns outputs pipe line s =
     (if MAX_LINE_SIZE < length line then drop_line (outputs pipe) s
      else emit patterns (outputs pipe) line s)"

function consume ::
  "(string \<Rightarrow> bool) list \<Rightarrow> (pipe \<Rightarrow> nat) \<Rightarrow> pipe \<Rightarrow> string \<Rightarrow> filter_state \<Rightarrow> filter_state" where
  "consume patterns outputs pipe chunk s =
     (if chunk = [] then s
      else if pipe \<in> discarding s then
        (case cut (CHR 0x0A) chunk of
           None \<Rightarrow> s
         | Some (_, rest) \<Rightarrow> consume patterns outputs pipe rest (s\<lparr>discarding := discarding s - {pipe}\<rparr>))
      else
        (case cut (CHR 0x0A) chunk of
           None \<Rightarrow>
             if MAX_LINE_SIZE < length (buffers s pipe) + length chunk
             then drop_line (outputs pipe)
                    (s\<lparr>buffers := (buffers s)(pipe := []), discarding := insert pipe (discarding s)\<rparr>)
             else s\<lparr>buffers := (buffers s)(pipe := buffers s pipe @ chunk)\<rparr>
         | Some (a, rest) \<Rightarrow>
             consume patterns outputs pipe rest
               (emit_line patterns outputs pipe (buffers s pipe @ a @ [CHR 0x0A])
                  (s\<lparr>buffers := (buffers s)(pipe := [])\<rparr>))))"
  by pat_completeness auto
termination
  by (relation "measure (\<lambda>(_, _, _, chunk, _). length chunk)") (auto dest: cut_Some)

declare consume.simps [simp del]

definition flush_partial ::
  "(string \<Rightarrow> bool) list \<Rightarrow> (pipe \<Rightarrow> nat) \<Rightarrow> pipe \<Rightarrow> filter_state \<Rightarrow> filter_state" where
  "flush_partial patterns outputs pipe s =
     (if pipe \<in> discarding s then s
      else let line = buffers s pipe; s' = s\<lparr>buffers := (buffers s)(pipe := [])\<rparr> in
        if line = [] then s' else emit_line patterns outputs pipe line s')"

text \<open>One event of the main loop: data of a pipe, or its end.\<close>

datatype pipe_event = Chunk pipe string | End_of pipe

fun loop_event ::
  "(string \<Rightarrow> bool) list \<Rightarrow> (pipe \<Rightarrow> nat) \<Rightarrow> pipe_event \<Rightarrow> filter_state \<Rightarrow> filter_state" where
  "loop_event patterns outputs (Chunk p chunk) s = consume patterns outputs p chunk s"
| "loop_event patterns outputs (End_of p) s = flush_partial patterns outputs p s"

definition main_loop ::
  "(string \<Rightarrow> bool) list \<Rightarrow> (pipe \<Rightarrow> nat) \<Rightarrow> pipe_event list \<Rightarrow> filter_state \<Rightarrow> filter_state" where
  "main_loop patterns outputs es s = fold (loop_event patterns outputs) es s"

section \<open>The writer\<close>

text \<open>What one call of \<open>write\<close> does: a count of bytes, EINTR, a full sink (then \<open>select\<close>
  returns or raises), or another error.\<close>

datatype write_result = Wrote int | Interrupted | Would_block bool | Failed

text \<open>The bytes written, whether the descriptor was disabled, and the results left; where the
  results run out the writer is still waiting.\<close>

fun write_item :: "write_result list \<Rightarrow> string \<Rightarrow> string \<times> bool \<times> write_result list" where
  "write_item rs [] = ([], False, rs)"
| "write_item [] data = ([], False, [])"
| "write_item (Wrote n # rs) data =
     (if n \<le> 0 then ([], True, rs)
      else (case write_item rs (drop (nat n) data) of
              (w, d, rs') \<Rightarrow> (take (nat n) data @ w, d, rs')))"
| "write_item (Interrupted # rs) data = write_item rs data"
| "write_item (Would_block selected # rs) data =
     (if selected then write_item rs data else ([], True, rs))"
| "write_item (Failed # rs) data = ([], True, rs)"

fun forward_output ::
  "write_result list \<Rightarrow> nat set \<Rightarrow> (nat \<times> string) list \<Rightarrow> (nat \<times> string) list \<times> nat set" where
  "forward_output rs dis [] = ([], dis)"
| "forward_output rs dis ((fd, data) # items) =
     (if fd \<in> dis then forward_output rs dis items
      else (case write_item rs data of
              (w, failed, rs') \<Rightarrow>
                if w = data \<or> failed
                then (case forward_output rs' (if failed then insert fd dis else dis) items of
                        (out, dis') \<Rightarrow> ((fd, w) # out, dis'))
                else ([(fd, w)], dis)))"

section \<open>Chunks do not matter\<close>

named_theorems filter_simps \<open>the operations of the reading loop, unfolded\<close>

text \<open>The reference: complete lines of a byte stream with their newlines, and the rest.\<close>

definition next_byte :: "char \<Rightarrow> string list \<times> string \<Rightarrow> string list \<times> string" where
  "next_byte c r = (case r of (ls, tail) \<Rightarrow>
     if c = CHR 0x0A then (ls @ [tail @ [c]], []) else (ls, tail @ [c]))"

definition lines_of :: "string \<Rightarrow> string list \<times> string" where
  "lines_of bytes = fold next_byte bytes ([], [])"

text \<open>What becomes of the bytes after the last newline: kept, or counted and thrown away.\<close>

definition hold :: "(pipe \<Rightarrow> nat) \<Rightarrow> pipe \<Rightarrow> string \<Rightarrow> filter_state \<Rightarrow> filter_state" where
  "hold outputs p tail s =
     (if length tail \<le> MAX_LINE_SIZE then s\<lparr>buffers := (buffers s)(p := tail)\<rparr>
      else drop_line (outputs p) (s\<lparr>discarding := insert p (discarding s)\<rparr>))"

text \<open>The loop body for one byte, which any chunk amounts to.\<close>

definition feed_byte ::
  "(string \<Rightarrow> bool) list \<Rightarrow> (pipe \<Rightarrow> nat) \<Rightarrow> pipe \<Rightarrow> char \<Rightarrow> filter_state \<Rightarrow> filter_state" where
  "feed_byte patterns outputs p c s =
     (if p \<in> discarding s
      then (if c = CHR 0x0A then s\<lparr>discarding := discarding s - {p}\<rparr> else s)
      else if c = CHR 0x0A
      then emit_line patterns outputs p (buffers s p @ [c]) (s\<lparr>buffers := (buffers s)(p := [])\<rparr>)
      else if MAX_LINE_SIZE \<le> length (buffers s p)
      then drop_line (outputs p) (s\<lparr>buffers := (buffers s)(p := []), discarding := insert p (discarding s)\<rparr>)
      else s\<lparr>buffers := (buffers s)(p := buffers s p @ [c])\<rparr>)"

lemma feed_byte_cases:
  "\<lbrakk>p \<in> discarding s; c \<noteq> CHR 0x0A\<rbrakk> \<Longrightarrow> feed_byte pats out p c s = s"
  "p \<in> discarding s \<Longrightarrow> feed_byte pats out p (CHR 0x0A) s = s\<lparr>discarding := discarding s - {p}\<rparr>"
  "p \<notin> discarding s \<Longrightarrow> feed_byte pats out p (CHR 0x0A) s =
     emit_line pats out p (buffers s p @ [CHR 0x0A]) (s\<lparr>buffers := (buffers s)(p := [])\<rparr>)"
  "\<lbrakk>p \<notin> discarding s; c \<noteq> CHR 0x0A; MAX_LINE_SIZE \<le> length (buffers s p)\<rbrakk> \<Longrightarrow> feed_byte pats out p c s =
     drop_line (out p) (s\<lparr>buffers := (buffers s)(p := []), discarding := insert p (discarding s)\<rparr>)"
  "\<lbrakk>p \<notin> discarding s; c \<noteq> CHR 0x0A; length (buffers s p) < MAX_LINE_SIZE\<rbrakk> \<Longrightarrow> feed_byte pats out p c s =
     s\<lparr>buffers := (buffers s)(p := buffers s p @ [c])\<rparr>"
  by (simp_all add: feed_byte_def)

lemma fold_skip:
  "\<lbrakk>p \<in> discarding s; CHR 0x0A \<notin> set a\<rbrakk> \<Longrightarrow> fold (feed_byte pats out p) a s = s"
  by (induction a) (auto simp: feed_byte_cases)

lemma fold_buffer:
  "\<lbrakk>p \<notin> discarding s; CHR 0x0A \<notin> set a; a \<noteq> []\<rbrakk> \<Longrightarrow> fold (feed_byte pats out p) a s =
     (if MAX_LINE_SIZE < length (buffers s p) + length a
      then drop_line (out p) (s\<lparr>buffers := (buffers s)(p := []), discarding := insert p (discarding s)\<rparr>)
      else s\<lparr>buffers := (buffers s)(p := buffers s p @ a)\<rparr>)"
proof (induction a arbitrary: s)
  case (Cons c a)
  let ?d = "drop_line (out p) (s\<lparr>buffers := (buffers s)(p := []), discarding := insert p (discarding s)\<rparr>)"
  have c: "c \<noteq> CHR 0x0A" using Cons.prems(2) by auto
  show ?case
  proof (cases "MAX_LINE_SIZE \<le> length (buffers s p)")
    case True
    then show ?thesis using Cons.prems c by (simp add: feed_byte_cases fold_skip drop_line_def)
  next
    case False
    then show ?thesis using Cons c by (cases "a = []") (auto simp: feed_byte_cases drop_line_def)
  qed
qed simp

lemma emit_line_too_long:
  "MAX_LINE_SIZE < length line \<Longrightarrow> emit_line pats out p line s = drop_line (out p) s"
  by (simp add: emit_line_def)

lemma consume_bytes: "consume pats out p chunk s = fold (feed_byte pats out p) chunk s"
proof (induction pats out p chunk s rule: consume.induct)
  case (1 pats out p chunk s)
  consider "chunk = []" | "chunk \<noteq> []" "CHR 0x0A \<notin> set chunk"
    | a r where "chunk = a @ CHR 0x0A # r" "CHR 0x0A \<notin> set a" "cut (CHR 0x0A) chunk = Some (a, r)"
    by (cases "cut (CHR 0x0A) chunk") (auto dest: cut_Some)
  then show ?case
  proof cases
    case 1
    then show ?thesis by (simp add: consume.simps)
  next
    case 2
    then have c: "cut (CHR 0x0A) chunk = None" by simp
    show ?thesis using 2
      by (subst consume.simps) (simp add: c fold_skip fold_buffer del: cut_None)
  next
    case (3 a r)
    have ne: "chunk \<noteq> []" using 3(1) by simp
    show ?thesis
    proof (cases "p \<in> discarding s")
      case True
      show ?thesis using True ne 3 "1.IH"(1) [OF ne True 3(3) refl]
        by (subst consume.simps) (simp add: fold_skip feed_byte_cases)
    next
      case False
      have "fold (feed_byte pats out p) (a @ [CHR 0x0A]) s
          = emit_line pats out p (buffers s p @ a @ [CHR 0x0A]) (s\<lparr>buffers := (buffers s)(p := [])\<rparr>)"
        using False 3(2) by (cases "a = []")
          (auto simp: fold_buffer feed_byte_cases emit_line_too_long drop_line_def)
      then show ?thesis using False ne 3 "1.IH"(2) [OF ne False 3(3) refl]
        by (subst consume.simps) simp
    qed
  qed
qed

lemma consume_append:
  "consume pats out p (a @ b) s = consume pats out p b (consume pats out p a s)"
  by (simp add: consume_bytes)

lemma consume_chunks: "fold (consume pats out p) cs s = consume pats out p (concat cs) s"
  by (induction cs arbitrary: s) (simp_all add: consume_append consume_bytes)

lemma lines_of_simps [simp]:
  "lines_of [] = ([], [])"
  "lines_of (x @ [c]) = next_byte c (lines_of x)"
  by (simp_all add: lines_of_def)

section \<open>What the operations leave alone\<close>

definition sent :: "nat \<Rightarrow> filter_state \<Rightarrow> string list" where
  "sent fd s = map snd (filter (\<lambda>x. fst x = fd) (taken s @ queued s))"

lemma sent_update [simp]:
  "sent fd (s\<lparr>buffers := b\<rparr>) = sent fd s" "sent fd (s\<lparr>discarding := d\<rparr>) = sent fd s"
  "sent fd (s\<lparr>dropped := n\<rparr>) = sent fd s" "sent fd (s\<lparr>disabled := e\<rparr>) = sent fd s"
  "sent fd (s\<lparr>schedule := m\<rparr>) = sent fd s"
  by (simp_all add: sent_def)

lemma writer_move_frame [simp]:
  "buffers (writer_move m s) = buffers s" "discarding (writer_move m s) = discarding s"
  "dropped (writer_move m s) = dropped s" "sent fd (writer_move m s) = sent fd s"
  "length (queued (writer_move m s)) \<le> length (queued s)"
  "taken (writer_move m s) @ queued (writer_move m s) = taken s @ queued s"
  by (cases m; cases "queued s"; simp add: sent_def)+

lemma writer_moves_frame:
  "buffers (fold writer_move ms s) = buffers s" "discarding (fold writer_move ms s) = discarding s"
  "dropped (fold writer_move ms s) = dropped s" "sent fd (fold writer_move ms s) = sent fd s"
  "taken (fold writer_move ms s) @ queued (fold writer_move ms s) = taken s @ queued s"
  by (induction ms arbitrary: s) simp_all

lemma writer_moves_queued: "length (queued (fold writer_move ms s)) \<le> length (queued s)"
proof (induction ms arbitrary: s)
  case (Cons m ms)
  show ?case using le_trans [OF Cons [of "writer_move m s"] writer_move_frame(5) [of m s]] by simp
qed simp

lemma sync_fold: "\<exists>ms r. sync s = fold writer_move ms (s\<lparr>schedule := r\<rparr>)"
proof (cases "schedule s")
  case Nil
  then have "sync s = fold writer_move [] (s\<lparr>schedule := []\<rparr>)" by (simp add: sync_def)
  then show ?thesis by blast
next
  case (Cons ms r)
  then have "sync s = fold writer_move ms (s\<lparr>schedule := r\<rparr>)" by (simp add: sync_def)
  then show ?thesis by blast
qed

lemma sync_frame [filter_simps]:
  "buffers (sync s) = buffers s" "discarding (sync s) = discarding s"
  "dropped (sync s) = dropped s" "sent fd (sync s) = sent fd s"
  and sync_items: "taken (sync s) @ queued (sync s) = taken s @ queued s"
  and sync_queued: "length (queued (sync s)) \<le> length (queued s)"
proof -
  obtain ms r where e: "sync s = fold writer_move ms (s\<lparr>schedule := r\<rparr>)" using sync_fold by blast
  show "buffers (sync s) = buffers s" "discarding (sync s) = discarding s" "dropped (sync s) = dropped s"
    unfolding e by (simp_all add: writer_moves_frame)
  show "taken (sync s) @ queued (sync s) = taken s @ queued s"
    unfolding e writer_moves_frame by simp
  then show "sent fd (sync s) = sent fd s" by (simp add: sent_def flip: filter_append)
  show "length (queued (sync s)) \<le> length (queued s)"
    unfolding e using writer_moves_queued [of ms "s\<lparr>schedule := r\<rparr>"] by simp
qed

lemma sent_append:
  "taken s' @ queued s' = taken s @ queued s @ [(fd, d)] \<Longrightarrow>
   sent x s' = sent x s @ (if x = fd then [d] else [])"
  unfolding sent_def by (erule ssubst) simp

text \<open>A put either appends the item and leaves the queue within its bound, or changes neither.\<close>

lemma put_nowait_cases:
  obtains (room) s' where "put_nowait (fd, d) s = (True, s')" "length (queued s') \<le> MAX_QUEUED_LINES"
      "taken s' @ queued s' = taken s @ queued s @ [(fd, d)]" "sent fd s' = sent fd s @ [d]"
      "\<And>x. x \<noteq> fd \<Longrightarrow> sent x s' = sent x s"
      "buffers s' = buffers s" "discarding s' = discarding s" "dropped s' = dropped s"
  | (full) s' where "put_nowait (fd, d) s = (False, s')" "length (queued s') \<le> length (queued s)"
      "taken s' @ queued s' = taken s @ queued s" "\<And>x. sent x s' = sent x s"
      "buffers s' = buffers s" "discarding s' = discarding s" "dropped s' = dropped s"
proof (cases "length (queued (sync s)) < MAX_QUEUED_LINES")
  case True
  let ?s = "(sync s)\<lparr>queued := queued (sync s) @ [(fd, d)]\<rparr>"
  have t: "taken ?s @ queued ?s = taken s @ queued s @ [(fd, d)]"
    using arg_cong [OF sync_items [of s], of "\<lambda>q. q @ [(fd, d)]"] by simp
  show ?thesis
  proof (rule room [of ?s])
    show "put_nowait (fd, d) s = (True, ?s)" using True by (simp add: put_nowait_def Let_def)
    show "length (queued ?s) \<le> MAX_QUEUED_LINES" using True by simp
    show "taken ?s @ queued ?s = taken s @ queued s @ [(fd, d)]" by (rule t)
  qed (use sent_append [OF t] in \<open>simp_all add: filter_simps\<close>)
next
  case False
  show ?thesis
    by (rule full [of "sync s"]) (use False sync_queued in \<open>simp_all add: put_nowait_def filter_simps sync_items\<close>)
qed

lemma report_drops_frame [filter_simps]:
  "buffers (report_drops fd s) = buffers s" "discarding (report_drops fd s) = discarding s"
  "x \<noteq> fd \<Longrightarrow> sent x (report_drops fd s) = sent x s"
  "x \<noteq> fd \<Longrightarrow> dropped (report_drops fd s) x = dropped s x"
proof -
  have "buffers (report_drops fd s) = buffers s \<and> discarding (report_drops fd s) = discarding s
    \<and> (x \<noteq> fd \<longrightarrow> sent x (report_drops fd s) = sent x s \<and> dropped (report_drops fd s) x = dropped s x)"
    by (rule put_nowait_cases [of fd "notice (dropped s fd)" s]) (simp_all add: report_drops_def)
  then show "buffers (report_drops fd s) = buffers s" "discarding (report_drops fd s) = discarding s"
    "x \<noteq> fd \<Longrightarrow> sent x (report_drops fd s) = sent x s" "x \<noteq> fd \<Longrightarrow> dropped (report_drops fd s) x = dropped s x"
    by simp_all
qed

lemma put_line_frame [filter_simps]:
  "buffers (put_line fd d s) = buffers s" "discarding (put_line fd d s) = discarding s"
  "x \<noteq> fd \<Longrightarrow> sent x (put_line fd d s) = sent x s"
  "x \<noteq> fd \<Longrightarrow> dropped (put_line fd d s) x = dropped s x"
proof -
  have "buffers (put_line fd d s) = buffers s \<and> discarding (put_line fd d s) = discarding s
    \<and> (x \<noteq> fd \<longrightarrow> sent x (put_line fd d s) = sent x s \<and> dropped (put_line fd d s) x = dropped s x)"
    by (rule put_nowait_cases [of fd "d" s]) (simp_all add: put_line_def drop_line_def)
  then show "buffers (put_line fd d s) = buffers s" "discarding (put_line fd d s) = discarding s"
    "x \<noteq> fd \<Longrightarrow> sent x (put_line fd d s) = sent x s" "x \<noteq> fd \<Longrightarrow> dropped (put_line fd d s) x = dropped s x"
    by simp_all
qed

lemma drop_line_frame [filter_simps]:
  "buffers (drop_line fd s) = buffers s" "discarding (drop_line fd s) = discarding s"
  "sent x (drop_line fd s) = sent x s" "queued (drop_line fd s) = queued s" "taken (drop_line fd s) = taken s"
  "dropped (drop_line fd s) x = (if x = fd then dropped s x + 1 else dropped s x)"
  by (simp_all add: drop_line_def sent_def)

lemma emit_line_frame [filter_simps]:
  "buffers (emit_line pats out p d s) = buffers s" "discarding (emit_line pats out p d s) = discarding s"
  "x \<noteq> out p \<Longrightarrow> sent x (emit_line pats out p d s) = sent x s"
  "x \<noteq> out p \<Longrightarrow> dropped (emit_line pats out p d s) x = dropped s x"
  by (simp_all add: emit_line_def emit_def Let_def filter_simps)

lemma emit_lines_frame:
  "buffers (fold (emit_line pats out p) ls s) = buffers s"
  "discarding (fold (emit_line pats out p) ls s) = discarding s"
  by (induction ls arbitrary: s) (simp_all add: filter_simps)

text \<open>
  However the output of the child is cut into chunks, the loop treats it as its sequence of
  lines: each complete line is handled once, in order, and what follows the last newline is kept
  if it fits the limit, and otherwise counted once and thrown away up to the next newline.
\<close>
theorem consume_chunking:
  assumes "p \<notin> discarding s" "buffers s p = []"
  shows "fold (consume patterns outputs p) chunks s =
    (case lines_of (concat chunks) of (ls, tail) \<Rightarrow>
       hold outputs p tail (fold (emit_line patterns outputs p) ls s))"
proof -
  have "fold (feed_byte patterns outputs p) bytes s = (case lines_of bytes of (ls, tail) \<Rightarrow>
     hold outputs p tail (fold (emit_line patterns outputs p) ls s))" for bytes
  proof (induction bytes rule: rev_induct)
    case Nil
    show ?case using assms by (simp add: hold_def fun_upd_idem)
  next
    case (snoc c bytes)
    obtain ls tail where l: "lines_of bytes = (ls, tail)" by (rule prod.exhaust)
    let ?S = "fold (emit_line patterns outputs p) ls s"
    have S: "p \<notin> discarding ?S" "buffers ?S p = []" using assms by (simp_all add: emit_lines_frame)
    have id: "?S\<lparr>buffers := (buffers ?S)(p := [])\<rparr> = ?S" using S by (simp add: fun_upd_idem)
    show ?case
    proof (cases "c = CHR 0x0A"; cases "length tail \<le> MAX_LINE_SIZE")
    qed (use snoc l S id in \<open>auto simp: next_byte_def hold_def feed_byte_def emit_line_too_long
           drop_line_def fun_upd_idem filter_simps\<close>)
  qed
  then show ?thesis by (simp add: consume_chunks consume_bytes)
qed

definition two_lines :: "string list" where
  "two_lines = [''ab'', [CHR 0x0A, CHR ''c''], ''d'']"

lemma two_lines_of [simp]: "lines_of (concat two_lines) = ([''ab'' @ [CHR 0x0A]], ''cd'')"
  by (simp add: two_lines_def lines_of_def next_byte_def)

theorem consume_chunking_witness:
  "fold (consume [] (\<lambda>_. 1) Stdout) two_lines (start_state [[Take]]) =
    hold (\<lambda>_. 1) Stdout ''cd'' (emit_line [] (\<lambda>_. 1) Stdout (''ab'' @ [CHR 0x0A]) (start_state [[Take]]))"
  using consume_chunking [of Stdout "start_state [[Take]]" "[]" "\<lambda>_. 1" two_lines]
  by (simp add: start_state_def)

section \<open>Memory\<close>

definition item_ok :: "nat \<times> string \<Rightarrow> bool" where
  "item_ok x \<longleftrightarrow> length (snd x) \<le> MAX_LINE_SIZE \<or> (\<exists>n. snd x = notice n)"

definition bounded :: "filter_state \<Rightarrow> bool" where
  "bounded s \<longleftrightarrow> (\<forall>p. length (buffers s p) \<le> MAX_LINE_SIZE) \<and> length (queued s) \<le> MAX_QUEUED_LINES
     \<and> list_all item_ok (taken s @ queued s)"

lemma bounded_sync: "bounded s \<Longrightarrow> bounded (sync s)"
  using sync_queued [of s] unfolding bounded_def sync_items by (auto simp: filter_simps)

lemma bounded_update:
  "bounded s \<Longrightarrow> bounded (drop_line fd s)"
  "\<lbrakk>bounded s; length b \<le> MAX_LINE_SIZE\<rbrakk> \<Longrightarrow> bounded (s\<lparr>buffers := (buffers s)(p := b)\<rparr>)"
  "bounded (s\<lparr>discarding := d\<rparr>) = bounded s"
  by (auto simp: bounded_def drop_line_def)

lemma bounded_put:
  assumes "bounded s" "item_ok (fd, d)"
  shows "bounded (snd (put_nowait (fd, d) s))"
proof (cases rule: put_nowait_cases [of fd d s])
  case (room s')
  have "bounded s'" using assms room(2,6) unfolding bounded_def room(3) by simp
  then show ?thesis by (simp add: room(1))
next
  case (full s')
  have "bounded s'" using assms full(2,5) unfolding bounded_def full(3) by auto
  then show ?thesis by (simp add: full(1))
qed

lemma bounded_emit_line: "bounded s \<Longrightarrow> bounded (emit_line pats out p d s)"
proof -
  have report: "bounded (report_drops fd t)" if "bounded t" for fd t
  proof -
    have "bounded (snd (put_nowait (fd, notice (dropped t fd)) t))"
      using that by (rule bounded_put) (auto simp: item_ok_def)
    then show ?thesis using that
      by (auto simp: report_drops_def bounded_def split: prod.splits bool.splits)
  qed
  have put: "bounded (put_line fd d t)" if "bounded t" "length d \<le> MAX_LINE_SIZE" for fd t
  proof -
    have "bounded (snd (put_nowait (fd, d) t))" using that by (intro bounded_put) (auto simp: item_ok_def)
    then show ?thesis by (auto simp: put_line_def bounded_update split: prod.splits bool.splits)
  qed
  assume "bounded s"
  then show ?thesis
    by (simp add: emit_line_def emit_def Let_def bounded_update put report bounded_sync)
qed

lemma bounded_feed: "bounded s \<Longrightarrow> bounded (feed_byte pats out p c s)"
  by (auto simp: feed_byte_def bounded_update intro!: bounded_emit_line)

lemma bounded_consume: "bounded s \<Longrightarrow> bounded (consume pats out p chunk s)"
  unfolding consume_bytes by (induction chunk arbitrary: s) (simp_all add: bounded_feed)

lemma bounded_event: "bounded s \<Longrightarrow> bounded (loop_event pats out e s)"
proof (cases e)
  case (End_of p)
  assume b: "bounded s"
  then have "bounded (s\<lparr>buffers := (buffers s)(p := [])\<rparr>)" by (simp add: bounded_def)
  then show ?thesis using b by (simp add: End_of flush_partial_def Let_def bounded_emit_line)
qed (simp add: bounded_consume)

interpretation loop: machine "\<lambda>s e. loop_event pats out e s" "\<lambda>_. True" bounded for pats out
  by unfold_locales (rule bounded_event)

text \<open>
  Whatever the child prints, however fast the writer is and whatever the chunks are, the
  filter holds at most 64 queued items and 65536 bytes of unfinished line per pipe, and every
  queued item is a line of at most 65536 bytes or a notice.
\<close>
theorem log_memory_bounded:
  fixes patterns outputs es ms
  defines "s \<equiv> main_loop patterns outputs es (start_state ms)"
  shows "length (buffers s p) \<le> 65536 \<and> length (queued s) \<le> 64
    \<and> list_all (\<lambda>x. length (snd x) \<le> 65536 \<or> (\<exists>n. snd x = notice n)) (queued s)"
proof -
  have "bounded (start_state ms)" by (simp add: bounded_def start_state_def)
  from loop.inv_run [OF this, of es patterns outputs]
  have "bounded s" by (simp add: s_def main_loop_def foldl_conv_fold list_all_iff)
  then show ?thesis
    by (simp add: bounded_def item_ok_def [abs_def] MAX_LINE_SIZE_def MAX_QUEUED_LINES_def)
qed

section \<open>No line disappears silently\<close>

text \<open>What a reader of the output is promised: \<open>copies patterns lines out pending\<close> says that the
  lines seen so far led to the items \<open>out\<close>, in order, and \<open>pending\<close> lost lines are still to be
  reported.  A line that matches a pattern is left out; every other line is copied or counted,
  and a notice reports the exact count.\<close>

definition shown :: "(string \<Rightarrow> bool) list \<Rightarrow> string \<Rightarrow> bool" where
  "shown patterns line \<longleftrightarrow> length line \<le> MAX_LINE_SIZE \<and> \<not> list_ex (\<lambda>pattern. pattern line) patterns"

inductive copies :: "(string \<Rightarrow> bool) list \<Rightarrow> string list \<Rightarrow> string list \<Rightarrow> nat \<Rightarrow> bool" for patterns where
  start: "copies patterns [] [] 0"
| filtered: "\<lbrakk>copies patterns ls out n; list_ex (\<lambda>pattern. pattern l) patterns; length l \<le> MAX_LINE_SIZE\<rbrakk>
    \<Longrightarrow> copies patterns (ls @ [l]) out n"
| lost: "\<lbrakk>copies patterns ls out n; shown patterns l \<or> MAX_LINE_SIZE < length l\<rbrakk>
    \<Longrightarrow> copies patterns (ls @ [l]) out (n + 1)"
| copied: "\<lbrakk>copies patterns ls out n; shown patterns l\<rbrakk> \<Longrightarrow> copies patterns (ls @ [l]) (out @ [l]) n"
| reported: "\<lbrakk>copies patterns ls out n; 0 < n\<rbrakk> \<Longrightarrow> copies patterns ls (out @ [notice n]) 0"

lemma emit_line_copies:
  assumes c: "copies pats ls (sent (out p) s) (dropped s (out p))"
  shows "copies pats (ls @ [l]) (sent (out p) (emit_line pats out p l s))
           (dropped (emit_line pats out p l s) (out p))"
proof -
  let ?fd = "out p"
  have r: "copies pats ls (sent ?fd (report_drops ?fd t)) (dropped (report_drops ?fd t) ?fd)"
    if "copies pats ls (sent ?fd t) (dropped t ?fd)" for t
  proof (cases "dropped t ?fd = 0")
    case False
    then show ?thesis using that
      by (cases rule: put_nowait_cases [of ?fd "notice (dropped t ?fd)" t])
         (auto simp: report_drops_def intro: copies.reported)
  qed (use that in \<open>simp add: report_drops_def\<close>)
  have p: "copies pats (ls @ [l]) (sent ?fd (put_line ?fd l t)) (dropped (put_line ?fd l t) ?fd)"
    if "copies pats ls (sent ?fd t) (dropped t ?fd)" "shown pats l" for t
    using that copies.lost [of pats ls _ "dropped t ?fd" l]
    by (cases rule: put_nowait_cases [of ?fd l t])
       (auto simp: put_line_def filter_simps intro: copies.copied)
  have s: "copies pats ls (sent ?fd (sync s)) (dropped (sync s) ?fd)" using c by (simp add: filter_simps)
  consider "MAX_LINE_SIZE < length l" | "length l \<le> MAX_LINE_SIZE" "list_ex (\<lambda>f. f l) pats" | "shown pats l"
    by (metis not_le_imp_less shown_def)
  then show ?thesis
  proof cases
    case 1
    then show ?thesis using copies.lost [OF c] by (simp add: emit_line_def filter_simps)
  next
    case 2
    then show ?thesis using copies.filtered [OF c] by (simp add: emit_line_def emit_def)
  next
    case 3
    then have e: "emit_line pats out p l s = (let s1 = sync s in
        if ?fd \<in> disabled s1 then drop_line ?fd s1 else put_line ?fd l (report_drops ?fd s1))"
      by (simp add: emit_line_def emit_def shown_def)
    show ?thesis using copies.lost [OF s] 3 p [OF r [OF s]] by (simp add: e Let_def filter_simps)
  qed
qed

text \<open>The state of one pipe between two bytes.\<close>

definition in_step :: "(string \<Rightarrow> bool) list \<Rightarrow> (pipe \<Rightarrow> nat) \<Rightarrow> pipe \<Rightarrow> string \<Rightarrow> filter_state \<Rightarrow> bool" where
  "in_step pats out p bytes s \<longleftrightarrow> (case lines_of bytes of (ls, tail) \<Rightarrow>
     if p \<in> discarding s
     then MAX_LINE_SIZE < length tail \<and> buffers s p = []
       \<and> (\<exists>n. dropped s (out p) = n + 1 \<and> copies pats ls (sent (out p) s) n)
     else buffers s p = tail \<and> length tail \<le> MAX_LINE_SIZE
       \<and> copies pats ls (sent (out p) s) (dropped s (out p)))"

lemma in_step_feed: "in_step pats out p bytes s \<Longrightarrow> in_step pats out p (bytes @ [c]) (feed_byte pats out p c s)"
proof -
  obtain ls tail where l: "lines_of bytes = (ls, tail)" by (rule prod.exhaust)
  assume i: "in_step pats out p bytes s"
  show ?thesis
  proof (cases "p \<in> discarding s")
    case True
    then obtain n where d: "MAX_LINE_SIZE < length tail" "dropped s (out p) = n + 1" "copies pats ls (sent (out p) s) n"
      "buffers s p = []" using i l by (auto simp: in_step_def)
    show ?thesis using True d l i copies.lost [OF d(3), of "tail @ [CHR 0x0A]"]
      by (cases "c = CHR 0x0A") (simp_all add: in_step_def next_byte_def feed_byte_cases)
  next
    case False
    then have d: "buffers s p = tail" "length tail \<le> MAX_LINE_SIZE" "copies pats ls (sent (out p) s) (dropped s (out p))"
      using i l by (auto simp: in_step_def)
    let ?s = "s\<lparr>buffers := (buffers s)(p := [])\<rparr>"
    have "copies pats ls (sent (out p) ?s) (dropped ?s (out p))" using d(3) by simp
    note e = emit_line_copies [of pats ls out p ?s, OF this, of "tail @ [CHR 0x0A]"]
    consider (nl) "c = CHR 0x0A" | (keep) "c \<noteq> CHR 0x0A" "length tail < MAX_LINE_SIZE"
      | (over) "c \<noteq> CHR 0x0A" "length tail = MAX_LINE_SIZE" using d(2) by linarith
    then show ?thesis
    proof cases
      case nl
      then show ?thesis using False d(1) l e by (simp add: in_step_def next_byte_def feed_byte_def filter_simps)
    next
      case keep
      then show ?thesis using False d l by (simp add: in_step_def next_byte_def feed_byte_def)
    next
      case over
      then show ?thesis using False d l by (simp add: in_step_def next_byte_def feed_byte_def drop_line_def)
    qed
  qed
qed

lemma in_step_consume:
  "in_step pats out p bytes s \<Longrightarrow> in_step pats out p (bytes @ chunk) (consume pats out p chunk s)"
  unfolding consume_bytes
proof (induction chunk arbitrary: bytes s)
  case (Cons c chunk)
  then show ?case using Cons.IH [OF in_step_feed [OF Cons.prems, of c]] by simp
qed simp

text \<open>What an event of one pipe leaves alone of the other.\<close>

definition same_side :: "(pipe \<Rightarrow> nat) \<Rightarrow> pipe \<Rightarrow> filter_state \<Rightarrow> filter_state \<Rightarrow> bool" where
  "same_side out p s s' \<longleftrightarrow> buffers s' p = buffers s p \<and> (p \<in> discarding s' \<longleftrightarrow> p \<in> discarding s)
     \<and> sent (out p) s' = sent (out p) s \<and> dropped s' (out p) = dropped s (out p)"

lemma same_side_feed:
  "\<lbrakk>q \<noteq> p; out q \<noteq> out p\<rbrakk> \<Longrightarrow> same_side out p s (feed_byte pats out q c s)"
  by (simp add: same_side_def feed_byte_def filter_simps)

lemma same_side_event:
  assumes "q \<noteq> p" "out q \<noteq> out p"
  shows "same_side out p s (consume pats out q chunk s)" "same_side out p s (flush_partial pats out q s)"
proof -
  show "same_side out p s (consume pats out q chunk s)"
    unfolding consume_bytes
  proof (induction chunk arbitrary: s)
    case (Cons c chunk)
    then show ?case using same_side_feed [OF assms, of s pats c]
      Cons [of "feed_byte pats out q c s"] by (simp add: same_side_def)
  qed (simp add: same_side_def)
  show "same_side out p s (flush_partial pats out q s)"
    using assms by (simp add: same_side_def flush_partial_def Let_def filter_simps)
qed

fun event_pipe :: "pipe_event \<Rightarrow> pipe" where
  "event_pipe (Chunk p c) = p"
| "event_pipe (End_of p) = p"

fun printed :: "pipe \<Rightarrow> pipe_event list \<Rightarrow> string" where
  "printed p [] = []"
| "printed p (Chunk q c # es) = (if q = p then c else []) @ printed p es"
| "printed p (End_of q # es) = printed p es"

definition all_lines :: "string \<Rightarrow> string list" where
  "all_lines bytes = (case lines_of bytes of (ls, tail) \<Rightarrow> if tail = [] then ls else ls @ [tail])"

lemma same_side_events:
  "\<lbrakk>\<forall>e\<in>set es. event_pipe e \<noteq> p; \<forall>q. q \<noteq> p \<longrightarrow> out q \<noteq> out p\<rbrakk>
   \<Longrightarrow> same_side out p s (main_loop pats out es s)"
proof (induction es arbitrary: s)
  case (Cons e es)
  then have "same_side out p s (loop_event pats out e s)"
    by (cases e) (auto intro: same_side_event)
  then show ?case using Cons by (fastforce simp: main_loop_def same_side_def)
qed (simp add: main_loop_def same_side_def)

lemma in_step_events:
  "\<lbrakk>End_of p \<notin> set es; \<forall>q. q \<noteq> p \<longrightarrow> out q \<noteq> out p; in_step pats out p bytes s\<rbrakk>
   \<Longrightarrow> in_step pats out p (bytes @ printed p es) (main_loop pats out es s)"
proof (induction es arbitrary: bytes s)
  case (Cons e es)
  have step: "in_step pats out p (bytes @ printed p [e]) (loop_event pats out e s)"
  proof (cases "event_pipe e = p")
    case True
    then show ?thesis using Cons.prems by (cases e) (auto intro: in_step_consume)
  next
    case False
    then have "same_side out p s (loop_event pats out e s)" "printed p [e] = []"
      using Cons.prems by (cases e; auto intro: same_side_event)+
    then show ?thesis using Cons.prems(3) unfolding in_step_def same_side_def by (cases "p \<in> discarding s") auto
  qed
  have "printed p (e # es) = printed p [e] @ printed p es" by (cases e) simp_all
  then show ?case using Cons.IH [OF _ Cons.prems(2) step] Cons.prems(1) by (simp add: main_loop_def)
qed (simp add: main_loop_def)

lemma in_step_flush:
  assumes "in_step pats out p bytes s"
  shows "copies pats (all_lines bytes) (sent (out p) (flush_partial pats out p s))
    (dropped (flush_partial pats out p s) (out p))"
proof -
  obtain ls tail where l: "lines_of bytes = (ls, tail)" by (rule prod.exhaust)
  show ?thesis
  proof (cases "p \<in> discarding s")
    case True
    then obtain n where d: "MAX_LINE_SIZE < length tail" "dropped s (out p) = n + 1" "copies pats ls (sent (out p) s) n"
      "buffers s p = []" using assms l by (auto simp: in_step_def)
    then have "tail \<noteq> []" by auto
    then show ?thesis using True d l copies.lost [OF d(3), of tail] by (simp add: all_lines_def flush_partial_def)
  next
    case False
    let ?s = "s\<lparr>buffers := (buffers s)(p := [])\<rparr>"
    have d: "buffers s p = tail" "copies pats ls (sent (out p) ?s) (dropped ?s (out p))"
      using assms l False by (auto simp: in_step_def)
    show ?thesis using False d l emit_line_copies [of pats ls out p ?s, OF d(2), of tail]
      by (simp add: all_lines_def flush_partial_def Let_def)
  qed
qed

text \<open>
  C40. The filter implements its contract on every interleaving with the writer and with the other
  pipe: when a pipe has ended, what was queued for its descriptor is its lines in order, less
  those that match a pattern and those lost to a full queue, a disabled descriptor or the size
  limit, and every lost line is in the count of exactly one notice or in the count still held.
\<close>
theorem log_filter_refines:
  fixes patterns outputs es es' ms p
  defines "s \<equiv> main_loop patterns outputs (es @ End_of p # es') (start_state ms)"
  assumes "outputs Stdout \<noteq> outputs Stderr" "End_of p \<notin> set es" "\<forall>e\<in>set es'. event_pipe e \<noteq> p"
  shows "copies patterns (all_lines (printed p es)) (sent (outputs p) s) (dropped s (outputs p))"
proof -
  have o: "\<forall>q. q \<noteq> p \<longrightarrow> outputs q \<noteq> outputs p"
    using assms(2) by (cases p) (metis pipe.exhaust)+
  let ?s0 = "start_state ms" and ?s1 = "main_loop patterns outputs es (start_state ms)"
  have "in_step patterns outputs p [] ?s0"
    by (simp add: in_step_def start_state_def sent_def copies.start)
  from in_step_flush [OF in_step_events [OF assms(3) o this]]
  have "copies patterns (all_lines (printed p es)) (sent (outputs p) (flush_partial patterns outputs p ?s1))
    (dropped (flush_partial patterns outputs p ?s1) (outputs p))" by simp
  moreover have "s = main_loop patterns outputs es' (flush_partial patterns outputs p ?s1)"
    by (simp add: s_def main_loop_def)
  ultimately show ?thesis
    using same_side_events [OF assms(4) o, of "flush_partial patterns outputs p ?s1" patterns]
    by (simp add: same_side_def)
qed

theorem log_filter_refines_witness:
  "copies [] [''a'' @ [CHR 0x0A], ''b'']
     (sent 1 (main_loop [] (case_pipe 1 2) [Chunk Stdout (''a'' @ [CHR 0x0A]), Chunk Stderr ''e'', Chunk Stdout ''b'',
        End_of Stdout, End_of Stderr] (start_state [[Take]])))
     (dropped (main_loop [] (case_pipe 1 2) [Chunk Stdout (''a'' @ [CHR 0x0A]), Chunk Stderr ''e'', Chunk Stdout ''b'',
        End_of Stdout, End_of Stderr] (start_state [[Take]])) 1)"
  using log_filter_refines [of "case_pipe 1 2" Stdout
      "[Chunk Stdout (''a'' @ [CHR 0x0A]), Chunk Stderr ''e'', Chunk Stdout ''b'']" "[End_of Stderr]" "[]" "[[Take]]"]
  by (simp add: all_lines_def lines_of_def next_byte_def)

section \<open>What the sink receives\<close>

definition bytes_for :: "nat \<Rightarrow> (nat \<times> string) list \<Rightarrow> string" where
  "bytes_for fd items = concat (map snd (filter (\<lambda>x. fst x = fd) items))"

lemma write_item_prefix: "write_item rs data = (w, failed, rs') \<Longrightarrow> prefix w data"
proof (induction rs data arbitrary: w rule: write_item.induct)
  case (3 n rs c data)
  obtain w' f' r' where e: "write_item rs (drop (nat n) (c # data)) = (w', f', r')" by (rule prod_cases3)
  show ?case
  proof (cases "n \<le> 0")
    case True
    then show ?thesis using 3(2) by simp
  next
    case False
    then have "failed = f'" "rs' = r'" using 3(2) e by (simp_all del: take_Cons drop_Cons)
    then have "prefix w' (drop (nat n) (c # data))" using 3(1) [OF False] e by blast
    then have "prefix (take (nat n) (c # data) @ w') (take (nat n) (c # data) @ drop (nat n) (c # data))"
      by (simp only: same_prefix_prefix)
    moreover have "w = take (nat n) (c # data) @ w'" using 3(2) False e by (simp del: take_Cons drop_Cons)
    ultimately show ?thesis by (simp only: append_take_drop_id)
  qed
qed (auto split: if_splits)

lemma bytes_for_simps [simp]:
  "bytes_for fd [] = []"
  "bytes_for fd (x # xs) = (if fst x = fd then snd x else []) @ bytes_for fd xs"
  by (simp_all add: bytes_for_def)

lemma forward_disabled: "fd \<in> dis \<Longrightarrow> bytes_for fd (fst (forward_output rs dis items)) = []"
proof (induction rs dis items rule: forward_output.induct)
  case (2 rs dis fd' data items)
  then show ?case by (auto split: prod.splits)
qed simp

text \<open>A descriptor gets a prefix of the bytes queued for it.\<close>

lemma forward_prefix: "prefix (bytes_for fd (fst (forward_output rs dis items))) (bytes_for fd items)"
proof (induction rs dis items rule: forward_output.induct)
  case (2 rs dis fd' data items)
  obtain w failed rs' where w: "write_item rs data = (w, failed, rs')" by (metis prod_cases3)
  note p = write_item_prefix [OF w]
  obtain out dis' where o: "forward_output rs' (if failed then insert fd' dis else dis) items = (out, dis')"
    by (rule prod.exhaust)
  have ih: "\<lbrakk>fd' \<notin> dis; w = data \<or> failed\<rbrakk> \<Longrightarrow> prefix (bytes_for fd out) (bytes_for fd items)"
    using 2(2) [of w "(failed, rs')" failed rs'] w o by simp
  have step: "forward_output rs dis ((fd', data) # items) =
      (if fd' \<in> dis then forward_output rs dis items
       else if w = data \<or> failed then ((fd', w) # out, dis') else ([(fd', w)], dis))"
    using w o by simp
  consider (skip) "fd' \<in> dis" | (wait) "fd' \<notin> dis" "\<not> (w = data \<or> failed)"
    | (failed) "fd' \<notin> dis" "failed" | (whole) "fd' \<notin> dis" "w = data" "\<not> failed" by blast
  then show ?case
  proof cases
    case skip
    then show ?thesis using 2(1) [OF skip] forward_disabled [of fd dis rs items]
      unfolding step by (cases "fd' = fd") simp_all
  next
    case wait
    then show ?thesis using p unfolding step by (simp add: prefix_prefix)
  next
    case failed
    then have "fd = fd' \<Longrightarrow> bytes_for fd out = []"
      using forward_disabled [of fd "insert fd' dis" rs' items] o by simp
    then show ?thesis using ih failed p unfolding step
      by (cases "fd = fd'") (simp_all add: prefix_prefix)
  next
    case whole
    then show ?thesis using ih unfolding step by simp
  qed
qed simp
end
