(* ===== verification/Signin.thy ===== *)
theory Signin
  imports Values Nginx_Auth
begin

text \<open>
  Sign-in destinations and required actions: \<open>urllib.parse.urljoin\<close>, the remembered destination
  (\<open>src/core/admin/mailu/signin.py\<close>) and the actions a user must complete after signing in
  (\<open>src/core/admin/mailu/auth_flow.py\<close>).

  The contents of a web session are a dictionary of JSON values.  \<open>url_for\<close> is an argument.  The
  scheme and host of the request stand for \<open>request.host_url\<close>; the host is not empty.
\<close>

section \<open>Joining URLs\<close>

definition split_params :: "string \<Rightarrow> string \<times> string" where
  "split_params p =
     (case rcut CHR ''/'' p of
        None \<Rightarrow> (case cut CHR '';'' p of None \<Rightarrow> (p, []) | Some (a, b) \<Rightarrow> (a, b))
      | Some (d, l) \<Rightarrow> (case cut CHR '';'' l of None \<Rightarrow> (p, []) | Some (a, b) \<Rightarrow> (d @ ''/'' @ a, b)))"

definition with_params :: "string \<Rightarrow> string \<Rightarrow> string" where
  "with_params p params = p @ (if params = [] then [] else '';'' @ params)"

fun resolve_segments :: "string list \<Rightarrow> string list \<Rightarrow> string list" where
  "resolve_segments acc [] = acc"
| "resolve_segments acc (seg # segs) =
     (if seg = ''..'' then resolve_segments (butlast acc) segs
      else if seg = ''.'' then resolve_segments acc segs
      else resolve_segments (acc @ [seg]) segs)"

definition drop_inner_empty :: "string list \<Rightarrow> string list" where
  "drop_inner_empty segs =
     (case segs of
        [] \<Rightarrow> []
      | x # r \<Rightarrow> if r = [] then segs else x # filter (\<lambda>s. s \<noteq> []) (butlast r) @ [last r])"

definition path_segments :: "string \<Rightarrow> string \<Rightarrow> string list" where
  "path_segments bpath p =
     (let base = split_on CHR ''/'' bpath; base' = (if last base \<noteq> [] then butlast base else base)
      in if prefix ''/'' p then split_on CHR ''/'' p else drop_inner_empty (base' @ split_on CHR ''/'' p))"

definition join_path :: "string \<Rightarrow> string \<Rightarrow> string" where
  "join_path bpath p =
     (let segments = path_segments bpath p;
          r = resolve_segments [] segments;
          joined = join_with CHR ''/'' (if last segments \<in> {''.'', ''..''} then r @ [[]] else r)
      in if joined = [] then ''/'' else joined)"

text \<open>\<open>urljoin(base, url)\<close> for a non-empty \<open>url\<close> and an HTTP base that is already split; None is
  ValueError.\<close>

definition urljoin :: "url \<Rightarrow> string \<Rightarrow> string option" where
  "urljoin base u =
     (case urlsplit u of
        None \<Rightarrow> None
      | Some t \<Rightarrow>
          (case (split_params (path base), split_params (path t)) of ((bp, bparams), (p, params)) \<Rightarrow>
             if scheme t \<noteq> [] \<and> scheme t \<noteq> scheme base then Some u
             else Some (geturl (t\<lparr>scheme := scheme base,
               netloc := (if netloc t \<noteq> [] then netloc t else netloc base),
               path := (if netloc t \<noteq> [] then with_params p params
                        else if p = [] \<and> params = [] then with_params bp bparams
                        else with_params (join_path bp p) params),
               query := (if netloc t = [] \<and> p = [] \<and> params = [] \<and> query t = [] then query base
                         else query t)\<rparr>))))"

section \<open>Destinations\<close>

record site =
  cfg_admin :: string
  cfg_webmail :: string
  web_admin :: string
  web_webmail :: string
  host_scheme :: string
  host_netloc :: string
  passkey_required :: bool

definition host_base :: "site \<Rightarrow> url" where
  "host_base c = \<lparr>scheme = host_scheme c, netloc = host_netloc c, path = ''/'', query = [], fragment = []\<rparr>"

definition admin_on :: "site \<Rightarrow> bool" where
  "admin_on c \<longleftrightarrow> upper (cfg_admin c) \<noteq> ''FALSE''"

definition webmail_on :: "site \<Rightarrow> bool" where
  "webmail_on c \<longleftrightarrow> upper (cfg_webmail c) \<noteq> ''NONE''"

text \<open>None is \<open>abort(404)\<close>.\<close>

definition target_path :: "site \<Rightarrow> string \<Rightarrow> string option" where
  "target_path c target =
     (if target = ''admin'' \<and> admin_on c then Some (web_admin c)
      else if target = ''webmail'' \<and> webmail_on c then Some (web_webmail c)
      else None)"

definition default_target :: "site \<Rightarrow> string option \<Rightarrow> string" where
  "default_target c preference =
     (if preference = Some ''admin'' \<and> admin_on c then ''admin''
      else if preference = Some ''webmail'' \<and> webmail_on c then ''webmail''
      else if webmail_on c then ''webmail'' else ''admin'')"

definition local_destination :: "site \<Rightarrow> json \<Rightarrow> string option" where
  "local_destination c value =
     (case value of
        JStr v \<Rightarrow>
          if v = [] \<or> (\<exists>x\<in>{CHR 0x5C, CHR 0x0D, CHR 0x0A}. x \<in> set (unquote v)) then None
          else (case Option.bind (urljoin (host_base c) v) urlsplit of
             None \<Rightarrow> None
           | Some target \<Rightarrow>
               if scheme target \<noteq> host_scheme c \<or> netloc target \<noteq> host_netloc c then None
               else let p = (if path target = [] then ''/'' else path target) in
                 if prefix ''/sso/'' p \<or> prefix ''/internal/'' p \<or> prefix ''//'' p then None
                 else Some (p @ (if query target = [] then [] else ''?'' @ query target)))
      | _ \<Rightarrow> None)"

definition KEY :: string where
  "KEY = ''signin_destination''"

definition remember :: "site \<Rightarrow> int \<Rightarrow> json \<Rightarrow> (string, json) dict \<Rightarrow> string option \<times> (string, json) dict" where
  "remember c now value s =
     (case local_destination c value of
        None \<Rightarrow> (None, s)
      | Some d \<Rightarrow> (Some d, dict_set KEY (JObj [(''path'', JStr d), (''expires'', JInt (now + 1800))]) s))"

definition pending_state :: "(string, json) dict \<Rightarrow> (string, json) dict" where
  "pending_state s = (case get_default s KEY (JObj []) of JObj d \<Rightarrow> d | _ \<Rightarrow> [])"

definition pending :: "site \<Rightarrow> int \<Rightarrow> (string, json) dict \<Rightarrow> string option \<times> (string, json) dict" where
  "pending c now s =
     (let state = pending_state s in
      if (case get_default state ''expires'' (JInt 0) of JInt t \<Rightarrow> t > now | _ \<Rightarrow> False)
      then (local_destination c (get_default state ''path'' JNull), s)
      else (None, dict_del KEY s))"

definition resolve ::
  "site \<Rightarrow> int \<Rightarrow> string option \<Rightarrow> string option \<Rightarrow> (string, json) dict \<Rightarrow> string option \<times> (string, json) dict" where
  "resolve c now preference target s =
     (case target of
        Some t \<Rightarrow> (target_path c t, s)
      | None \<Rightarrow>
          (case pending c now s of
             (Some d, s') \<Rightarrow> (Some d, s')
           | (None, s') \<Rightarrow> (target_path c (default_target c preference), s')))"

definition clear_signin :: "(string, json) dict \<Rightarrow> (string, json) dict" where
  "clear_signin s = dict_del ''passkey_login_redirect'' (dict_del KEY s)"

text \<open>The value of the preference cookie that the response sets, if it sets one.\<close>

definition remember_preference :: "site \<Rightarrow> string \<Rightarrow> string option" where
  "remember_preference c dest =
     (let p = (case urlsplit dest of None \<Rightarrow> [] | Some u \<Rightarrow> path u);
          admin = rstrip_slashes (web_admin c); webmail = rstrip_slashes (web_webmail c)
      in if admin \<noteq> [] \<and> (p = admin \<or> prefix (admin @ ''/'') p) then Some ''admin''
         else if p = webmail \<or> prefix (webmail @ ''/'') p then Some ''webmail''
         else None)"

section \<open>Required actions\<close>

definition ACTION_ENDPOINTS :: "string \<Rightarrow> string option" where
  "ACTION_ENDPOINTS a =
     (if a = ''password_change'' then Some ''sso.pw_change''
      else if a = ''passkey_enrollment'' then Some ''ui.passkey_required''
      else None)"

definition ACTION_ALLOWED_ENDPOINTS :: "string \<Rightarrow> string list" where
  "ACTION_ALLOWED_ENDPOINTS a =
     (if a = ''password_change''
      then [''ui.passkey_list'', ''ui.passkey_create'', ''ui.passkey_registration_options'', ''ui.passkey_register'']
      else if a = ''passkey_enrollment''
      then [''ui.passkey_required'', ''ui.passkey_list'', ''ui.passkey_create'',
            ''ui.passkey_registration_options'', ''ui.passkey_register'']
      else [])"

text \<open>\<open>user.domain\<close> and \<open>user.passkeys\<close> are read from the database; a user row always has its
  domain.\<close>

definition user_policy :: "db \<Rightarrow> user \<Rightarrow> passkey_policy" where
  "user_policy d u =
     (case find (\<lambda>r. domain_name r = user_domain u) (domains d) of
        None \<Rightarrow> default_policy | Some r \<Rightarrow> domain_policy r)"

definition user_required_actions :: "site \<Rightarrow> db \<Rightarrow> user \<Rightarrow> string list" where
  "user_required_actions c d u =
     (if passkeys_of d u \<noteq> [] then []
      else let required = (passkey_required c \<or> require_enrollment (user_policy d u)) in
        (if change_pw_next_login u \<and> \<not> required then [''password_change''] else [])
        @ (if passkey_enroll_next_login u \<or> required then [''passkey_enrollment''] else []))"

definition pending_actions :: "(string, json) dict \<Rightarrow> string list" where
  "pending_actions s = (case get_default s ''required_actions'' (JList []) of JList xs \<Rightarrow> strings_of xs | _ \<Rightarrow> [])"

definition set_actions :: "string list \<Rightarrow> (string, json) dict \<Rightarrow> (string, json) dict" where
  "set_actions xs s = dict_set ''required_actions'' (JList (map JStr xs)) s"

text \<open>\<open>here\<close> is the split \<open>request.url\<close>; a URL that cannot be split raises (None).\<close>

definition add_actions :: "string list \<Rightarrow> string list \<Rightarrow> string list" where
  "add_actions pend actions = foldl (\<lambda>p a. if a \<in> set p then p else p @ [a]) pend actions"

definition require_actions ::
  "url \<Rightarrow> string list \<Rightarrow> string option \<Rightarrow> (string, json) dict \<Rightarrow> (string, json) dict option" where
  "require_actions here actions dest s =
     (let s1 = set_actions (add_actions (pending_actions s) actions) s in
      case dest of
        None \<Rightarrow> Some s1
      | Some d \<Rightarrow>
          (case Option.bind (urljoin here (if d = [] then ''/'' else d)) urlsplit of
             None \<Rightarrow> None
           | Some target \<Rightarrow>
               Some (if scheme target = scheme here \<and> netloc target = netloc here
                     then dict_set ''required_actions_destination'' (JStr (geturl target)) s1 else s1)))"

text \<open>The redirect and the session left; ValueError when the action is not pending or the next one
  has no handler.\<close>

definition complete_action ::
  "site \<Rightarrow> (string \<Rightarrow> string) \<Rightarrow> string \<Rightarrow> (string, json) dict \<Rightarrow> (string \<times> (string, json) dict) outcome" where
  "complete_action c url_for action s =
     (let actions = pending_actions s; rest = remove1 action actions in
      if action \<notin> set actions then Exn ValueError
      else if rest \<noteq> [] then
        (case ACTION_ENDPOINTS (hd rest) of
           None \<Rightarrow> Exn ValueError
         | Some h \<Rightarrow> Ret (url_for h, set_actions rest s))
      else
        let s1 = dict_del ''required_actions'' s;
            dest = get_default s1 ''required_actions_destination'' JNull
        in Ret (case dest of JStr d \<Rightarrow> (if d = [] then web_admin c else d) | _ \<Rightarrow> web_admin c,
                dict_del ''required_actions_destination'' s1))"

datatype verdict = Proceed | Redirect_to string

text \<open>\<open>user_arg\<close> is the route's \<open>user_email\<close> argument where it has one.\<close>

definition enforce_pending_actions ::
  "(string \<Rightarrow> string) \<Rightarrow> string option \<Rightarrow> string \<Rightarrow> string option \<Rightarrow> (string, json) dict \<Rightarrow>
   verdict \<times> (string, json) dict" where
  "enforce_pending_actions url_for current endpoint user_arg s =
     (case (pending_actions s, current) of
        ([], _) \<Rightarrow> (Proceed, s)
      | (_, None) \<Rightarrow> (Proceed, s)
      | (action # _, Some me) \<Rightarrow>
          if endpoint \<in> {''static'', ''ui.logout'', ''sso.logout''} then (Proceed, s)
          else if ACTION_ENDPOINTS action = Some endpoint then (Proceed, s)
          else if endpoint \<in> set (ACTION_ALLOWED_ENDPOINTS action)
                  \<and> (endpoint = ''ui.passkey_required'' \<or> user_arg \<in> {None, Some me}) then (Proceed, s)
          else (case ACTION_ENDPOINTS action of
                  Some h \<Rightarrow> (Redirect_to (url_for h), s)
                | None \<Rightarrow> (Proceed, dict_del ''required_actions_destination'' (dict_del ''required_actions'' s))))"

section \<open>Where destinations lead\<close>

lemma unquote_bytes_keeps: "\<lbrakk>x \<in> set s; x \<noteq> CHR ''%''; \<not> is_hex x\<rbrakk> \<Longrightarrow> x \<in> set (unquote_bytes s)"
  by (induction s rule: unquote_bytes.induct) auto

lemma utf8_head_bad:
  assumes "utf8_head s = (n, False)" "x \<in> set (take n s)"
  shows "\<not> code_in 0 127 x"
proof (cases s)
  case (Cons c cs)
  have hi: "\<not> code_in 0 127 y" if "code_in a 191 y" "128 \<le> a" for a y
    using that by (auto simp: code_in_def)
  have c: "\<not> code_in 0 127 c" using assms(1) Cons by (auto simp: Let_def)
  have r: "n = 1 \<or> (n = 2 \<and> (\<exists>a. 128 \<le> a \<and> code_in a 191 (cs ! 0)))
     \<or> (n = 2 \<and> code_in 128 159 (cs ! 0)) \<or> (n = 2 \<and> code_in 128 143 (cs ! 0))
     \<or> (n = 3 \<and> (code_in 144 191 (cs ! 0) \<or> code_in 128 143 (cs ! 0) \<or> code_in 128 191 (cs ! 0)) \<and> code_in 128 191 (cs ! 1))"
    using assms(1) Cons c by (auto simp: Let_def split: if_splits)
  have no: "\<not> code_in 0 127 (cs ! i)" if "i < n - 1" for i
    using r that by (cases i) (auto simp: code_in_def less_Suc_eq numeral_2_eq_2 numeral_3_eq_3)
  obtain i where "i < n" "i < length s" "x = s ! i"
    using assms(2) by (auto simp: in_set_conv_nth)
  then show ?thesis using c Cons no [of "i - 1"] by (cases i) auto
qed (use assms in simp)

lemma utf8_replace_keeps: "\<lbrakk>x \<in> set s; code_in 0 127 x\<rbrakk> \<Longrightarrow> x \<in> set (utf8_replace s)"
proof (induction s rule: utf8_replace.induct)
  case (1 s)
  obtain n ok where h: "utf8_head s = (n, ok)" by (rule prod.exhaust)
  have s: "s \<noteq> []" using 1(2) by auto
  have e: "utf8_replace s = (if ok then take n s else [CHR 0xEF, CHR 0xBF, CHR 0xBD]) @ utf8_replace (drop n s)"
    using s h by (subst utf8_replace.simps) simp
  have "x \<in> set (take n s) \<or> x \<in> set (drop n s)"
    using 1(2) by (metis append_take_drop_id set_append Un_iff)
  then show ?case
  proof
    assume t: "x \<in> set (take n s)"
    then have "ok" using utf8_head_bad [of s n x] h 1(3) by (cases ok) auto
    then show ?thesis using t unfolding e by simp
  next
    assume "x \<in> set (drop n s)"
    then have "x \<in> set (utf8_replace (drop n s))" using "1.IH" [OF s h [symmetric]] 1(3) by simp
    then show ?thesis unfolding e by simp
  qed
qed

lemma unquote_keeps:
  assumes "x \<in> set s" "code_in 0 127 x" "x \<noteq> CHR ''%''" "\<not> is_hex x"
  shows "x \<in> set (unquote s)"
  using assms(1)
proof (induction s rule: unquote.induct)
  case (1 s)
  let ?run = "takeWhile (code_in 0 127) s" and ?rest = "dropWhile (code_in 0 127) s"
  let ?lit = "takeWhile (\<lambda>c. \<not> code_in 0 127 c) ?rest" and ?rest' = "dropWhile (\<lambda>c. \<not> code_in 0 127 c) ?rest"
  have s: "s \<noteq> []" using 1(2) by auto
  have e: "unquote s = utf8_replace (unquote_bytes ?run) @ ?lit @ unquote ?rest'"
    using s by (subst unquote.simps) (simp add: Let_def)
  have "s = ?run @ ?lit @ ?rest'" by simp
  then have "x \<in> set ?run \<or> x \<in> set ?lit \<or> x \<in> set ?rest'" using 1(2) by (metis Un_iff set_append)
  then show ?case
    using utf8_replace_keeps [OF unquote_bytes_keeps [OF _ assms(3,4)] assms(2), of ?run]
      "1.IH" [OF s refl refl refl refl refl] unfolding e by auto
qed

text \<open>Characters of the parts of a URL come from the URL.\<close>

lemma dropWhile_set: "set (dropWhile P s) \<subseteq> set s"
  by (induction s) auto

lemma partition_parts:
  "py_partition k z = (u, v, w) \<Longrightarrow> set u \<union> set w \<subseteq> set z \<and> prefix u z \<and> k \<notin> set u"
  using cut_Some [of k z u w] by (auto simp: py_partition_def split: option.splits)

lemma split_scheme_rest: "split_scheme z = (sch, rest) \<Longrightarrow> set rest \<subseteq> set z"
  using cut_Some [of "CHR '':''" z] by (auto simp: split_scheme_def split: option.splits if_splits)

lemma take_drop_while_set: "set (takeWhile P z) \<union> set (dropWhile P z) \<subseteq> set z"
  using set_takeWhileD dropWhile_set by fast

lemma split_netloc_parts:
  assumes "split_netloc rest = (nl, rest2)"
  shows "set nl \<union> set rest2 \<subseteq> set rest" "nl \<noteq> [] \<Longrightarrow> rest2 = [] \<or> hd rest2 \<in> set ''/?#''"
proof -
  define P where "P = (\<lambda>c. c \<notin> set ''/?#'')"
  have e: "(nl, rest2) = (if take 2 rest = ''//'' then (takeWhile P (drop 2 rest), dropWhile P (drop 2 rest)) else ([], rest))"
    unfolding P_def using assms unfolding split_netloc_def by (rule sym)
  show "set nl \<union> set rest2 \<subseteq> set rest"
  proof (cases "take 2 rest = ''//''")
    case True
    then have "nl = takeWhile P (drop 2 rest)" "rest2 = dropWhile P (drop 2 rest)" using e by simp_all
    then have "set nl \<union> set rest2 \<subseteq> set (drop 2 rest)" by (simp only: take_drop_while_set)
    then show ?thesis using set_drop_subset [of 2 rest] by (rule order_trans)
  next
    case False
    then have "nl = []" "rest2 = rest" using e by simp_all
    then show ?thesis by simp
  qed
  assume n: "nl \<noteq> []"
  have "take 2 rest = ''//''"
  proof (rule ccontr)
    assume "take 2 rest \<noteq> ''//''"
    then show False using e n by simp
  qed
  then have "rest2 = dropWhile P (drop 2 rest)" using e by simp
  then have "rest2 = [] \<or> \<not> P (hd rest2)" using hd_dropWhile [of P "drop 2 rest"] by blast
  then show "rest2 = [] \<or> hd rest2 \<in> set ''/?#''" by (simp only: P_def not_not)
qed

lemma urlsplit_cases:
  assumes "urlsplit s = Some t"
  obtains rest rest2 rest3 where "set rest \<subseteq> set s - {CHR 0x09, CHR 0x0A, CHR 0x0D}"
    "split_netloc rest = (netloc t, rest2)"
    "\<exists>x. py_partition CHR ''#'' rest2 = (rest3, x, fragment t)"
    "\<exists>y. py_partition CHR ''?'' rest3 = (path t, y, query t)"
proof -
  let ?s0 = "filter (\<lambda>c. c \<notin> {CHR 0x09, CHR 0x0A, CHR 0x0D}) (dropWhile c0_or_space s)"
  obtain sch rest where a: "split_scheme ?s0 = (sch, rest)" by (rule prod.exhaust)
  obtain nl rest2 where b: "split_netloc rest = (nl, rest2)" by (rule prod.exhaust)
  obtain rest3 x frag where c: "py_partition CHR ''#'' rest2 = (rest3, x, frag)" by (rule prod_cases3)
  obtain p y q where d: "py_partition CHR ''?'' rest3 = (p, y, q)" by (rule prod_cases3)
  have t: "t = \<lparr>scheme = sch, netloc = nl, path = p, query = q, fragment = frag\<rparr>"
    using assms a b c d by (simp add: urlsplit_def split: if_splits)
  have "set ?s0 \<subseteq> set s - {CHR 0x09, CHR 0x0A, CHR 0x0D}" using dropWhile_set [of c0_or_space s] by auto
  with split_scheme_rest [OF a] have "set rest \<subseteq> set s - {CHR 0x09, CHR 0x0A, CHR 0x0D}" by (rule order_trans)
  with b c d show thesis by (intro that) (auto simp: t)
qed

lemma urlsplit_parts:
  assumes "urlsplit s = Some t"
  shows "set (path t) \<union> set (query t) \<union> set (fragment t) \<union> set (netloc t)
      \<subseteq> set s - {CHR 0x09, CHR 0x0A, CHR 0x0D}"
    and "netloc t \<noteq> [] \<Longrightarrow> path t = [] \<or> hd (path t) = CHR ''/''"
proof -
  obtain rest rest2 rest3 x y where r: "set rest \<subseteq> set s - {CHR 0x09, CHR 0x0A, CHR 0x0D}"
    and b: "split_netloc rest = (netloc t, rest2)"
    and c: "py_partition CHR ''#'' rest2 = (rest3, x, fragment t)"
    and d: "py_partition CHR ''?'' rest3 = (path t, y, query t)"
    using urlsplit_cases [OF assms] by metis
  note cp = partition_parts [OF c] and dp = partition_parts [OF d] and bp = split_netloc_parts [OF b]
  have "set (path t) \<union> set (query t) \<union> set (fragment t) \<union> set (netloc t) \<subseteq> set rest"
    using cp dp bp(1) by blast
  then show "set (path t) \<union> set (query t) \<union> set (fragment t) \<union> set (netloc t)
      \<subseteq> set s - {CHR 0x09, CHR 0x0A, CHR 0x0D}" using r by (rule order_trans)
  assume "netloc t \<noteq> []"
  then have h: "rest2 = [] \<or> hd rest2 \<in> set ''/?#''" by (rule bp(2))
  have pre: "prefix (path t) rest2" using cp dp by (meson prefix_order.trans)
  have "CHR ''#'' \<notin> set (path t)" "CHR ''?'' \<notin> set (path t)" using cp dp by blast+
  then show "path t = [] \<or> hd (path t) = CHR ''/''"
    using h pre by (cases "path t"; cases rest2) auto
qed

lemma split_params_set: "split_params p = (a, b) \<Longrightarrow> set a \<union> set b \<subseteq> set p"
  using cut_Some [of "CHR '';''" p a b] rcut_Some [of "CHR ''/''" p]
  by (fastforce simp: split_params_def dest: cut_Some split: option.splits prod.splits)

lemma resolve_segments_set: "set (resolve_segments acc segs) \<subseteq> set acc \<union> set segs"
  by (induction acc segs rule: resolve_segments.induct) (auto dest: in_set_butlastD)

lemma drop_inner_empty_set: "set (drop_inner_empty segs) \<subseteq> set segs"
  by (cases segs) (auto simp: drop_inner_empty_def dest: in_set_butlastD)

lemma join_with_set: "x \<in> set (join_with c ws) \<Longrightarrow> x = c \<or> (\<exists>w\<in>set ws. x \<in> set w)"
  by (induction c ws rule: join_with.induct) auto

lemma split_on_set: "\<lbrakk>w \<in> set (split_on c s); x \<in> set w\<rbrakk> \<Longrightarrow> x \<in> set s"
proof (induction s arbitrary: w)
  case (Cons a s)
  obtain y ys where y: "split_on c s = y # ys" by (cases "split_on c s") auto
  then consider "w = []" | "w = a # y" | "w \<in> set (split_on c s)"
    using Cons.prems(1) by (auto split: if_splits)
  then show ?case using Cons.IH [of y] Cons.IH [of w] Cons.prems(2) y by cases auto
qed simp

lemma path_segments_set:
  assumes "w \<in> set (path_segments b p)" "x \<in> set w"
  shows "x \<in> set b \<union> set p"
proof -
  let ?base = "split_on CHR ''/'' b"
  let ?base' = "if last ?base \<noteq> [] then butlast ?base else ?base"
  have b: "v \<in> set ?base" if "v \<in> set ?base'" for v
    using that in_set_butlastD [of v ?base] by (cases "last ?base \<noteq> []") simp_all
  have "w \<in> set ?base' \<or> w \<in> set (split_on CHR ''/'' p)"
  proof (cases "prefix ''/'' p")
    case True
    then show ?thesis using assms(1) by (simp add: path_segments_def)
  next
    case False
    then have "w \<in> set (drop_inner_empty (?base' @ split_on CHR ''/'' p))"
      using assms(1) by (simp only: path_segments_def Let_def if_False)
    then have "w \<in> set (?base' @ split_on CHR ''/'' p)" using drop_inner_empty_set by (rule subsetD [rotated])
    then show ?thesis by (simp only: set_append Un_iff)
  qed
  then show ?thesis using b [of w] split_on_set [of w _ _ x] assms(2) by blast
qed

lemma join_path_set: "x \<in> set (join_path b p) \<Longrightarrow> x = CHR ''/'' \<or> x \<in> set b \<union> set p"
proof -
  let ?segs = "path_segments b p"
  let ?r = "resolve_segments [] ?segs"
  let ?r' = "if last ?segs \<in> {''.'', ''..''} then ?r @ [[]] else ?r"
  assume x: "x \<in> set (join_path b p)"
  have "join_path b p = ''/'' \<or> join_path b p = join_with CHR ''/'' ?r'"
    unfolding join_path_def Let_def by (metis (full_types))
  then have "x = CHR ''/'' \<or> (\<exists>w\<in>set ?r'. x \<in> set w)" using x join_with_set [of x "CHR ''/''" ?r'] by auto
  moreover have "w = [] \<or> w \<in> set ?segs" if "w \<in> set ?r'" for w
    using that resolve_segments_set [of "[]" ?segs] by (cases "last ?segs \<in> {''.'', ''..''}") auto
  ultimately show ?thesis using path_segments_set [of _ b p x] by fastforce
qed

lemma geturl_set:
  "set (geturl u) \<subseteq> set (scheme u) \<union> set (netloc u) \<union> set (path u) \<union> set (query u) \<union> set (fragment u) \<union> set '':/?#''"
  by (auto simp: geturl_def)

lemma with_params_set: "set (with_params p q) \<subseteq> set p \<union> set q \<union> {CHR '';''}"
  by (auto simp: with_params_def)

lemma urljoin_set:
  assumes "urljoin base u = Some t"
  shows "set t \<subseteq> set u \<union> set (scheme base) \<union> set (netloc base) \<union> set (path base) \<union> set (query base) \<union> set '':/?#;''"
proof -
  obtain s where s: "urlsplit u = Some s" using assms by (auto simp: urljoin_def split: option.splits)
  obtain bp bq where b: "split_params (path base) = (bp, bq)" by (rule prod.exhaust)
  obtain p q where p: "split_params (path s) = (p, q)" by (rule prod.exhaust)
  have su: "set (path s) \<union> set (query s) \<union> set (fragment s) \<union> set (netloc s) \<subseteq> set u"
    using urlsplit_parts(1) [OF s] by blast
  show ?thesis
  proof (cases "scheme s \<noteq> [] \<and> scheme s \<noteq> scheme base")
    case True
    then show ?thesis using assms s b p by (auto simp: urljoin_def)
  next
    case False
    define x where "x = s\<lparr>scheme := scheme base,
        netloc := (if netloc s \<noteq> [] then netloc s else netloc base),
        path := (if netloc s \<noteq> [] then with_params p q
                 else if p = [] \<and> q = [] then with_params bp bq
                 else with_params (join_path bp p) q),
        query := (if netloc s = [] \<and> p = [] \<and> q = [] \<and> query s = [] then query base else query s)\<rparr>"
    have t: "t = geturl x"
      using assms False unfolding urljoin_def s b p option.case prod.case x_def by (simp only: if_False option.inject)
    have "set (path x) \<subseteq> set u \<union> set (path base) \<union> {CHR ''/'', CHR '';''}"
      using with_params_set [of p q] with_params_set [of bp bq] with_params_set [of "join_path bp p" q]
        split_params_set [OF b] split_params_set [OF p] su join_path_set [of _ bp p] unfolding x_def
      by (simp del: set_simps) blast
    moreover have "set (scheme x) = set (scheme base)" "set (netloc x) \<subseteq> set u \<union> set (netloc base)"
      "set (query x) \<subseteq> set u \<union> set (query base)" "set (fragment x) \<subseteq> set u"
      using su by (auto simp: x_def)
    ultimately show ?thesis using geturl_set [of x] unfolding t by auto
  qed
qed

text \<open>
  C10. A sign-in destination never leaves the site: what \<open>local_destination\<close> accepts starts with
  exactly one slash, and has no backslash, tab or line break that a browser would read as one or
  drop; so as a URL reference it has no scheme and no host of its own.
\<close>
theorem destination_stays_local:
  assumes "local_destination c value = Some d" "host_netloc c \<noteq> []"
    and "CHR 0x5C \<notin> set (host_scheme c) \<union> set (host_netloc c)"
  shows "(\<exists>r. d = CHR ''/'' # r \<and> \<not> prefix ''/'' r)
    \<and> set d \<inter> {CHR 0x5C, CHR 0x09, CHR 0x0A, CHR 0x0D} = {}"
proof -
  obtain v u target where v: "value = JStr v" "CHR 0x5C \<notin> set (unquote v)"
    and t: "urljoin (host_base c) v = Some u" "urlsplit u = Some target"
    and h: "netloc target = host_netloc c"
    and np: "\<not> prefix ''//'' (if path target = [] then ''/'' else path target)"
    and d: "d = (if path target = [] then ''/'' else path target) @ (if query target = [] then [] else ''?'' @ query target)"
    using assms(1) unfolding local_destination_def Let_def
    by (auto split: json.splits if_splits option.splits bind_splits)
  have "CHR 0x5C \<notin> set v"
    using unquote_keeps [of "CHR 0x5C" v] v(2) by (auto simp: code_in_def is_hex_def is_digit_def)
  then have "CHR 0x5C \<notin> set u" using urljoin_set [OF t(1)] assms(3) by (auto simp: host_base_def)
  then have c: "set d \<inter> {CHR 0x5C, CHR 0x09, CHR 0x0A, CHR 0x0D} = {}"
    using urlsplit_parts(1) [OF t(2)] unfolding d by auto
  have "path target = [] \<or> hd (path target) = CHR ''/''"
    using urlsplit_parts(2) [OF t(2)] h assms(2) by simp
  then obtain r where r: "(if path target = [] then ''/'' else path target) = CHR ''/'' # r"
    by (cases "path target") auto
  then have "\<not> prefix ''/'' r" using np by simp
  then have "\<not> prefix ''/'' (r @ (if query target = [] then [] else ''?'' @ query target))"
    by (cases r) auto
  then show ?thesis using r c unfolding d by (auto simp del: prefix_def)
qed

definition sample_site :: site where
  "sample_site = \<lparr>cfg_admin = ''true'', cfg_webmail = ''roundcube'', web_admin = ''/admin'', web_webmail = ''/webmail'',
     host_scheme = ''https'', host_netloc = ''mail.x.org'', passkey_required = False\<rparr>"

lemma sample_destination:
  "local_destination sample_site (JStr ''/admin/../webmail?a=1'') = Some ''/webmail?a=1''"
  by code_simp

theorem destination_stays_local_witness:
  "\<exists>d. local_destination sample_site (JStr ''/admin/../webmail?a=1'') = Some d
    \<and> (\<exists>r. d = CHR ''/'' # r \<and> \<not> prefix ''/'' r) \<and> set d \<inter> {CHR 0x5C, CHR 0x09, CHR 0x0A, CHR 0x0D} = {}"
  using destination_stays_local [OF sample_destination] sample_destination by (simp add: sample_site_def)

section \<open>Required actions stay required\<close>

lemma strings_of_map [simp]: "strings_of (map JStr xs) = xs"
  by (induction xs) simp_all

lemma pending_set_actions [simp]: "pending_actions (set_actions xs s) = xs"
  by (simp add: pending_actions_def set_actions_def get_default_def)

lemma pending_other [simp]:
  "k \<noteq> ''required_actions'' \<Longrightarrow> pending_actions (dict_set k v s) = pending_actions s"
  "k \<noteq> ''required_actions'' \<Longrightarrow> pending_actions (dict_del k s) = pending_actions s"
  by (simp_all add: pending_actions_def get_default_def)

lemma set_add_actions [simp]: "set (add_actions p xs) = set p \<union> set xs"
  by (induction xs arbitrary: p) (auto simp: add_actions_def)

lemma distinct_add_actions [simp]: "distinct p \<Longrightarrow> distinct (add_actions p xs)"
  by (induction xs arbitrary: p) (simp_all add: add_actions_def)

lemma require_actions_pending:
  "require_actions here xs dest s = Some s' \<Longrightarrow> pending_actions s' = add_actions (pending_actions s) xs"
  by (auto simp: require_actions_def Let_def split: option.splits)

text \<open>What happens to a session while its user is signed in: a request is checked, or an action is
  completed by its handler.\<close>

datatype auth_event = Request "string option" string "string option" | Complete string

definition known_actions :: "(string, json) dict \<Rightarrow> bool" where
  "known_actions s \<longleftrightarrow> distinct (pending_actions s)
     \<and> set (pending_actions s) \<subseteq> {''password_change'', ''passkey_enrollment''}"

fun auth_step :: "site \<Rightarrow> (string \<Rightarrow> string) \<Rightarrow> (string, json) dict \<Rightarrow> auth_event \<Rightarrow> (string, json) dict" where
  "auth_step c url_for s (Request current endpoint user_arg) =
     snd (enforce_pending_actions url_for current endpoint user_arg s)"
| "auth_step c url_for s (Complete a) =
     (case complete_action c url_for a s of Ret (_, s') \<Rightarrow> s' | Exn _ \<Rightarrow> s)"

lemma known_endpoint:
  "\<lbrakk>known_actions s; pending_actions s = a # r\<rbrakk> \<Longrightarrow> ACTION_ENDPOINTS a \<noteq> None"
  by (auto simp: known_actions_def ACTION_ENDPOINTS_def)

lemma enforce_keeps:
  assumes "known_actions s"
  shows "snd (enforce_pending_actions url_for current endpoint user_arg s) = s"
proof (cases "pending_actions s")
  case (Cons a r)
  then show ?thesis using known_endpoint [OF assms Cons]
    by (cases current) (auto simp: enforce_pending_actions_def)
qed (simp add: enforce_pending_actions_def)

lemma complete_pending:
  assumes "complete_action c url_for a s = Ret (u, s')"
  shows "a \<in> set (pending_actions s) \<and> pending_actions s' = remove1 a (pending_actions s)"
proof (cases "remove1 a (pending_actions s) = []")
  case True
  then show ?thesis using assms
    by (auto simp: complete_action_def Let_def split: if_splits)
       (simp_all add: pending_actions_def get_default_def)
next
  case False
  then show ?thesis using assms
    by (auto simp: complete_action_def Let_def split: if_splits option.splits)
qed

definition awaiting :: "string \<Rightarrow> (string, json) dict \<Rightarrow> bool" where
  "awaiting a s \<longleftrightarrow> known_actions s \<and> a \<in> set (pending_actions s)"

lemma awaiting_remove:
  assumes "awaiting a s" "pending_actions s' = remove1 b (pending_actions s)" "b \<noteq> a"
  shows "awaiting a s'"
  unfolding awaiting_def known_actions_def assms(2)
proof (intro conjI)
  note w = assms(1) [unfolded awaiting_def known_actions_def]
  show "distinct (remove1 b (pending_actions s))" using w by (simp only: distinct_remove1)
  show "set (remove1 b (pending_actions s)) \<subseteq> {''password_change'', ''passkey_enrollment''}"
    by (rule order_trans [OF set_remove1_subset]) (use w in \<open>simp only:\<close>)
  show "a \<in> set (remove1 b (pending_actions s))" using w assms(3) by (simp only: in_set_remove1)
qed

lemma awaiting_step:
  assumes "awaiting a s" "e \<noteq> Complete a"
  shows "awaiting a (auth_step c url_for s e)"
proof (cases e)
  case (Request current endpoint user_arg)
  then show ?thesis using assms(1) enforce_keeps [of s url_for current endpoint user_arg]
    by (simp only: awaiting_def auth_step.simps)
next
  case (Complete b)
  then have b: "b \<noteq> a" using assms(2) by blast
  show ?thesis
  proof (cases "complete_action c url_for b s")
    case (Ret r)
    obtain u s' where r: "r = (u, s')" by (rule prod.exhaust)
    have "awaiting a s'"
      using complete_pending [OF Ret [unfolded r]] by (intro awaiting_remove [OF assms(1) _ b]) blast
    then show ?thesis using Complete Ret r by (simp only: auth_step.simps outcome.case prod.case)
  next
    case (Exn x)
    then show ?thesis using assms(1) Complete by (simp only: auth_step.simps outcome.case)
  qed
qed

interpretation required: machine "auth_step c url_for" "\<lambda>e. e \<noteq> Complete a" "awaiting a" for c url_for a
  by unfold_locales (rule awaiting_step)

lemma enforce_proceeds:
  assumes "pending_actions s = b # r" "ACTION_ENDPOINTS b = Some h"
  shows "fst (enforce_pending_actions url_for (Some me) e arg s) = Proceed \<longleftrightarrow>
    e \<in> {''static'', ''ui.logout'', ''sso.logout''} \<or> e = h
    \<or> e \<in> set (ACTION_ALLOWED_ENDPOINTS b) \<and> (e = ''ui.passkey_required'' \<or> arg \<in> {None, Some me})"
  using assms by (auto simp: enforce_pending_actions_def)

text \<open>The only pages a user with an outstanding action can reach.\<close>

definition action_pages :: "string list" where
  "action_pages = [''static'', ''ui.logout'', ''sso.logout'', ''sso.pw_change'', ''ui.passkey_required'',
     ''ui.passkey_list'', ''ui.passkey_create'', ''ui.passkey_registration_options'', ''ui.passkey_register'']"

text \<open>
  C9. An action required of a user at sign-in cannot be skipped: after any requests and any
  completions of other actions it is still outstanding, and until it is completed a request of
  the signed-in user goes through only for the pages of the required actions, the static files
  and the logout, and on the passkey pages only for the user's own account.
\<close>
theorem required_action_enforced:
  fixes url_for :: "string \<Rightarrow> string"
  assumes "require_actions here actions dest s = Some s0" "known_actions s"
    and "actions = user_required_actions c d u" "a \<in> set actions" "Complete a \<notin> set events"
  defines "s' \<equiv> foldl (auth_step c url_for) s0 events"
  shows "a \<in> set (pending_actions s')
    \<and> (fst (enforce_pending_actions url_for (Some me) endpoint user_arg s') = Proceed \<longrightarrow>
        endpoint \<in> set action_pages
        \<and> (endpoint \<in> {''ui.passkey_list'', ''ui.passkey_create'', ''ui.passkey_registration_options'',
             ''ui.passkey_register''} \<longrightarrow> user_arg \<in> {None, Some me}))"
proof -
  have "set actions \<subseteq> {''password_change'', ''passkey_enrollment''}"
    using assms(3) by (auto simp: user_required_actions_def Let_def split: if_splits)
  then have "awaiting a s0"
    using require_actions_pending [OF assms(1)] assms(2,4) by (auto simp: awaiting_def known_actions_def)
  moreover have "list_all (\<lambda>e. e \<noteq> Complete a) events" using assms(5) by (auto simp: list_all_iff)
  ultimately have w: "awaiting a s'" unfolding s'_def by (rule required.inv_run)
  then obtain b r where p: "pending_actions s' = b # r" "b \<in> {''password_change'', ''passkey_enrollment''}"
    by (cases "pending_actions s'") (auto simp: awaiting_def known_actions_def)
  show ?thesis
  proof (rule conjI)
    show "a \<in> set (pending_actions s')" using w by (simp add: awaiting_def)
    show "fst (enforce_pending_actions url_for (Some me) endpoint user_arg s') = Proceed \<longrightarrow>
        endpoint \<in> set action_pages
        \<and> (endpoint \<in> {''ui.passkey_list'', ''ui.passkey_create'', ''ui.passkey_registration_options'',
             ''ui.passkey_register''} \<longrightarrow> user_arg \<in> {None, Some me})"
    proof (cases "b = ''password_change''")
      case True
      show ?thesis
        unfolding enforce_proceeds [OF p(1), of "''sso.pw_change''" url_for me endpoint user_arg, unfolded True ACTION_ENDPOINTS_def, simplified]
        by (auto simp: ACTION_ALLOWED_ENDPOINTS_def action_pages_def)
    next
      case False
      then have b: "b = ''passkey_enrollment''" using p(2) by simp
      show ?thesis
        unfolding enforce_proceeds [OF p(1), of "''ui.passkey_required''" url_for me endpoint user_arg, unfolded b ACTION_ENDPOINTS_def, simplified]
        by (auto simp: ACTION_ALLOWED_ENDPOINTS_def action_pages_def)
    qed
  qed
qed

definition forced_user :: user where
  "forced_user = (sample_user ''joe'' ''x.org'')\<lparr>change_pw_next_login := True\<rparr>"

lemma forced_required: "user_required_actions sample_site empty_db forced_user = [''password_change'']"
  by (simp add: user_required_actions_def passkeys_of_def empty_db_def sample_site_def user_policy_def
      default_policy_def forced_user_def sample_user_def)

theorem required_action_enforced_witness:
  "\<exists>s0. require_actions (host_base sample_site) [''password_change''] None [] = Some s0
    \<and> ''password_change'' \<in> set (pending_actions (foldl (auth_step sample_site id) s0
         [Request (Some ''joe@x.org'') ''ui.index'' None, Complete ''passkey_enrollment'']))
    \<and> fst (enforce_pending_actions id (Some ''joe@x.org'') ''ui.index'' None (foldl (auth_step sample_site id) s0
         [Request (Some ''joe@x.org'') ''ui.index'' None, Complete ''passkey_enrollment''])) \<noteq> Proceed"
proof -
  obtain s0 where r: "require_actions (host_base sample_site) [''password_change''] None [] = Some s0"
    by (simp add: require_actions_def)
  have k: "known_actions []" by (simp add: known_actions_def pending_actions_def get_default_def)
  show ?thesis
    using r required_action_enforced [OF r k forced_required [symmetric], of "''password_change''"
        "[Request (Some ''joe@x.org'') ''ui.index'' None, Complete ''passkey_enrollment'']" id "''joe@x.org''" "''ui.index''" None]
    by (simp add: action_pages_def)
qed
end
