(* ===== verification/Passkeys.thy ===== *)
theory Passkeys
  imports Signin Access
begin

text \<open>
  Passkey policies, verified registration and account setup links
  (\<open>src/core/admin/mailu/passkeys.py\<close>, \<open>setup_tokens.py\<close>), and the list of credential identifiers
  offered to a browser (\<open>sso/views/passkeys.py\<close>).

  The webauthn library is the record \<open>webauthn\<close>: verification of a registration or an assertion
  against the expected challenge, relying party, origin and key, and the authenticator flags of a
  payload.  Error messages are reduced to their status and reason.
\<close>

section \<open>The webauthn library\<close>

record wa_flags =
  fl_up :: bool
  fl_uv :: bool
  fl_be :: bool
  fl_bs :: bool

record wa_registration =
  v_credential_id :: string
  v_public_key :: string
  v_sign_count :: int
  v_aaguid :: string
  v_fmt :: string
  v_user_verified :: bool
  v_device_type :: string
  v_backed_up :: bool

record wa_assertion =
  a_sign_count :: int
  a_device_type :: string
  a_backed_up :: bool
  a_user_verified :: bool

record webauthn =
  wa_to_bytes :: "json \<Rightarrow> string option"
  wa_from_bytes :: "string \<Rightarrow> string"
  verify_registration_response :: "json \<Rightarrow> string \<Rightarrow> string \<Rightarrow> string \<Rightarrow> bool \<Rightarrow> wa_registration option"
  registration_flags :: "json \<Rightarrow> wa_flags outcome"
  verify_authentication_response ::
    "json \<Rightarrow> string \<Rightarrow> string \<Rightarrow> string \<Rightarrow> string \<Rightarrow> int \<Rightarrow> bool \<Rightarrow> wa_assertion option"
  authentication_flags :: "json \<Rightarrow> wa_flags outcome"

section \<open>Policies\<close>

definition split_lines_commas :: "string \<Rightarrow> string list" where
  "split_lines_commas v =
     filter (\<lambda>i. i \<noteq> []) (map strip_str
       (concat (map (split_on CHR 0x0A) (concat (map (split_on CHR 0x0D) (split_on CHR '','' v))))))"

definition aaguids_of :: "string \<Rightarrow> string list" where
  "aaguids_of value =
     map (\<lambda>item. case uuid_canon item of Some u \<Rightarrow> u | None \<Rightarrow> ''invalid:'' @ lower item)
       (split_lines_commas value)"

fun normalize_aaguids :: "json \<Rightarrow> string outcome" where
  "normalize_aaguids JNull = Ret []"
| "normalize_aaguids (JStr v) =
     (case those_list (map uuid_canon (split_lines_commas v)) of
        None \<Rightarrow> Exn ValueError
      | Some us \<Rightarrow> Ret (join_with CHR 0x0A (fromkeys us)))"
| "normalize_aaguids _ = Exn ValueError"

definition aaguid_allowed :: "passkey_policy \<Rightarrow> string \<Rightarrow> bool" where
  "aaguid_allowed p guid =
     (if \<not> enforce_aaguid p then True
      else (case uuid_canon guid of
              None \<Rightarrow> False
            | Some u \<Rightarrow>
                if aaguid_mode p = ''block'' then u \<notin> set (aaguids_of (aaguids p))
                else aaguids_of (aaguids p) = [] \<or> u \<in> set (aaguids_of (aaguids p))))"

definition authenticator_flag_policy_errors :: "passkey_policy \<Rightarrow> wa_flags \<Rightarrow> string list" where
  "authenticator_flag_policy_errors p f =
     (if backup_eligible_policy p = ''require'' \<and> \<not> fl_be f
      then [''the domain requires a backup-eligible passkey, but this passkey is not backup-eligible'']
      else if backup_eligible_policy p = ''deny'' \<and> fl_be f
      then [''the domain denies backup-eligible passkeys, but this passkey is backup-eligible'']
      else [])
     @ (if backup_state_policy p = ''require'' \<and> \<not> fl_bs f
        then [''the domain requires a currently backed-up passkey, but this passkey is not backed up'']
        else if backup_state_policy p = ''deny'' \<and> fl_bs f
        then [''the domain denies currently backed-up passkeys, but this passkey is backed up'']
        else [])"

definition authenticator_flags_allowed :: "passkey_policy \<Rightarrow> wa_flags \<Rightarrow> bool" where
  "authenticator_flags_allowed p f \<longleftrightarrow> authenticator_flag_policy_errors p f = []"

definition attestation_allowed :: "passkey_policy \<Rightarrow> string \<Rightarrow> bool" where
  "attestation_allowed p fmt \<longleftrightarrow>
     \<not> (attestation_policy p = ''require'' \<and> fmt = ''none'' \<or> attestation_policy p = ''deny'' \<and> fmt \<noteq> ''none'')"

definition sign_count_allowed :: "passkey_policy \<Rightarrow> int \<Rightarrow> int \<Rightarrow> bool" where
  "sign_count_allowed p current_count new_count \<longleftrightarrow> \<not> require_sign_count_increase p \<or> new_count > current_count"

definition single_device :: "string \<Rightarrow> bool \<Rightarrow> bool" where
  "single_device device_type is_backed_up \<longleftrightarrow> device_type = ''single_device'' \<and> \<not> is_backed_up"

section \<open>Registration\<close>

record wa_site =
  ws_lib :: webauthn
  rp_id_cfg :: "string option"
  ws_hostname :: string
  url_root :: string
  py_str :: "json \<Rightarrow> string"

definition rp_id :: "wa_site \<Rightarrow> string" where
  "rp_id w = (case rp_id_cfg w of Some r \<Rightarrow> (if r = [] then ws_hostname w else r) | None \<Rightarrow> ws_hostname w)"

definition origin :: "wa_site \<Rightarrow> string" where
  "origin w = rstrip_slashes (url_root w)"

text \<open>\<open>s[:n]\<close> of a str: its first n characters.\<close>

fun str_take :: "nat \<Rightarrow> string \<Rightarrow> string" where
  "str_take n [] = []"
| "str_take n (c # cs) =
     (if code_in 128 191 c then c # str_take n cs
      else (case n of 0 \<Rightarrow> [] | Suc k \<Rightarrow> c # str_take k cs))"

text \<open>What is asked of the authenticator: excluded credentials, resident key, user verification
  required, attestation conveyance direct.\<close>

definition registration_options :: "db \<Rightarrow> user \<Rightarrow> string list \<times> string \<times> bool \<times> bool" where
  "registration_options d u =
     (let p = user_policy d u in
      (map credential_id (passkeys_of d u), resident_key p, require_uv p, attestation_policy p = ''require''))"

record registration_error =
  re_status :: nat
  re_reason :: string

definition new_passkey :: "wa_site \<Rightarrow> user \<Rightarrow> wa_registration \<Rightarrow> wa_flags \<Rightarrow> json \<Rightarrow> passkey" where
  "new_passkey w u v f given =
     \<lparr>credential_id = v_credential_id v, pk_user = email u, public_key = v_public_key v,
      sign_count = v_sign_count v, aaguid = v_aaguid v,
      device_bound = Some (single_device (v_device_type v) (v_backed_up v)),
      user_verified = Some (v_user_verified v), user_present = Some (fl_up f),
      backup_eligible = Some (fl_be f), attestation_format = Some (v_fmt v),
      credential_device_type = Some (v_device_type v), backed_up = Some (v_backed_up v),
      last_used_at = None,
      pk_name = str_take 255 (if truthy given then py_str w given else ''Passkey'')\<rparr>"

definition register_credential ::
  "wa_site \<Rightarrow> db \<Rightarrow> user \<Rightarrow> json \<Rightarrow> string \<Rightarrow> (registration_error + (passkey \<times> user)) outcome" where
  "register_credential w d u payload challenge =
     (let p = user_policy d u;
          verification = Option.bind (wa_to_bytes (ws_lib w) (JStr challenge))
            (\<lambda>c. verify_registration_response (ws_lib w) payload c (rp_id w) (origin w) (require_uv p))
      in case verification of
           None \<Rightarrow> Ret (Inl \<lparr>re_status = 400, re_reason = ''verification_failed''\<rparr>)
         | Some v \<Rightarrow>
             bind_out (registration_flags (ws_lib w) payload) (\<lambda>f.
               if \<not> aaguid_allowed p (v_aaguid v)
               then Ret (Inl \<lparr>re_status = 400, re_reason = ''aaguid_policy''\<rparr>)
               else if policy_device_bound p \<and> \<not> single_device (v_device_type v) (v_backed_up v)
               then Ret (Inl \<lparr>re_status = 400, re_reason = ''device_bound_policy''\<rparr>)
               else if authenticator_flag_policy_errors p f \<noteq> []
               then Ret (Inl \<lparr>re_status = 400, re_reason = ''backup_policy''\<rparr>)
               else if \<not> attestation_allowed p (v_fmt v)
               then Ret (Inl \<lparr>re_status = 400, re_reason = ''attestation_policy''\<rparr>)
               else if \<exists>k\<in>set (passkeys d). credential_id k = v_credential_id v
               then Ret (Inl \<lparr>re_status = 409, re_reason = ''duplicate_credential''\<rparr>)
               else (case payload of
                       JObj form \<Rightarrow>
                         Ret (Inr (new_passkey w u v f (get_default form ''name'' JNull),
                                   u\<lparr>passkey_enroll_next_login := False\<rparr>))
                     | _ \<Rightarrow> Exn AttributeError)))"

text \<open>What the flush writes.\<close>

definition add_passkey :: "passkey \<Rightarrow> user \<Rightarrow> db \<Rightarrow> db" where
  "add_passkey k u d = (put_user u d)\<lparr>passkeys := passkeys d @ [k]\<rparr>"

definition PASSWORD_NUDGE_MARKER :: string where
  "PASSWORD_NUDGE_MARKER = ''data-flash-id=\"password-passkey-nudge\"''"

fun is_nudge :: "json \<Rightarrow> bool" where
  "is_nudge (JList [category, JStr message]) = contains PASSWORD_NUDGE_MARKER message"
| "is_nudge _ = False"

definition clear_password_passkey_nudge :: "(string, json) dict \<Rightarrow> (string, json) dict" where
  "clear_password_passkey_nudge s =
     (let flashes = (case get_default s ''_flashes'' (JList []) of JList xs \<Rightarrow> xs | _ \<Rightarrow> []);
          remaining = filter (\<lambda>m. \<not> is_nudge m) flashes
      in if length remaining \<noteq> length flashes
         then (if remaining \<noteq> [] then dict_set ''_flashes'' (JList remaining) s else dict_del ''_flashes'' s)
         else s)"

section \<open>Account setup links\<close>

record setup_token =
  st_hash :: string
  st_user :: string
  st_expires :: int

definition issue_setup ::
  "(string \<Rightarrow> string) \<Rightarrow> string \<Rightarrow> int \<Rightarrow> user \<Rightarrow> int \<Rightarrow> setup_token list \<Rightarrow> (string \<times> int) \<times> setup_token list" where
  "issue_setup sha256_hex raw now u ttl ts =
     ((raw, now + ttl),
      filter (\<lambda>t. st_user t \<noteq> email u) ts @ [\<lparr>st_hash = sha256_hex raw, st_user = email u, st_expires = now + ttl\<rparr>])"

definition lookup_setup :: "(string \<Rightarrow> string) \<Rightarrow> int \<Rightarrow> string \<Rightarrow> setup_token list \<Rightarrow> setup_token option" where
  "lookup_setup sha256_hex now raw ts =
     (case find (\<lambda>t. st_hash t = sha256_hex raw) ts of
        None \<Rightarrow> None | Some t \<Rightarrow> if st_expires t > now then Some t else None)"

definition consume_setup ::
  "(string \<Rightarrow> string) \<Rightarrow> int \<Rightarrow> string \<Rightarrow> setup_token list \<Rightarrow> bool \<times> setup_token list" where
  "consume_setup sha256_hex now raw ts =
     (let hit = (\<lambda>t. st_hash t = sha256_hex raw \<and> st_expires t > now)
      in (length (filter hit ts) = 1, filter (\<lambda>t. \<not> hit t) ts))"

section \<open>Credential identifiers for sign-in\<close>

definition PASSKEY_LOGIN_CREDENTIAL_SLOTS :: nat where
  "PASSKEY_LOGIN_CREDENTIAL_SLOTS = 10"

definition filler_id :: "(string \<Rightarrow> string) \<Rightarrow> string \<Rightarrow> nat \<Rightarrow> string" where
  "filler_id mac canonical slot =
     mac (''PASSKEY_LOGIN_FILLER'' @ [CHR 0x00] @ canonical @ [CHR 0x00]
          @ map (\<lambda>k. char_of (slot div 256 ^ k mod 256)) [3, 2, 1, 0])"

partial_function (option) fill_ids :: "(nat \<Rightarrow> string) \<Rightarrow> string list \<Rightarrow> string list \<Rightarrow> nat \<Rightarrow> string list option" where
  "fill_ids filler ids fillers slot =
     (if length ids + length fillers < PASSKEY_LOGIN_CREDENTIAL_SLOTS
      then fill_ids filler ids
             (if filler slot \<notin> set ids \<and> filler slot \<notin> set fillers then fillers @ [filler slot] else fillers)
             (slot + 1)
      else Some fillers)"

declare fill_ids.simps [code]

text \<open>None where the loop does not end; an address without a domain that IDNA can encode raises.\<close>

definition canonical_address :: "(string \<Rightarrow> string option) \<Rightarrow> string \<Rightarrow> string outcome" where
  "canonical_address enc mail =
     (case rcut CHR ''@'' mail of
        None \<Rightarrow> Exn ValueError
      | Some (lp, dn) \<Rightarrow>
          (case enc (lower dn) of None \<Rightarrow> Exn ValueError | Some a \<Rightarrow> Ret (lower lp @ ''@'' @ a)))"

definition login_credential_ids ::
  "(string \<Rightarrow> string option) \<Rightarrow> (string \<Rightarrow> string) \<Rightarrow> string \<Rightarrow> passkey list \<Rightarrow> string list option outcome" where
  "login_credential_ids enc mac mail credentials =
     (let ids = sort (map credential_id credentials);
          order = sort_key (\<lambda>i. mac (''PASSKEY_LOGIN_ORDER'' @ [CHR 0x00] @ i))
      in if length ids < PASSKEY_LOGIN_CREDENTIAL_SLOTS
         then bind_out (canonical_address enc mail) (\<lambda>canonical.
           Ret (map_option (\<lambda>fillers. order (ids @ fillers)) (fill_ids (filler_id mac canonical) ids [] 0)))
         else Ret (Some (order ids)))"

section \<open>Every sign-in gets the same number of identifiers\<close>

lemma filter_inter_length:
  assumes "distinct xs"
  shows "length xs \<le> length (filter (\<lambda>x. x \<notin> set ids) xs) + length ids"
proof -
  have "length (filter (\<lambda>x. x \<in> set ids) xs) = card (set (filter (\<lambda>x. x \<in> set ids) xs))"
    using assms by (intro distinct_card [symmetric]) simp
  also have "\<dots> \<le> card (set ids)" by (rule card_mono) auto
  also have "\<dots> \<le> length ids" by (rule card_length)
  finally show ?thesis using sum_length_filter_compl [of "\<lambda>x. x \<in> set ids" xs] by simp
qed

lemma fill_ids_returns:
  assumes "distinct (map f [0..<2 * PASSKEY_LOGIN_CREDENTIAL_SLOTS])" "length ids < PASSKEY_LOGIN_CREDENTIAL_SLOTS"
    and "slot \<le> 2 * PASSKEY_LOGIN_CREDENTIAL_SLOTS"
    and "fillers = filter (\<lambda>x. x \<notin> set ids) (map f [0..<slot])"
    and "length ids + length fillers \<le> PASSKEY_LOGIN_CREDENTIAL_SLOTS"
  shows "\<exists>r. fill_ids f ids fillers slot = Some r \<and> length ids + length r = PASSKEY_LOGIN_CREDENTIAL_SLOTS
    \<and> distinct r \<and> set r \<inter> set ids = {}"
  using assms(3-5)
proof (induction "2 * PASSKEY_LOGIN_CREDENTIAL_SLOTS - slot" arbitrary: slot fillers)
  case (0 slot)
  then have s: "slot = 2 * PASSKEY_LOGIN_CREDENTIAL_SLOTS" by simp
  have d: "distinct (map f [0..<slot])" using assms(1) s by simp
  have "slot \<le> length fillers + length ids"
    using filter_inter_length [OF d, of ids] 0(3) by simp
  then have "\<not> length ids + length fillers < PASSKEY_LOGIN_CREDENTIAL_SLOTS" using s by simp
  then show ?case using 0 d by (subst fill_ids.simps) (auto simp: distinct_filter)
next
  case (Suc n slot)
  have lt: "slot < 2 * PASSKEY_LOGIN_CREDENTIAL_SLOTS" using Suc.hyps(2) by simp
  have d: "distinct (map f [0..<Suc slot])"
    using assms(1) lt distinct_take [of "map f [0..<2 * PASSKEY_LOGIN_CREDENTIAL_SLOTS]" "Suc slot"]
    by (simp add: take_map)
  show ?case
  proof (cases "length ids + length fillers < PASSKEY_LOGIN_CREDENTIAL_SLOTS")
    case True
    have new: "f slot \<notin> set fillers" using d Suc.prems(2) by auto
    let ?next = "if f slot \<notin> set ids \<and> f slot \<notin> set fillers then fillers @ [f slot] else fillers"
    have "?next = filter (\<lambda>x. x \<notin> set ids) (map f [0..<Suc slot])" using new Suc.prems(2) by auto
    moreover have "length ids + length ?next \<le> PASSKEY_LOGIN_CREDENTIAL_SLOTS" using True by auto
    ultimately have "\<exists>r. fill_ids f ids ?next (Suc slot) = Some r \<and> length ids + length r = PASSKEY_LOGIN_CREDENTIAL_SLOTS
      \<and> distinct r \<and> set r \<inter> set ids = {}"
      using Suc.hyps lt by (intro Suc.hyps(1)) auto
    then show ?thesis using True by (subst fill_ids.simps) simp
  next
    case False
    then show ?thesis using Suc.prems d by (subst fill_ids.simps) (auto simp: distinct_map distinct_filter)
  qed
qed

text \<open>
  C11. Username-first sign-in lists identifiers for every address, and the loop that invents the
  missing ones ends: with up to ten passkeys, none included, the list has exactly ten distinct
  entries and contains every passkey of the account, so its length does not tell whether the
  account exists.  The first twenty invented identifiers are assumed pairwise distinct.
\<close>
theorem login_options_uniform:
  assumes "canonical_address enc mail = Ret canonical"
    and "distinct (map (filler_id mac canonical) [0..<20])"
    and "distinct (map credential_id credentials)" "length credentials \<le> 10"
  shows "\<exists>ids. login_credential_ids enc mac mail credentials = Ret (Some ids)
    \<and> length ids = 10 \<and> distinct ids \<and> credential_id ` set credentials \<subseteq> set ids"
proof (cases "length credentials < 10")
  case True
  let ?ids = "sort (map credential_id credentials)"
  have "distinct (map (filler_id mac canonical) [0..<2 * PASSKEY_LOGIN_CREDENTIAL_SLOTS])"
    using assms(2) by (simp add: PASSKEY_LOGIN_CREDENTIAL_SLOTS_def)
  moreover have "length ?ids < PASSKEY_LOGIN_CREDENTIAL_SLOTS"
    using True by (simp add: PASSKEY_LOGIN_CREDENTIAL_SLOTS_def)
  ultimately obtain r where r: "fill_ids (filler_id mac canonical) ?ids [] 0 = Some r"
    "length ?ids + length r = PASSKEY_LOGIN_CREDENTIAL_SLOTS" "distinct r" "set r \<inter> set ?ids = {}"
    using fill_ids_returns [of "filler_id mac canonical" ?ids 0 "[]"] by auto
  show ?thesis
    using True r assms(1,3)
    by (auto simp: login_credential_ids_def Let_def PASSKEY_LOGIN_CREDENTIAL_SLOTS_def)
next
  case False
  then show ?thesis using assms(3,4)
    by (auto simp: login_credential_ids_def Let_def PASSKEY_LOGIN_CREDENTIAL_SLOTS_def)
qed

lemma filler_id_last: "(of_char (last (filler_id id c slot)) :: nat) = slot mod 256"
  by (simp add: filler_id_def)

theorem login_options_uniform_witness:
  "\<exists>ids. login_credential_ids Some id ''joe@x.org'' [] = Ret (Some ids) \<and> length ids = 10"
proof -
  have c: "canonical_address Some ''joe@x.org'' = Ret ''joe@x.org''" by code_simp
  let ?code = "\<lambda>s. (of_char (last s) :: nat)"
  have "map ?code (map (filler_id id ''joe@x.org'') [0..<20]) = map (\<lambda>n. n mod 256) [0..<20]"
    unfolding map_map comp_def filler_id_last ..
  also have "\<dots> = [0..<20]" by (rule map_idI) simp
  finally have "distinct (map ?code (map (filler_id id ''joe@x.org'') [0..<20]))" by (simp only: distinct_upt)
  then have d: "distinct (map (filler_id id ''joe@x.org'') [0..<20])" by (rule distinct_map [THEN iffD1, THEN conjunct1])
  show ?thesis using login_options_uniform [OF c d, of "[]"] by auto
qed
end
