(* ===== verification/Passkey_Views.thy ===== *)
theory Passkey_Views
  imports Passkeys
begin

text \<open>
  The endpoints that use passkeys: sign-in, account setup by link
  (\<open>src/core/admin/mailu/sso/views/passkeys.py\<close>), and a user's own passkeys
  (\<open>ui/views/passkeys.py\<close>).

  A handler returns its answer and the state: the database as committed, the setup links, the
  session contents, the signed-in user, whether the session gets a new key, and the session
  store.  An exception that nothing handles is \<open>Server_error\<close>: the session is saved, the open
  transaction is not.  The public sign-up by passkey is in \<open>Signup_Views\<close>.
\<close>

section \<open>State and answers\<close>

record 's web =
  w_db :: db
  w_setup :: "setup_token list"
  w_session :: "(string, json) dict"
  w_user :: "string option"
  w_new_key :: bool
  w_store :: 's

datatype answer =
    Json_error nat
  | Json_ok "string option"
  | Sign_in_options "string list option" bool string
  | Registration_options "string list \<times> string \<times> bool \<times> bool" string
  | Signed_in string "string option" string
  | Redirect string
  | Page
  | Abort nat
  | Server_error

record 's web_env =
  we_site :: site
  we_wa :: wa_site
  we_enc :: "string \<Rightarrow> string option"
  we_valid_address :: "string \<Rightarrow> bool"
  we_valid_domain :: "string \<Rightarrow> bool"
  we_filler_mac :: "string \<Rightarrow> string"
  we_sha256_hex :: "string \<Rightarrow> string"
  we_url_for :: "string \<Rightarrow> string"
  we_setup_url :: "string \<Rightarrow> string"
  we_limits :: rl_cfg
  we_crypto :: crypto
  we_store :: "'s store"
  we_sessions :: session_cfg
  we_setup_ttl :: int

text \<open>What a request carries: its JSON body (None when there is none), whether the CSRF check
  passes, the time and the random bytes drawn while it is handled.\<close>

record request =
  rq_json :: "json option"
  rq_csrf_ok :: bool
  rq_now :: int
  rq_random :: string

definition user_row :: "db \<Rightarrow> string \<Rightarrow> user option" where
  "user_row d mail = find (\<lambda>u. email u = mail) (users d)"

definition set_item_in :: "string \<Rightarrow> json \<Rightarrow> 's web \<Rightarrow> 's web" where
  "set_item_in k v w = w\<lparr>w_session := dict_set k v (w_session w)\<rparr>"

definition pop_item :: "string \<Rightarrow> 's web \<Rightarrow> json \<times> 's web" where
  "pop_item k w = (get_default (w_session w) k JNull, w\<lparr>w_session := dict_del k (w_session w)\<rparr>)"

definition flash :: "string \<Rightarrow> string \<Rightarrow> 's web \<Rightarrow> 's web" where
  "flash category message w =
     (let old = (case get_default (w_session w) ''_flashes'' (JList []) of JList xs \<Rightarrow> xs | _ \<Rightarrow> [])
      in set_item_in ''_flashes'' (JList (old @ [JList [JStr category, JStr message]])) w)"

definition login_user :: "user \<Rightarrow> 's web \<Rightarrow> 's web" where
  "login_user u w = w\<lparr>w_user := Some (email u)\<rparr>"

definition logout_and_clear :: "'s web \<Rightarrow> 's web" where
  "logout_and_clear w = w\<lparr>w_user := None, w_session := []\<rparr>"

definition body_of :: "request \<Rightarrow> json" where
  "body_of rq = (case rq_json rq of None \<Rightarrow> JNull | Some j \<Rightarrow> j)"

section \<open>Signing in\<close>

definition passkey_authentication_options :: "'s web_env \<Rightarrow> request \<Rightarrow> 's web \<Rightarrow> answer \<times> 's web" where
  "passkey_authentication_options e rq w =
     (case (if truthy (body_of rq) then body_of rq else JObj []) of
        JObj payload \<Rightarrow>
          (case get_or payload ''email'' (JStr []) of
             JStr given \<Rightarrow>
               (let mail = strip_str given; c = we_site e; target = get_default payload ''target'' (JStr ''admin'') in
                if mail \<noteq> [] \<and> \<not> is_valid_email (we_enc e) (we_valid_address e) (we_valid_domain e) mail
                then (Json_error 400, w)
                else if \<not> (target = JStr ''admin'' \<and> admin_on c \<or> target = JStr ''webmail'' \<and> webmail_on c)
                then (Json_error 400, w)
                else
                  let dest = (if target = JStr ''admin'' then web_admin c else web_webmail c);
                      (dest', s1) = (if get_default payload ''explicit'' JNull = JBool True then (dest, w_session w)
                        else (case pending c (rq_now rq) (w_session w) of
                                (Some d, s) \<Rightarrow> (d, s) | (None, s) \<Rightarrow> (dest, s)));
                      w1 = set_item_in ''passkey_login_destination'' (JStr dest') (w\<lparr>w_session := s1\<rparr>);
                      challenge = wa_from_bytes (ws_lib (we_wa e)) (rq_random rq)
                  in if mail = [] then
                       (Sign_in_options None False challenge,
                        snd (pop_item ''passkey_login_email''
                          (set_item_in ''passkey_login_challenge'' (JStr challenge) w1)))
                     else (case (get_user (we_enc e) (w_db w) mail,
                                 case rcut CHR ''@'' mail of None \<Rightarrow> Exn IndexError
                                 | Some (_, dn) \<Rightarrow> get_domain (we_enc e) (w_db w) dn) of
                       (Ret u, Ret dm) \<Rightarrow>
                         (let credentials = (case u of Some r \<Rightarrow> if enabled r then passkeys_of (w_db w) r else []
                                                     | None \<Rightarrow> [])
                          in case login_credential_ids (we_enc e) (we_filler_mac e) mail credentials of
                               Ret (Some ids) \<Rightarrow>
                                 (Sign_in_options (Some ids)
                                    (case dm of Some r \<Rightarrow> require_uv (domain_policy r) | None \<Rightarrow> False) challenge,
                                  set_item_in ''passkey_login_email'' (JStr mail)
                                    (set_item_in ''passkey_login_challenge'' (JStr challenge) w1))
                             | _ \<Rightarrow> (Server_error, w1))
                     | _ \<Rightarrow> (Server_error, w1)))
           | _ \<Rightarrow> (Server_error, w))
      | _ \<Rightarrow> (Server_error, w))"

text \<open>The row after a verified assertion.\<close>

definition used_passkey :: "int \<Rightarrow> wa_assertion \<Rightarrow> wa_flags \<Rightarrow> passkey \<Rightarrow> passkey" where
  "used_passkey now v f k =
     k\<lparr>sign_count := a_sign_count v, device_bound := Some (single_device (a_device_type v) (a_backed_up v)),
       user_verified := Some (a_user_verified v), user_present := Some (fl_up f),
       credential_device_type := Some (a_device_type v), backup_eligible := Some (fl_be f),
       backed_up := Some (fl_bs f), last_used_at := Some now\<rparr>"

definition put_passkey :: "passkey \<Rightarrow> db \<Rightarrow> db" where
  "put_passkey k d = d\<lparr>passkeys := map (\<lambda>r. if credential_id r = credential_id k then k else r) (passkeys d)\<rparr>"

text \<open>The checks on an assertion: a status of refusal, an exception, or the verified data.\<close>

definition check_assertion ::
  "'s web_env \<Rightarrow> passkey_policy \<Rightarrow> passkey \<Rightarrow> json \<Rightarrow> string \<Rightarrow> (nat + (wa_assertion \<times> wa_flags)) outcome" where
  "check_assertion e p k payload challenge =
     (let lib = ws_lib (we_wa e);
          verification = Option.bind (wa_to_bytes lib (JStr challenge))
            (\<lambda>c. verify_authentication_response lib payload c (rp_id (we_wa e)) (origin (we_wa e)) (public_key k)
               (if require_sign_count_increase p then sign_count k else 0) (require_uv p))
      in if \<not> aaguid_allowed p (aaguid k) then Ret (Inl 401)
         else (case verification of
           None \<Rightarrow> Ret (Inl 401)
         | Some v \<Rightarrow>
             bind_out (authentication_flags lib payload) (\<lambda>f.
               if \<not> authenticator_flags_allowed p f then Ret (Inl 401)
               else if \<not> sign_count_allowed p (sign_count k) (a_sign_count v) then Ret (Inl 401)
               else if policy_device_bound p \<and> \<not> single_device (a_device_type v) (a_backed_up v) then Ret (Inl 401)
               else Ret (Inr (v, f)))))"

definition finish_sign_in ::
  "'s web_env \<Rightarrow> request \<Rightarrow> user \<Rightarrow> passkey \<Rightarrow> 's web \<Rightarrow> answer \<times> 's web" where
  "finish_sign_in e rq u k' w =
     (let w1 = w\<lparr>w_db := put_passkey k' (w_db w), w_session := clear_password_passkey_nudge (w_session w)\<rparr>;
          (d, w2) = pop_item ''passkey_login_destination'' w1;
          dest = (case d of JStr x \<Rightarrow> (if x = [] then web_admin (we_site e) else x) | _ \<Rightarrow> web_admin (we_site e));
          w3 = w2\<lparr>w_session := clear_signin (w_session w2), w_new_key := True\<rparr>
      in (Signed_in dest (remember_preference (we_site e) dest)
            (device_cookie (we_limits e) (pk_user k') (rq_random rq)),
          login_user u w3))"

definition passkey_authenticate :: "'s web_env \<Rightarrow> request \<Rightarrow> 's web \<Rightarrow> answer \<times> 's web" where
  "passkey_authenticate e rq w =
     (if \<not> rq_csrf_ok rq then (Json_error 400, w)
      else
        let (challenge, w1) = pop_item ''passkey_login_challenge'' w;
            (mail, w2) = pop_item ''passkey_login_email'' w1;
            payload = body_of rq
        in case challenge of
             JStr ch \<Rightarrow>
               if ch = [] \<or> \<not> truthy payload then (Json_error 400, w2)
               else (case payload of
                 JObj form \<Rightarrow>
                   (case wa_to_bytes (ws_lib (we_wa e)) (get_default form ''id'' (JStr [])) of
                      None \<Rightarrow> (Json_error 400, w2)
                    | Some cid \<Rightarrow>
                       (case find (\<lambda>k. credential_id k = cid \<and> (truthy mail \<longrightarrow> mail = JStr (pk_user k)))
                               (passkeys (w_db w2)) of
                          None \<Rightarrow> (Json_error 401, w2)
                        | Some k \<Rightarrow>
                           (case user_row (w_db w2) (pk_user k) of
                              None \<Rightarrow> (Server_error, w2)
                            | Some u \<Rightarrow>
                               if \<not> enabled u then (Json_error 401, w2)
                               else (case check_assertion e (user_policy (w_db w2) u) k payload ch of
                                       Exn x \<Rightarrow> (Server_error, w2)
                                     | Ret (Inl n) \<Rightarrow> (Json_error n, w2)
                                     | Ret (Inr (v, f)) \<Rightarrow>
                                         finish_sign_in e rq u (used_passkey (rq_now rq) v f k) w2))))
               | _ \<Rightarrow> (Server_error, w2))
           | _ \<Rightarrow> (Json_error 400, w2))"

section \<open>Account setup by link\<close>

definition account_setup_requires_passkey :: "'s web_env \<Rightarrow> db \<Rightarrow> user \<Rightarrow> bool" where
  "account_setup_requires_passkey e d u \<longleftrightarrow>
     passkey_enroll_next_login u \<or> require_enrollment (user_policy d u) \<or> passkey_required (we_site e)"

text \<open>The user of an unexpired link.  A link stays when its user is deleted: then \<open>grant.user\<close> is None.\<close>

definition setup_user :: "'s web_env \<Rightarrow> int \<Rightarrow> string \<Rightarrow> 's web \<Rightarrow> (setup_token \<times> user) option outcome" where
  "setup_user e now raw w =
     (case lookup_setup (we_sha256_hex e) now raw (w_setup w) of
        None \<Rightarrow> Ret None
      | Some g \<Rightarrow> (case user_row (w_db w) (st_user g) of None \<Rightarrow> Exn AttributeError | Some u \<Rightarrow> Ret (Some (g, u))))"

definition account_setup :: "'s web_env \<Rightarrow> request \<Rightarrow> string \<Rightarrow> 's web \<Rightarrow> answer \<times> 's web" where
  "account_setup e rq raw w =
     (case setup_user e (rq_now rq) raw w of
        Exn x \<Rightarrow> (Server_error, w)
      | Ret None \<Rightarrow> (Abort 404, w)
      | Ret (Some (g, u)) \<Rightarrow> ((if enabled u then Page else Abort 404), w))"

definition account_setup_options :: "'s web_env \<Rightarrow> request \<Rightarrow> string \<Rightarrow> 's web \<Rightarrow> answer \<times> 's web" where
  "account_setup_options e rq raw w =
     (if \<not> rq_csrf_ok rq then (Json_error 400, w)
      else (case setup_user e (rq_now rq) raw w of
        Exn x \<Rightarrow> (Server_error, w)
      | Ret None \<Rightarrow> (Json_error 410, w)
      | Ret (Some (g, u)) \<Rightarrow>
          if \<not> enabled u then (Json_error 410, w)
          else if is_demo_account u then (Json_error 403, w)
          else let ch = wa_from_bytes (ws_lib (we_wa e)) (rq_random rq) in
            (Registration_options (registration_options (w_db w) u) ch,
             set_item_in ''account_setup_challenge'' (JStr ch)
               (set_item_in ''account_setup_hash'' (JStr (st_hash g)) w))))"

text \<open>\<open>rq_later\<close> is the time when the link is consumed, and \<open>taken\<close> whether another request consumed it
  in between.\<close>

definition account_setup_register ::
  "'s web_env \<Rightarrow> request \<Rightarrow> int \<Rightarrow> bool \<Rightarrow> string \<Rightarrow> 's web \<Rightarrow> answer \<times> 's web" where
  "account_setup_register e rq later was_taken raw w =
     (if \<not> rq_csrf_ok rq then (Json_error 400, w)
      else
        let (challenge, w1) = pop_item ''account_setup_challenge'' w;
            (session_hash, w2) = pop_item ''account_setup_hash'' w1;
            payload = body_of rq
        in case (setup_user e (rq_now rq) raw w, challenge) of
             (Exn x, _) \<Rightarrow> (Server_error, w2)
           | (Ret (Some (g, u)), JStr ch) \<Rightarrow>
               if \<not> enabled u \<or> session_hash \<noteq> JStr (st_hash g) \<or> ch = [] \<or> \<not> truthy payload
               then (Json_error 410, w2)
               else if is_demo_account u then (Json_error 403, w2)
               else (case register_credential (we_wa e) (w_db w2) u payload ch of
                 Exn x \<Rightarrow> (Server_error, w2)
               | Ret (Inl err) \<Rightarrow> (Json_error (re_status err), w2)
               | Ret (Inr (k, u')) \<Rightarrow>
                   (let links = (if was_taken then filter (\<lambda>t. st_hash t \<noteq> st_hash g) (w_setup w2) else w_setup w2)
                    in case consume_setup (we_sha256_hex e) later raw links of
                         (False, _) \<Rightarrow> (Json_error 410, w2\<lparr>w_setup := links\<rparr>)
                       | (True, links') \<Rightarrow>
                           (let w3 = w2\<lparr>w_db := add_passkey k u' (w_db w2), w_setup := links'\<rparr> in
                            if w_user w3 = Some (email u) \<and> ''passkey_enrollment'' \<in> set (pending_actions (w_session w3))
                            then (case complete_action (we_site e) (we_url_for e) ''passkey_enrollment'' (w_session w3) of
                                    Ret (to, s') \<Rightarrow> (Json_ok (Some to), w3\<lparr>w_session := s'\<rparr>)
                                  | Exn x \<Rightarrow> (Server_error, w3))
                            else (Json_ok (Some (we_url_for e ''sso.login'')),
                                  flash ''success'' ''Passkey added. You can now sign in.'' (logout_and_clear w3)))))
           | _ \<Rightarrow> (Json_error 410, w2))"

text \<open>The form's fields when it validates (they are present, equal, and the password has at least
  eight characters), with the browser's breach count.\<close>

definition account_setup_password ::
  "'s web_env \<Rightarrow> request \<Rightarrow> int \<Rightarrow> bool \<Rightarrow> (string \<times> string) option \<Rightarrow> string \<Rightarrow> 's web \<Rightarrow> answer \<times> 's web" where
  "account_setup_password e rq later was_taken form raw w =
     (case setup_user e (rq_now rq) raw w of
        Exn x \<Rightarrow> (Server_error, w)
      | Ret None \<Rightarrow> (Abort 404, w)
      | Ret (Some (g, u)) \<Rightarrow>
          if \<not> enabled u then (Abort 404, w)
          else if is_demo_account u then (Abort 403, w)
          else if account_setup_requires_passkey e (w_db w) u \<or> passkeys_of (w_db w) u \<noteq> [] then (Abort 403, w)
          else (case form of
            None \<Rightarrow> (Page, w)
          | Some (pw, pwned) \<Rightarrow>
              if pw \<noteq> strip_str pw then (Page, w)
              else (case isBadOrPwned (Some pw) (Some pwned) of
                Exn x \<Rightarrow> (Server_error, w)
              | Ret (Some msg) \<Rightarrow> (Page, w)
              | Ret None \<Rightarrow>
                  (let links = (if was_taken then filter (\<lambda>t. st_hash t \<noteq> st_hash g) (w_setup w) else w_setup w)
                   in case consume_setup (we_sha256_hex e) later raw links of
                        (False, _) \<Rightarrow> (Json_error 410, w\<lparr>w_setup := links\<rparr>)
                      | (True, links') \<Rightarrow>
                          (case set_password (we_store e) (we_sessions e) (we_crypto e) later False (Some {}) True
                                  (u\<lparr>change_pw_next_login := False\<rparr>) pw (w_db w, w_store w) of
                             (d', st') \<Rightarrow>
                               (Redirect (we_url_for e ''sso.login''),
                                flash ''success'' ''Password set. You can now sign in.''
                                  (logout_and_clear (w\<lparr>w_db := d', w_setup := links', w_store := st'\<rparr>))))))))"

section \<open>A user's own passkeys\<close>

text \<open>The routes are guarded by \<open>owner\<close>: \<open>target\<close> is the row the guard let through.\<close>

definition passkey_registration_options :: "'s web_env \<Rightarrow> request \<Rightarrow> user \<Rightarrow> 's web \<Rightarrow> answer \<times> 's web" where
  "passkey_registration_options e rq u w =
     (if is_demo_account u then (Json_error 403, w)
      else let ch = wa_from_bytes (ws_lib (we_wa e)) (rq_random rq) in
        (Registration_options (registration_options (w_db w) u) ch,
         set_item_in ''passkey_registration_user'' (JStr (email u))
           (set_item_in ''passkey_registration_challenge'' (JStr ch) w)))"

definition passkey_register :: "'s web_env \<Rightarrow> request \<Rightarrow> user \<Rightarrow> 's web \<Rightarrow> answer \<times> 's web" where
  "passkey_register e rq u w =
     (if is_demo_account u then (Json_error 403, w)
      else
        let (challenge, w1) = pop_item ''passkey_registration_challenge'' w;
            (challenge_user, w2) = pop_item ''passkey_registration_user'' w1;
            payload = body_of rq; own = (w_user w = Some (email u))
        in case challenge of
             JStr ch \<Rightarrow>
               if ch = [] \<or> challenge_user \<noteq> JStr (email u) \<or> \<not> truthy payload then (Json_error 400, w2)
               else (case register_credential (we_wa e) (w_db w2) u payload ch of
                 Exn x \<Rightarrow> (Server_error, w2)
               | Ret (Inl err) \<Rightarrow> (Json_error (re_status err), w2)
               | Ret (Inr (k, u')) \<Rightarrow>
                   (let pend = pending_actions (w_session w2);
                        u'' = (if own \<and> ''password_change'' \<in> set pend then u'\<lparr>change_pw_next_login := False\<rparr> else u');
                        w3 = w2\<lparr>w_db := add_passkey k u'' (w_db w2)\<rparr>
                    in if \<not> own then (Json_ok None, w3)
                       else (case find (\<lambda>a. a \<in> {''password_change'', ''passkey_enrollment''}) pend of
                         None \<Rightarrow> (Json_ok None, w3)
                       | Some a \<Rightarrow>
                           (case complete_action (we_site e) (we_url_for e) a (w_session w3) of
                              Ret (to, s') \<Rightarrow> (Json_ok (Some to), w3\<lparr>w_session := s'\<rparr>)
                            | Exn x \<Rightarrow> (Server_error, w3)))))
           | _ \<Rightarrow> (Json_error 400, w2))"

text \<open>The deletion after the confirmation page; \<open>cid\<close> is the credential the URL names, None when it
  does not decode.\<close>

definition passkey_delete :: "'s web_env \<Rightarrow> string option \<Rightarrow> user \<Rightarrow> 's web \<Rightarrow> answer \<times> 's web" where
  "passkey_delete e cid u w =
     (case Option.bind cid (\<lambda>c. find (\<lambda>k. credential_id k = c) (passkeys (w_db w))) of
        None \<Rightarrow> (Abort 404, w)
      | Some k \<Rightarrow>
          if pk_user k \<noteq> email u then (Abort 404, w)
          else (Redirect (we_url_for e ''.passkey_list''),
                flash ''message'' ''Passkey deleted''
                  (w\<lparr>w_db := (w_db w)\<lparr>passkeys := filter (\<lambda>r. credential_id r \<noteq> credential_id k) (passkeys (w_db w))\<rparr>\<rparr>)))"

definition passkey_required_page :: "'s web_env \<Rightarrow> user \<Rightarrow> 's web \<Rightarrow> answer \<times> 's web" where
  "passkey_required_page e u w =
     (let required = (passkey_required (we_site e) \<or> require_enrollment (user_policy (w_db w) u)) in
      if passkeys_of (w_db w) u \<noteq> [] \<or> \<not> passkey_enroll_next_login u \<and> \<not> required then
        (if ''passkey_enrollment'' \<in> set (pending_actions (w_session w))
         then (case complete_action (we_site e) (we_url_for e) ''passkey_enrollment'' (w_session w) of
                 Ret (to, s') \<Rightarrow> (Redirect to, w\<lparr>w_session := s'\<rparr>) | Exn x \<Rightarrow> (Server_error, w))
         else (Redirect (we_url_for e ''.passkey_list''), w))
      else (Page, w))"

definition account_setup_link :: "'s web_env \<Rightarrow> request \<Rightarrow> bool \<Rightarrow> user \<Rightarrow> 's web \<Rightarrow> answer \<times> 's web" where
  "account_setup_link e rq valid u w =
     (if \<not> valid then (Abort 400, w)
      else (case issue_setup (we_sha256_hex e) (rq_random rq) (rq_now rq) u (we_setup_ttl e) (w_setup w) of
        ((raw, expires), links) \<Rightarrow>
          (Redirect (we_url_for e ''ui.user_edit''),
           set_item_in ''new_account_setup_expires_at'' (JInt expires)
             (set_item_in ''new_account_setup_url'' (JStr (we_setup_url e raw))
               (w\<lparr>w_setup := links\<rparr>)))))"

section \<open>Who gets in\<close>

lemma pop_item_simps [simp]:
  "fst (pop_item k w) = get_default (w_session w) k JNull"
  "w_session (snd (pop_item k w)) = dict_del k (w_session w)"
  "w_db (snd (pop_item k w)) = w_db w" "w_setup (snd (pop_item k w)) = w_setup w"
  "w_user (snd (pop_item k w)) = w_user w" "w_new_key (snd (pop_item k w)) = w_new_key w"
  by (simp_all add: pop_item_def)

lemma check_assertion_ok:
  assumes "check_assertion e p k payload ch = Ret (Inr (v, f))"
  shows "aaguid_allowed p (aaguid k)
    \<and> (\<exists>c. wa_to_bytes (ws_lib (we_wa e)) (JStr ch) = Some c
        \<and> verify_authentication_response (ws_lib (we_wa e)) payload c (rp_id (we_wa e)) (origin (we_wa e)) (public_key k)
            (if require_sign_count_increase p then sign_count k else 0) (require_uv p) = Some v)
    \<and> authentication_flags (ws_lib (we_wa e)) payload = Ret f \<and> authenticator_flags_allowed p f
    \<and> sign_count_allowed p (sign_count k) (a_sign_count v)
    \<and> (policy_device_bound p \<longrightarrow> single_device (a_device_type v) (a_backed_up v))"
  using assms unfolding check_assertion_def Let_def
  by (cases "aaguid_allowed p (aaguid k)") (auto split: option.splits if_splits bind_splits)

lemma kept_email:
  "get_default (dict_del ''passkey_login_challenge'' s) ''passkey_login_email'' v = get_default s ''passkey_login_email'' v"
  by (simp add: get_default_def)

text \<open>The challenge is spent by every request that passes the CSRF check.\<close>

definition spent_challenge :: "'s web \<Rightarrow> 's web" where
  "spent_challenge w = snd (pop_item ''passkey_login_email'' (snd (pop_item ''passkey_login_challenge'' w)))"

lemma spent_challenge_simps [simp]:
  "w_db (spent_challenge w) = w_db w" "w_user (spent_challenge w) = w_user w"
  "dict_get (w_session (spent_challenge w)) ''passkey_login_challenge'' = None"
  by (simp_all add: spent_challenge_def)

lemma passkey_authenticate_eq:
  "rq_csrf_ok rq \<Longrightarrow> passkey_authenticate e rq w =
    (case get_default (w_session w) ''passkey_login_challenge'' JNull of
       JStr ch \<Rightarrow>
         if ch = [] \<or> \<not> truthy (body_of rq) then (Json_error 400, spent_challenge w)
         else (case body_of rq of
           JObj form \<Rightarrow>
             (case wa_to_bytes (ws_lib (we_wa e)) (get_default form ''id'' (JStr [])) of
                None \<Rightarrow> (Json_error 400, spent_challenge w)
              | Some cid \<Rightarrow>
                 (case find (\<lambda>k. credential_id k = cid \<and> (truthy (get_default (w_session w) ''passkey_login_email'' JNull)
                              \<longrightarrow> get_default (w_session w) ''passkey_login_email'' JNull = JStr (pk_user k)))
                         (passkeys (w_db w)) of
                    None \<Rightarrow> (Json_error 401, spent_challenge w)
                  | Some k \<Rightarrow>
                     (case user_row (w_db w) (pk_user k) of
                        None \<Rightarrow> (Server_error, spent_challenge w)
                      | Some u \<Rightarrow>
                         if \<not> enabled u then (Json_error 401, spent_challenge w)
                         else (case check_assertion e (user_policy (w_db w) u) k (body_of rq) ch of
                                 Exn x \<Rightarrow> (Server_error, spent_challenge w)
                               | Ret (Inl n) \<Rightarrow> (Json_error n, spent_challenge w)
                               | Ret (Inr (v, f)) \<Rightarrow>
                                   finish_sign_in e rq u (used_passkey (rq_now rq) v f k) (spent_challenge w)))))
         | _ \<Rightarrow> (Server_error, spent_challenge w))
     | _ \<Rightarrow> (Json_error 400, spent_challenge w))"
  unfolding passkey_authenticate_def Let_def case_prod_unfold pop_item_simps kept_email spent_challenge_def [symmetric]
    spent_challenge_simps
  by simp

lemma finish_sign_in_state:
  assumes "finish_sign_in e rq u k w = (a, w')"
  shows "w_db w' = put_passkey k (w_db w) \<and> w_user w' = Some (email u) \<and> w_new_key w'
    \<and> (dict_get (w_session w) ''passkey_login_challenge'' = None \<longrightarrow>
        dict_get (w_session w') ''passkey_login_challenge'' = None)"
  using assms
  by (auto simp: finish_sign_in_def Let_def pop_item_def login_user_def clear_signin_def KEY_def
      clear_password_passkey_nudge_def)


section \<open>Setup links work once\<close>

lemma consume_setup_gone:
  "consume_setup h now raw ts = (True, ts') \<Longrightarrow> now \<le> later \<Longrightarrow> lookup_setup h later raw ts' = None"
proof -
  assume a: "consume_setup h now raw ts = (True, ts')" "now \<le> later"
  then have ts: "ts' = filter (\<lambda>t. \<not> (st_hash t = h raw \<and> st_expires t > now)) ts"
    by (simp add: consume_setup_def Let_def)
  show ?thesis
  proof (cases "find (\<lambda>t. st_hash t = h raw) ts'")
    case (Some t)
    then have "t \<in> set ts'" "st_hash t = h raw" by (auto simp: find_Some_iff)
    then have "\<not> st_expires t > later" using ts a(2) by auto
    then show ?thesis using Some by (simp add: lookup_setup_def)
  qed (simp add: lookup_setup_def)
qed

text \<open>A link that a request used for a passkey or a password admits no further request.\<close>

lemma flash_setup [simp]: "w_setup (flash c m w) = w_setup w" "w_setup (logout_and_clear w) = w_setup w"
  by (simp_all add: flash_def set_item_in_def logout_and_clear_def Let_def)

lemma setup_password_once:
  assumes "account_setup_password e rq later taken form raw w = (Redirect to, w')" "later \<le> t"
  shows "lookup_setup (we_sha256_hex e) t raw (w_setup w') = None"
  using assms
  by (auto simp: account_setup_password_def Let_def intro: consume_setup_gone
      split: option.splits if_splits prod.splits outcome.splits bool.splits)

lemma setup_register_once:
  assumes "account_setup_register e rq later taken raw w = (Json_ok to, w')" "later \<le> t"
  shows "lookup_setup (we_sha256_hex e) t raw (w_setup w') = None"
  using assms
  by (auto simp: account_setup_register_def Let_def intro: consume_setup_gone
      split: option.splits if_splits prod.splits outcome.splits bool.splits json.splits sum.splits)

section \<open>Examples\<close>

definition sample_lib :: webauthn where
  "sample_lib = \<lparr>wa_to_bytes = (\<lambda>j. case j of JStr s \<Rightarrow> Some s | _ \<Rightarrow> None), wa_from_bytes = (\<lambda>b. b),
     verify_registration_response = (\<lambda>_ _ _ _ _. None), registration_flags = (\<lambda>_. Exn OtherError),
     verify_authentication_response = (\<lambda>p c rp org pk n uv.
       if p = JObj [(''id'', JStr ''k1''), (''sig'', JStr (pk @ c))]
       then Some \<lparr>a_sign_count = n + 1, a_device_type = ''single_device'', a_backed_up = False, a_user_verified = True\<rparr>
       else None),
     authentication_flags = (\<lambda>_. Ret \<lparr>fl_up = True, fl_uv = True, fl_be = False, fl_bs = False\<rparr>)\<rparr>"

definition sample_web_env :: "(string, sval) dict web_env" where
  "sample_web_env = \<lparr>we_site = sample_site,
     we_wa = \<lparr>ws_lib = sample_lib, rp_id_cfg = None, ws_hostname = ''mail.x.org'', url_root = ''https://mail.x.org/'',
              py_str = (\<lambda>_. [])\<rparr>,
     we_enc = Some, we_valid_address = (\<lambda>_. True), we_valid_domain = (\<lambda>_. True), we_filler_mac = (\<lambda>m. m),
     we_sha256_hex = (\<lambda>x. x), we_url_for = (\<lambda>x. ''/'' @ x), we_setup_url = (\<lambda>x. x), we_limits = sample_rl,
     we_crypto = sample_crypto, we_store = dict_store, we_sessions = sample_cfg, we_setup_ttl = 3600\<rparr>"

definition sample_passkey :: passkey where
  "sample_passkey = \<lparr>credential_id = ''k1'', pk_user = ''joe@x.org'', public_key = ''pub'', sign_count = 3, aaguid = [],
     device_bound = None, user_verified = None, user_present = None, backup_eligible = None,
     attestation_format = None, credential_device_type = None, backed_up = None, last_used_at = None, pk_name = ''key''\<rparr>"

definition sample_web :: "(string, sval) dict web" where
  "sample_web = \<lparr>w_db = empty_db\<lparr>users := [sample_user ''joe'' ''x.org''], passkeys := [sample_passkey]\<rparr>, w_setup = [],
     w_session = [(''passkey_login_challenge'', JStr ''c7''), (''passkey_login_email'', JStr ''joe@x.org'')],
     w_user = None, w_new_key = False, w_store = []\<rparr>"

definition sample_assertion :: request where
  "sample_assertion = \<lparr>rq_json = Some (JObj [(''id'', JStr ''k1''), (''sig'', JStr ''pubc7'')]), rq_csrf_ok = True,
     rq_now = 5, rq_random = ''n''\<rparr>"

lemma sample_sign_in:
  "\<exists>d p c w'. passkey_authenticate sample_web_env sample_assertion sample_web = (Signed_in d p c, w')"
proof -
  have "check_assertion sample_web_env default_policy sample_passkey (JObj [(''id'', JStr ''k1''), (''sig'', JStr ''pubc7'')]) ''c7''
     = Ret (Inr (\<lparr>a_sign_count = 1, a_device_type = ''single_device'', a_backed_up = False, a_user_verified = True\<rparr>,
            \<lparr>fl_up = True, fl_uv = True, fl_be = False, fl_bs = False\<rparr>))"
    by (simp add: check_assertion_def sample_web_env_def sample_lib_def aaguid_allowed_def default_policy_def
        sample_passkey_def authenticator_flags_allowed_def authenticator_flag_policy_errors_def sign_count_allowed_def)
  moreover have "user_policy (w_db sample_web) (sample_user ''joe'' ''x.org'') = default_policy"
    by (simp add: user_policy_def sample_web_def empty_db_def)
  moreover have "user_row (w_db sample_web) ''joe@x.org'' = Some (sample_user ''joe'' ''x.org'')"
    by (simp add: user_row_def sample_web_def sample_user_def)
  moreover have "enabled (sample_user ''joe'' ''x.org'')" "pk_user sample_passkey = ''joe@x.org''"
    by (simp_all add: sample_user_def sample_passkey_def)
  moreover have "wa_to_bytes (ws_lib (we_wa sample_web_env)) (JStr ''k1'') = Some ''k1''"
    by (simp add: sample_web_env_def sample_lib_def)
  moreover have "passkeys (w_db sample_web) = [sample_passkey]" "credential_id sample_passkey = ''k1''"
    by (simp_all add: sample_web_def sample_passkey_def)
  moreover have "rq_csrf_ok sample_assertion" "body_of sample_assertion = JObj [(''id'', JStr ''k1''), (''sig'', JStr ''pubc7'')]"
    by (simp_all add: sample_assertion_def body_of_def)
  moreover have "get_default (w_session sample_web) ''passkey_login_challenge'' JNull = JStr ''c7''"
    "get_default (w_session sample_web) ''passkey_login_email'' JNull = JStr ''joe@x.org''"
    by (simp_all add: sample_web_def get_default_def dict_get_def)
  moreover have "get_default [(''id'', JStr ''k1''), (''sig'', JStr ''pubc7'')] ''id'' (JStr []) = JStr ''k1''"
    by (simp add: get_default_def dict_get_def)
  moreover have "\<exists>d p c w'. finish_sign_in e rq u k w = (Signed_in d p c, w')" for e rq u k and w :: "(string, sval) dict web"
    by (simp add: finish_sign_in_def Let_def split: prod.splits)
  ultimately show ?thesis by (simp add: passkey_authenticate_eq)
qed

end
