(* ===== verification/Login_Views.thy ===== *)
theory Login_Views
  imports Passkey_Views
begin

text \<open>
  Password sign-in, the forced password change, logout and sign-in by a proxy header
  (\<open>src/core/admin/mailu/sso/views/base.py\<close>): the composition of destinations, rate limiting,
  the credential check, session renewal and required actions.

  The client address is normalised where it enters.  A form is given when it validates.
\<close>

section \<open>State\<close>

text \<open>The web state with the credential cache and the storage of the limiter.\<close>

type_synonym ('s, 'l) login_state = "'s web \<times> cache \<times> 'l"

text \<open>The fields of the form; the destination is the submitted one, or the default where none is.\<close>

record login_form =
  lf_email :: string
  lf_pw :: string
  lf_destination :: string
  lf_explicit :: bool
  lf_admin :: bool
  lf_webmail :: bool
  lf_pwned :: string

record login_request =
  lr_base :: request
  lr_ip :: ip
  lr_here :: url
  lr_get :: bool
  lr_url_arg :: "string option"
  lr_preference :: "string option"
  lr_rate_cookie :: "string option"

definition cookie_name :: "(string \<times> string) option \<Rightarrow> string option" where
  "cookie_name c = map_option snd c"

text \<open>Where the user goes after signing in: the page of the first required action, if there is one.
  None is a raised ValueError.\<close>

definition queue_actions ::
  "'s web_env \<Rightarrow> url \<Rightarrow> user \<Rightarrow> string \<Rightarrow> 's web \<Rightarrow> (string \<times> 's web) option" where
  "queue_actions e here u dest w =
     (let actions = user_required_actions (we_site e) (w_db w) u in
      case actions of
        [] \<Rightarrow> Some (dest, w)
      | a # _ \<Rightarrow>
          (case require_actions here actions (Some dest) (w_session w) of
             None \<Rightarrow> None
           | Some s \<Rightarrow> Some (case ACTION_ENDPOINTS a of Some h \<Rightarrow> we_url_for e h | None \<Rightarrow> [],
                            w\<lparr>w_session := s\<rparr>)))"

definition nudge_text :: "'s web_env \<Rightarrow> string" where
  "nudge_text e = ''<span '' @ PASSWORD_NUDGE_MARKER
     @ ''>For phishing-resistant sign-in, use a passkey next time. <a href=''
     @ [CHR 0x22] @ we_url_for e ''ui.passkey_list'' @ [CHR 0x22] @ ''>Manage passkeys</a>.</span>''"

section \<open>Signing in with a password\<close>

text \<open>What follows a correct password.\<close>

definition password_accepted ::
  "'s web_env \<Rightarrow> login_request \<Rightarrow> login_form \<Rightarrow> string \<Rightarrow> user \<Rightarrow> 's web \<Rightarrow> answer \<times> 's web" where
  "password_accepted e lr form dest u w =
     (let w1 = login_user u (w\<lparr>w_session := clear_signin (w_session w), w_new_key := True\<rparr>);
          w2 = flash ''info'' (nudge_text e) w1
      in case queue_actions e (lr_here lr) u dest w2 of
           None \<Rightarrow> (Server_error, w2)
         | Some (to, w3) \<Rightarrow>
             (case isBadOrPwned (Some (lf_pw form)) (Some (lf_pwned form)) of
                Exn x \<Rightarrow> (Server_error, w3)
              | Ret msg \<Rightarrow>
                  (Signed_in to (remember_preference (we_site e) dest)
                     (device_cookie (we_limits e) (lf_email form) (rq_random (lr_base lr))),
                   (case msg of Some m \<Rightarrow> flash ''error'' m w3 | None \<Rightarrow> w3))))"

definition selected_target :: "string option \<Rightarrow> login_form \<Rightarrow> string" where
  "selected_target target form =
     (case target of
        Some t \<Rightarrow> t
      | None \<Rightarrow> if lf_admin form then ''admin'' else if lf_webmail form then ''webmail'' else lf_destination form)"

definition submit_login ::
  "'s web_env \<Rightarrow> 'l limits_lib \<Rightarrow> login_request \<Rightarrow> string option \<Rightarrow> login_form \<Rightarrow> ('s, 'l) login_state \<Rightarrow>
   answer \<times> ('s, 'l) login_state" where
  "submit_login e L lr target form s =
     (case s of (w, cache, l) \<Rightarrow>
        let c = we_site e; now = rq_now (lr_base lr); cfg = we_limits e; username = lf_email form;
            explicit = (target \<noteq> None \<or> lf_explicit form \<or> lf_admin form \<or> lf_webmail form);
            (waiting, s1) = pending c now (w_session w);
            (dest, s2) = resolve c now (lr_preference lr)
              (if explicit \<or> waiting = None then Some (selected_target target form) else None) s1;
            w = w\<lparr>w_session := s2\<rparr>;
            cookie = parse_device_cookie cfg (lr_rate_cookie lr)
        in case dest of
             None \<Rightarrow> (Abort 404, (w, cache, l))
           | Some dest \<Rightarrow>
               if Some username \<noteq> cookie_name cookie \<and> should_rate_limit_ip L cfg (lr_ip lr) l
               then (Page, (flash ''error'' ''Too many attempts from your IP (rate-limit)'' w, cache, l))
               else if should_rate_limit_user L cfg username (lr_ip lr) cookie l
               then (Page, (flash ''error'' ''Too many attempts for this user (rate-limit)'' w, cache, l))
               else (case user_login (we_enc e) (we_crypto e) (passkey_required c) username (lf_pw form)
                        \<lparr>a_db = w_db w, a_cache = cache\<rparr> of
                  Exn x \<Rightarrow> (Server_error, (w, cache, l))
                | Ret (Some u, st) \<Rightarrow>
                    (case password_accepted e lr form dest u (w\<lparr>w_db := a_db st\<rparr>) of
                       (a, w') \<Rightarrow> (a, (w', a_cache st, l)))
                | Ret (None, st) \<Rightarrow>
                    (let w1 = w\<lparr>w_db := a_db st\<rparr> in
                     case get_user (we_enc e) (w_db w1) username of
                       Exn x \<Rightarrow> (Server_error, (w1, a_cache st, l))
                     | Ret None \<Rightarrow>
                         (Page, (flash ''error'' ''Wrong e-mail or password'' w1, a_cache st,
                                 rate_limit_ip L cfg (lr_ip lr) (Some username) l))
                     | Ret (Some u) \<Rightarrow>
                         (let l' = rate_limit_user L cfg username (lr_ip lr) cookie (lf_pw form) l in
                          if enabled u \<and> passkeys_of (w_db w1) u \<noteq> [] then
                            (case check_password (we_crypto e) u (lf_pw form) (a_cache st) of
                               Exn x \<Rightarrow> (Server_error, (w1, a_cache st, l'))
                             | Ret (ok, u', cache') \<Rightarrow>
                                 (Page, (flash (if ok then ''info'' else ''error'')
                                    (if ok then ''This account uses passkeys. Select '' @ [CHR 0xE2, CHR 0x80, CHR 0x9C] @ ''Use a passkey''
                                          @ [CHR 0xE2, CHR 0x80, CHR 0x9D] @ '' to sign in.''
                                     else ''Wrong e-mail or password'')
                                    (w1\<lparr>w_db := put_user u' (w_db w1)\<rparr>), cache', l')))
                          else (Page, (flash ''error'' ''Wrong e-mail or password'' w1, a_cache st, l'))))))"

text \<open>The route before the form: a target in the path or a legacy \<open>url\<close> argument is remembered, and
  a signed-in user is sent on.  \<open>proxy\<close> is the sign-in by proxy header where that header is sent;
  \<open>form\<close> is the submitted form when it validates.\<close>

definition enter_login ::
  "'s web_env \<Rightarrow> login_request \<Rightarrow> string option \<Rightarrow> 's web \<Rightarrow> 's web option" where
  "enter_login e lr target w =
     (let c = we_site e; now = rq_now (lr_base lr) in
      case target of
        Some t \<Rightarrow>
          (case target_path c t of
             None \<Rightarrow> None
           | Some p \<Rightarrow> Some (w\<lparr>w_session := snd (remember c now (JStr p) (clear_signin (w_session w)))\<rparr>))
      | None \<Rightarrow>
          (case lr_url_arg lr of
             Some u \<Rightarrow> Some (if lr_get lr then w\<lparr>w_session := snd (remember c now (JStr u) (w_session w))\<rparr> else w)
           | None \<Rightarrow> Some w))"

definition consent_text :: string where
  "consent_text = ''After signing in, you will be redirected to approve this mail app''
     @ [CHR 0xE2, CHR 0x80, CHR 0x99] @ ''s requested access.''"

definition asks_consent :: "'s web_env \<Rightarrow> string option \<Rightarrow> bool" where
  "asks_consent e waiting \<longleftrightarrow>
     (case Option.bind waiting urlsplit of
        None \<Rightarrow> False | Some u \<Rightarrow> path u = rstrip_slashes (web_admin (we_site e)) @ ''/oauth2/authorize'')"

definition login ::
  "'s web_env \<Rightarrow> 'l limits_lib \<Rightarrow> login_request \<Rightarrow> string option \<Rightarrow> ('s web \<Rightarrow> answer \<times> 's web) option \<Rightarrow>
   login_form option \<Rightarrow> ('s, 'l) login_state \<Rightarrow> answer \<times> ('s, 'l) login_state" where
  "login e L lr target proxy form s =
     (case s of (w, cache, l) \<Rightarrow>
        (case enter_login e lr target w of
           None \<Rightarrow> (Abort 404, s)
         | Some w1 \<Rightarrow>
             (case proxy of
                Some f \<Rightarrow> (case f w1 of (a, w') \<Rightarrow> (a, (w', cache, l)))
              | None \<Rightarrow>
                  if w_user w1 \<noteq> None then
                    (case resolve (we_site e) (rq_now (lr_base lr)) (lr_preference lr) target (w_session w1) of
                       (Some d, s') \<Rightarrow> (Redirect d, (w1\<lparr>w_session := s'\<rparr>, cache, l))
                     | (None, s') \<Rightarrow> (Abort 404, (w1\<lparr>w_session := s'\<rparr>, cache, l)))
                  else
                    (let (waiting, s1) = pending (we_site e) (rq_now (lr_base lr)) (w_session w1);
                         w2 = set_item_in ''passkey_login_redirect''
                                (case waiting of Some d \<Rightarrow> JStr d | None \<Rightarrow> JNull)
                                (if lr_get lr \<and> asks_consent e waiting then flash ''info'' consent_text (w1\<lparr>w_session := s1\<rparr>)
                                 else w1\<lparr>w_session := s1\<rparr>)
                     in case form of
                          None \<Rightarrow> (Page, (w2, cache, l))
                        | Some fm \<Rightarrow> submit_login e L lr target fm (w2, cache, l)))))"

section \<open>Password change at sign-in\<close>

record change_form =
  cf_old :: string
  cf_pw :: string
  cf_pw2 :: string
  cf_pwned :: string

text \<open>\<open>keep_sessions\<close> is the set of the session's own keys, \<open>set(flask.session)\<close>.\<close>

definition pw_change ::
  "'s web_env \<Rightarrow> request \<Rightarrow> user \<Rightarrow> change_form option \<Rightarrow> 's web \<times> cache \<Rightarrow> answer \<times> 's web \<times> cache" where
  "pw_change e rq u form s =
     (case s of (w, cache) \<Rightarrow>
        if is_demo_account u then (Page, s)
        else if passkeys_of (w_db w) u \<noteq> [] \<or> passkey_required (we_site e) then
          (Redirect (we_url_for e ''ui.passkey_list''),
           flash ''info'' ''Password sign-in is disabled because passkeys are required.'' w, cache)
        else (case form of
          None \<Rightarrow> (Page, s)
        | Some fm \<Rightarrow>
            (let again = Redirect (we_url_for e ''sso.pw_change'') in
             case isBadOrPwned (Some (cf_pw fm)) (Some (cf_pwned fm)) of
               Exn x \<Rightarrow> (Server_error, s)
             | Ret (Some msg) \<Rightarrow> (again, flash ''error'' msg w, cache)
             | Ret None \<Rightarrow>
                 if cf_old fm = cf_pw2 fm then
                   (again, flash ''error'' ''The new password can't be the same as the old password'' w, cache)
                 else if cf_pw fm \<noteq> cf_pw2 fm then
                   (again, flash ''error'' ''The new passwords don't match'' w, cache)
                 else (case user_login (we_enc e) (we_crypto e) (passkey_required (we_site e)) (email u) (cf_old fm)
                         \<lparr>a_db = w_db w, a_cache = cache\<rparr> of
                    Exn x \<Rightarrow> (Server_error, s)
                  | Ret (None, st) \<Rightarrow>
                      (Page, flash ''error'' ''The current password is incorrect!'' (w\<lparr>w_db := a_db st\<rparr>), a_cache st)
                  | Ret (Some v, st) \<Rightarrow>
                      (let w1 = login_user v (w\<lparr>w_db := a_db st, w_new_key := True\<rparr>) in
                       case set_password (we_store e) (we_sessions e) (we_crypto e) (rq_now rq) False
                              (Some (set (dict_keys (w_session w1)))) True (v\<lparr>change_pw_next_login := False\<rparr>)
                              (cf_pw fm) (w_db w1, w_store w1) of
                         (d', st') \<Rightarrow>
                           (let w2 = w1\<lparr>w_db := d', w_store := st'\<rparr> in
                            case complete_action (we_site e) (we_url_for e) ''password_change'' (w_session w2) of
                              Exn x \<Rightarrow> (Server_error, w2, a_cache st)
                            | Ret (to, s') \<Rightarrow> (Redirect to, w2\<lparr>w_session := s'\<rparr>, a_cache st)))))))"

definition logout :: "'s web_env \<Rightarrow> string option \<Rightarrow> 's web \<Rightarrow> answer \<times> 's web" where
  "logout e proxy_logout_url w =
     (Redirect (case proxy_logout_url of Some u \<Rightarrow> (if u = [] then we_url_for e ''.login'' else u)
                | None \<Rightarrow> we_url_for e ''.login''),
      (logout_and_clear w)\<lparr>w_new_key := True\<rparr>)"

section \<open>Signing in by proxy header\<close>

record proxy_auth =
  pa_whitelist :: "network list"
  pa_create :: bool
  pa_new_user :: "string \<Rightarrow> string \<Rightarrow> user"

text \<open>\<open>forwarded_by\<close> is the address of the proxy, None where it does not parse.\<close>

definition proxy_login ::
  "'s web_env \<Rightarrow> proxy_auth \<Rightarrow> login_request \<Rightarrow> ip option \<Rightarrow> string option \<Rightarrow> 's web \<Rightarrow> answer \<times> 's web" where
  "proxy_login e pa lr forwarded_by mail w =
     (case (forwarded_by, mail) of
        (None, _) \<Rightarrow> (Server_error, w)
      | (Some a, m) \<Rightarrow>
          if \<not> list_ex (in_network a) (pa_whitelist pa) then (Abort 500, w)
          else if m = None \<or> m = Some [] then (Abort 500, w)
          else
            let c = we_site e; mail = the m;
                (dest, s1) = resolve c (rq_now (lr_base lr)) (lr_preference lr) None (w_session w)
            in case dest of
                 None \<Rightarrow> (Abort 404, w\<lparr>w_session := s1\<rparr>)
               | Some dest \<Rightarrow>
                  (let w1 = w\<lparr>w_session := clear_signin s1\<rparr>;
                       enter = (\<lambda>u w2. case queue_actions e (lr_here lr) u dest (login_user u (w2\<lparr>w_new_key := True\<rparr>)) of
                          None \<Rightarrow> (Server_error, login_user u (w2\<lparr>w_new_key := True\<rparr>))
                        | Some (to, w3) \<Rightarrow> (Signed_in to (remember_preference c dest) [], w3))
                   in case get_user (we_enc e) (w_db w1) mail of
                        Exn x \<Rightarrow> (Server_error, w1)
                      | Ret (Some u) \<Rightarrow> enter u w1
                      | Ret None \<Rightarrow>
                          if \<not> pa_create pa then (Abort 500, w1)
                          else (case split_on CHR ''@'' mail of
                            [lp, dn] \<Rightarrow>
                              (case get_domain (we_enc e) (w_db w1) dn of
                                 Exn x \<Rightarrow> (Server_error, w1)
                               | Ret None \<Rightarrow> (Abort 500, w1)
                               | Ret (Some dm) \<Rightarrow>
                                   if max_users dm \<noteq> -1
                                      \<and> int (length (filter (\<lambda>u. user_domain u = domain_name dm) (users (w_db w1)))) \<ge> max_users dm
                                   then (Abort 500, w1)
                                   else if \<not> is_valid_localpart (we_valid_address e) lp then (Server_error, w1)
                                   else
                                     let u = (pa_new_user pa (lower lp) (domain_name dm))
                                               \<lparr>password := cr_hash (we_crypto e) (rq_random (lr_base lr))\<rparr>
                                     in enter u (w1\<lparr>w_db := (w_db w1)\<lparr>users := users (w_db w1) @ [u]\<rparr>\<rparr>))
                          | _ \<Rightarrow> (Abort 500, w1))))"

section \<open>What a sign-in implies\<close>

lemma user_login_ok:
  assumes "user_login enc cr required mail pw s = Ret (Some u, s')"
  shows "\<not> required \<and> (\<exists>u0. get_user enc (a_db s) mail = Ret (Some u0) \<and> enabled u0 \<and> passkeys_of (a_db s) u0 = []
    \<and> check_password cr u0 pw (a_cache s) = Ret (True, u, a_cache s') \<and> a_db s' = put_user u (a_db s))"
  using assms unfolding user_login_def
  by (auto split: option.splits if_splits prod.splits)

lemma flash_frame [simp]:
  "w_db (flash c m w) = w_db w" "w_user (flash c m w) = w_user w" "w_new_key (flash c m w) = w_new_key w"
  "pending_actions (w_session (flash c m w)) = pending_actions (w_session w)"
  by (simp_all add: flash_def set_item_in_def Let_def)

lemma clear_signin_pending [simp]: "pending_actions (clear_signin s) = pending_actions s"
  by (simp add: clear_signin_def KEY_def)

lemma queue_actions_state:
  assumes "queue_actions e here u dest w = Some (to, w')"
  shows "w_db w' = w_db w \<and> w_user w' = w_user w \<and> w_new_key w' = w_new_key w
    \<and> pending_actions (w_session w') = add_actions (pending_actions (w_session w)) (user_required_actions (we_site e) (w_db w) u)
    \<and> (user_required_actions (we_site e) (w_db w) u = [] \<longrightarrow> to = dest)"
  using assms
  by (auto simp: queue_actions_def Let_def add_actions_def dest: require_actions_pending
      split: list.splits option.splits)

lemma password_accepted_state:
  assumes "password_accepted e lr form dest u w = (Signed_in to pref cookie, w')"
  shows "w_db w' = w_db w \<and> w_user w' = Some (email u) \<and> w_new_key w'
    \<and> set (user_required_actions (we_site e) (w_db w) u) \<subseteq> set (pending_actions (w_session w'))
    \<and> cookie = device_cookie (we_limits e) (lf_email form) (rq_random (lr_base lr))"
proof -
  let ?w = "flash ''info'' (nudge_text e) (login_user u (w\<lparr>w_session := clear_signin (w_session w), w_new_key := True\<rparr>))"
  obtain t w3 where q: "queue_actions e (lr_here lr) u dest ?w = Some (t, w3)"
    using assms by (auto simp: password_accepted_def Let_def split: option.splits)
  obtain msg where m: "isBadOrPwned (Some (lf_pw form)) (Some (lf_pwned form)) = Ret msg"
    using assms q by (auto simp: password_accepted_def Let_def split: outcome.splits)
  have "w' = (case msg of Some m \<Rightarrow> flash ''error'' m w3 | None \<Rightarrow> w3)"
    "cookie = device_cookie (we_limits e) (lf_email form) (rq_random (lr_base lr))"
    using assms q m by (simp_all add: password_accepted_def Let_def)
  then show ?thesis using queue_actions_state [OF q] by (auto simp: login_user_def split: option.splits)
qed

lemma password_accepted_plain:
  assumes "user_required_actions (we_site e) (w_db w) u = []"
    and "isBadOrPwned (Some (lf_pw form)) (Some (lf_pwned form)) = Ret msg"
  shows "\<exists>to pref dc w'. password_accepted e lr form dest u w = (Signed_in to pref dc, w')"
  using assms by (simp add: password_accepted_def queue_actions_def login_user_def Let_def)

lemma refused_branch: "\<lbrakk>(if P then x else y) = r; fst x \<noteq> fst r\<rbrakk> \<Longrightarrow> \<not> P \<and> y = r"
  by (auto split: if_splits)

text \<open>
  C8. A password signs a user in only if the name is not rate limited, and neither is the network
  unless a valid device cookie for the name lifts that limit, the user is enabled, has no passkey, none
  is required of everybody, and the password check succeeds; the session then gets a new key and
  every action required of the user is outstanding in it.
\<close>
theorem password_login_sound:
  assumes "submit_login e L lr target form (w, cache, l) = (Signed_in to pref dc, (w', cache', l'))"
  defines "cookie \<equiv> parse_device_cookie (we_limits e) (lr_rate_cookie lr)"
  shows "\<exists>u0 u. (should_rate_limit_ip L (we_limits e) (lr_ip lr) l \<longrightarrow> cookie_name cookie = Some (lf_email form))
    \<and> \<not> should_rate_limit_user L (we_limits e) (lf_email form) (lr_ip lr) cookie l
    \<and> get_user (we_enc e) (w_db w) (lf_email form) = Ret (Some u0) \<and> enabled u0 \<and> passkeys_of (w_db w) u0 = []
    \<and> \<not> passkey_required (we_site e) \<and> check_password (we_crypto e) u0 (lf_pw form) cache = Ret (True, u, cache')
    \<and> w_user w' = Some (email u) \<and> w_new_key w' \<and> l' = l
    \<and> set (user_required_actions (we_site e) (w_db w') u) \<subseteq> set (pending_actions (w_session w'))"
proof -
  define c where "c = we_site e"
  obtain waiting s1 where p: "pending c (rq_now (lr_base lr)) (w_session w) = (waiting, s1)" by (rule prod.exhaust)
  let ?t = "if (target \<noteq> None \<or> lf_explicit form \<or> lf_admin form \<or> lf_webmail form) \<or> waiting = None
      then Some (selected_target target form) else None"
  obtain d s2 where r: "resolve c (rq_now (lr_base lr)) (lr_preference lr) ?t s1 = (d, s2)" by (rule prod.exhaust)
  let ?w = "w\<lparr>w_session := s2\<rparr>"
  note a = assms(1) [unfolded submit_login_def Let_def prod.case c_def [symmetric] p r cookie_def [symmetric]]
  obtain dest where d: "d = Some dest" using a by (cases d) simp_all
  note a = a [unfolded d option.case]
  from refused_branch [OF a] have i: "\<not> (Some (lf_email form) \<noteq> cookie_name cookie \<and> should_rate_limit_ip L (we_limits e) (lr_ip lr) l)"
    by simp
  note a = a [unfolded if_not_P [OF i]]
  from refused_branch [OF a] have n: "\<not> should_rate_limit_user L (we_limits e) (lf_email form) (lr_ip lr) cookie l"
    by simp
  note a = a [unfolded if_not_P [OF n]]
  let ?login = "user_login (we_enc e) (we_crypto e) (passkey_required c) (lf_email form) (lf_pw form) \<lparr>a_db = w_db ?w, a_cache = cache\<rparr>"
  obtain r where ul0: "?login = Ret r" using a by (cases ?login) simp_all
  obtain uo st where r: "r = (uo, st)" by (rule prod.exhaust)
  note a = a [unfolded ul0 r outcome.case prod.case]
  obtain u where uo: "uo = Some u"
  proof (cases uo)
    case None
    show thesis
    proof (cases "get_user (we_enc e) (w_db (?w\<lparr>w_db := a_db st\<rparr>)) (lf_email form)")
      case (Ret v)
      show thesis using a unfolding None Ret option.case outcome.case
        by (cases v) (simp_all split: if_splits outcome.splits prod.splits)
    qed (use a None in simp)
  qed (rule that)
  have ul: "?login = Ret (Some u, st)" using ul0 r uo by simp
  obtain a' w1 where pa: "password_accepted e lr form dest u (?w\<lparr>w_db := a_db st\<rparr>) = (a', w1)" by (rule prod.exhaust)
  have eq: "a' = Signed_in to pref dc" "w1 = w'" "a_cache st = cache'" "l' = l"
    using a [unfolded uo option.case pa prod.case] by simp_all
  note f = password_accepted_state [OF pa [unfolded eq]] and g = user_login_ok [OF ul]
  show ?thesis using f g i n eq by (auto simp: c_def)
qed

section \<open>Examples\<close>

definition sample_form :: login_form where
  "sample_form = \<lparr>lf_email = ''joe@x.org'', lf_pw = ''long enough'', lf_destination = ''webmail'', lf_explicit = True,
     lf_admin = False, lf_webmail = False, lf_pwned = ''0''\<rparr>"

definition sample_login_request :: login_request where
  "sample_login_request = \<lparr>lr_base = \<lparr>rq_json = None, rq_csrf_ok = True, rq_now = 5, rq_random = ''n''\<rparr>,
     lr_ip = V4 2, lr_here = host_base sample_site, lr_get = False, lr_url_arg = None, lr_preference = None,
     lr_rate_cookie = None\<rparr>"

definition sample_member :: user where
  "sample_member = (sample_user ''joe'' ''x.org'')\<lparr>password := ''$x$1$salt$long enough''\<rparr>"

definition sample_login_web :: "(string, sval) dict web" where
  "sample_login_web = sample_web\<lparr>w_db := empty_db\<lparr>users := [sample_member]\<rparr>, w_session := []\<rparr>"

lemma sample_member_simps [simp]:
  "email sample_member = ''joe@x.org''" "enabled sample_member" "password sample_member = ''$x$1$salt$long enough''"
  "change_pw_next_login sample_member = False" "passkey_enroll_next_login sample_member = False"
  by (simp_all add: sample_member_def sample_user_def)

lemma sample_member_check:
  "check_password sample_crypto sample_member ''long enough'' []
     = Ret (True, sample_member, [(''joe@x.org'', (''salt'', ''long enough''))])"
proof -
  have "split_on CHR ''$'' ''$x$1$salt$long enough'' = [[], ''x'', ''1'', ''salt'', ''long enough'']" by code_simp
  moreover have "strip_scheme ''$x$1$salt$long enough'' = ''$x$1$salt$long enough''" by code_simp
  ultimately show ?thesis
    by (simp add: check_password_def current_salt_def verify_slow_def sample_crypto_def Let_def)
qed

lemma sample_member_get: "get_user Some (w_db sample_login_web) ''joe@x.org'' = Ret (Some sample_member)"
proof -
  have "bind_email Some ''joe@x.org'' = Some ''joe@x.org''" by code_simp
  then show ?thesis by (simp add: get_user_def sample_login_web_def)
qed

lemma sample_accepted:
  "\<exists>to pref dc s'. submit_login sample_web_env counter_lib sample_login_request None sample_form
     (sample_login_web, [], (\<lambda>_. 0, [])) = (Signed_in to pref dc, s')"
proof -
  let ?d = "put_user sample_member (w_db sample_login_web)"
  have pend: "pending sample_site 5 [] = (None, [])"
    by (simp add: pending_def pending_state_def get_default_def dict_del_def Let_def)
  have res: "resolve sample_site 5 None (Some ''webmail'') [] = (Some ''/webmail'', [])"
    by (simp add: resolve_def target_path_def sample_site_def webmail_on_def upper_char_def is_lower_def code_in_def)
  have nk: "passkeys_of (w_db sample_login_web) sample_member = []"
    by (simp add: passkeys_of_def sample_login_web_def empty_db_def)
  have ul: "user_login Some sample_crypto False ''joe@x.org'' ''long enough'' \<lparr>a_db = w_db sample_login_web, a_cache = []\<rparr>
      = Ret (Some sample_member, \<lparr>a_db = ?d, a_cache = [(''joe@x.org'', (''salt'', ''long enough''))]\<rparr>)"
    by (simp add: user_login_def sample_member_get nk sample_member_check)
  have ip: "\<not> should_rate_limit_ip counter_lib sample_rl (V4 2) (\<lambda>_. 0, [])"
    "\<not> should_rate_limit_user counter_lib sample_rl ''joe@x.org'' (V4 2) None (\<lambda>_. 0, [])"
    by (simp_all add: should_rate_limit_ip_def should_rate_limit_user_def counter_lib_def)
  have bad: "isBadOrPwned (Some ''long enough'') (Some ''0'') = Ret None" by code_simp
  have acts: "user_required_actions sample_site ?d sample_member = []"
    by (simp add: user_required_actions_def passkeys_of_def user_policy_def put_user_def sample_login_web_def empty_db_def
        sample_site_def default_policy_def)
  have env: "we_site sample_web_env = sample_site" "we_limits sample_web_env = sample_rl" "we_enc sample_web_env = Some"
    "we_crypto sample_web_env = sample_crypto" "passkey_required sample_site = False"
    by (simp_all add: sample_web_env_def sample_site_def)
  have req: "rq_now (lr_base sample_login_request) = 5" "lr_preference sample_login_request = None"
    "lr_ip sample_login_request = V4 2" "lr_rate_cookie sample_login_request = None"
    "lf_email sample_form = ''joe@x.org''" "lf_pw sample_form = ''long enough''" "lf_pwned sample_form = ''0''"
    "lf_explicit sample_form = True" "selected_target None sample_form = ''webmail''" "w_session sample_login_web = []"
    by (simp_all add: sample_login_request_def sample_form_def selected_target_def sample_login_web_def)
  have "\<exists>to pref dc w'. password_accepted sample_web_env sample_login_request sample_form ''/webmail'' sample_member
      (sample_login_web\<lparr>w_session := [], w_db := ?d\<rparr>) = (Signed_in to pref dc, w')"
    by (intro password_accepted_plain) (simp_all add: env req bad acts)
  then show ?thesis
    by (auto simp: submit_login_def Let_def env req pend res ul ip parse_device_cookie_def cookie_name_def
        split: prod.splits)
qed

theorem password_login_sound_witness:
  "\<exists>to pref dc w' c' l'. submit_login sample_web_env counter_lib sample_login_request None sample_form
       (sample_login_web, [], (\<lambda>_. 0, [])) = (Signed_in to pref dc, (w', c', l'))
     \<and> w_user sample_login_web = None \<and> w_user w' = Some ''joe@x.org'' \<and> w_new_key w' \<and> l' = (\<lambda>_. 0, [])"
proof -
  obtain to pref dc w' c' l' where r: "submit_login sample_web_env counter_lib sample_login_request None sample_form
     (sample_login_web, [], (\<lambda>_. 0, [])) = (Signed_in to pref dc, (w', c', l'))"
    using sample_accepted by (metis prod_cases3)
  from password_login_sound [OF r] obtain u0 u where
    g: "get_user (we_enc sample_web_env) (w_db sample_login_web) (lf_email sample_form) = Ret (Some u0)"
      "check_password (we_crypto sample_web_env) u0 (lf_pw sample_form) [] = Ret (True, u, c')"
      "w_user w' = Some (email u)" "w_new_key w'" "l' = (\<lambda>_. 0, [])" by blast
  then have "w_user w' = Some ''joe@x.org''"
    by (simp add: sample_web_env_def sample_form_def sample_member_get sample_member_check)
  moreover have "w_user sample_login_web = None" by (simp add: sample_login_web_def sample_web_def)
  ultimately show ?thesis using r g(4,5) by blast
qed
end
