(* ===== verification/Api_Base.thy ===== *)
theory Api_Base
  imports Passkeys
begin

text \<open>
  What the endpoints of the REST API share (\<open>src/core/admin/mailu/api\<close>): the payload models that
  flask-restx checks before a handler runs (its verdict is an argument, the function \<open>ap_accepts\<close>), the call behind the authorization decorator of
  \<open>Nginx_Auth\<close>, values as they are stored, and the commit of a request's changes.

  An answer is a status code, or an unhandled exception (status 500); the messages are not
  modelled.  A handler that does not reach its commit leaves the database as it was, because its
  session is thrown away.  SQLite does not enforce foreign keys, so a commit only fails when a
  row does not bind or a primary key is taken.
\<close>

section \<open>Payload models\<close>

datatype field_type = F_String | F_Boolean | F_Integer "int option" | F_Enum "string list"
  | F_List field_type | F_Raw

type_synonym schema = "(string \<times> field_type \<times> bool) list"

type_synonym payload = "(string, json) dict"

fun has_type :: "field_type \<Rightarrow> json \<Rightarrow> bool" where
  "has_type F_String (JStr s) = True"
| "has_type F_Boolean (JBool b) = True"
| "has_type (F_Integer least) (JInt i) = (case least of None \<Rightarrow> True | Some m \<Rightarrow> m \<le> i)"
| "has_type (F_Enum vs) (JStr s) = (s \<in> set vs)"
| "has_type (F_List t) (JList xs) = list_all (has_type t) xs"
| "has_type F_Raw v = True"
| "has_type _ _ = False"

definition validates :: "schema \<Rightarrow> payload \<Rightarrow> bool" where
  "validates sch data \<longleftrightarrow>
     list_all (\<lambda>(k, t, needed). case dict_get data k of None \<Rightarrow> \<not> needed | Some v \<Rightarrow> has_type t v) sch"

text \<open>\<open>validates\<close> is what an accepted payload is known to satisfy.  The members of such a payload:\<close>

definition str_arg :: "payload \<Rightarrow> string \<Rightarrow> string option" where
  "str_arg data k = (case dict_get data k of Some (JStr s) \<Rightarrow> Some s | _ \<Rightarrow> None)"

definition bool_arg :: "payload \<Rightarrow> string \<Rightarrow> bool option" where
  "bool_arg data k = (case dict_get data k of Some (JBool b) \<Rightarrow> Some b | _ \<Rightarrow> None)"

definition int_arg :: "payload \<Rightarrow> string \<Rightarrow> int option" where
  "int_arg data k = (case dict_get data k of Some (JInt i) \<Rightarrow> Some i | _ \<Rightarrow> None)"

definition list_arg :: "payload \<Rightarrow> string \<Rightarrow> string list option" where
  "list_arg data k = (case dict_get data k of Some (JList xs) \<Rightarrow> Some (strings_of xs) | _ \<Rightarrow> None)"

text \<open>\<open>if k in data: row.field = data[k]\<close>.\<close>

definition given :: "'a option \<Rightarrow> ('a \<Rightarrow> 'r \<Rightarrow> 'r) \<Rightarrow> 'r \<Rightarrow> 'r" where
  "given v f r = (case v of None \<Rightarrow> r | Some x \<Rightarrow> f x r)"

section \<open>State and environment\<close>

datatype api_answer = Reply nat | Raised

record dkim_key =
  key_id :: nat
  key_domain :: string
  selector :: string
  algorithm :: string
  private_key :: string
  active :: bool
  retired :: bool

record 's api_state =
  ap_db :: db
  ap_keys :: "dkim_key list"
  ap_setups :: "setup_token list"
  ap_sessions :: 's

record 's api_env =
  ap_accepts :: "schema \<Rightarrow> payload \<Rightarrow> bool"
  ap_enc :: "string \<Rightarrow> string option"
  ap_dec :: "string \<Rightarrow> string"
  ap_valid_address :: "string \<Rightarrow> bool"
  ap_valid_domain :: "string \<Rightarrow> bool"
  ap_valid_ip :: "string \<Rightarrow> bool"
  ap_token :: string
  ap_crypto :: crypto
  ap_store :: "'s store"
  ap_session_cfg :: session_cfg
  ap_threshold :: int
  ap_setup_ttl :: int
  ap_sha256_hex :: "string \<Rightarrow> string"

definition valid_email :: "'s api_env \<Rightarrow> string \<Rightarrow> bool" where
  "valid_email e adr = is_valid_email (ap_enc e) (ap_valid_address e) (ap_valid_domain e) adr"

section \<open>Stored values and the commit\<close>

text \<open>What a name, an address and a list are after they were stored and read back; None when the
  column type raises.\<close>

definition stored_domain :: "'s api_env \<Rightarrow> string \<Rightarrow> string option" where
  "stored_domain e name = map_option (ap_dec e) (bind_domain (ap_enc e) name)"

definition stored_list :: "string list \<Rightarrow> string list option" where
  "stored_list xs = map_option (\<lambda>v. result_list (Some v)) (bind_list xs)"

definition keys_unique :: "(string \<Rightarrow> string option) \<Rightarrow> db \<Rightarrow> bool" where
  "keys_unique enc d \<longleftrightarrow>
     distinct (map (bind_domain enc) (map domain_name (domains d)))
     \<and> distinct (map (bind_domain enc) (map alt_name (alternatives d)))
     \<and> distinct (map (bind_domain enc) (map relay_name (relays d)))
     \<and> distinct (map (bind_email enc) (map email (users d)))
     \<and> distinct (map (bind_email enc) (map alias_email (aliases d)))"

text \<open>SQLite stores an integer in 64 bits; a larger one is an OverflowError.\<close>

definition int64 :: "int \<Rightarrow> bool" where
  "int64 i \<longleftrightarrow> - (2 ^ 63) \<le> i \<and> i < 2 ^ 63"

definition integers_fit :: "db \<Rightarrow> bool" where
  "integers_fit d \<longleftrightarrow>
     list_all (\<lambda>r. int64 (max_users r) \<and> int64 (max_aliases r) \<and> int64 (max_quota_bytes r)) (domains d)
     \<and> list_all (\<lambda>u. int64 (quota_bytes u) \<and> int64 (spam_threshold u)) (users d)"

definition commit :: "(string \<Rightarrow> string option) \<Rightarrow> 's api_state \<Rightarrow> db \<Rightarrow> api_answer \<times> 's api_state" where
  "commit enc s d' = (if keys_unique enc d' \<and> integers_fit d' then (Reply 200, s\<lparr>ap_db := d'\<rparr>) else (Raised, s))"

text \<open>A call: the payload is checked first, then the token, then the handler runs.\<close>

definition api_call ::
  "'l limits_lib \<Rightarrow> rl_cfg \<Rightarrow> 's api_env \<Rightarrow> string \<Rightarrow> (string, string) dict \<Rightarrow> bool \<Rightarrow>
   ('s api_state \<Rightarrow> api_answer \<times> 's api_state) \<Rightarrow> 's api_state \<times> 'l \<Rightarrow> api_answer \<times> 's api_state \<times> 'l" where
  "api_call L cfg e remote_addr hs payload_ok handler s =
     (case s of (st, l) \<Rightarrow>
        if \<not> payload_ok then (Reply 400, st, l)
        else (case api_token_authorization L cfg (ap_token e) remote_addr hs l of
                Exn x \<Rightarrow> (Raised, st, l)
              | Ret (Refused n msg, l') \<Rightarrow> (Reply n, st, l')
              | Ret (Admitted _, l') \<Rightarrow> (case handler st of (a, st') \<Rightarrow> (a, st', l'))))"

section \<open>Lemmas\<close>

lemma commit_cases:
  assumes "commit enc s d' = (a, s')"
  shows "s' = s \<and> a = Raised \<or> s' = s\<lparr>ap_db := d'\<rparr> \<and> a = Reply 200 \<and> keys_unique enc d' \<and> integers_fit d'"
  using assms by (auto simp: commit_def split: if_splits)

lemma valid_email_bind:
  assumes "valid_email e adr"
  shows "\<exists>lp dn k. rcut CHR ''@'' adr = Some (lp, dn) \<and> rcut CHR ''@'' (lower adr) = Some (lower lp, lower dn)
    \<and> ap_enc e (lower dn) = Some k \<and> bind_email (ap_enc e) adr = Some (lower lp @ ''@'' @ k)
    \<and> CHR ''@'' \<notin> set lp \<and> lp \<noteq> []"
proof -
  obtain lp dn where r: "rcut CHR ''@'' adr = Some (lp, dn)" and at: "CHR ''@'' \<notin> set lp"
    and k: "ap_enc e (lower dn) \<noteq> None" and l: "is_valid_localpart (ap_valid_address e) lp"
    using assms unfolding valid_email_def is_valid_email_def by (cases "rcut CHR ''@'' adr") auto
  obtain k' where k': "ap_enc e (lower dn) = Some k'" using k by auto
  have lr: "rcut CHR ''@'' (lower adr) = Some (lower lp, lower dn)" by (rule rcut_lower [OF r])
  have "bind_email (ap_enc e) adr = Some (lower lp @ ''@'' @ k')"
    using at k' lower_at [of lp] by (simp add: bind_email_def lr)
  then show ?thesis using r lr k' at l by (auto simp: is_valid_localpart_def)
qed

end
