(* ===== verification/Api_Domains.thy ===== *)
theory Api_Domains
  imports Api_Base
begin

text \<open>
  Domains, alternative names, domain managers and relays in the REST API
  (\<open>api/v1/domain.py\<close>, \<open>api/v1/relay.py\<close>), with the deletions that cascade over the rows of a
  user or a domain (the \<open>delete-orphan\<close> relationships of \<open>models.py\<close>).
\<close>

section \<open>Payload models\<close>

definition aaguid_modes :: "string list" where
  "aaguid_modes = [''allow'', ''block'']"

definition policy_levels :: "string list" where
  "policy_levels = [''optional'', ''require'', ''deny'']"

definition resident_kinds :: "string list" where
  "resident_kinds = [''discouraged'', ''preferred'', ''required'']"

definition policy_fields :: schema where
  "policy_fields =
     [(''passkey_require_enrollment'', F_Boolean, False),
      (''passkey_enforce_aaguid'', F_Boolean, False),
      (''passkey_aaguid_mode'', F_Enum aaguid_modes, False),
      (''passkey_aaguids'', F_String, False),
      (''passkey_require_uv'', F_Boolean, False),
      (''passkey_backup_eligible_policy'', F_Enum policy_levels, False),
      (''passkey_backup_state_policy'', F_Enum policy_levels, False),
      (''passkey_require_sign_count_increase'', F_Boolean, False),
      (''passkey_attestation_policy'', F_Enum policy_levels, False),
      (''passkey_device_bound'', F_Boolean, False),
      (''passkey_resident_key'', F_Enum resident_kinds, False)]"

definition domain_fields_update :: schema where
  "domain_fields_update =
     [(''comment'', F_String, False),
      (''max_users'', F_Integer (Some (- 1)), False),
      (''max_aliases'', F_Integer (Some (- 1)), False),
      (''max_quota_bytes'', F_Integer (Some 0), False),
      (''signup_enabled'', F_Boolean, False)]
     @ policy_fields @ [(''alternatives'', F_List F_String, False)]"

definition domain_fields :: schema where
  "domain_fields = (''name'', F_String, True) # domain_fields_update"

definition manager_fields_create :: schema where
  "manager_fields_create = [(''user_email'', F_String, True)]"

definition alternative_fields :: schema where
  "alternative_fields = [(''name'', F_String, True), (''domain'', F_String, True)]"

definition relay_fields_update :: schema where
  "relay_fields_update = [(''smtp'', F_String, False), (''comment'', F_String, False)]"

definition relay_fields :: schema where
  "relay_fields = (''name'', F_String, True) # relay_fields_update"

section \<open>Passkey policy of a domain\<close>

text \<open>One entry per member: the update it asks for, None where its value is refused.\<close>

definition flag_update ::
  "payload \<Rightarrow> string \<Rightarrow> (bool \<Rightarrow> passkey_policy \<Rightarrow> passkey_policy) \<Rightarrow> (passkey_policy \<Rightarrow> passkey_policy) option" where
  "flag_update data k f =
     (case dict_get data k of None \<Rightarrow> Some id | Some (JBool b) \<Rightarrow> Some (f b) | Some _ \<Rightarrow> None)"

definition choice_update ::
  "payload \<Rightarrow> string \<Rightarrow> string list \<Rightarrow> (string \<Rightarrow> passkey_policy \<Rightarrow> passkey_policy) \<Rightarrow>
   (passkey_policy \<Rightarrow> passkey_policy) option" where
  "choice_update data k allowed f =
     (case dict_get data k of
        None \<Rightarrow> Some id
      | Some (JStr v) \<Rightarrow> if v \<in> set allowed then Some (f v) else None
      | Some _ \<Rightarrow> None)"

definition aaguid_list_update :: "payload \<Rightarrow> (passkey_policy \<Rightarrow> passkey_policy) option" where
  "aaguid_list_update data =
     (case dict_get data ''passkey_aaguids'' of
        None \<Rightarrow> Some id
      | Some v \<Rightarrow> (case normalize_aaguids v of Ret s \<Rightarrow> Some (aaguids_update (\<lambda>_. s)) | Exn x \<Rightarrow> None))"

definition policy_updates :: "payload \<Rightarrow> (passkey_policy \<Rightarrow> passkey_policy) option list" where
  "policy_updates data =
     [flag_update data ''passkey_enforce_aaguid'' (\<lambda>b. enforce_aaguid_update (\<lambda>_. b)),
      choice_update data ''passkey_aaguid_mode'' aaguid_modes (\<lambda>v. aaguid_mode_update (\<lambda>_. v)),
      aaguid_list_update data,
      flag_update data ''passkey_require_enrollment'' (\<lambda>b. require_enrollment_update (\<lambda>_. b)),
      flag_update data ''passkey_require_uv'' (\<lambda>b. require_uv_update (\<lambda>_. b)),
      flag_update data ''passkey_device_bound'' (\<lambda>b. policy_device_bound_update (\<lambda>_. b)),
      flag_update data ''passkey_require_sign_count_increase'' (\<lambda>b. require_sign_count_increase_update (\<lambda>_. b)),
      choice_update data ''passkey_backup_eligible_policy'' policy_levels (\<lambda>v. backup_eligible_policy_update (\<lambda>_. v)),
      choice_update data ''passkey_backup_state_policy'' policy_levels (\<lambda>v. backup_state_policy_update (\<lambda>_. v)),
      choice_update data ''passkey_attestation_policy'' policy_levels (\<lambda>v. attestation_policy_update (\<lambda>_. v)),
      choice_update data ''passkey_resident_key'' resident_kinds (\<lambda>v. resident_key_update (\<lambda>_. v))]"

definition set_passkey_policy :: "payload \<Rightarrow> domain \<Rightarrow> domain option" where
  "set_passkey_policy data dm =
     (let us = policy_updates data in
      if list_ex Option.is_none us then None
      else Some (dm\<lparr>domain_policy := fold the us (domain_policy dm)\<rparr>))"

section \<open>Deletions\<close>

definition delete_user_rows :: "string \<Rightarrow> db \<Rightarrow> db" where
  "delete_user_rows who d =
     d\<lparr>users := filter (\<lambda>u. email u \<noteq> who) (users d),
       aliases := filter (\<lambda>a. owner_email a \<noteq> Some who) (aliases d),
       managers := filter (\<lambda>m. snd m \<noteq> who) (managers d),
       tokens := filter (\<lambda>t. token_user t \<noteq> who) (tokens d),
       passkeys := filter (\<lambda>p. pk_user p \<noteq> who) (passkeys d),
       codes := filter (\<lambda>c. code_user c \<noteq> who) (codes d),
       grants := filter (\<lambda>g. grant_user g \<noteq> who) (grants d),
       accesses := filter (\<lambda>a. access_user a \<noteq> Some who) (accesses d)\<rparr>"

definition delete_domain_rows :: "string \<Rightarrow> db \<Rightarrow> db" where
  "delete_domain_rows dn d =
     (let d1 = fold delete_user_rows (map email (filter (\<lambda>u. user_domain u = dn) (users d))) d in
      d1\<lparr>domains := filter (\<lambda>r. domain_name r \<noteq> dn) (domains d1),
         alternatives := filter (\<lambda>a. alt_domain a \<noteq> dn) (alternatives d1),
         aliases := filter (\<lambda>a. alias_domain a \<noteq> dn) (aliases d1),
         managers := filter (\<lambda>m. fst m \<noteq> dn) (managers d1),
         accesses := filter (\<lambda>a. access_domain a \<noteq> dn) (accesses d1)\<rparr>)"

section \<open>Domains\<close>

definition has_duplicates :: "string list \<Rightarrow> bool" where
  "has_duplicates xs \<longleftrightarrow> list_ex (\<lambda>x. 2 \<le> count_list xs x) xs"

fun check_alternatives :: "'s api_env \<Rightarrow> db \<Rightarrow> string list \<Rightarrow> api_answer option" where
  "check_alternatives e d [] = None"
| "check_alternatives e d (item # items) =
     (case fqdn_in_use (ap_enc e) d item of
        Exn x \<Rightarrow> Some Raised
      | Ret used \<Rightarrow>
          if used then Some (Reply 409)
          else if \<not> ap_valid_domain e item then Some (Reply 400)
          else check_alternatives e d items)"

text \<open>The rows of the requested_names alternative names; None when one does not bind.\<close>

fun alternative_rows :: "'s api_env \<Rightarrow> string \<Rightarrow> string list \<Rightarrow> alternative list option" where
  "alternative_rows e dn [] = Some []"
| "alternative_rows e dn (item # items) =
     (case (stored_domain e item, alternative_rows e dn items) of
        (Some n, Some rows) \<Rightarrow> Some (\<lparr>alt_name = n, alt_domain = dn\<rparr> # rows)
      | _ \<Rightarrow> None)"

definition alternatives_refused :: "'s api_env \<Rightarrow> db \<Rightarrow> string list option \<Rightarrow> api_answer option" where
  "alternatives_refused e d alts =
     (case alts of
        None \<Rightarrow> None
      | Some items \<Rightarrow> if has_duplicates items then Some (Reply 409) else check_alternatives e d items)"

definition requested_names :: "string list option \<Rightarrow> string list" where
  "requested_names alts = (case alts of None \<Rightarrow> [] | Some xs \<Rightarrow> xs)"

definition domain_members :: "payload \<Rightarrow> domain \<Rightarrow> domain" where
  "domain_members data dm =
     given (bool_arg data ''signup_enabled'') (\<lambda>b. signup_enabled_update (\<lambda>_. b))
       (given (int_arg data ''max_quota_bytes'') (\<lambda>i. max_quota_bytes_update (\<lambda>_. i))
         (given (int_arg data ''max_aliases'') (\<lambda>i. max_aliases_update (\<lambda>_. i))
           (given (int_arg data ''max_users'') (\<lambda>i. max_users_update (\<lambda>_. i))
             (given (str_arg data ''comment'') (\<lambda>c. domain_comment_update (\<lambda>_. c)) dm))))"

definition domain_post :: "'s api_env \<Rightarrow> payload \<Rightarrow> 's api_state \<Rightarrow> api_answer \<times> 's api_state" where
  "domain_post e data s =
     (let d = ap_db s; name = the (str_arg data ''name''); alts = list_arg data ''alternatives'' in
      if \<not> ap_valid_domain e name then (Reply 400, s)
      else case fqdn_in_use (ap_enc e) d name of
        Exn x \<Rightarrow> (Raised, s)
      | Ret used \<Rightarrow>
          if used then (Reply 409, s)
          else (case alternatives_refused e d alts of
            Some a \<Rightarrow> (a, s)
          | None \<Rightarrow>
              (case set_passkey_policy data (new_domain (the (stored_domain e name))) of
                 None \<Rightarrow> (Reply 400, s)
               | Some dm \<Rightarrow>
                   (case alternative_rows e (domain_name dm) (requested_names alts) of
                      None \<Rightarrow> (Raised, s)
                    | Some rows \<Rightarrow>
                        commit (ap_enc e) s
                          (d\<lparr>domains := domains d @ [domain_members data dm],
                             alternatives := alternatives d @ rows\<rparr>)))))"

definition put_domain :: "domain \<Rightarrow> db \<Rightarrow> db" where
  "put_domain dm d = d\<lparr>domains := map (\<lambda>r. if domain_name r = domain_name dm then dm else r) (domains d)\<rparr>"

text \<open>The row a path names, behind the check of the name; None stands for the answer given instead.\<close>

definition path_domain :: "'s api_env \<Rightarrow> db \<Rightarrow> string \<Rightarrow> api_answer + domain" where
  "path_domain e d name =
     (if \<not> ap_valid_domain e name then Inl (Reply 400)
      else case get_domain (ap_enc e) d name of
        Exn x \<Rightarrow> Inl Raised | Ret None \<Rightarrow> Inl (Reply 404) | Ret (Some dm) \<Rightarrow> Inr dm)"

definition domain_patch :: "'s api_env \<Rightarrow> string \<Rightarrow> payload \<Rightarrow> 's api_state \<Rightarrow> api_answer \<times> 's api_state" where
  "domain_patch e name data s =
     (let d = ap_db s; alts = list_arg data ''alternatives'' in
      case path_domain e d name of
        Inl a \<Rightarrow> (a, s)
      | Inr dm \<Rightarrow>
          (case alternatives_refused e d alts of
             Some a \<Rightarrow> (a, s)
           | None \<Rightarrow>
               (case set_passkey_policy data (domain_members data dm) of
                  None \<Rightarrow> (Reply 400, s)
                | Some dm' \<Rightarrow>
                    (case alternative_rows e (the (stored_domain e name)) (requested_names alts) of
                       None \<Rightarrow> (Raised, s)
                     | Some rows \<Rightarrow>
                         commit (ap_enc e) s
                           ((put_domain dm' d)\<lparr>alternatives := alternatives d @ rows\<rparr>)))))"

definition domain_delete :: "'s api_env \<Rightarrow> string \<Rightarrow> 's api_state \<Rightarrow> api_answer \<times> 's api_state" where
  "domain_delete e name s =
     (case path_domain e (ap_db s) name of
        Inl a \<Rightarrow> (a, s)
      | Inr dm \<Rightarrow>
          (case commit (ap_enc e) s (delete_domain_rows (domain_name dm) (ap_db s)) of
             (a, s') \<Rightarrow> (a, if a = Raised then s'
                            else s'\<lparr>ap_keys := filter (\<lambda>k. key_domain k \<noteq> domain_name dm) (ap_keys s')\<rparr>)))"

section \<open>Managers\<close>

text \<open>The domain and the user a call names; the address is checked first.\<close>

definition path_manager :: "'s api_env \<Rightarrow> db \<Rightarrow> string \<Rightarrow> string \<Rightarrow> api_answer + (domain \<times> user)" where
  "path_manager e d name adr =
     (if \<not> valid_email e adr then Inl (Reply 400)
      else case path_domain e d name of
        Inl a \<Rightarrow> Inl a
      | Inr dm \<Rightarrow> (case get_user (ap_enc e) d adr of
          Exn x \<Rightarrow> Inl Raised | Ret None \<Rightarrow> Inl (Reply 404) | Ret (Some u) \<Rightarrow> Inr (dm, u)))"

definition manager_post :: "'s api_env \<Rightarrow> string \<Rightarrow> payload \<Rightarrow> 's api_state \<Rightarrow> api_answer \<times> 's api_state" where
  "manager_post e name data s =
     (let d = ap_db s in
      case path_manager e d name (the (str_arg data ''user_email'')) of
        Inl a \<Rightarrow> (a, s)
      | Inr (dm, u) \<Rightarrow>
          if (domain_name dm, email u) \<in> set (managers d) then (Reply 409, s)
          else commit (ap_enc e) s (d\<lparr>managers := managers d @ [(domain_name dm, email u)]\<rparr>))"

definition manager_delete :: "'s api_env \<Rightarrow> string \<Rightarrow> string \<Rightarrow> 's api_state \<Rightarrow> api_answer \<times> 's api_state" where
  "manager_delete e name adr s =
     (let d = ap_db s in
      case path_manager e d name adr of
        Inl a \<Rightarrow> (a, s)
      | Inr (dm, u) \<Rightarrow>
          if (domain_name dm, email u) \<in> set (managers d)
          then commit (ap_enc e) s (d\<lparr>managers := filter (\<lambda>m. m \<noteq> (domain_name dm, email u)) (managers d)\<rparr>)
          else (Reply 404, s))"

section \<open>Alternative names\<close>

definition alternative_post :: "'s api_env \<Rightarrow> payload \<Rightarrow> 's api_state \<Rightarrow> api_answer \<times> 's api_state" where
  "alternative_post e data s =
     (let d = ap_db s; name = the (str_arg data ''name'') in
      if \<not> ap_valid_domain e name then (Reply 400, s)
      else case path_domain e d (the (str_arg data ''domain'')) of
        Inl a \<Rightarrow> (a, s)
      | Inr dm \<Rightarrow>
          (case fqdn_in_use (ap_enc e) d name of
             Exn x \<Rightarrow> (Raised, s)
           | Ret used \<Rightarrow>
               if used then (Reply 409, s)
               else commit (ap_enc e) s
                 (d\<lparr>alternatives := alternatives d
                     @ [\<lparr>alt_name = the (stored_domain e name),
                         alt_domain = the (stored_domain e (the (str_arg data ''domain'')))\<rparr>]\<rparr>)))"

definition alternative_delete :: "'s api_env \<Rightarrow> string \<Rightarrow> 's api_state \<Rightarrow> api_answer \<times> 's api_state" where
  "alternative_delete e name s =
     (let d = ap_db s in
      if \<not> ap_valid_domain e name then (Reply 400, s)
      else case get_alternative (ap_enc e) d name of
        Exn x \<Rightarrow> (Raised, s)
      | Ret None \<Rightarrow> (Reply 404, s)
      | Ret (Some a) \<Rightarrow>
          commit (ap_enc e) s (d\<lparr>alternatives := filter (\<lambda>r. alt_name r \<noteq> alt_name a) (alternatives d)\<rparr>))"

section \<open>Relays\<close>

definition relay_members :: "payload \<Rightarrow> relay \<Rightarrow> relay" where
  "relay_members data r =
     given (str_arg data ''comment'') (\<lambda>c. relay_comment_update (\<lambda>_. c))
       (given (str_arg data ''smtp'') (\<lambda>v. relay_smtp_update (\<lambda>_. Some v)) r)"

definition relay_post :: "'s api_env \<Rightarrow> payload \<Rightarrow> 's api_state \<Rightarrow> api_answer \<times> 's api_state" where
  "relay_post e data s =
     (let d = ap_db s; name = the (str_arg data ''name'') in
      if \<not> ap_valid_domain e name then (Reply 400, s)
      else case fqdn_in_use (ap_enc e) d name of
        Exn x \<Rightarrow> (Raised, s)
      | Ret used \<Rightarrow>
          if used then (Reply 409, s)
          else commit (ap_enc e) s
            (d\<lparr>relays := relays d @ [relay_members data
                 \<lparr>relay_name = the (stored_domain e name), relay_smtp = None, relay_comment = []\<rparr>]\<rparr>))"

definition path_relay :: "'s api_env \<Rightarrow> db \<Rightarrow> string \<Rightarrow> api_answer + relay" where
  "path_relay e d name =
     (if \<not> ap_valid_domain e name then Inl (Reply 400)
      else case get_relay (ap_enc e) d name of
        Exn x \<Rightarrow> Inl Raised | Ret None \<Rightarrow> Inl (Reply 404) | Ret (Some r) \<Rightarrow> Inr r)"

definition relay_patch :: "'s api_env \<Rightarrow> string \<Rightarrow> payload \<Rightarrow> 's api_state \<Rightarrow> api_answer \<times> 's api_state" where
  "relay_patch e name data s =
     (let d = ap_db s in
      case path_relay e d name of
        Inl a \<Rightarrow> (a, s)
      | Inr r \<Rightarrow> commit (ap_enc e) s
          (d\<lparr>relays := map (\<lambda>x. if relay_name x = relay_name r then relay_members data r else x) (relays d)\<rparr>))"

definition relay_delete :: "'s api_env \<Rightarrow> string \<Rightarrow> 's api_state \<Rightarrow> api_answer \<times> 's api_state" where
  "relay_delete e name s =
     (let d = ap_db s in
      case path_relay e d name of
        Inl a \<Rightarrow> (a, s)
      | Inr r \<Rightarrow> commit (ap_enc e) s (d\<lparr>relays := filter (\<lambda>x. relay_name x \<noteq> relay_name r) (relays d)\<rparr>))"

end
