(* ===== verification/Api_Users.thy ===== *)
theory Api_Users
  imports Api_Domains
begin

text \<open>
  Users, aliases and application tokens in the REST API (\<open>api/v1/user.py\<close>, \<open>api/v1/alias.py\<close>,
  \<open>api/v1/token.py\<close>).  Dates are proleptic ordinals, as \<open>datetime.date.toordinal\<close> counts them.
\<close>

section \<open>Payload models\<close>

definition user_fields_put :: schema where
  "user_fields_put =
     [(''raw_password'', F_String, False), (''comment'', F_String, False),
      (''quota_bytes'', F_Integer None, False), (''global_admin'', F_Boolean, False),
      (''enabled'', F_Boolean, False), (''change_pw_next_login'', F_Boolean, False),
      (''passkey_enroll_next_login'', F_Boolean, False), (''enable_imap'', F_Boolean, False),
      (''enable_pop'', F_Boolean, False), (''allow_spoofing'', F_Boolean, False),
      (''forward_enabled'', F_Boolean, False), (''forward_destination'', F_List F_String, False),
      (''forward_keep'', F_Boolean, False), (''reply_enabled'', F_Boolean, False),
      (''reply_subject'', F_String, False), (''reply_body'', F_String, False),
      (''reply_startdate'', F_String, False), (''reply_enddate'', F_String, False),
      (''displayed_name'', F_String, False), (''spam_enabled'', F_Boolean, False),
      (''spam_mark_as_read'', F_Boolean, False), (''spam_threshold'', F_Integer None, False)]"

definition user_fields_post :: schema where
  "user_fields_post = (''email'', F_String, True) # user_fields_put"

definition alias_fields_update :: schema where
  "alias_fields_update =
     [(''comment'', F_String, False), (''destination'', F_List F_String, False),
      (''wildcard'', F_Boolean, False), (''hostname'', F_String, False), (''disabled'', F_Boolean, False)]"

definition alias_fields :: schema where
  "alias_fields = alias_fields_update @ [(''email'', F_String, True), (''owner_email'', F_String, False),
     (''created_at'', F_String, False)]"

definition token_user_fields_post2 :: schema where
  "token_user_fields_post2 = [(''comment'', F_String, False), (''AuthorizedIP'', F_List F_String, False)]"

definition token_user_fields_post :: schema where
  "token_user_fields_post = (''email'', F_String, True) # token_user_fields_post2"

section \<open>Addresses and dates\<close>

text \<open>Local part and domain of an address after it was stored and read back.\<close>

definition stored_email :: "'s api_env \<Rightarrow> string \<Rightarrow> (string \<times> string) option" where
  "stored_email e adr =
     (case rcut CHR ''@'' (lower adr) of
        None \<Rightarrow> None
      | Some (lp, dn) \<Rightarrow> map_option (\<lambda>k. (lp, ap_dec e k)) (ap_enc e dn))"

definition date_ordinal :: "int \<Rightarrow> int \<Rightarrow> int \<Rightarrow> int" where
  "date_ordinal y m d =
     365 * (y - 1) + (y - 1) div 4 - (y - 1) div 100 + (y - 1) div 400
     + sum_list (map (month_days y) [1..m - 1]) + d"

definition parse_reply_date :: "string \<Rightarrow> int option" where
  "parse_reply_date value =
     (case split_on CHR ''-'' value of
        [y, m, d] \<Rightarrow>
          (case (py_int y, py_int m, py_int d) of
             (Some y, Some m, Some d) \<Rightarrow>
               if 1 \<le> y \<and> y \<le> 9999 \<and> date_ok (y, m, d, 0) then Some (date_ordinal y m d) else None
           | _ \<Rightarrow> None)
      | _ \<Rightarrow> None)"

text \<open>A member that must be a date when it is given; None where it is not one.\<close>

definition date_arg :: "payload \<Rightarrow> string \<Rightarrow> int option option" where
  "date_arg data k =
     (case str_arg data k of None \<Rightarrow> Some None | Some v \<Rightarrow> map_option Some (parse_reply_date v))"

section \<open>Users\<close>

definition new_user :: "'s api_env \<Rightarrow> string \<Rightarrow> string \<Rightarrow> user" where
  "new_user e lp dn = \<lparr>email = lp @ ''@'' @ dn, localpart = lp, user_domain = dn, password = [],
     quota_bytes = 1000000000, quota_bytes_used = 0, global_admin = False, enabled = True,
     enable_imap = True, enable_pop = True, allow_spoofing = False, forward_enabled = False,
     forward_destination = [], forward_keep = True, reply_enabled = False, reply_subject = None,
     reply_body = None, reply_body_html = None, reply_startdate = date_ordinal 1900 1 1,
     reply_enddate = date_ordinal 2999 12 31, displayed_name = [], spam_enabled = True,
     spam_mark_as_read = True, spam_threshold = ap_threshold e, change_pw_next_login = False,
     passkey_enroll_next_login = False, user_comment = []\<rparr>"

definition set_reply_body :: "string \<Rightarrow> user \<Rightarrow> user" where
  "set_reply_body v u = (if reply_body u = Some v then u else u\<lparr>reply_body := Some v, reply_body_html := None\<rparr>)"

text \<open>The members both handlers copy, up to the reply dates and after them.\<close>

definition user_members :: "payload \<Rightarrow> string list option \<Rightarrow> user \<Rightarrow> user" where
  "user_members data forward u =
     given (str_arg data ''reply_body'') set_reply_body
     (given (str_arg data ''reply_subject'') (\<lambda>v. reply_subject_update (\<lambda>_. Some v))
     (given (bool_arg data ''reply_enabled'') (\<lambda>b. reply_enabled_update (\<lambda>_. b))
     (given (bool_arg data ''forward_keep'') (\<lambda>b. forward_keep_update (\<lambda>_. b))
     (given forward (\<lambda>xs. forward_destination_update (\<lambda>_. xs))
     (given (bool_arg data ''forward_enabled'') (\<lambda>b. forward_enabled_update (\<lambda>_. b))
     (given (bool_arg data ''allow_spoofing'') (\<lambda>b. allow_spoofing_update (\<lambda>_. b))
     (given (bool_arg data ''enable_pop'') (\<lambda>b. enable_pop_update (\<lambda>_. b))
     (given (bool_arg data ''enable_imap'') (\<lambda>b. enable_imap_update (\<lambda>_. b))
     (given (bool_arg data ''passkey_enroll_next_login'') (\<lambda>b. passkey_enroll_next_login_update (\<lambda>_. b))
     (given (bool_arg data ''change_pw_next_login'') (\<lambda>b. change_pw_next_login_update (\<lambda>_. b))
     (given (bool_arg data ''enabled'') (\<lambda>b. enabled_update (\<lambda>_. b))
     (given (bool_arg data ''global_admin'') (\<lambda>b. global_admin_update (\<lambda>_. b))
     (given (int_arg data ''quota_bytes'') (\<lambda>i. quota_bytes_update (\<lambda>_. i))
     (given (str_arg data ''comment'') (\<lambda>c. user_comment_update (\<lambda>_. c)) u))))))))))))))"

definition user_tail :: "payload \<Rightarrow> int option \<Rightarrow> int option \<Rightarrow> user \<Rightarrow> user" where
  "user_tail data from until u =
     given (int_arg data ''spam_threshold'') (\<lambda>i. spam_threshold_update (\<lambda>_. i))
     (given (bool_arg data ''spam_mark_as_read'') (\<lambda>b. spam_mark_as_read_update (\<lambda>_. b))
     (given (bool_arg data ''spam_enabled'') (\<lambda>b. spam_enabled_update (\<lambda>_. b))
     (given (str_arg data ''displayed_name'') (\<lambda>v. displayed_name_update (\<lambda>_. v))
     (given until (\<lambda>i. reply_enddate_update (\<lambda>_. i))
     (given from (\<lambda>i. reply_startdate_update (\<lambda>_. i)) u)))))"

text \<open>The members of a request on a user row; a list that does not bind is refused at the commit.\<close>

definition apply_members :: "payload \<Rightarrow> user \<Rightarrow> api_answer + user" where
  "apply_members data u =
     (let fwd = (case list_arg data ''forward_destination'' of Some (x # xs) \<Rightarrow> Some (x # xs) | _ \<Rightarrow> None) in
      case (date_arg data ''reply_startdate'', date_arg data ''reply_enddate'') of
        (Some from, Some until) \<Rightarrow>
          (case fwd of
             None \<Rightarrow> Inr (user_tail data from until (user_members data None u))
           | Some xs \<Rightarrow>
               (case stored_list xs of
                  None \<Rightarrow> Inl Raised
                | Some ys \<Rightarrow> Inr (user_tail data from until (user_members data (Some ys) u))))
      | _ \<Rightarrow> Inl (Reply 400))"

definition bad_forward :: "'s api_env \<Rightarrow> payload \<Rightarrow> bool" where
  "bad_forward e data \<longleftrightarrow>
     (case list_arg data ''forward_destination'' of None \<Rightarrow> False | Some xs \<Rightarrow> \<not> list_all (valid_email e) xs)"

definition domain_users :: "db \<Rightarrow> domain \<Rightarrow> user list" where
  "domain_users d dm = filter (\<lambda>u. user_domain u = domain_name dm) (users d)"

definition prune_user :: "'s api_env \<Rightarrow> string \<Rightarrow> 's \<Rightarrow> 's" where
  "prune_user e who st = fst (prune_sessions (ap_store e) (ap_session_cfg e) (Some who) {} st)"

text \<open>\<open>fresh\<close> is the password drawn when none is given.  Setting a password ends the sessions of the
  address at once, whatever becomes of the request.\<close>

definition user_post ::
  "'s api_env \<Rightarrow> string \<Rightarrow> payload \<Rightarrow> 's api_state \<Rightarrow> api_answer \<times> 's api_state" where
  "user_post e fresh data s =
     (let d = ap_db s; adr = the (str_arg data ''email'') in
      if \<not> valid_email e adr \<or> bad_forward e data then (Reply 400, s)
      else (case get_domain (ap_enc e) d (snd (the (rcut CHR ''@'' (lower adr)))) of
        Exn x \<Rightarrow> (Raised, s)
      | Ret None \<Rightarrow> (Reply 404, s)
      | Ret (Some dm) \<Rightarrow>
          if max_users dm \<noteq> -1 \<and> int (length (domain_users d dm)) \<ge> max_users dm then (Reply 409, s)
          else (case get_user (ap_enc e) d adr of
            Exn x \<Rightarrow> (Raised, s)
          | Ret (Some u) \<Rightarrow> (Reply 409, s)
          | Ret None \<Rightarrow>
              if bool_arg data ''forward_enabled'' = Some True
                 \<and> list_arg data ''forward_destination'' \<in> {None, Some []} then (Reply 400, s)
              else (case stored_email e adr of
                None \<Rightarrow> (Raised, s)
              | Some (lp, dn) \<Rightarrow>
                  if \<not> is_valid_localpart (ap_valid_address e) lp then (Raised, s)
                  else
                    let pw = (case str_arg data ''raw_password'' of Some p \<Rightarrow> p | None \<Rightarrow> fresh);
                        s1 = s\<lparr>ap_sessions := prune_user e (lower adr) (ap_sessions s)\<rparr>
                    in case apply_members data ((new_user e lp dn)\<lparr>password := cr_hash (ap_crypto e) pw\<rparr>) of
                         Inl a \<Rightarrow> (a, s1)
                       | Inr u \<Rightarrow> commit (ap_enc e) s1 (d\<lparr>users := users d @ [u]\<rparr>)))))"

definition path_user :: "'s api_env \<Rightarrow> db \<Rightarrow> string \<Rightarrow> api_answer + user" where
  "path_user e d adr =
     (if \<not> valid_email e adr then Inl (Reply 400)
      else case get_user (ap_enc e) d adr of
        Exn x \<Rightarrow> Inl Raised | Ret None \<Rightarrow> Inl (Reply 404) | Ret (Some u) \<Rightarrow> Inr u)"

definition user_patch ::
  "'s api_env \<Rightarrow> int \<Rightarrow> string \<Rightarrow> payload \<Rightarrow> 's api_state \<Rightarrow> api_answer \<times> 's api_state" where
  "user_patch e now adr data s =
     (let d = ap_db s in
      if bad_forward e data then (Reply 400, s)
      else case path_user e d adr of
        Inl a \<Rightarrow> (a, s)
      | Inr u \<Rightarrow>
          if (case bool_arg data ''forward_enabled'' of Some b \<Rightarrow> b | None \<Rightarrow> forward_enabled u)
                  \<and> list_arg data ''forward_destination'' = Some [] then (Reply 400, s)
          else
            (case (case str_arg data ''raw_password'' of
                     None \<Rightarrow> (u, d, ap_sessions s)
                   | Some pw \<Rightarrow>
                       (case set_password (ap_store e) (ap_session_cfg e) (ap_crypto e) now False (Some {}) True u pw
                               (d, ap_sessions s) of
                          (d', st') \<Rightarrow> (u\<lparr>password := cr_hash (ap_crypto e) pw\<rparr>, d', st'))) of
               (u1, d1, st1) \<Rightarrow>
                 (let s1 = s\<lparr>ap_sessions := st1\<rparr> in
                  case apply_members data u1 of
                    Inl a \<Rightarrow> (a, s1)
                  | Inr u2 \<Rightarrow> commit (ap_enc e) s1 (put_user u2 d1))))"

definition user_delete :: "'s api_env \<Rightarrow> string \<Rightarrow> 's api_state \<Rightarrow> api_answer \<times> 's api_state" where
  "user_delete e adr s =
     (case path_user e (ap_db s) adr of
        Inl a \<Rightarrow> (a, s)
      | Inr u \<Rightarrow> commit (ap_enc e) s (delete_user_rows (email u) (ap_db s)))"

definition user_setup_link ::
  "'s api_env \<Rightarrow> string \<Rightarrow> int \<Rightarrow> string \<Rightarrow> 's api_state \<Rightarrow> api_answer \<times> 's api_state" where
  "user_setup_link e raw now adr s =
     (case path_user e (ap_db s) adr of
        Inl a \<Rightarrow> (a, s)
      | Inr u \<Rightarrow>
          (Reply 200, s\<lparr>ap_setups := snd (issue_setup (ap_sha256_hex e) raw now u (ap_setup_ttl e) (ap_setups s))\<rparr>))"

section \<open>Aliases\<close>

fun check_destinations :: "'s api_env \<Rightarrow> db \<Rightarrow> string list \<Rightarrow> api_answer option" where
  "check_destinations e d [] = None"
| "check_destinations e d (dest # ds) =
     (if \<not> valid_email e dest then Some (Reply 400)
      else case get_user (ap_enc e) d dest of
        Exn x \<Rightarrow> Some Raised | Ret None \<Rightarrow> Some (Reply 404) | Ret (Some u) \<Rightarrow> check_destinations e d ds)"

definition domain_aliases :: "db \<Rightarrow> domain \<Rightarrow> mail_alias list" where
  "domain_aliases d dm = filter (\<lambda>a. alias_domain a = domain_name dm) (aliases d)"

definition new_alias :: "string \<Rightarrow> string \<Rightarrow> string list \<Rightarrow> mail_alias" where
  "new_alias lp dn ds = \<lparr>alias_email = lp @ ''@'' @ dn, alias_localpart = lp, alias_domain = dn, wildcard = False,
     destination = ds, alias_hostname = None, owner_email = None, disabled = False, alias_comment = []\<rparr>"

definition alias_members :: "payload \<Rightarrow> mail_alias \<Rightarrow> mail_alias" where
  "alias_members data a =
     given (bool_arg data ''wildcard'') (\<lambda>b. wildcard_update (\<lambda>_. b))
       (given (str_arg data ''comment'') (\<lambda>c. alias_comment_update (\<lambda>_. c)) a)"

text \<open>The destination is not a required member: without it the handler raises KeyError.\<close>

definition alias_post :: "'s api_env \<Rightarrow> payload \<Rightarrow> 's api_state \<Rightarrow> api_answer \<times> 's api_state" where
  "alias_post e data s =
     (let d = ap_db s; adr = the (str_arg data ''email'') in
      if \<not> valid_email e adr then (Reply 400, s)
      else (case get_domain (ap_enc e) d (snd (the (rcut CHR ''@'' (lower adr)))) of
        Exn x \<Rightarrow> (Raised, s)
      | Ret None \<Rightarrow> (Reply 404, s)
      | Ret (Some dm) \<Rightarrow>
          if max_aliases dm \<noteq> -1 \<and> int (length (domain_aliases d dm)) \<ge> max_aliases dm then (Reply 409, s)
          else (case list_arg data ''destination'' of
            None \<Rightarrow> (Raised, s)
          | Some ds \<Rightarrow>
              (case check_destinations e d ds of
                 Some a \<Rightarrow> (a, s)
               | None \<Rightarrow>
                   (case get_alias (ap_enc e) d adr of
                      Exn x \<Rightarrow> (Raised, s)
                    | Ret (Some a) \<Rightarrow> (Reply 409, s)
                    | Ret None \<Rightarrow>
                        (case (stored_email e adr, stored_list ds) of
                           (Some (lp, dn), Some ds') \<Rightarrow>
                             if \<not> is_valid_localpart (ap_valid_address e) lp then (Raised, s)
                             else commit (ap_enc e) s
                               (d\<lparr>aliases := aliases d @ [alias_members data (new_alias lp dn ds')]\<rparr>)
                         | _ \<Rightarrow> (Raised, s)))))))"

definition path_alias :: "'s api_env \<Rightarrow> db \<Rightarrow> string \<Rightarrow> api_answer + mail_alias" where
  "path_alias e d adr =
     (if \<not> valid_email e adr then Inl (Reply 400)
      else case get_alias (ap_enc e) d adr of
        Exn x \<Rightarrow> Inl Raised | Ret None \<Rightarrow> Inl (Reply 404) | Ret (Some a) \<Rightarrow> Inr a)"

definition put_alias :: "mail_alias \<Rightarrow> db \<Rightarrow> db" where
  "put_alias a d = d\<lparr>aliases := map (\<lambda>r. if alias_email r = alias_email a then a else r) (aliases d)\<rparr>"

text \<open>The handler assigns the list before it checks it: the first lookup flushes the row, and a list
  that does not bind raises there.\<close>

definition alias_patch :: "'s api_env \<Rightarrow> string \<Rightarrow> payload \<Rightarrow> 's api_state \<Rightarrow> api_answer \<times> 's api_state" where
  "alias_patch e adr data s =
     (let d = ap_db s in
      case path_alias e d adr of
        Inl a \<Rightarrow> (a, s)
      | Inr a \<Rightarrow>
          (case list_arg data ''destination'' of
             None \<Rightarrow> commit (ap_enc e) s (put_alias (alias_members data a) d)
           | Some ds \<Rightarrow>
               if (case ds of [] \<Rightarrow> False | x # _ \<Rightarrow> \<not> valid_email e x) then (Reply 400, s)
               else (case stored_list ds of
                 None \<Rightarrow> (Raised, s)
               | Some ds' \<Rightarrow>
                   (case check_destinations e d ds of
                      Some r \<Rightarrow> (r, s)
                    | None \<Rightarrow> commit (ap_enc e) s (put_alias (alias_members data (a\<lparr>destination := ds'\<rparr>)) d)))))"

definition alias_delete :: "'s api_env \<Rightarrow> string \<Rightarrow> 's api_state \<Rightarrow> api_answer \<times> 's api_state" where
  "alias_delete e adr s =
     (let d = ap_db s in
      case path_alias e d adr of
        Inl a \<Rightarrow> (a, s)
      | Inr a \<Rightarrow> commit (ap_enc e) s (d\<lparr>aliases := filter (\<lambda>r. alias_email r \<noteq> alias_email a) (aliases d)\<rparr>))"

text \<open>The endpoints below \<open>/alias/me\<close>: an alias the current user owns; without one the attribute
  \<open>email\<close> of the anonymous user is missing.\<close>

definition own_alias :: "'s api_env \<Rightarrow> db \<Rightarrow> user option \<Rightarrow> string \<Rightarrow> api_answer + mail_alias" where
  "own_alias e d current adr =
     (if \<not> valid_email e adr then Inl (Reply 400)
      else case current of
        None \<Rightarrow> Inl Raised
      | Some u \<Rightarrow>
          (case get_alias (ap_enc e) d adr of
             Exn x \<Rightarrow> Inl Raised
           | Ret None \<Rightarrow> Inl (Reply 404)
           | Ret (Some a) \<Rightarrow> if owner_email a = Some (email u) then Inr a else Inl (Reply 404)))"

definition anon_alias_delete ::
  "'s api_env \<Rightarrow> user option \<Rightarrow> string \<Rightarrow> 's api_state \<Rightarrow> api_answer \<times> 's api_state" where
  "anon_alias_delete e current adr s =
     (let d = ap_db s in
      case own_alias e d current adr of
        Inl a \<Rightarrow> (a, s)
      | Inr a \<Rightarrow> commit (ap_enc e) s (d\<lparr>aliases := filter (\<lambda>r. alias_email r \<noteq> alias_email a) (aliases d)\<rparr>))"

definition anon_alias_patch ::
  "'s api_env \<Rightarrow> user option \<Rightarrow> string \<Rightarrow> payload \<Rightarrow> 's api_state \<Rightarrow> api_answer \<times> 's api_state" where
  "anon_alias_patch e current adr data s =
     (let d = ap_db s;
          rest = (\<lambda>a. given (bool_arg data ''disabled'') (\<lambda>b. disabled_update (\<lambda>_. b))
            (given (str_arg data ''hostname'') (\<lambda>h. alias_hostname_update (\<lambda>_. Some h)) (alias_members data a)))
      in case own_alias e d current adr of
        Inl a \<Rightarrow> (a, s)
      | Inr a \<Rightarrow>
          (case list_arg data ''destination'' of
             None \<Rightarrow> commit (ap_enc e) s (put_alias (rest a) d)
           | Some ds \<Rightarrow>
               (case check_destinations e d ds of
                  Some r \<Rightarrow> (r, s)
                | None \<Rightarrow>
                    (case stored_list ds of
                       None \<Rightarrow> (Raised, s)
                     | Some ds' \<Rightarrow> commit (ap_enc e) s (put_alias (rest (a\<lparr>destination := ds'\<rparr>)) d)))))"

section \<open>Tokens\<close>

definition next_token :: "db \<Rightarrow> nat" where
  "next_token d = Suc (foldr max (map token_id (tokens d)) 0)"

text \<open>\<open>valid_ip\<close> is the check of the handler: \<open>ip_network\<close> or the validators library.\<close>

definition authorized_ips :: "(string \<Rightarrow> bool) \<Rightarrow> payload \<Rightarrow> api_answer + string list option" where
  "authorized_ips valid_ip data =
     (case list_arg data ''AuthorizedIP'' of
        None \<Rightarrow> Inr None
      | Some ips \<Rightarrow>
          if \<not> list_all valid_ip ips then Inl (Reply 400)
          else (case stored_list ips of None \<Rightarrow> Inl Raised | Some xs \<Rightarrow> Inr (Some xs)))"

text \<open>The token is stored for the address as it was written in the request.\<close>

definition token_post ::
  "'s api_env \<Rightarrow> (string \<Rightarrow> bool) \<Rightarrow> string \<Rightarrow> string \<Rightarrow> payload \<Rightarrow> 's api_state \<Rightarrow> api_answer \<times> 's api_state" where
  "token_post e valid_ip raw adr data s =
     (let d = ap_db s in
      case path_user e d adr of
        Inl a \<Rightarrow> (a, s)
      | Inr u \<Rightarrow>
          (case authorized_ips valid_ip data of
             Inl a \<Rightarrow> (a, s)
           | Inr ips \<Rightarrow> commit (ap_enc e) s
               (d\<lparr>tokens := tokens d @ [\<lparr>token_id = next_token d, token_user = adr,
                    token_password = fast_hash (ap_crypto e) raw, token_ip = (case ips of None \<Rightarrow> [] | Some xs \<Rightarrow> xs),
                    token_comment = (case str_arg data ''comment'' of Some c \<Rightarrow> c | None \<Rightarrow> [])\<rparr>]\<rparr>)))"

definition network_text :: "string \<Rightarrow> bool" where
  "network_text t \<longleftrightarrow> ip_network t \<noteq> None"

definition tokens_post ::
  "'s api_env \<Rightarrow> string \<Rightarrow> payload \<Rightarrow> 's api_state \<Rightarrow> api_answer \<times> 's api_state" where
  "tokens_post e raw data s = token_post e network_text raw (the (str_arg data ''email'')) data s"

definition user_token_post ::
  "'s api_env \<Rightarrow> string \<Rightarrow> string \<Rightarrow> payload \<Rightarrow> 's api_state \<Rightarrow> api_answer \<times> 's api_state" where
  "user_token_post e raw adr data s = token_post e (ap_valid_ip e) raw adr data s"

definition find_token :: "db \<Rightarrow> nat option \<Rightarrow> token option" where
  "find_token d tid = find (\<lambda>t. Some (token_id t) = tid) (tokens d)"

definition token_patch ::
  "'s api_env \<Rightarrow> nat option \<Rightarrow> payload \<Rightarrow> 's api_state \<Rightarrow> api_answer \<times> 's api_state" where
  "token_patch e tid data s =
     (let d = ap_db s in
      case find_token d tid of
        None \<Rightarrow> (Reply 404, s)
      | Some t \<Rightarrow>
          (case authorized_ips network_text data of
             Inl a \<Rightarrow> (a, s)
           | Inr ips \<Rightarrow> commit (ap_enc e) s
               (put_token (given ips (\<lambda>xs. token_ip_update (\<lambda>_. xs))
                  (given (str_arg data ''comment'') (\<lambda>c. token_comment_update (\<lambda>_. c)) t)) d)))"

definition token_delete :: "'s api_env \<Rightarrow> nat option \<Rightarrow> 's api_state \<Rightarrow> api_answer \<times> 's api_state" where
  "token_delete e tid s =
     (let d = ap_db s in
      case find_token d tid of
        None \<Rightarrow> (Reply 404, s)
      | Some t \<Rightarrow> commit (ap_enc e) s (d\<lparr>tokens := filter (\<lambda>r. token_id r \<noteq> token_id t) (tokens d)\<rparr>))"

end
