(* ===== verification/Api_Machine.thy ===== *)
theory Api_Machine
  imports Api_Users
begin

text \<open>
  The REST API as a machine over the database: its state-changing calls as one datatype, the
  well-formedness of the rows they keep, and what a call needs to change anything.
\<close>

section \<open>Calls\<close>

datatype api_op =
    DomainPost payload | DomainPatch string payload | DomainDelete string
  | ManagerPost string payload | ManagerDelete string string
  | AlternativePost payload | AlternativeDelete string
  | RelayPost payload | RelayPatch string payload | RelayDelete string
  | UserPost string payload | UserPatch int string payload | UserDelete string
  | SetupLink string int string
  | AliasPost payload | AliasPatch string payload | AliasDelete string
  | AnonPatch "user option" string payload | AnonDelete "user option" string
  | TokensPost string payload | UserTokenPost string string payload
  | TokenPatch "nat option" payload | TokenDelete "nat option"

text \<open>The payload a call carries and the model it is checked against.\<close>

fun payload_ok :: "'s api_env \<Rightarrow> api_op \<Rightarrow> bool" where
  "payload_ok e (DomainPost p) = ap_accepts e domain_fields p"
| "payload_ok e (DomainPatch n p) = ap_accepts e domain_fields_update p"
| "payload_ok e (ManagerPost n p) = ap_accepts e manager_fields_create p"
| "payload_ok e (AlternativePost p) = ap_accepts e alternative_fields p"
| "payload_ok e (RelayPost p) = ap_accepts e relay_fields p"
| "payload_ok e (RelayPatch n p) = ap_accepts e relay_fields_update p"
| "payload_ok e (UserPost f p) = ap_accepts e user_fields_post p"
| "payload_ok e (UserPatch now a p) = ap_accepts e user_fields_put p"
| "payload_ok e (AliasPost p) = ap_accepts e alias_fields p"
| "payload_ok e (AliasPatch a p) = ap_accepts e alias_fields_update p"
| "payload_ok e (AnonPatch c a p) = ap_accepts e alias_fields_update p"
| "payload_ok e (TokensPost r p) = ap_accepts e token_user_fields_post p"
| "payload_ok e (UserTokenPost r a p) = ap_accepts e token_user_fields_post2 p"
| "payload_ok e (TokenPatch t p) = ap_accepts e token_user_fields_post2 p"
| "payload_ok e _ = True"

fun handle :: "'s api_env \<Rightarrow> api_op \<Rightarrow> 's api_state \<Rightarrow> api_answer \<times> 's api_state" where
  "handle e (DomainPost p) s = domain_post e p s"
| "handle e (DomainPatch n p) s = domain_patch e n p s"
| "handle e (DomainDelete n) s = domain_delete e n s"
| "handle e (ManagerPost n p) s = manager_post e n p s"
| "handle e (ManagerDelete n a) s = manager_delete e n a s"
| "handle e (AlternativePost p) s = alternative_post e p s"
| "handle e (AlternativeDelete n) s = alternative_delete e n s"
| "handle e (RelayPost p) s = relay_post e p s"
| "handle e (RelayPatch n p) s = relay_patch e n p s"
| "handle e (RelayDelete n) s = relay_delete e n s"
| "handle e (UserPost f p) s = user_post e f p s"
| "handle e (UserPatch now a p) s = user_patch e now a p s"
| "handle e (UserDelete a) s = user_delete e a s"
| "handle e (SetupLink r now a) s = user_setup_link e r now a s"
| "handle e (AliasPost p) s = alias_post e p s"
| "handle e (AliasPatch a p) s = alias_patch e a p s"
| "handle e (AliasDelete a) s = alias_delete e a s"
| "handle e (AnonPatch c a p) s = anon_alias_patch e c a p s"
| "handle e (AnonDelete c a) s = anon_alias_delete e c a s"
| "handle e (TokensPost r p) s = tokens_post e r p s"
| "handle e (UserTokenPost r a p) s = user_token_post e r a p s"
| "handle e (TokenPatch t p) s = token_patch e t p s"
| "handle e (TokenDelete t) s = token_delete e t s"

definition api_step :: "'s api_env \<Rightarrow> 's api_state \<Rightarrow> api_op \<Rightarrow> 's api_state" where
  "api_step e s op = snd (handle e op s)"

text \<open>A request as it arrives, with the address of its peer and its headers.\<close>

definition api_request ::
  "'l limits_lib \<Rightarrow> rl_cfg \<Rightarrow> 's api_env \<Rightarrow> string \<Rightarrow> (string, string) dict \<Rightarrow> api_op \<Rightarrow> 's api_state \<times> 'l \<Rightarrow>
   api_answer \<times> 's api_state \<times> 'l" where
  "api_request L cfg e remote_addr hs op = api_call L cfg e remote_addr hs (payload_ok e op) (handle e op)"

section \<open>Well-formed rows\<close>

definition canonical :: "'s api_env \<Rightarrow> string \<Rightarrow> bool" where
  "canonical e n \<longleftrightarrow> stored_domain e n = Some n"

definition names_ok :: "'s api_env \<Rightarrow> db \<Rightarrow> bool" where
  "names_ok e d \<longleftrightarrow> (\<forall>r\<in>set (domains d). canonical e (domain_name r))
     \<and> (\<forall>a\<in>set (alternatives d). canonical e (alt_name a))
     \<and> (\<forall>r\<in>set (relays d). canonical e (relay_name r))"

definition refs_ok :: "db \<Rightarrow> bool" where
  "refs_ok d \<longleftrightarrow>
     (let names = set (map domain_name (domains d)); mails = set (map email (users d)) in
       (\<forall>u\<in>set (users d). user_domain u \<in> names)
     \<and> (\<forall>a\<in>set (aliases d). alias_domain a \<in> names \<and> set_option (owner_email a) \<subseteq> mails)
     \<and> (\<forall>a\<in>set (alternatives d). alt_domain a \<in> names)
     \<and> (\<forall>m\<in>set (managers d). fst m \<in> names \<and> snd m \<in> mails)
     \<and> (\<forall>p\<in>set (passkeys d). pk_user p \<in> mails)
     \<and> (\<forall>c\<in>set (codes d). code_user c \<in> mails)
     \<and> (\<forall>g\<in>set (grants d). grant_user g \<in> mails)
     \<and> (\<forall>a\<in>set (accesses d). access_domain a \<in> names \<and> set_option (access_user a) \<subseteq> mails))"

definition address_ok :: "'s api_env \<Rightarrow> string \<Rightarrow> string \<Rightarrow> string \<Rightarrow> bool" where
  "address_ok e adr lp dn \<longleftrightarrow>
     adr = lp @ ''@'' @ dn \<and> lower lp = lp \<and> CHR ''@'' \<notin> set lp \<and> is_valid_localpart (ap_valid_address e) lp"

definition addresses_ok :: "'s api_env \<Rightarrow> db \<Rightarrow> bool" where
  "addresses_ok e d \<longleftrightarrow>
     (\<forall>u\<in>set (users d). address_ok e (email u) (localpart u) (user_domain u))
     \<and> (\<forall>a\<in>set (aliases d). address_ok e (alias_email a) (alias_localpart a) (alias_domain a))"

definition policy_ok :: "passkey_policy \<Rightarrow> bool" where
  "policy_ok p \<longleftrightarrow>
     aaguid_mode p \<in> set aaguid_modes
     \<and> backup_eligible_policy p \<in> set policy_levels
     \<and> backup_state_policy p \<in> set policy_levels
     \<and> attestation_policy p \<in> set policy_levels
     \<and> resident_key p \<in> set resident_kinds"

definition values_ok :: "db \<Rightarrow> bool" where
  "values_ok d \<longleftrightarrow>
     (\<forall>r\<in>set (domains d). policy_ok (domain_policy r) \<and> -1 \<le> max_users r \<and> -1 \<le> max_aliases r
        \<and> 0 \<le> max_quota_bytes r)"

definition rows_ok :: "'s api_env \<Rightarrow> db \<Rightarrow> bool" where
  "rows_ok e d \<longleftrightarrow> names_ok e d \<and> refs_ok d \<and> addresses_ok e d \<and> values_ok d"

definition api_inv :: "'s api_env \<Rightarrow> 's api_state \<Rightarrow> bool" where
  "api_inv e s \<longleftrightarrow> rows_ok e (ap_db s) \<and> keys_unique (ap_enc e) (ap_db s) \<and> integers_fit (ap_db s)"

text \<open>What the code relies on of IDNA: decoding an encoded name gives a name that encodes to it.\<close>

definition idna_ok :: "'s api_env \<Rightarrow> bool" where
  "idna_ok e \<longleftrightarrow> (\<forall>n k. ap_enc e n = Some k \<longrightarrow> ap_enc e (lower (ap_dec e k)) = Some k)"

text \<open>What it relies on of flask-restx: an accepted payload has the members of its model.\<close>

definition restx_ok :: "'s api_env \<Rightarrow> bool" where
  "restx_ok e \<longleftrightarrow> (\<forall>sch p. ap_accepts e sch p \<longrightarrow> validates sch p)"

section \<open>Names\<close>

lemma stored_canonical: "\<lbrakk>idna_ok e; stored_domain e n = Some m\<rbrakk> \<Longrightarrow> canonical e m"
  by (auto simp: idna_ok_def stored_domain_def canonical_def bind_domain_def)

lemma get_domain_row:
  assumes "names_ok e d" "get_domain (ap_enc e) d n = Ret (Some r)"
  shows "r \<in> set (domains d) \<and> stored_domain e n = Some (domain_name r)"
proof -
  obtain k where k: "bind_domain (ap_enc e) n = Some k"
    and f: "find (\<lambda>r. bind_domain (ap_enc e) (domain_name r) = Some k) (domains d) = Some r"
    using assms(2) by (auto simp: get_domain_def split: option.splits)
  then have r: "r \<in> set (domains d)" "bind_domain (ap_enc e) (domain_name r) = Some k"
    by (auto simp: find_Some_iff)
  then have "canonical e (domain_name r)" using assms(1) by (simp add: names_ok_def)
  then show ?thesis using r k by (simp add: canonical_def stored_domain_def)
qed

lemma path_domain_row:
  assumes "names_ok e d" "path_domain e d n = Inr r"
  shows "r \<in> set (domains d) \<and> stored_domain e n = Some (domain_name r)"
  using assms get_domain_row by (auto simp: path_domain_def split: if_splits outcome.splits option.splits)

lemma get_user_row: "get_user enc d n = Ret (Some u) \<Longrightarrow> u \<in> set (users d)"
  using get_user_SomeD by blast

lemma path_user_row: "path_user e d n = Inr u \<Longrightarrow> u \<in> set (users d) \<and> valid_email e n"
  using get_user_row by (auto simp: path_user_def split: if_splits outcome.splits option.splits)

lemma stored_email_row:
  assumes "idna_ok e" "valid_email e adr" "stored_email e adr = Some (lp, dn)"
    and "names_ok e d" "get_domain (ap_enc e) d (snd (the (rcut CHR ''@'' (lower adr)))) = Ret (Some dm)"
  shows "dn = domain_name dm \<and> dm \<in> set (domains d) \<and> lower lp = lp \<and> CHR ''@'' \<notin> set lp"
proof -
  obtain l x k where a: "rcut CHR ''@'' (lower adr) = Some (lower l, lower x)" "ap_enc e (lower x) = Some k"
    and at: "CHR ''@'' \<notin> set l"
    using valid_email_bind [OF assms(2)] by blast
  then have s: "lp = lower l" "dn = ap_dec e k" using assms(3) by (auto simp: stored_email_def)
  have "stored_domain e (lower x) = Some (domain_name dm)" "dm \<in> set (domains d)"
    using get_domain_row [OF assms(4,5)] a by auto
  then show ?thesis using s a at lower_at [of l] by (simp add: stored_domain_def bind_domain_def comp_def)
qed

section \<open>Members leave the keys of a row alone\<close>

lemma given_frame: "(\<And>x r. g (f x r) = g r) \<Longrightarrow> g (given v f r) = g r"
  by (cases v) (simp_all add: given_def)

lemmas given_user_keys = given_frame [of email] given_frame [of localpart] given_frame [of user_domain]

lemmas given_alias_keys = given_frame [of alias_email] given_frame [of alias_localpart]
  given_frame [of alias_domain] given_frame [of owner_email]

lemma set_reply_body_keys [simp]:
  "email (set_reply_body v u) = email u" "localpart (set_reply_body v u) = localpart u"
  "user_domain (set_reply_body v u) = user_domain u"
  by (simp_all add: set_reply_body_def)

lemma apply_members_keys:
  "apply_members data u = Inr u' \<Longrightarrow> email u' = email u \<and> localpart u' = localpart u \<and> user_domain u' = user_domain u"
  unfolding apply_members_def Let_def
  by (auto simp: given_user_keys user_members_def user_tail_def split: option.splits list.splits)

lemma alias_members_keys [simp]:
  "alias_email (alias_members p a) = alias_email a" "alias_localpart (alias_members p a) = alias_localpart a"
  "alias_domain (alias_members p a) = alias_domain a" "owner_email (alias_members p a) = owner_email a"
  by (simp_all add: alias_members_def given_alias_keys)

lemma domain_members_name [simp]: "domain_name (domain_members p r) = domain_name r"
  by (simp add: domain_members_def given_frame [of domain_name])

lemma domain_members_policy [simp]: "domain_policy (domain_members p r) = domain_policy r"
  by (simp add: domain_members_def given_frame [of domain_policy])

lemma relay_members_name [simp]: "relay_name (relay_members p r) = relay_name r"
  by (simp add: relay_members_def given_frame [of relay_name])

section \<open>Changes that keep the rows well formed\<close>

lemmas rows_defs = rows_ok_def names_ok_def refs_ok_def addresses_ok_def values_ok_def Let_def

lemma rows_relays:
  "\<lbrakk>rows_ok e d; \<forall>r\<in>set rs. canonical e (relay_name r)\<rbrakk> \<Longrightarrow> rows_ok e (d\<lparr>relays := rs\<rparr>)"
  by (simp add: rows_defs)

lemma rows_alternatives:
  "\<lbrakk>rows_ok e d; \<forall>a\<in>set xs. canonical e (alt_name a) \<and> alt_domain a \<in> domain_name ` set (domains d)\<rbrakk>
   \<Longrightarrow> rows_ok e (d\<lparr>alternatives := xs\<rparr>)"
  by (simp add: rows_defs)

lemma rows_managers:
  "\<lbrakk>rows_ok e d; \<forall>m\<in>set ms. fst m \<in> domain_name ` set (domains d) \<and> snd m \<in> email ` set (users d)\<rbrakk>
   \<Longrightarrow> rows_ok e (d\<lparr>managers := ms\<rparr>)"
  by (simp add: rows_defs)

lemma rows_tokens: "rows_ok e d \<Longrightarrow> rows_ok e (d\<lparr>tokens := ts\<rparr>)"
  by (simp add: rows_defs)

lemma rows_aliases:
  "\<lbrakk>rows_ok e d; \<forall>a\<in>set xs. alias_domain a \<in> domain_name ` set (domains d)
       \<and> set_option (owner_email a) \<subseteq> email ` set (users d)
       \<and> address_ok e (alias_email a) (alias_localpart a) (alias_domain a)\<rbrakk>
   \<Longrightarrow> rows_ok e (d\<lparr>aliases := xs\<rparr>)"
  by (simp add: rows_defs)

lemma rows_user_added:
  "\<lbrakk>rows_ok e d; user_domain u \<in> domain_name ` set (domains d); address_ok e (email u) (localpart u) (user_domain u)\<rbrakk>
   \<Longrightarrow> rows_ok e (d\<lparr>users := users d @ [u]\<rparr>)"
  by (fastforce simp: rows_defs)

lemma rows_domain_added:
  "\<lbrakk>rows_ok e d; canonical e (domain_name r); policy_ok (domain_policy r); -1 \<le> max_users r; -1 \<le> max_aliases r;
    0 \<le> max_quota_bytes r\<rbrakk> \<Longrightarrow> rows_ok e (d\<lparr>domains := domains d @ [r]\<rparr>)"
  by (simp add: rows_defs)

lemma put_user_frame [simp]:
  "domains (put_user u d) = domains d" "alternatives (put_user u d) = alternatives d" "relays (put_user u d) = relays d"
  "aliases (put_user u d) = aliases d" "managers (put_user u d) = managers d" "passkeys (put_user u d) = passkeys d"
  "codes (put_user u d) = codes d" "grants (put_user u d) = grants d" "accesses (put_user u d) = accesses d"
  by (simp_all add: put_user_def)

lemma rows_user_put:
  assumes "rows_ok e d" "user_domain u \<in> domain_name ` set (domains d)"
    "address_ok e (email u) (localpart u) (user_domain u)"
  shows "rows_ok e (put_user u d)"
proof -
  have "map email (users (put_user u d)) = map email (users d)" by (simp add: put_user_def)
  then have m: "email ` set (users (put_user u d)) = email ` set (users d)" by (metis set_map)
  have sub: "\<forall>x\<in>set (users (put_user u d)). P x" if "P u" "\<forall>x\<in>set (users d). P x" for P
    using that by (auto simp: put_user_def)
  have "\<forall>x\<in>set (users (put_user u d)). user_domain x \<in> domain_name ` set (domains d)"
    "\<forall>x\<in>set (users (put_user u d)). address_ok e (email x) (localpart x) (user_domain x)"
    by (rule sub; use assms in \<open>simp add: rows_defs\<close>)+
  then show ?thesis using assms m by (simp add: rows_defs)
qed

lemma rows_domain_put:
  assumes "rows_ok e d" "canonical e (domain_name r)" "policy_ok (domain_policy r)" "-1 \<le> max_users r"
    "-1 \<le> max_aliases r" "0 \<le> max_quota_bytes r"
  shows "rows_ok e (put_domain r d)"
proof -
  have "map domain_name (domains (put_domain r d)) = map domain_name (domains d)" by (simp add: put_domain_def)
  then have m: "domain_name ` set (domains (put_domain r d)) = domain_name ` set (domains d)" by (metis set_map)
  have f: "users (put_domain r d) = users d" "aliases (put_domain r d) = aliases d" "relays (put_domain r d) = relays d"
    "alternatives (put_domain r d) = alternatives d" "managers (put_domain r d) = managers d" "codes (put_domain r d) = codes d"
    "passkeys (put_domain r d) = passkeys d" "grants (put_domain r d) = grants d" "accesses (put_domain r d) = accesses d"
    by (simp_all add: put_domain_def)
  have sub: "\<forall>x\<in>set (domains (put_domain r d)). P x" if "P r" "\<forall>x\<in>set (domains d). P x" for P
    using that by (auto simp: put_domain_def)
  have "\<forall>x\<in>set (domains (put_domain r d)). canonical e (domain_name x)"
    "\<forall>x\<in>set (domains (put_domain r d)). policy_ok (domain_policy x) \<and> -1 \<le> max_users x \<and> -1 \<le> max_aliases x
       \<and> 0 \<le> max_quota_bytes x"
    by (rule sub; use assms in \<open>simp add: rows_defs\<close>)+
  then show ?thesis using assms m by (simp add: rows_defs f)
qed

lemma image_without: "x \<in> f ` {y \<in> A. f y \<noteq> w} \<longleftrightarrow> x \<in> f ` A \<and> x \<noteq> w"
  by auto

lemma rows_user_deleted:
  assumes "rows_ok e d"
  shows "rows_ok e (delete_user_rows who d)"
proof -
  have "set_option (owner_email a) \<subseteq> email ` set (users d) - {who}"
    if "a \<in> set (aliases d)" "owner_email a \<noteq> Some who" for a
    using assms that by (cases "owner_email a") (auto simp: rows_defs)
  moreover have "set_option (access_user a) \<subseteq> email ` set (users d) - {who}"
    if "a \<in> set (accesses d)" "access_user a \<noteq> Some who" for a
    using assms that by (cases "access_user a") (auto simp: rows_defs)
  moreover have "email ` {u \<in> set (users d). email u \<noteq> who} = email ` set (users d) - {who}" by auto
  moreover have "\<forall>m\<in>set (filter (\<lambda>m. snd m \<noteq> who) (managers d)). fst m \<in> domain_name ` set (domains d)
      \<and> snd m \<in> email ` set (users d) - {who}"
    using assms by (auto simp: rows_defs)
  ultimately show ?thesis using assms by (simp add: rows_defs delete_user_rows_def del: split_paired_All)
qed

lemma rows_users_deleted: "rows_ok e d \<Longrightarrow> rows_ok e (fold delete_user_rows whos d)"
  by (induction whos arbitrary: d) (simp_all add: rows_user_deleted)

lemma fold_delete_users:
  "users (fold delete_user_rows whos d) = filter (\<lambda>u. email u \<notin> set whos) (users d)"
  "domains (fold delete_user_rows whos d) = domains d"
  by (induction whos arbitrary: d) (auto simp: delete_user_rows_def intro: filter_cong)

lemma rows_domain_deleted: "rows_ok e d \<Longrightarrow> rows_ok e (delete_domain_rows dn d)"
proof -
  assume d: "rows_ok e d"
  define d1 where "d1 = fold delete_user_rows (map email (filter (\<lambda>u. user_domain u = dn) (users d))) d"
  have r: "rows_ok e d1" unfolding d1_def by (rule rows_users_deleted [OF d])
  have u: "\<forall>u\<in>set (users d1). user_domain u \<noteq> dn" by (auto simp: d1_def fold_delete_users)
  show ?thesis unfolding delete_domain_rows_def Let_def d1_def [symmetric]
    using r u by (simp add: rows_defs image_without del: split_paired_All)
qed

section \<open>Every call keeps the invariant\<close>

lemma commit_inv: "\<lbrakk>api_inv e s; rows_ok e d'\<rbrakk> \<Longrightarrow> api_inv e (snd (commit (ap_enc e) s d'))"
  by (simp add: commit_def api_inv_def)

lemma api_inv_frame [simp]:
  "api_inv e (s\<lparr>ap_sessions := x\<rparr>) = api_inv e s" "api_inv e (s\<lparr>ap_setups := ts\<rparr>) = api_inv e s"
  "api_inv e (s\<lparr>ap_keys := ks\<rparr>) = api_inv e s"
  by (simp_all add: api_inv_def)

lemma api_inv_rows: "api_inv e s \<Longrightarrow> rows_ok e (ap_db s)"
  by (simp add: api_inv_def)

lemma refused_inv: "\<lbrakk>api_inv e s\<rbrakk> \<Longrightarrow> api_inv e (snd (a, s))"
  by simp

lemma relay_calls_inv:
  assumes "idna_ok e" "api_inv e s"
  shows "api_inv e (snd (relay_post e p s)) \<and> api_inv e (snd (relay_patch e n p s)) \<and> api_inv e (snd (relay_delete e n s))"
proof (intro conjI)
  have n: "names_ok e (ap_db s)" using api_inv_rows [OF assms(2)] by (simp add: rows_ok_def)
  have st: "\<exists>m. stored_domain e n = Some m \<and> canonical e m" if "fqdn_in_use (ap_enc e) (ap_db s) n = Ret b" for n b
    using that stored_canonical [OF assms(1)]
    by (auto simp: fqdn_in_use_def stored_domain_def split: option.splits)
  show "api_inv e (snd (relay_post e p s))"
    unfolding relay_post_def Let_def
    using assms(2) st n
    by (auto split: outcome.splits intro!: commit_inv rows_relays [OF api_inv_rows [OF assms(2)]] simp: names_ok_def)
       fastforce
  show "api_inv e (snd (relay_patch e n p s))"
    unfolding relay_patch_def Let_def
    using assms(2) n
    by (auto split: sum.splits intro!: commit_inv rows_relays [OF api_inv_rows [OF assms(2)]]
        simp: names_ok_def path_relay_def get_relay_def find_Some_iff split: if_splits outcome.splits option.splits)
  show "api_inv e (snd (relay_delete e n s))"
    unfolding relay_delete_def Let_def
    using assms(2) n
    by (auto split: sum.splits intro!: commit_inv rows_relays [OF api_inv_rows [OF assms(2)]] simp: names_ok_def)
qed

lemma manager_calls_inv:
  assumes "api_inv e s"
  shows "api_inv e (snd (manager_post e n p s)) \<and> api_inv e (snd (manager_delete e n a s))"
proof (intro conjI)
  have r: "rows_ok e (ap_db s)" by (rule api_inv_rows [OF assms])
  have pm: "dm \<in> set (domains (ap_db s)) \<and> u \<in> set (users (ap_db s))"
    if "path_manager e (ap_db s) n a = Inr (dm, u)" for a dm u
    using that path_domain_row r get_user_row
    by (auto simp: path_manager_def rows_ok_def split: if_splits sum.splits outcome.splits option.splits)
  have old: "\<forall>m\<in>set (managers (ap_db s)). fst m \<in> domain_name ` set (domains (ap_db s))
      \<and> snd m \<in> email ` set (users (ap_db s))"
    using r by (simp add: rows_defs)
  show "api_inv e (snd (manager_post e n p s))"
    unfolding manager_post_def Let_def using assms pm old
    by (auto split: sum.splits intro!: commit_inv rows_managers [OF r])
  show "api_inv e (snd (manager_delete e n a s))"
    unfolding manager_delete_def Let_def using assms pm old
    by (auto split: sum.splits intro!: commit_inv rows_managers [OF r])
qed

lemma token_calls_inv:
  assumes "api_inv e s"
  shows "api_inv e (snd (token_post e v raw a p s)) \<and> api_inv e (snd (token_patch e t p s))
    \<and> api_inv e (snd (token_delete e t s))"
proof -
  have r: "rows_ok e (ap_db s)" by (rule api_inv_rows [OF assms])
  show ?thesis
    using assms unfolding token_post_def token_patch_def token_delete_def Let_def put_token_def
    by (auto split: sum.splits option.splits intro!: commit_inv rows_tokens [OF r])
qed

text \<open>A policy that a domain call stores has only legal values.\<close>

lemma flag_update_policy:
  "\<lbrakk>Some g = flag_update p k f; policy_ok x; \<And>b. policy_ok (f b x)\<rbrakk> \<Longrightarrow> policy_ok (g x)"
  by (auto simp: flag_update_def split: option.splits json.splits)

lemma choice_update_policy:
  "\<lbrakk>Some g = choice_update p k vs f; policy_ok x; \<And>v. v \<in> set vs \<Longrightarrow> policy_ok (f v x)\<rbrakk> \<Longrightarrow> policy_ok (g x)"
  by (auto simp: choice_update_def split: option.splits json.splits if_splits)

lemma aaguid_update_policy:
  assumes "Some g = aaguid_list_update p" "policy_ok x"
  shows "policy_ok (g x)"
proof -
  have "g = id \<or> (\<exists>v. g = aaguids_update (\<lambda>_. v))"
    using assms(1) by (auto simp: aaguid_list_update_def split: option.splits outcome.splits)
  then show ?thesis using assms(2) by (auto simp: policy_ok_def)
qed

lemma policy_update_ok:
  assumes "Some g \<in> set (policy_updates p)" "policy_ok x"
  shows "policy_ok (g x)"
  using assms(1) unfolding policy_updates_def list.set insert_iff
  by (elim disjE emptyE)
     (erule flag_update_policy [OF _ assms(2)] choice_update_policy [OF _ assms(2)] aaguid_update_policy [OF _ assms(2)];
      use assms(2) in \<open>simp add: policy_ok_def\<close>)+

lemma policy_fold_ok:
  assumes "set us \<subseteq> set (policy_updates p)" "\<not> list_ex Option.is_none us" "policy_ok x"
  shows "policy_ok (fold the us x)"
  using assms
proof (induction us arbitrary: x)
  case (Cons u us)
  then obtain g where g: "u = Some g" by (cases u) auto
  then have "policy_ok (g x)" using Cons.prems policy_update_ok by auto
  then show ?case using Cons g by simp
qed simp

lemma set_policy_row:
  assumes "set_passkey_policy p r = Some r'" "policy_ok (domain_policy r)"
  shows "policy_ok (domain_policy r') \<and> domain_name r' = domain_name r \<and> max_users r' = max_users r
    \<and> max_aliases r' = max_aliases r \<and> max_quota_bytes r' = max_quota_bytes r"
  using assms policy_fold_ok [of "policy_updates p" p "domain_policy r"]
  by (auto simp: set_passkey_policy_def Let_def split: if_splits)

lemma validates_int:
  "\<lbrakk>validates sch p; (k, F_Integer (Some m), b) \<in> set sch; int_arg p k = Some i\<rbrakk> \<Longrightarrow> m \<le> i"
  by (fastforce simp: validates_def list_all_iff int_arg_def split: option.splits json.splits)

lemma validates_update: "validates domain_fields p \<Longrightarrow> validates domain_fields_update p"
  by (simp add: domain_fields_def validates_def)

lemma domain_members_bounds:
  assumes "validates domain_fields_update p" "-1 \<le> max_users r" "-1 \<le> max_aliases r" "0 \<le> max_quota_bytes r"
  shows "-1 \<le> max_users (domain_members p r) \<and> -1 \<le> max_aliases (domain_members p r)
    \<and> 0 \<le> max_quota_bytes (domain_members p r)"
proof -
  have f: "(''max_users'', F_Integer (Some (- 1)), False) \<in> set domain_fields_update"
    "(''max_aliases'', F_Integer (Some (- 1)), False) \<in> set domain_fields_update"
    "(''max_quota_bytes'', F_Integer (Some 0), False) \<in> set domain_fields_update"
    by (simp_all add: domain_fields_update_def)
  note v = validates_int [OF assms(1) f(1)] validates_int [OF assms(1) f(2)] validates_int [OF assms(1) f(3)]
  show ?thesis
    unfolding domain_members_def given_def using assms(2-4) v
    by (auto split: option.splits)
qed

lemma alternative_rows_ok:
  "\<lbrakk>idna_ok e; alternative_rows e dn items = Some rows\<rbrakk>
   \<Longrightarrow> \<forall>a\<in>set rows. canonical e (alt_name a) \<and> alt_domain a = dn"
  by (induction items arbitrary: rows) (auto simp: stored_canonical split: option.splits)

lemma fqdn_stored:
  "\<lbrakk>idna_ok e; fqdn_in_use (ap_enc e) d n = Ret b\<rbrakk> \<Longrightarrow> \<exists>m. stored_domain e n = Some m \<and> canonical e m"
  using stored_canonical by (auto simp: fqdn_in_use_def stored_domain_def split: option.splits)

lemma new_domain_values [simp]:
  "policy_ok (domain_policy (new_domain n))" "domain_name (new_domain n) = n" "max_users (new_domain n) = -1"
  "max_aliases (new_domain n) = -1" "max_quota_bytes (new_domain n) = 0"
  by (simp_all add: new_domain_def default_policy_def policy_ok_def aaguid_modes_def policy_levels_def resident_kinds_def)

lemma domain_post_inv:
  assumes "idna_ok e" "api_inv e s" "validates domain_fields p"
  shows "api_inv e (snd (domain_post e p s))"
proof -
  let ?n = "the (str_arg p ''name'')" and ?alts = "list_arg p ''alternatives''" and ?d = "ap_db s"
  note r = api_inv_rows [OF assms(2)]
  have "rows_ok e (?d\<lparr>domains := domains ?d @ [domain_members p dm], alternatives := alternatives ?d @ rows\<rparr>)"
    if f: "fqdn_in_use (ap_enc e) ?d ?n = Ret b" and pol: "set_passkey_policy p (new_domain (the (stored_domain e ?n))) = Some dm"
      and rows: "alternative_rows e (domain_name dm) xs = Some rows" for b dm xs rows
  proof -
    obtain m where m: "stored_domain e ?n = Some m" "canonical e m" using fqdn_stored [OF assms(1) f] by blast
    have dm: "policy_ok (domain_policy dm)" "domain_name dm = m" "max_users dm = -1" "max_aliases dm = -1" "max_quota_bytes dm = 0"
      using set_policy_row [OF pol] m by simp_all
    have "rows_ok e (?d\<lparr>domains := domains ?d @ [domain_members p dm]\<rparr>)"
      using domain_members_bounds [OF validates_update [OF assms(3)], of dm] dm m by (intro rows_domain_added [OF r]) auto
    moreover have "\<forall>a\<in>set (alternatives ?d). canonical e (alt_name a) \<and> alt_domain a \<in> domain_name ` set (domains ?d)"
      using r by (simp add: rows_defs)
    ultimately have "rows_ok e (?d\<lparr>domains := domains ?d @ [domain_members p dm]\<rparr>\<lparr>alternatives := alternatives ?d @ rows\<rparr>)"
      using alternative_rows_ok [OF assms(1) rows] by (intro rows_alternatives) auto
    then show ?thesis by simp
  qed
  then show ?thesis
    unfolding domain_post_def Let_def using assms(2)
    by (auto split: outcome.splits option.splits intro!: commit_inv)
qed

lemma domain_patch_inv:
  assumes "idna_ok e" "api_inv e s" "validates domain_fields_update p"
  shows "api_inv e (snd (domain_patch e n p s))"
proof -
  let ?d = "ap_db s"
  note r = api_inv_rows [OF assms(2)]
  have "rows_ok e ((put_domain dm' ?d)\<lparr>alternatives := alternatives ?d @ rows\<rparr>)"
    if f: "path_domain e ?d n = Inr dm" and pol: "set_passkey_policy p (domain_members p dm) = Some dm'"
      and rows: "alternative_rows e (the (stored_domain e n)) xs = Some rows" for dm dm' xs rows
  proof -
    have m: "dm \<in> set (domains ?d)" "stored_domain e n = Some (domain_name dm)"
      using path_domain_row [OF _ f] r by (auto simp: rows_ok_def)
    have old: "canonical e (domain_name dm)" "policy_ok (domain_policy dm)" "-1 \<le> max_users dm" "-1 \<le> max_aliases dm"
      "0 \<le> max_quota_bytes dm"
      using r m(1) by (simp_all add: rows_defs)
    have dm: "policy_ok (domain_policy dm')" "domain_name dm' = domain_name dm" "-1 \<le> max_users dm'" "-1 \<le> max_aliases dm'"
      "0 \<le> max_quota_bytes dm'"
      using set_policy_row [OF pol] domain_members_bounds [OF assms(3), of dm] old by simp_all
    have "map domain_name (domains (put_domain dm' ?d)) = map domain_name (domains ?d)" by (simp add: put_domain_def)
    then have nm: "domain_name ` set (domains (put_domain dm' ?d)) = domain_name ` set (domains ?d)" by (metis set_map)
    have "rows_ok e (put_domain dm' ?d)" using dm old by (intro rows_domain_put [OF r]) auto
    moreover have "\<forall>a\<in>set (alternatives ?d). canonical e (alt_name a) \<and> alt_domain a \<in> domain_name ` set (domains ?d)"
      using r by (simp add: rows_defs)
    ultimately show ?thesis
      using alternative_rows_ok [OF assms(1) rows] m nm by (intro rows_alternatives) auto
  qed
  then show ?thesis
    unfolding domain_patch_def Let_def using assms(2)
    by (auto split: sum.splits option.splits intro!: commit_inv)
qed

lemma domain_delete_inv:
  assumes "api_inv e s"
  shows "api_inv e (snd (domain_delete e n s))"
  unfolding domain_delete_def
  using assms commit_inv [OF assms rows_domain_deleted [OF api_inv_rows [OF assms]]]
  by (auto split: sum.splits prod.splits) (metis snd_conv)+

lemma alternative_calls_inv:
  assumes "idna_ok e" "api_inv e s"
  shows "api_inv e (snd (alternative_post e p s)) \<and> api_inv e (snd (alternative_delete e n s))"
proof (intro conjI)
  let ?d = "ap_db s"
  note r = api_inv_rows [OF assms(2)]
  have old: "\<forall>a\<in>set (alternatives ?d). canonical e (alt_name a) \<and> alt_domain a \<in> domain_name ` set (domains ?d)"
    using r by (simp add: rows_defs)
  have new: "dm \<in> set (domains ?d) \<and> stored_domain e n = Some (domain_name dm)" if "path_domain e ?d n = Inr dm" for n dm
    using path_domain_row [OF _ that] r by (simp add: rows_ok_def)
  show "api_inv e (snd (alternative_post e p s))"
    unfolding alternative_post_def Let_def
    using assms(2) old new fqdn_stored [OF assms(1)]
    by (auto split: sum.splits outcome.splits intro!: commit_inv rows_alternatives [OF r]) fastforce
  show "api_inv e (snd (alternative_delete e n s))"
    unfolding alternative_delete_def Let_def
    using assms(2) old by (auto split: outcome.splits option.splits intro!: commit_inv rows_alternatives [OF r])
qed

lemma path_alias_row: "path_alias e d n = Inr a \<Longrightarrow> a \<in> set (aliases d)"
  by (auto simp: path_alias_def get_alias_def find_Some_iff split: if_splits outcome.splits option.splits)

lemma own_alias_row: "own_alias e d c n = Inr a \<Longrightarrow> a \<in> set (aliases d) \<and> (\<exists>u. c = Some u \<and> owner_email a = Some (email u))"
  by (auto simp: own_alias_def get_alias_def find_Some_iff split: if_splits outcome.splits option.splits)

lemma rows_alias_put:
  assumes "rows_ok e d" "a \<in> set (aliases d)" "alias_email a' = alias_email a" "alias_localpart a' = alias_localpart a"
    "alias_domain a' = alias_domain a" "owner_email a' = owner_email a"
  shows "rows_ok e (put_alias a' d)"
  unfolding put_alias_def
proof (rule rows_aliases [OF assms(1)])
  have old: "\<forall>a\<in>set (aliases d). alias_domain a \<in> domain_name ` set (domains d)
       \<and> set_option (owner_email a) \<subseteq> email ` set (users d)
       \<and> address_ok e (alias_email a) (alias_localpart a) (alias_domain a)"
    using assms(1) by (simp add: rows_defs)
  then show "\<forall>x\<in>set (map (\<lambda>r. if alias_email r = alias_email a' then a' else r) (aliases d)).
      alias_domain x \<in> domain_name ` set (domains d) \<and> set_option (owner_email x) \<subseteq> email ` set (users d)
       \<and> address_ok e (alias_email x) (alias_localpart x) (alias_domain x)"
    using bspec [OF old assms(2)] assms(3-6) by auto
qed

lemma alias_calls_inv:
  assumes "api_inv e s"
  shows "api_inv e (snd (alias_patch e n p s)) \<and> api_inv e (snd (alias_delete e n s))
    \<and> api_inv e (snd (anon_alias_patch e c n p s)) \<and> api_inv e (snd (anon_alias_delete e c n s))"
proof (intro conjI)
  note r = api_inv_rows [OF assms]
  have old: "\<forall>a\<in>set (aliases (ap_db s)). alias_domain a \<in> domain_name ` set (domains (ap_db s))
       \<and> set_option (owner_email a) \<subseteq> email ` set (users (ap_db s))
       \<and> address_ok e (alias_email a) (alias_localpart a) (alias_domain a)"
    using r by (simp add: rows_defs)
  show "api_inv e (snd (alias_patch e n p s))"
    unfolding alias_patch_def Let_def using assms path_alias_row
    by (auto split: sum.splits option.splits intro!: commit_inv rows_alias_put [OF r])
  show "api_inv e (snd (alias_delete e n s))"
    unfolding alias_delete_def Let_def using assms old
    by (auto split: sum.splits intro!: commit_inv rows_aliases [OF r])
  show "api_inv e (snd (anon_alias_patch e c n p s))"
    unfolding anon_alias_patch_def Let_def using assms
    by (auto split: sum.splits option.splits intro!: commit_inv simp: given_alias_keys
        dest!: own_alias_row intro: rows_alias_put [OF r])
  show "api_inv e (snd (anon_alias_delete e c n s))"
    unfolding anon_alias_delete_def Let_def using assms old
    by (auto split: sum.splits intro!: commit_inv rows_aliases [OF r])
qed

lemma new_address_ok:
  assumes "idna_ok e" "valid_email e adr" "stored_email e adr = Some (lp, dn)" "rows_ok e d"
    and "get_domain (ap_enc e) d (snd (the (rcut CHR ''@'' (lower adr)))) = Ret (Some dm)"
    and "is_valid_localpart (ap_valid_address e) lp"
  shows "dn \<in> domain_name ` set (domains d) \<and> address_ok e (lp @ ''@'' @ dn) lp dn"
  using stored_email_row [OF assms(1-3) _ assms(5)] assms(4,6) by (simp add: rows_ok_def address_ok_def)

lemma new_keys [simp]:
  "alias_email (new_alias lp dn ds) = lp @ ''@'' @ dn" "alias_localpart (new_alias lp dn ds) = lp"
  "alias_domain (new_alias lp dn ds) = dn" "owner_email (new_alias lp dn ds) = None"
  "email (new_user e lp dn) = lp @ ''@'' @ dn" "localpart (new_user e lp dn) = lp" "user_domain (new_user e lp dn) = dn"
  by (simp_all add: new_alias_def new_user_def)

lemma alias_post_inv:
  assumes "idna_ok e" "api_inv e s"
  shows "api_inv e (snd (alias_post e p s))"
proof -
  let ?d = "ap_db s" and ?adr = "the (str_arg p ''email'')"
  note r = api_inv_rows [OF assms(2)]
  have old: "\<forall>a\<in>set (aliases ?d). alias_domain a \<in> domain_name ` set (domains ?d)
       \<and> set_option (owner_email a) \<subseteq> email ` set (users ?d)
       \<and> address_ok e (alias_email a) (alias_localpart a) (alias_domain a)"
    using r by (simp add: rows_defs)
  have "rows_ok e (?d\<lparr>aliases := aliases ?d @ [alias_members p (new_alias lp dn ds)]\<rparr>)"
    if "valid_email e ?adr" "get_domain (ap_enc e) ?d (snd (the (rcut CHR ''@'' (lower ?adr)))) = Ret (Some dm)"
      "stored_email e ?adr = Some (lp, dn)" "is_valid_localpart (ap_valid_address e) lp" for dm lp dn ds
    using new_address_ok [OF assms(1) that(1,3) r that(2,4)] old by (intro rows_aliases [OF r]) auto
  then show ?thesis
    unfolding alias_post_def Let_def using assms(2)
    by (auto split: outcome.splits option.splits intro!: commit_inv)
qed

lemma user_post_inv:
  assumes "idna_ok e" "api_inv e s"
  shows "api_inv e (snd (user_post e f p s))"
proof -
  let ?d = "ap_db s" and ?adr = "the (str_arg p ''email'')"
  note r = api_inv_rows [OF assms(2)]
  have "rows_ok e (?d\<lparr>users := users ?d @ [u]\<rparr>)"
    if "valid_email e ?adr" "get_domain (ap_enc e) ?d (snd (the (rcut CHR ''@'' (lower ?adr)))) = Ret (Some dm)"
      "stored_email e ?adr = Some (lp, dn)" "is_valid_localpart (ap_valid_address e) lp"
      "apply_members p ((new_user e lp dn)\<lparr>password := h\<rparr>) = Inr u" for dm lp dn h u
    using new_address_ok [OF assms(1) that(1,3) r that(2,4)] apply_members_keys [OF that(5)]
    by (intro rows_user_added [OF r]) auto
  then show ?thesis
    unfolding user_post_def Let_def using assms(2) commit_inv [of e "s\<lparr>ap_sessions := x\<rparr>" for x]
    by (auto split: outcome.splits option.splits sum.splits)
qed

lemma force_rows: "rows_ok e d \<Longrightarrow> rows_ok e (force_user_reauthentication now who d)"
  by (auto simp: rows_defs force_user_reauthentication_def force_reauthentication_def)

lemma user_row_ok:
  "\<lbrakk>rows_ok e d; u \<in> set (users d)\<rbrakk>
   \<Longrightarrow> user_domain u \<in> domain_name ` set (domains d) \<and> address_ok e (email u) (localpart u) (user_domain u)"
  by (simp add: rows_defs)

lemma set_password_rows:
  assumes "rows_ok e d" "u \<in> set (users d)" "set_password S scfg cr now raw keep True u pw (d, st) = (d', st')"
  shows "rows_ok e d' \<and> domains d' = domains d"
proof -
  let ?u = "u\<lparr>password := if raw then pw else cr_hash cr pw\<rparr>"
  have "d' = force_user_reauthentication now (email u) (put_user ?u d)" using assms(3) by (simp add: set_password_def Let_def)
  moreover have "rows_ok e (put_user ?u d)" using user_row_ok [OF assms(1,2)] by (intro rows_user_put [OF assms(1)]) auto
  ultimately show ?thesis by (simp add: force_rows) (simp add: force_user_reauthentication_def)
qed

lemma user_patch_inv:
  assumes "api_inv e s"
  shows "api_inv e (snd (user_patch e now n p s))"
proof -
  note r = api_inv_rows [OF assms]
  have put: "rows_ok e (put_user u2 d1)"
    if "u \<in> set (users (ap_db s))" "rows_ok e d1" "domains d1 = domains (ap_db s)"
      "email u1 = email u" "localpart u1 = localpart u" "user_domain u1 = user_domain u"
      "apply_members p u1 = Inr u2" for u u1 u2 d1
    using user_row_ok [OF r that(1)] apply_members_keys [OF that(7)] that(3-6) by (intro rows_user_put [OF that(2)]) auto
  show ?thesis
  proof (cases "str_arg p ''raw_password''")
    case None
    have "rows_ok e (put_user u2 (ap_db s))" if "path_user e (ap_db s) n = Inr u" "apply_members p u = Inr u2" for u u2
      using put [OF _ r refl refl refl refl that(2)] path_user_row [OF that(1)] by simp
    then show ?thesis
      unfolding user_patch_def Let_def using assms None by (auto split: sum.splits intro!: commit_inv)
  next
    case (Some pw)
    have "api_inv e (snd (commit (ap_enc e) (s\<lparr>ap_sessions := st'\<rparr>) (put_user u2 d')))"
      if u: "path_user e (ap_db s) n = Inr u"
        and sp: "set_password (ap_store e) (ap_session_cfg e) (ap_crypto e) now False (Some {}) True u pw
             (ap_db s, ap_sessions s) = (d', st')"
        and am: "apply_members p (u\<lparr>password := h\<rparr>) = Inr u2" for u h d' st' u2
    proof -
      have u': "u \<in> set (users (ap_db s))" using path_user_row [OF u] by simp
      note d' = set_password_rows [OF r u' sp]
      have "rows_ok e (put_user u2 d')" using put [OF u' _ _ _ _ _ am] d' by simp
      then show ?thesis using assms by (intro commit_inv) simp
    qed
    then show ?thesis
      unfolding user_patch_def Let_def using assms Some by (auto split: sum.splits prod.splits)
  qed
qed

lemma setup_link_inv: "api_inv e s \<Longrightarrow> api_inv e (snd (user_setup_link e raw now n s))"
  by (auto simp: user_setup_link_def split: sum.splits)

lemma user_delete_inv: "api_inv e s \<Longrightarrow> api_inv e (snd (user_delete e n s))"
  by (auto simp: user_delete_def split: sum.splits intro!: commit_inv rows_user_deleted dest: api_inv_rows)

lemma api_step_inv:
  assumes "idna_ok e" "restx_ok e" "api_inv e s" "payload_ok e op"
  shows "api_inv e (api_step e s op)"
  unfolding api_step_def
  using assms(2,4) domain_post_inv [OF assms(1,3)] domain_patch_inv [OF assms(1,3)] domain_delete_inv [OF assms(3)]
    manager_calls_inv [OF assms(3)] alternative_calls_inv [OF assms(1,3)] relay_calls_inv [OF assms(1,3)]
    user_post_inv [OF assms(1,3)] user_patch_inv [OF assms(3)] user_delete_inv [OF assms(3)] setup_link_inv [OF assms(3)]
    alias_post_inv [OF assms(1,3)] alias_calls_inv [OF assms(3)] token_calls_inv [OF assms(3)]
  by (cases op) (simp_all add: restx_ok_def tokens_post_def user_token_post_def)

interpretation api: machine "api_step e" "payload_ok e" "\<lambda>s. idna_ok e \<and> restx_ok e \<and> api_inv e s" for e
  by unfold_locales (simp add: api_step_inv)

section \<open>Refused calls\<close>

lemma commit_refused: "commit enc s d' = (a, s') \<Longrightarrow> s' = s \<or> a = Reply 200"
  by (auto simp: commit_def split: if_splits)

text \<open>Everything but the web sessions.\<close>

definition same_rows :: "'s api_state \<Rightarrow> 's api_state \<Rightarrow> bool" where
  "same_rows s s' \<longleftrightarrow> ap_db s' = ap_db s \<and> ap_keys s' = ap_keys s \<and> ap_setups s' = ap_setups s"

lemma same_rows_refl [simp]: "same_rows s s" "same_rows s (s\<lparr>ap_sessions := x\<rparr>)"
  by (simp_all add: same_rows_def)

lemma domain_delete_same: "\<lbrakk>domain_delete e n s = (a, s'); a \<noteq> Reply 200\<rbrakk> \<Longrightarrow> same_rows s s'"
  by (auto simp: domain_delete_def commit_def split: sum.splits if_splits)

lemma user_patch_same: "\<lbrakk>user_patch e now n p s = (a, s'); a \<noteq> Reply 200\<rbrakk> \<Longrightarrow> same_rows s s'"
  unfolding user_patch_def Let_def
  by (auto split: sum.splits if_splits prod.splits option.splits dest!: commit_refused)

lemma setup_link_same: "\<lbrakk>user_setup_link e raw now n s = (a, s'); a \<noteq> Reply 200\<rbrakk> \<Longrightarrow> same_rows s s'"
  by (auto simp: user_setup_link_def split: sum.splits)

lemmas handler_defs = domain_post_def domain_patch_def manager_post_def manager_delete_def alternative_post_def
  alternative_delete_def relay_post_def relay_patch_def relay_delete_def user_post_def user_delete_def alias_post_def
  alias_patch_def alias_delete_def anon_alias_patch_def anon_alias_delete_def token_post_def tokens_post_def
  user_token_post_def token_patch_def token_delete_def

lemma handle_same:
  assumes "handle e op s = (a, s')" "a \<noteq> Reply 200"
  shows "same_rows s s'"
  using assms domain_delete_same user_patch_same setup_link_same
  by (cases op; simp only: handle.simps handler_defs Let_def)
     (auto split: sum.splits if_splits outcome.splits option.splits prod.splits dest!: commit_refused)

section \<open>The token\<close>

lemma api_token_admitted:
  assumes "api_token_authorization L cfg tok remote_addr hs l = Ret (Admitted x, l')"
  shows "l' = l \<and> 4 \<le> str_len tok
    \<and> (\<exists>auth c. dict_get hs ''Authorization'' = Some auth \<and> remove_prefix ''Bearer '' auth = tok
         \<and> normalize_ip (case dict_get hs ''X-Real-IP'' of None \<Rightarrow> remote_addr | Some c \<Rightarrow> c) = Some c
         \<and> \<not> should_rate_limit_ip L cfg c l)"
  using assms
  by (auto simp: api_token_authorization_def with_ip_def compare_digest_def Let_def
      split: option.splits if_splits)

lemma api_token_refused:
  "api_token_authorization L cfg tok remote_addr hs l = Ret (Refused n msg, l') \<Longrightarrow> n = 429 \<or> n = 401 \<or> n = 403"
  by (auto simp: api_token_authorization_def with_ip_def Let_def split: option.splits if_splits)

lemma api_request_admitted:
  assumes "api_request L cfg e remote_addr hs op (s, l) = (a, s', l')" "s' \<noteq> s \<or> a = Reply 200"
  shows "payload_ok e op \<and> handle e op s = (a, s')
    \<and> api_token_authorization L cfg (ap_token e) remote_addr hs l = Ret (Admitted (), l')"
  using assms
  by (auto simp: api_request_def api_call_def split: if_splits outcome.splits prod.splits gate.splits dest!: api_token_refused)

section \<open>Gaps in the checks\<close>

text \<open>A token made for another spelling of the address is stored but is none of the user's tokens.\<close>

theorem token_other_spelling:
  assumes "token_post e v raw adr data s = (Reply 200, s')" "path_user e (ap_db s) adr = Inr u" "adr \<noteq> email u"
  shows "tokens_of (ap_db s') u = tokens_of (ap_db s) u \<and> length (tokens (ap_db s')) = Suc (length (tokens (ap_db s)))"
  using assms
  by (auto simp: token_post_def Let_def tokens_of_def commit_def authorized_ips_def
      split: sum.splits option.splits if_splits)

text \<open>A domain can be created with its own name among its alternative names.\<close>

theorem alternative_of_itself:
  "case domain_post (\<lparr>ap_accepts = validates, ap_enc = Some, ap_dec = id, ap_valid_address = (\<lambda>_. True), ap_valid_domain = (\<lambda>_. True),
         ap_valid_ip = (\<lambda>_. True), ap_token = [], ap_crypto = sample_crypto, ap_store = dict_store,
         ap_session_cfg = sample_cfg, ap_threshold = 80, ap_setup_ttl = 3600, ap_sha256_hex = id\<rparr>)
       [(''name'', JStr ''x''), (''alternatives'', JList [JStr ''x''])]
       \<lparr>ap_db = empty_db, ap_keys = [], ap_setups = [], ap_sessions = []\<rparr> of
     (a, s) \<Rightarrow> a = Reply 200 \<and> map domain_name (domains (ap_db s)) = [''x'']
       \<and> map alt_name (alternatives (ap_db s)) = [''x'']"
  by code_simp

section \<open>Properties\<close>

text \<open>
  The rows the REST API keeps are well typed.  Started on a well-formed database, any sequence
  of calls with payloads of the declared models leaves it well formed: names are stored in their
  canonical form, every user, alias, alternative name, manager, passkey, grant and code refers to
  rows that exist, an address is its local part and its domain, passkey policies hold legal
  values, limits respect their lower bounds, integers fit their columns and primary keys are unique.
\<close>
theorem api_rows_well_formed:
  assumes "idna_ok e" "restx_ok e" "api_inv e s" "list_all (payload_ok e) ops"
  shows "api_inv e (foldl (api_step e) s ops)"
  using api.inv_run [of e s ops] assms by simp

text \<open>
  C19. A call that is answered with anything but 200, or that raises, changes no row: every handler
  either reaches its commit and answers 200, or leaves database, signing keys and setup links as
  they were.  Only the web sessions may differ, because a password that is set ends them at once.
  The calls for signing keys and passkeys are in theories of their own, \<open>Dkim\<close> and \<open>Api_Passkeys\<close>.
\<close>
theorem refused_call_changes_nothing:
  assumes "api_request L cfg e remote_addr hs op (s, l) = (a, s', l')" "a \<noteq> Reply 200"
  shows "ap_db s' = ap_db s \<and> ap_keys s' = ap_keys s \<and> ap_setups s' = ap_setups s"
  using assms handle_same [of e op s]
  by (auto simp: api_request_def api_call_def same_rows_def split: if_splits outcome.splits prod.splits gate.splits)

text \<open>
  C18. Nobody without the API token changes anything.  A request changes the state, or is answered
  200, only when its payload fits the model, the token is at least four characters long and is the
  one in the Authorization header, and the client's network is not rate-limited; the handler then
  decides alone.  Otherwise the state is kept.  Four is the code's bound: the documentation allows
  tokens of three characters, and with one of those every call is refused.
\<close>
theorem api_needs_token:
  assumes "api_request L cfg e remote_addr hs op (s, l) = (a, s', l')" "s' \<noteq> s \<or> a = Reply 200"
  shows "payload_ok e op \<and> handle e op s = (a, s') \<and> l' = l \<and> 4 \<le> str_len (ap_token e)
    \<and> (\<exists>auth c. dict_get hs ''Authorization'' = Some auth \<and> remove_prefix ''Bearer '' auth = ap_token e
         \<and> normalize_ip (case dict_get hs ''X-Real-IP'' of None \<Rightarrow> remote_addr | Some c \<Rightarrow> c) = Some c
         \<and> \<not> should_rate_limit_ip L cfg c l)"
  using api_request_admitted [OF assms] api_token_admitted by fastforce

section \<open>Examples\<close>

definition sample_api :: "(string, sval) dict api_env" where
  "sample_api = \<lparr>ap_accepts = validates, ap_enc = (\<lambda>n. Some (lower n)), ap_dec = id, ap_valid_address = (\<lambda>_. True), ap_valid_domain = (\<lambda>n. n \<noteq> []),
     ap_valid_ip = (\<lambda>_. True), ap_token = ''secret'', ap_crypto = sample_crypto, ap_store = dict_store,
     ap_session_cfg = sample_cfg, ap_threshold = 80, ap_setup_ttl = 3600, ap_sha256_hex = id\<rparr>"

definition sample_state :: "(string, sval) dict api_state" where
  "sample_state = \<lparr>ap_db = empty_db, ap_keys = [], ap_setups = [], ap_sessions = []\<rparr>"

definition sample_ops :: "api_op list" where
  "sample_ops = [DomainPost [(''name'', JStr ''X.io'')], UserPost ''r'' [(''email'', JStr ''Ann@x.IO'')],
     AliasPost [(''email'', JStr ''all@x.io''), (''destination'', JList [JStr ''ann@x.io''])]]"

lemma sample_idna: "idna_ok sample_api"
  by (simp add: idna_ok_def sample_api_def comp_def)

lemma sample_restx: "restx_ok sample_api"
  by (simp add: restx_ok_def sample_api_def)

theorem api_rows_well_formed_witness:
  "api_inv sample_api (foldl (api_step sample_api) sample_state sample_ops)
   \<and> (let d = ap_db (foldl (api_step sample_api) sample_state sample_ops) in
        (map email (users d), map alias_email (aliases d)) = ([''ann@x.io''], [''all@x.io'']))"
proof -
  have "api_inv sample_api sample_state"
    by (simp add: api_inv_def rows_defs keys_unique_def integers_fit_def sample_state_def empty_db_def)
  moreover have "list_all (payload_ok sample_api) sample_ops" by code_simp
  ultimately have "api_inv sample_api (foldl (api_step sample_api) sample_state sample_ops)"
    by (rule api_rows_well_formed [OF sample_idna sample_restx])
  moreover have "let d = ap_db (foldl (api_step sample_api) sample_state sample_ops) in
        (map email (users d), map alias_email (aliases d)) = ([''ann@x.io''], [''all@x.io''])"
    by code_simp
  ultimately show ?thesis by blast
qed

lemma sample_gate:
  "normalize_ip ''10.0.0.1'' = Some (V4 167772161)"
  "should_rate_limit_ip counter_lib sample_rl (V4 167772161) (\<lambda>_. 0, []) = False"
  by (simp add: sample_client)
     (simp add: should_rate_limit_ip_def is_subject_def is_exempt_from_ratelimits_def counter_lib_def sample_rl_def
        client_network_def network_of_def)

theorem refused_call_changes_nothing_witness:
  "\<exists>s' l'. api_request counter_lib sample_rl sample_api ''10.0.0.1'' [] (DomainDelete ''x.io'') (sample_state, \<lambda>_. 0, [])
     = (Reply 401, s', l') \<and> ap_db s' = empty_db"
proof -
  have "api_request counter_lib sample_rl sample_api ''10.0.0.1'' [] (DomainDelete ''x.io'') (sample_state, \<lambda>_. 0, [])
      = (Reply 401, sample_state, \<lambda>_. 0, [])"
    by (simp add: api_request_def api_call_def api_token_authorization_def with_ip_def sample_gate)
  from refused_call_changes_nothing [OF this] this show ?thesis by (auto simp: sample_state_def)
qed

theorem api_needs_token_witness:
  "\<exists>s' l'. api_request counter_lib sample_rl sample_api ''10.0.0.1'' [(''Authorization'', ''Bearer secret'')]
       (DomainPost [(''name'', JStr ''x.io'')]) (sample_state, \<lambda>_. 0, []) = (Reply 200, s', l')
     \<and> s' \<noteq> sample_state \<and> l' = (\<lambda>_. 0, [])"
proof -
  have h: "handle sample_api (DomainPost [(''name'', JStr ''x.io'')]) sample_state
      = (Reply 200, sample_state\<lparr>ap_db := empty_db\<lparr>domains := [new_domain ''x.io'']\<rparr>\<rparr>)"
    by code_simp
  have v: "validates domain_fields [(''name'', JStr ''x.io'')]" by code_simp
  have t: "ap_token sample_api = ''secret''" "ap_accepts sample_api = validates" by (simp_all add: sample_api_def)
  have "api_request counter_lib sample_rl sample_api ''10.0.0.1'' [(''Authorization'', ''Bearer secret'')]
       (DomainPost [(''name'', JStr ''x.io'')]) (sample_state, \<lambda>_. 0, [])
      = (Reply 200, sample_state\<lparr>ap_db := empty_db\<lparr>domains := [new_domain ''x.io'']\<rparr>\<rparr>, \<lambda>_. 0, [])"
    using h v by (simp add: api_request_def api_call_def api_token_authorization_def with_ip_def sample_gate t
        compare_digest_def remove_prefix_def dict_get_Cons str_len_def code_in_def)
  from this api_needs_token [OF this] show ?thesis by (auto simp: sample_state_def empty_db_def)
qed

end
