(* ===== verification/Dkim.thy ===== *)
theory Dkim
  imports Api_Machine
begin

text \<open>
  Signing keys (\<open>models.py\<close> class DkimKey, \<open>dkim.py\<close>): how they are made, staged, promoted, retired
  and deleted by the REST API (\<open>api/v1/domain.py\<close>) and the administration pages
  (\<open>ui/views/domains.py\<close>), and which of them the spam filter gets (\<open>internal/views/rspamd.py\<close>).
  The key generator and the derivation of a public key are arguments.
\<close>

section \<open>Keys\<close>

text \<open>The text of the public key for a DNS record, and SHA-256 in hexadecimal.\<close>

record key_lib =
  kl_public :: "string \<Rightarrow> string \<Rightarrow> string"
  kl_sha256_hex :: "string \<Rightarrow> string"

definition key_selector :: "key_lib \<Rightarrow> string \<Rightarrow> string \<Rightarrow> string" where
  "key_selector kl pem alg = take 12 (kl_sha256_hex kl (kl_public kl pem alg))"

definition next_key_id :: "dkim_key list \<Rightarrow> nat" where
  "next_key_id ks = Suc (foldr max (map key_id ks) 0)"

definition create_key :: "key_lib \<Rightarrow> dkim_key list \<Rightarrow> string \<Rightarrow> string \<Rightarrow> string \<Rightarrow> bool \<Rightarrow> dkim_key" where
  "create_key kl ks dn pem alg act =
     \<lparr>key_id = next_key_id ks, key_domain = dn, selector = key_selector kl pem alg, algorithm = alg,
      private_key = pem, active = act, retired = False\<rparr>"

definition domain_keys :: "dkim_key list \<Rightarrow> string \<Rightarrow> dkim_key list" where
  "domain_keys ks dn = sort_key selector (filter (\<lambda>k. key_domain k = dn) ks)"

definition find_key :: "dkim_key list \<Rightarrow> nat \<Rightarrow> dkim_key option" where
  "find_key ks i = find (\<lambda>k. key_id k = i) ks"

definition put_key :: "dkim_key \<Rightarrow> dkim_key list \<Rightarrow> dkim_key list" where
  "put_key k ks = map (\<lambda>x. if key_id x = key_id k then k else x) ks"

text \<open>The commit of the keys: a domain has each selector once.\<close>

definition commit_keys :: "'s api_state \<Rightarrow> dkim_key list \<Rightarrow> api_answer \<times> 's api_state" where
  "commit_keys s ks =
     (if distinct (map (\<lambda>k. (key_domain k, selector k)) ks) then (Reply 200, s\<lparr>ap_keys := ks\<rparr>) else (Raised, s))"

definition ALGORITHMS :: "string list" where
  "ALGORITHMS = [''rsa'', ''ed25519'']"

text \<open>\<open>gen\<close> draws a private key for an algorithm.\<close>

definition generate_dkim_key ::
  "key_lib \<Rightarrow> (string \<Rightarrow> string) \<Rightarrow> string \<Rightarrow> bool \<Rightarrow> string \<Rightarrow> dkim_key list \<Rightarrow> dkim_key list" where
  "generate_dkim_key kl gen alg act dn ks =
     ks @ [create_key kl ks dn (gen (if alg = ''ed25519'' then ''ed25519'' else ''rsa'')) alg act]"

definition active_key :: "dkim_key list \<Rightarrow> string \<Rightarrow> dkim_key option" where
  "active_key ks dn = find active (domain_keys ks dn)"

definition get_dkim_key :: "dkim_key list \<Rightarrow> string \<Rightarrow> string option" where
  "get_dkim_key ks dn = map_option private_key (active_key ks dn)"

definition set_dkim_key :: "key_lib \<Rightarrow> string \<Rightarrow> string option \<Rightarrow> dkim_key list \<Rightarrow> dkim_key list" where
  "set_dkim_key kl dn value ks =
     (case value of
        None \<Rightarrow> ks
      | Some pem \<Rightarrow>
          (case active_key ks dn of
             Some k \<Rightarrow> put_key (k\<lparr>private_key := pem\<rparr>) ks
           | None \<Rightarrow> ks @ [create_key kl ks dn pem ''rsa'' True]))"

text \<open>The key of an earlier release: \<open>backup\<close> tells whether it was imported before, \<open>content\<close> is the
  file where it can be read; the flag of the result tells whether the file is renamed.\<close>

definition import_legacy_dkim_key ::
  "string \<Rightarrow> bool \<Rightarrow> string option \<Rightarrow> string \<Rightarrow> dkim_key list \<Rightarrow> dkim_key list \<times> bool" where
  "import_legacy_dkim_key sel backup content dn ks =
     (if backup then (ks, False)
      else case content of
        None \<Rightarrow> (ks, False)
      | Some pem \<Rightarrow>
          ((if list_ex (\<lambda>k. selector k = sel) (domain_keys ks dn) then ks
            else ks @ [\<lparr>key_id = next_key_id ks, key_domain = dn, selector = sel, algorithm = ''rsa'',
                        private_key = pem, active = \<not> list_ex active (domain_keys ks dn), retired = False\<rparr>]),
           True))"

section \<open>The REST API\<close>

text \<open>The request body: absent, not JSON by its type, not parseable, or a value.\<close>

datatype body = No_body | Not_json | Bad_json | Json json

definition dkim_generate ::
  "key_lib \<Rightarrow> (string \<Rightarrow> string) \<Rightarrow> json \<Rightarrow> string \<Rightarrow> 's api_state \<Rightarrow> api_answer \<times> 's api_state" where
  "dkim_generate kl gen alg dn s =
     (case alg of
        JStr a \<Rightarrow> if a \<in> set ALGORITHMS then commit_keys s (generate_dkim_key kl gen a False dn (ap_keys s))
                  else (Reply 400, s)
      | _ \<Rightarrow> (Reply 400, s))"

definition dkim_post ::
  "'s api_env \<Rightarrow> key_lib \<Rightarrow> (string \<Rightarrow> string) \<Rightarrow> string \<Rightarrow> body \<Rightarrow> 's api_state \<Rightarrow> api_answer \<times> 's api_state" where
  "dkim_post e kl gen name b s =
     (case path_domain e (ap_db s) name of
        Inl a \<Rightarrow> (a, s)
      | Inr dm \<Rightarrow>
          (case b of
             No_body \<Rightarrow> dkim_generate kl gen (JStr ''rsa'') (domain_name dm) s
           | Not_json \<Rightarrow> (Reply 415, s)
           | Bad_json \<Rightarrow> (Reply 400, s)
           | Json (JObj data) \<Rightarrow> dkim_generate kl gen (get_default data ''algorithm'' (JStr ''rsa'')) (domain_name dm) s
           | Json _ \<Rightarrow> (Raised, s)))"

definition alternative_dkim_post ::
  "'s api_env \<Rightarrow> key_lib \<Rightarrow> (string \<Rightarrow> string) \<Rightarrow> string \<Rightarrow> payload \<Rightarrow> 's api_state \<Rightarrow> api_answer \<times> 's api_state" where
  "alternative_dkim_post e kl gen name data s =
     (case get_alternative (ap_enc e) (ap_db s) name of
        Exn x \<Rightarrow> (Raised, s)
      | Ret None \<Rightarrow> (Reply 404, s)
      | Ret (Some a) \<Rightarrow>
          if alt_domain a \<notin> set (map domain_name (domains (ap_db s))) then (Raised, s)
          else dkim_generate kl gen (get_default data ''algorithm'' (JStr ''rsa'')) (alt_domain a) s)"

text \<open>The domain whose keys a path may change: the domain itself, or the parent of an alternative.\<close>

datatype owner_path = Of_domain string | Of_alternative string

definition path_owner :: "'s api_env \<Rightarrow> db \<Rightarrow> owner_path \<Rightarrow> string option outcome" where
  "path_owner e d p =
     (case p of
        Of_domain n \<Rightarrow> bind_out (get_domain (ap_enc e) d n) (\<lambda>r. Ret (map_option domain_name r))
      | Of_alternative n \<Rightarrow> bind_out (get_alternative (ap_enc e) d n) (\<lambda>r. Ret (map_option alt_domain r)))"

definition owned_key :: "'s api_env \<Rightarrow> owner_path \<Rightarrow> nat \<Rightarrow> 's api_state \<Rightarrow> api_answer + dkim_key" where
  "owned_key e p i s =
     (case path_owner e (ap_db s) p of
        Exn x \<Rightarrow> Inl Raised
      | Ret dn \<Rightarrow>
          (case find_key (ap_keys s) i of
             None \<Rightarrow> Inl (Reply 404)
           | Some k \<Rightarrow> if dn = Some (key_domain k) then Inr k else Inl (Reply 404)))"

definition dkim_patch ::
  "'s api_env \<Rightarrow> owner_path \<Rightarrow> nat \<Rightarrow> bool \<Rightarrow> 's api_state \<Rightarrow> api_answer \<times> 's api_state" where
  "dkim_patch e p i act s =
     (case owned_key e p i s of
        Inl a \<Rightarrow> (a, s)
      | Inr k \<Rightarrow>
          if act \<and> retired k then (Reply 409, s)
          else commit_keys s (put_key (k\<lparr>active := act, retired := (if act then retired k else True)\<rparr>) (ap_keys s)))"

definition dkim_delete :: "'s api_env \<Rightarrow> owner_path \<Rightarrow> nat \<Rightarrow> 's api_state \<Rightarrow> api_answer \<times> 's api_state" where
  "dkim_delete e p i s =
     (case owned_key e p i s of
        Inl a \<Rightarrow> (a, s)
      | Inr k \<Rightarrow> if active k then (Reply 409, s) else commit_keys s (filter (\<lambda>x. key_id x \<noteq> i) (ap_keys s)))"

section \<open>The administration pages\<close>

text \<open>Both run behind the domain administrator guard and a confirmation; \<open>alg\<close> is the request value
  with its default.\<close>

definition domain_genkeys ::
  "'s api_env \<Rightarrow> key_lib \<Rightarrow> (string \<Rightarrow> string) \<Rightarrow> string \<Rightarrow> string \<Rightarrow> 's api_state \<Rightarrow> api_answer \<times> 's api_state" where
  "domain_genkeys e kl gen name alg s =
     (case get_domain (ap_enc e) (ap_db s) name of
        Exn x \<Rightarrow> (Raised, s)
      | Ret None \<Rightarrow> (Reply 404, s)
      | Ret (Some dm) \<Rightarrow>
          if alg \<notin> set ALGORITHMS then (Reply 400, s)
          else (case commit_keys s (generate_dkim_key kl gen alg False (domain_name dm) (ap_keys s)) of
                  (a, s') \<Rightarrow> (if a = Reply 200 then Reply 302 else a, s')))"

definition requested_status :: "dkim_key \<Rightarrow> string \<Rightarrow> string" where
  "requested_status k status =
     (if status = ''toggle'' then (if active k then ''retired'' else ''active'') else status)"

definition domain_dkim_status :: "nat \<Rightarrow> string \<Rightarrow> bool \<Rightarrow> 's api_state \<Rightarrow> api_answer \<times> 's api_state" where
  "domain_dkim_status i status form_valid s =
     (if \<not> form_valid then (Reply 400, s)
      else case find_key (ap_keys s) i of
        None \<Rightarrow> (Reply 404, s)
      | Some k \<Rightarrow>
          let save = (\<lambda>ks. case commit_keys s ks of (a, s') \<Rightarrow> (if a = Reply 200 then Reply 302 else a, s'));
              wanted = requested_status k status
          in if status = ''delete'' then save (filter (\<lambda>x. key_id x \<noteq> i) (ap_keys s))
             else if wanted = ''retired'' \<and> active k
             then save (put_key (k\<lparr>active := False, retired := True\<rparr>) (ap_keys s))
             else if wanted = ''active'' \<and> \<not> active k \<and> \<not> retired k
             then save (put_key (k\<lparr>active := True\<rparr>) (ap_keys s))
             else (Reply 409, s))"

section \<open>What the spam filter gets\<close>

fun pick_keys :: "string list \<Rightarrow> dkim_key list \<Rightarrow> dkim_key list" where
  "pick_keys seen [] = []"
| "pick_keys seen (k # ks) =
     (if active k \<and> selector k \<notin> set seen then k # pick_keys (selector k # seen) ks else pick_keys seen ks)"

definition signing_domains :: "(string \<Rightarrow> string option) \<Rightarrow> db \<Rightarrow> string \<Rightarrow> string list outcome" where
  "signing_domains enc d name =
     bind_out (get_domain enc d name) (\<lambda>dm.
     bind_out (get_alternative enc d name) (\<lambda>a.
       Ret ((case dm of Some r \<Rightarrow> [domain_name r] | None \<Rightarrow> [])
            @ (case a of Some r \<Rightarrow> filter (\<lambda>n. n \<in> set (map domain_name (domains d))) [alt_domain r] | None \<Rightarrow> []))))"

record vault_selector =
  vs_domain :: string
  vs_key :: string
  vs_selector :: string
  vs_alg :: string

definition rspamd_dkim_key ::
  "(string \<Rightarrow> string option) \<Rightarrow> db \<Rightarrow> dkim_key list \<Rightarrow> string \<Rightarrow> vault_selector list outcome" where
  "rspamd_dkim_key enc d ks name =
     bind_out (signing_domains enc d name) (\<lambda>dns.
       let picked = pick_keys [] (concat (map (domain_keys ks) dns)) in
       case bind_domain enc name of
         None \<Rightarrow> Exn OtherError
       | Some ascii \<Rightarrow>
           if list_all (\<lambda>k. utf8_valid (private_key k)) picked
           then Ret (map (\<lambda>k. \<lparr>vs_domain = ascii, vs_key = private_key k, vs_selector = selector k,
                               vs_alg = algorithm k\<rparr>) picked)
           else Exn ValueError)"

section \<open>The life of a key\<close>

datatype dkim_op =
    Post key_lib "string \<Rightarrow> string" string body
  | Alternative_post key_lib "string \<Rightarrow> string" string payload
  | Patch owner_path nat bool
  | Delete owner_path nat
  | Genkeys key_lib "string \<Rightarrow> string" string string
  | Ui_status nat string bool
  | Import string bool "string option" string
  | Set_key key_lib string "string option"
  | Api api_op

definition dkim_step :: "'s api_env \<Rightarrow> 's api_state \<Rightarrow> dkim_op \<Rightarrow> 's api_state" where
  "dkim_step e s op =
     (case op of
        Post kl gen n b \<Rightarrow> snd (dkim_post e kl gen n b s)
      | Alternative_post kl gen n p \<Rightarrow> snd (alternative_dkim_post e kl gen n p s)
      | Patch p i act \<Rightarrow> snd (dkim_patch e p i act s)
      | Delete p i \<Rightarrow> snd (dkim_delete e p i s)
      | Genkeys kl gen n alg \<Rightarrow> snd (domain_genkeys e kl gen n alg s)
      | Ui_status i st v \<Rightarrow> snd (domain_dkim_status i st v s)
      | Import sel backup content dn \<Rightarrow> s\<lparr>ap_keys := fst (import_legacy_dkim_key sel backup content dn (ap_keys s))\<rparr>
      | Set_key kl dn v \<Rightarrow> s\<lparr>ap_keys := set_dkim_key kl dn v (ap_keys s)\<rparr>
      | Api op \<Rightarrow> api_step e s op)"

text \<open>Whether an operation brings this private key in.\<close>

fun introduces :: "string \<Rightarrow> dkim_op \<Rightarrow> bool" where
  "introduces pem (Post kl gen n b) = (gen ''rsa'' = pem \<or> gen ''ed25519'' = pem)"
| "introduces pem (Alternative_post kl gen n p) = (gen ''rsa'' = pem \<or> gen ''ed25519'' = pem)"
| "introduces pem (Genkeys kl gen n alg) = (gen ''rsa'' = pem \<or> gen ''ed25519'' = pem)"
| "introduces pem (Import sel backup content dn) = (content = Some pem)"
| "introduces pem (Set_key kl dn v) = (v = Some pem)"
| "introduces pem _ = False"

definition withdrawn :: "string \<Rightarrow> 's api_state \<Rightarrow> bool" where
  "withdrawn pem s \<longleftrightarrow> (\<forall>k\<in>set (ap_keys s). private_key k = pem \<longrightarrow> retired k \<and> \<not> active k)"

section \<open>Steps and keys\<close>

lemma commit_frame [simp]: "ap_keys (snd (commit enc s d')) = ap_keys s"
  by (simp add: commit_def)

lemma domain_delete_keys: "set (ap_keys (snd (domain_delete e n s))) \<subseteq> set (ap_keys s)"
  by (auto simp: domain_delete_def commit_def split: sum.splits)

lemma user_calls_keys:
  "ap_keys (snd (user_post e f p s)) = ap_keys s" "ap_keys (snd (user_patch e now n p s)) = ap_keys s"
  "ap_keys (snd (user_setup_link e r now n s)) = ap_keys s"
  by (auto simp: user_post_def user_patch_def user_setup_link_def Let_def
      split: sum.splits outcome.splits option.splits prod.splits)

lemma other_calls_keys:
  "ap_keys (snd (domain_post e p s)) = ap_keys s" "ap_keys (snd (domain_patch e n p s)) = ap_keys s"
  "ap_keys (snd (manager_post e n p s)) = ap_keys s" "ap_keys (snd (manager_delete e n a s)) = ap_keys s"
  "ap_keys (snd (alternative_post e p s)) = ap_keys s" "ap_keys (snd (alternative_delete e n s)) = ap_keys s"
  "ap_keys (snd (relay_post e p s)) = ap_keys s" "ap_keys (snd (relay_patch e n p s)) = ap_keys s"
  "ap_keys (snd (relay_delete e n s)) = ap_keys s" "ap_keys (snd (user_delete e n s)) = ap_keys s"
  "ap_keys (snd (alias_post e p s)) = ap_keys s" "ap_keys (snd (alias_patch e n p s)) = ap_keys s"
  "ap_keys (snd (alias_delete e n s)) = ap_keys s" "ap_keys (snd (anon_alias_patch e c n p s)) = ap_keys s"
  "ap_keys (snd (anon_alias_delete e c n s)) = ap_keys s" "ap_keys (snd (token_post e v r n p s)) = ap_keys s"
  "ap_keys (snd (token_patch e t p s)) = ap_keys s" "ap_keys (snd (token_delete e t s)) = ap_keys s"
  by (auto simp: handler_defs Let_def split: sum.splits outcome.splits option.splits)

lemma api_step_keys: "set (ap_keys (api_step e s op)) \<subseteq> set (ap_keys s)"
  using domain_delete_keys
  by (cases op)
     (simp_all add: api_step_def user_calls_keys other_calls_keys tokens_post_def user_token_post_def)

lemma commit_keys_set:
  "\<lbrakk>k \<in> set (ap_keys (snd (commit_keys s ks)))\<rbrakk> \<Longrightarrow> k \<in> set (ap_keys s) \<or> k \<in> set ks"
  by (auto simp: commit_keys_def split: if_splits)

lemma commit_keys_withdrawn:
  "\<lbrakk>withdrawn pem s; \<forall>k\<in>set ks. private_key k = pem \<longrightarrow> retired k \<and> \<not> active k\<rbrakk>
   \<Longrightarrow> withdrawn pem (snd (commit_keys s ks))"
  by (auto simp: commit_keys_def withdrawn_def)

lemma put_key_withdrawn:
  "\<lbrakk>withdrawn pem s; private_key k' = pem \<longrightarrow> retired k' \<and> \<not> active k'\<rbrakk>
   \<Longrightarrow> \<forall>k\<in>set (put_key k' (ap_keys s)). private_key k = pem \<longrightarrow> retired k \<and> \<not> active k"
  by (auto simp: put_key_def withdrawn_def)

lemma generate_withdrawn:
  "\<lbrakk>withdrawn pem s; gen ''rsa'' \<noteq> pem; gen ''ed25519'' \<noteq> pem\<rbrakk>
   \<Longrightarrow> \<forall>k\<in>set (generate_dkim_key kl gen alg act dn (ap_keys s)). private_key k = pem \<longrightarrow> retired k \<and> \<not> active k"
  by (auto simp: generate_dkim_key_def create_key_def withdrawn_def)

lemma dkim_generate_withdrawn:
  "\<lbrakk>withdrawn pem s; gen ''rsa'' \<noteq> pem; gen ''ed25519'' \<noteq> pem\<rbrakk> \<Longrightarrow> withdrawn pem (snd (dkim_generate kl gen alg dn s))"
  by (auto simp: dkim_generate_def intro!: commit_keys_withdrawn dest: generate_withdrawn split: json.splits)

lemma find_key_mem: "find_key ks i = Some k \<Longrightarrow> k \<in> set ks \<and> key_id k = i"
  by (auto simp: find_key_def find_Some_iff)

lemma owned_key_mem: "owned_key e p i s = Inr k \<Longrightarrow> k \<in> set (ap_keys s) \<and> find_key (ap_keys s) i = Some k"
  by (auto simp: owned_key_def dest: find_key_mem split: outcome.splits option.splits if_splits)

lemma redirect_state [simp]:
  "snd (case r of (a, s') \<Rightarrow> (if a = Reply 200 then Reply 302 else a, s')) = snd r"
  by (simp split: prod.splits)

lemma post_withdrawn:
  assumes "withdrawn pem s" "gen ''rsa'' \<noteq> pem" "gen ''ed25519'' \<noteq> pem"
  shows "withdrawn pem (snd (dkim_post e kl gen n b s))" "withdrawn pem (snd (alternative_dkim_post e kl gen n p s))"
    "withdrawn pem (snd (domain_genkeys e kl gen n alg s))"
proof -
  note g = dkim_generate_withdrawn [OF assms] and c = commit_keys_withdrawn [OF assms(1) generate_withdrawn [OF assms]]
  show "withdrawn pem (snd (dkim_post e kl gen n b s))"
    using assms(1) by (auto simp: dkim_post_def g split: sum.splits body.splits json.splits)
  show "withdrawn pem (snd (alternative_dkim_post e kl gen n p s))"
    using assms(1) by (auto simp: alternative_dkim_post_def g split: outcome.splits option.splits)
  show "withdrawn pem (snd (domain_genkeys e kl gen n alg s))"
    unfolding domain_genkeys_def
    by (cases "get_domain (ap_enc e) (ap_db s) n"; (simp add: assms(1))?) (simp add: assms(1) c split: option.splits)
qed

lemma patch_withdrawn:
  assumes "withdrawn pem s"
  shows "withdrawn pem (snd (dkim_patch e p i act s)) \<and> withdrawn pem (snd (dkim_delete e p i s))
    \<and> withdrawn pem (snd (domain_dkim_status i st v s))"
proof (intro conjI)
  have old: "private_key k = pem \<longrightarrow> retired k \<and> \<not> active k" if "k \<in> set (ap_keys s)" for k
    using assms that by (simp add: withdrawn_def)
  show "withdrawn pem (snd (dkim_patch e p i act s))"
  proof (cases "owned_key e p i s")
    case (Inr k)
    then have "private_key k = pem \<longrightarrow> retired k \<and> \<not> active k" using old owned_key_mem by blast
    moreover from this have "withdrawn pem (snd (commit_keys s (put_key k' (ap_keys s))))"
      if "private_key k' = private_key k" "retired k \<longrightarrow> retired k'" "retired k \<longrightarrow> \<not> active k'" for k'
      using that by (intro commit_keys_withdrawn [OF assms put_key_withdrawn [OF assms]]) auto
    ultimately show ?thesis using Inr assms by (auto simp: dkim_patch_def)
  qed (simp add: dkim_patch_def assms)
  have f: "\<forall>k\<in>set (filter (\<lambda>x. key_id x \<noteq> i) (ap_keys s)). private_key k = pem \<longrightarrow> retired k \<and> \<not> active k"
    using old by simp
  show "withdrawn pem (snd (dkim_delete e p i s))"
    using assms by (auto simp: dkim_delete_def intro!: commit_keys_withdrawn [OF assms f] split: sum.splits)
  have save: "withdrawn pem (snd (case commit_keys s ks of (a, s') \<Rightarrow> (if a = Reply 200 then Reply 302 else a, s')))"
    if "\<forall>k\<in>set ks. private_key k = pem \<longrightarrow> retired k \<and> \<not> active k" for ks
    using commit_keys_withdrawn [OF assms that] by simp
  show "withdrawn pem (snd (domain_dkim_status i st v s))"
  proof (cases "find_key (ap_keys s) i")
    case (Some k)
    have k: "private_key k = pem \<longrightarrow> retired k \<and> \<not> active k" using old find_key_mem [OF Some] by blast
    have put: "withdrawn pem (snd (case commit_keys s (put_key k' (ap_keys s)) of
        (a, s') \<Rightarrow> (if a = Reply 200 then Reply 302 else a, s')))"
      if "private_key k' = pem \<longrightarrow> retired k' \<and> \<not> active k'" for k'
      by (rule save [OF put_key_withdrawn [OF assms that]])
    show ?thesis
      unfolding domain_dkim_status_def Let_def
      using assms Some k save [OF f] put [of "k\<lparr>active := False, retired := True\<rparr>"] put [of "k\<lparr>active := True\<rparr>"]
      by (auto simp del: split_paired_All)
  qed (simp add: domain_dkim_status_def assms)
qed

lemma other_withdrawn:
  assumes "withdrawn pem s"
  shows "content \<noteq> Some pem \<Longrightarrow> withdrawn pem (s\<lparr>ap_keys := fst (import_legacy_dkim_key sel backup content dn (ap_keys s))\<rparr>)"
    and "v \<noteq> Some pem \<Longrightarrow> withdrawn pem (s\<lparr>ap_keys := set_dkim_key kl dn v (ap_keys s)\<rparr>)"
  using assms
  by (auto simp: withdrawn_def import_legacy_dkim_key_def set_dkim_key_def put_key_def create_key_def
      split: option.splits)

lemma api_step_withdrawn: "withdrawn pem s \<Longrightarrow> withdrawn pem (api_step e s op)"
  using api_step_keys unfolding withdrawn_def by blast

lemma dkim_step_withdrawn:
  assumes "withdrawn pem s" "\<not> introduces pem op"
  shows "withdrawn pem (dkim_step e s op)"
  using assms post_withdrawn [OF assms(1)] patch_withdrawn [OF assms(1)] other_withdrawn [OF assms(1)]
    api_step_withdrawn [OF assms(1)]
  by (cases op) (simp_all add: dkim_step_def)

interpretation keys: machine "dkim_step e" "\<lambda>op. \<not> introduces pem op" "withdrawn pem" for e pem
  by unfold_locales (rule dkim_step_withdrawn)

section \<open>What the spam filter gets is active\<close>

lemma pick_keys_mem: "k \<in> set (pick_keys seen ks) \<Longrightarrow> k \<in> set ks \<and> active k \<and> selector k \<notin> set seen"
  by (induction ks arbitrary: seen) (fastforce split: if_splits)+

lemma pick_keys_distinct: "distinct (map selector (pick_keys seen ks))"
  by (induction ks arbitrary: seen) (auto dest: pick_keys_mem)

lemma pick_keys_covers:
  "\<lbrakk>k \<in> set ks; active k; selector k \<notin> set seen\<rbrakk> \<Longrightarrow> selector k \<in> selector ` set (pick_keys seen ks)"
proof (induction ks arbitrary: seen)
  case (Cons x ks)
  show ?case
  proof (cases "selector x = selector k \<and> active x")
    case True
    then show ?thesis using Cons.prems by auto
  next
    case False
    then have "k \<in> set ks" "selector k \<notin> set (if active x then selector x # seen else seen)"
      using Cons.prems by auto
    then show ?thesis using Cons.IH Cons.prems(2,3) by auto
  qed
qed simp

lemma domain_keys_set [simp]: "set (domain_keys ks dn) = {k \<in> set ks. key_domain k = dn}"
  by (auto simp: domain_keys_def)

lemma vault_picked:
  assumes "rspamd_dkim_key enc d ks name = Ret vs"
  shows "\<exists>dns ascii. signing_domains enc d name = Ret dns \<and> bind_domain enc name = Some ascii
    \<and> vs = map (\<lambda>k. \<lparr>vs_domain = ascii, vs_key = private_key k, vs_selector = selector k, vs_alg = algorithm k\<rparr>)
             (pick_keys [] (concat (map (domain_keys ks) dns)))"
  using assms by (auto simp: rspamd_dkim_key_def Let_def split: option.splits if_splits)

text \<open>
  C22. The spam filter signs mail of a name with exactly the active keys of the domain of that name
  and of the parent domain of an alternative of that name: each entry is such a key, no selector
  comes twice, and the selector of each such key is among them.
\<close>
theorem vault_serves_active_keys:
  assumes "rspamd_dkim_key enc d ks name = Ret vs"
  shows "\<exists>dns. signing_domains enc d name = Ret dns \<and> distinct (map vs_selector vs)
    \<and> (\<forall>v\<in>set vs. Some (vs_domain v) = bind_domain enc name
        \<and> (\<exists>k\<in>set ks. active k \<and> key_domain k \<in> set dns \<and> vs_key v = private_key k \<and> vs_selector v = selector k
            \<and> vs_alg v = algorithm k))
    \<and> (\<forall>k\<in>set ks. active k \<and> key_domain k \<in> set dns \<longrightarrow> selector k \<in> vs_selector ` set vs)"
proof -
  obtain dns ascii where v: "signing_domains enc d name = Ret dns" "bind_domain enc name = Some ascii"
    "vs = map (\<lambda>k. \<lparr>vs_domain = ascii, vs_key = private_key k, vs_selector = selector k, vs_alg = algorithm k\<rparr>)
             (pick_keys [] (concat (map (domain_keys ks) dns)))"
    using vault_picked [OF assms] by blast
  have "distinct (map vs_selector vs)" using v(3) pick_keys_distinct by (simp add: comp_def)
  moreover have "\<exists>k\<in>set ks. active k \<and> key_domain k \<in> set dns \<and> vs_key x = private_key k \<and> vs_selector x = selector k
            \<and> vs_alg x = algorithm k" "Some (vs_domain x) = bind_domain enc name" if "x \<in> set vs" for x
    using that v(2,3) by (auto dest!: pick_keys_mem)
  moreover have "selector k \<in> vs_selector ` set vs" if "k \<in> set ks" "active k" "key_domain k \<in> set dns" for k
    using pick_keys_covers [of k "concat (map (domain_keys ks) dns)" "[]"] that v(3) by (auto simp: image_image)
  ultimately show ?thesis using v(1) by blast
qed

text \<open>
  C20. A retired signing key never signs again.  After the API or the administration page has retired
  a key, no sequence of calls of either that does not bring the same private key in anew (promotions,
  deletions, newly generated or imported keys, changes of domains) makes the spam filter
  receive that private key, for whatever name it asks and whatever the database then holds.
\<close>
theorem retired_key_never_signs:
  assumes "dkim_patch e p i False s = (Reply 200, s1) \<or> domain_dkim_status i ''retired'' True s = (Reply 302, s1)"
    and "find_key (ap_keys s) i = Some k" "\<forall>x\<in>set (ap_keys s). private_key x = private_key k \<longrightarrow> key_id x = i"
    and "\<forall>op\<in>set ops. \<not> introduces (private_key k) op"
    and "rspamd_dkim_key enc d (ap_keys (foldl (dkim_step e) s1 ops)) name = Ret vs"
  shows "private_key k \<notin> vs_key ` set vs"
proof -
  have ki: "key_id k = i" using find_key_mem [OF assms(2)] by simp
  have "\<exists>k'. private_key k' = private_key k \<and> retired k' \<and> \<not> active k' \<and> key_id k' = i \<and> ap_keys s1 = put_key k' (ap_keys s)"
    using assms(1)
  proof
    assume "dkim_patch e p i False s = (Reply 200, s1)"
    moreover from this obtain k0 where "owned_key e p i s = Inr k0" by (auto simp: dkim_patch_def owned_key_def split: sum.splits outcome.splits option.splits if_splits)
    moreover have "k0 = k" using owned_key_mem [OF calculation(2)] assms(2) by simp
    ultimately have "ap_keys s1 = put_key (k\<lparr>active := False, retired := True\<rparr>) (ap_keys s)"
      by (auto simp: dkim_patch_def commit_keys_def split: if_splits)
    then show ?thesis using ki by (intro exI [of _ "k\<lparr>active := False, retired := True\<rparr>"]) simp
  next
    assume "domain_dkim_status i ''retired'' True s = (Reply 302, s1)"
    then have "ap_keys s1 = put_key (k\<lparr>active := False, retired := True\<rparr>) (ap_keys s)"
      using assms(2)
      by (auto simp: domain_dkim_status_def requested_status_def commit_keys_def Let_def split: if_splits)
    then show ?thesis using ki by (intro exI [of _ "k\<lparr>active := False, retired := True\<rparr>"]) simp
  qed
  then have "withdrawn (private_key k) s1" using assms(3) by (auto simp: withdrawn_def put_key_def)
  then have "withdrawn (private_key k) (foldl (dkim_step e) s1 ops)"
    using assms(4) by (intro keys.inv_run) (simp_all add: list_all_iff)
  then show ?thesis using vault_picked [OF assms(5)] by (auto simp: withdrawn_def dest!: pick_keys_mem)
qed

section \<open>Examples\<close>

definition sample_key :: dkim_key where
  "sample_key = \<lparr>key_id = 1, key_domain = ''x.io'', selector = ''s1'', algorithm = ''rsa'', private_key = ''PEM1'',
     active = True, retired = False\<rparr>"

definition sample_signing :: "(string, sval) dict api_state" where
  "sample_signing = \<lparr>ap_db = empty_db\<lparr>domains := [new_domain ''x.io''],
       alternatives := [\<lparr>alt_name = ''y.io'', alt_domain = ''x.io''\<rparr>]\<rparr>,
     ap_keys = [sample_key], ap_setups = [], ap_sessions = []\<rparr>"

theorem vault_serves_active_keys_witness:
  "rspamd_dkim_key (ap_enc sample_api) (ap_db sample_signing) (ap_keys sample_signing) ''y.io''
     = Ret [\<lparr>vs_domain = ''y.io'', vs_key = ''PEM1'', vs_selector = ''s1'', vs_alg = ''rsa''\<rparr>]
   \<and> signing_domains (ap_enc sample_api) (ap_db sample_signing) ''y.io'' = Ret [''x.io'']"
proof -
  have v: "rspamd_dkim_key (ap_enc sample_api) (ap_db sample_signing) (ap_keys sample_signing) ''y.io''
     = Ret [\<lparr>vs_domain = ''y.io'', vs_key = ''PEM1'', vs_selector = ''s1'', vs_alg = ''rsa''\<rparr>]" by code_simp
  have "signing_domains (ap_enc sample_api) (ap_db sample_signing) ''y.io'' = Ret [''x.io'']" by code_simp
  with v vault_serves_active_keys [OF v] show ?thesis by blast
qed

theorem retired_key_never_signs_witness:
  "case dkim_patch sample_api (Of_domain ''x.io'') 1 False sample_signing of
     (a, s1) \<Rightarrow> a = Reply 200 \<and>
       (\<forall>vs. rspamd_dkim_key (ap_enc sample_api) (ap_db s1)
          (ap_keys (foldl (dkim_step sample_api) s1 [Patch (Of_domain ''x.io'') 1 True, Ui_status 1 ''active'' True]))
          ''x.io'' = Ret vs \<longrightarrow> ''PEM1'' \<notin> vs_key ` set vs)"
proof -
  obtain a s1 where p: "dkim_patch sample_api (Of_domain ''x.io'') 1 False sample_signing = (a, s1)" by fastforce
  have "fst (dkim_patch sample_api (Of_domain ''x.io'') 1 False sample_signing) = Reply 200" by code_simp
  then have a: "a = Reply 200" using p by simp
  have f: "find_key (ap_keys sample_signing) 1 = Some sample_key"
    "\<forall>x\<in>set (ap_keys sample_signing). private_key x = private_key sample_key \<longrightarrow> key_id x = 1"
    by (simp_all add: sample_signing_def find_key_def sample_key_def)
  have "private_key sample_key \<notin> vs_key ` set vs"
    if "rspamd_dkim_key (ap_enc sample_api) (ap_db s1)
          (ap_keys (foldl (dkim_step sample_api) s1 [Patch (Of_domain ''x.io'') 1 True, Ui_status 1 ''active'' True]))
          ''x.io'' = Ret vs" for vs
    by (rule retired_key_never_signs [OF disjI1 [OF p [unfolded a]] f _ that]) simp
  then show ?thesis using p a by (simp add: sample_key_def)
qed

end
