(* ===== verification/Dns_Records.thy ===== *)
theory Dns_Records
  imports Dkim
begin

text \<open>
  The DNS records a domain should publish (\<open>models.py\<close> classes Domain, Alternative and DkimKey) and
  the zone file of a domain (\<open>ui/views/domains.py\<close>).  IDNA encoding is an argument: a name that
  cannot be encoded raises, which is None here.
\<close>

section \<open>Signing key records\<close>

text \<open>\<open>txt[pos:pos + n]\<close> for each position in steps of \<open>n\<close>.\<close>

function chunks :: "nat \<Rightarrow> 'a list \<Rightarrow> 'a list list" where
  "chunks n xs = (if xs = [] \<or> n = 0 then [] else take n xs # chunks n (drop n xs))"
  by pat_completeness auto
termination by (relation "measure (\<lambda>(n, xs). length xs)") auto

declare chunks.simps [simp del]

definition quoted :: "string \<Rightarrow> string" where
  "quoted s = [CHR 0x22] @ s @ [CHR 0x22]"

definition dkim_text :: "key_lib \<Rightarrow> dkim_key \<Rightarrow> string" where
  "dkim_text kl k = ''v=DKIM1; k='' @ algorithm k @ ''; p='' @ kl_public kl (private_key k) (algorithm k)"

definition dns_record :: "(string \<Rightarrow> string option) \<Rightarrow> key_lib \<Rightarrow> dkim_key \<Rightarrow> string \<Rightarrow> string option" where
  "dns_record enc kl k name =
     map_option (\<lambda>n. selector k @ ''._domainkey.'' @ n @ ''. 600 IN TXT'' @ '' ''
                   @ join_with CHR '' '' (map quoted (chunks 250 (dkim_text kl k))))
       (enc (lower name))"

section \<open>Records of a name\<close>

record dns_cfg =
  dc_enc :: "string \<Rightarrow> string option"
  dc_hostname :: string
  dc_domain :: string
  dc_rua :: string
  dc_ruf :: string
  dc_webdav :: string
  dc_tls_flavor :: string
  dc_ports :: string

definition ascii_host :: "dns_cfg \<Rightarrow> string \<Rightarrow> string option" where
  "ascii_host c n = dc_enc c (lower n)"

definition dns_mx :: "dns_cfg \<Rightarrow> string \<Rightarrow> string option" where
  "dns_mx c name =
     (case (ascii_host c name, ascii_host c (dc_hostname c)) of
        (Some n, Some h) \<Rightarrow> Some (n @ ''. 600 IN MX 10 '' @ h @ ''.'')
      | _ \<Rightarrow> None)"

definition dns_spf :: "dns_cfg \<Rightarrow> string \<Rightarrow> string option" where
  "dns_spf c name =
     (case (ascii_host c name, ascii_host c (dc_hostname c)) of
        (Some n, Some h) \<Rightarrow> Some (n @ ''. 600 IN TXT '' @ quoted (''v=spf1 mx a:'' @ h @ '' ~all''))
      | _ \<Rightarrow> None)"

text \<open>The outer option is an exception, the inner one a record that is not published.\<close>

definition report_address :: "dns_cfg \<Rightarrow> string \<Rightarrow> string \<Rightarrow> string option" where
  "report_address c tag who =
     (if who = [] then Some []
      else map_option (\<lambda>d. '' '' @ tag @ ''=mailto:'' @ who @ ''@'' @ d @ '';'') (ascii_host c (dc_domain c)))"

definition dns_dmarc :: "dns_cfg \<Rightarrow> dkim_key list \<Rightarrow> string \<Rightarrow> string \<Rightarrow> string option option" where
  "dns_dmarc c ks dn name =
     (if get_dkim_key ks dn \<in> {None, Some []} then Some None
      else (case (report_address c ''rua'' (dc_rua c), report_address c ''ruf'' (dc_ruf c), ascii_host c name) of
              (Some rua, Some ruf, Some n) \<Rightarrow>
                Some (Some (''_dmarc.'' @ n @ ''. 600 IN TXT ''
                  @ quoted (''v=DMARC1; p=reject;'' @ rua @ ruf @ '' adkim=s; aspf=s'')))
            | _ \<Rightarrow> None))"

definition dns_dmarc_report_needed :: "dns_cfg \<Rightarrow> string \<Rightarrow> bool" where
  "dns_dmarc_report_needed c name \<longleftrightarrow> name \<noteq> dc_domain c"

definition dns_dmarc_report :: "dns_cfg \<Rightarrow> dkim_key list \<Rightarrow> string \<Rightarrow> string \<Rightarrow> string option option" where
  "dns_dmarc_report c ks dn name =
     (if get_dkim_key ks dn \<in> {None, Some []} then Some None
      else (case (ascii_host c name, ascii_host c (dc_domain c)) of
              (Some n, Some d) \<Rightarrow> Some (Some (n @ ''._report._dmarc.'' @ d @ ''. 600 IN TXT '' @ quoted ''v=DMARC1;''))
            | _ \<Rightarrow> None))"

definition webdav_protocols :: "dns_cfg \<Rightarrow> (string \<times> int) list" where
  "webdav_protocols c =
     (if dc_tls_flavor c = ''notls'' then [(''carddav'', 80), (''caldav'', 80)]
      else [(''carddavs'', 443), (''caldavs'', 443)])"

definition open_ports :: "dns_cfg \<Rightarrow> int list option" where
  "open_ports c = those_list (map (\<lambda>p. py_int (strip_str p)) (split_on CHR '','' (dc_ports c)))"

definition webdav_records :: "int list \<Rightarrow> string \<Rightarrow> string \<Rightarrow> string \<times> int \<Rightarrow> string list" where
  "webdav_records ports n h pp =
     (case pp of (proto, port) \<Rightarrow>
        let target = (if port \<in> set ports then ''10 1 '' @ str_of_int port @ '' '' @ h @ ''.'' else ''0 0 0 .'') in
        [''_'' @ proto @ ''._tcp.'' @ n @ ''. 600 IN SRV '' @ target,
         ''_'' @ proto @ ''._tcp.'' @ n @ ''. 600 IN TXT '' @ quoted ''path=/webdav/''])"

definition dns_autoconfig :: "dns_cfg \<Rightarrow> string \<Rightarrow> string list option" where
  "dns_autoconfig c name =
     (case (ascii_host c name, ascii_host c (dc_hostname c)) of
        (Some n, Some h) \<Rightarrow>
          (let names = [''autoconfig.'' @ n @ ''. 600 IN CNAME '' @ h @ ''.'', ''autodiscover.'' @ n @ ''. 600 IN CNAME '' @ h @ ''.''] in
           if dc_webdav c = ''none'' then Some names
           else map_option (\<lambda>ports. concat (map (webdav_records ports n h) (webdav_protocols c)) @ names) (open_ports c))
      | _ \<Rightarrow> None)"

definition tlsa_digests :: "string list" where
  "tlsa_digests =
     [''0b9fa5a59eed715c26c1020c711b4f6ec42d58b0015e14337a39dad301c5afc3'',
      ''762195c225586ee6c0237456e2107dc54f1efc21f61a792ebd515913cce68332'',
      ''b0292ae545978e0fbb98abbd94c861605e5b18bb32ed523f50d5b7b5c71d47bc'',
      ''7e4e8838a8add6295de7ae3b047d3aba3488ab95db0a0aa56d897a00d8618bcf'']"

definition dns_tlsa :: "dns_cfg \<Rightarrow> string list option" where
  "dns_tlsa c =
     (if dc_tls_flavor c \<in> {''letsencrypt'', ''mail-letsencrypt''}
      then map_option (\<lambda>h. map (\<lambda>x. ''_25._tcp.'' @ h @ ''. 86400 IN TLSA 2 1 1 '' @ x) tlsa_digests)
             (ascii_host c (dc_hostname c))
      else Some [])"

section \<open>The zone file\<close>

text \<open>The records of one name, that signs with the keys of the domain \<open>dn\<close>.  A record that is not
  published joins as None and raises TypeError, which is None here as well.\<close>

definition name_records :: "dns_cfg \<Rightarrow> key_lib \<Rightarrow> dkim_key list \<Rightarrow> string \<Rightarrow> string \<Rightarrow> string list option" where
  "name_records c kl ks dn name =
     (case (dns_mx c name, dns_spf c name) of
        (Some mx, Some spf) \<Rightarrow>
          (if domain_keys ks dn = [] then Some [mx, spf]
           else (case (those_list (map (\<lambda>k. dns_record (dc_enc c) kl k name) (domain_keys ks dn)), dns_dmarc c ks dn name) of
              (Some rs, Some (Some dmarc)) \<Rightarrow>
                (if dns_dmarc_report_needed c name
                 then (case dns_dmarc_report c ks dn name of
                         Some (Some rep) \<Rightarrow> Some ([mx, spf] @ rs @ [dmarc, rep]) | _ \<Rightarrow> None)
                 else Some ([mx, spf] @ rs @ [dmarc]))
            | _ \<Rightarrow> None))
      | _ \<Rightarrow> None)"

definition zone_lines :: "dns_cfg \<Rightarrow> key_lib \<Rightarrow> db \<Rightarrow> dkim_key list \<Rightarrow> domain \<Rightarrow> string list option" where
  "zone_lines c kl d ks dm =
     (let dn = domain_name dm in
      case (name_records c kl ks dn dn, dns_tlsa c, dns_autoconfig c dn,
            those_list (map (\<lambda>a. name_records c kl ks dn (alt_name a)) (filter (\<lambda>a. alt_domain a = dn) (alternatives d)))) of
        (Some own, Some tlsa, Some auto, Some alts) \<Rightarrow> Some (own @ tlsa @ auto @ concat alts @ [[]])
      | _ \<Rightarrow> None)"

definition zonefile :: "dns_cfg \<Rightarrow> key_lib \<Rightarrow> db \<Rightarrow> dkim_key list \<Rightarrow> domain \<Rightarrow> string option" where
  "zonefile c kl d ks dm = map_option (join_with CHR 0x0A) (zone_lines c kl d ks dm)"

section \<open>Reading a key record\<close>

lemma concat_chunks: "0 < n \<Longrightarrow> concat (chunks n xs) = xs"
proof (induction n xs rule: chunks.induct)
  case (1 n xs)
  then show ?case by (subst chunks.simps) auto
qed

lemma chunks_bounds: "c \<in> set (chunks n xs) \<Longrightarrow> c \<noteq> [] \<and> length c \<le> n \<and> set c \<subseteq> set xs"
proof (induction n xs rule: chunks.induct)
  case (1 n xs)
  show ?case
  proof (cases "xs = [] \<or> n = 0")
    case True
    then show ?thesis using 1(2) chunks.simps [of n xs] by simp
  next
    case False
    then have "c = take n xs \<or> c \<in> set (chunks n (drop n xs))" using 1(2) chunks.simps [of n xs] by simp
    moreover have "set (take n xs) \<subseteq> set xs" "set (drop n xs) \<subseteq> set xs" by (rule set_take_subset set_drop_subset)+
    ultimately show ?thesis using 1(1) False by auto
  qed
qed

text \<open>What a resolver reads: the strings between quotation marks.\<close>

fun odds :: "'a list \<Rightarrow> 'a list" where
  "odds (x # y # r) = y # odds r"
| "odds _ = []"

definition txt_strings :: "string \<Rightarrow> string list" where
  "txt_strings r = odds (split_on CHR 0x22 r)"

lemma txt_strings_join:
  "\<lbrakk>CHR 0x22 \<notin> set h; \<forall>c\<in>set cs. CHR 0x22 \<notin> set c\<rbrakk>
   \<Longrightarrow> txt_strings (h @ join_with CHR '' '' (map quoted cs)) = cs"
proof (induction cs arbitrary: h)
  case Nil
  then show ?case by (simp add: txt_strings_def split_on_fresh)
next
  case (Cons c cs)
  show ?case
  proof (cases cs)
    case Nil
    then have "txt_strings (h @ join_with CHR '' '' (map quoted (c # cs)))
        = odds (split_on CHR 0x22 (h @ CHR 0x22 # (c @ CHR 0x22 # [])))"
      by (simp add: txt_strings_def quoted_def)
    also have "\<dots> = [c]" using Cons.prems by (simp add: split_on_append)
    finally show ?thesis using Nil by simp
  next
    case (Cons d ds)
    then have "txt_strings (h @ join_with CHR '' '' (map quoted (c # cs)))
        = odds (split_on CHR 0x22 (h @ CHR 0x22 # (c @ CHR 0x22 # ([CHR '' ''] @ join_with CHR '' '' (map quoted cs)))))"
      by (simp add: txt_strings_def quoted_def)
    also have "\<dots> = c # txt_strings ([CHR '' ''] @ join_with CHR '' '' (map quoted cs))"
      using Cons.prems by (simp add: split_on_append txt_strings_def)
    also have "\<dots> = c # cs" using Cons.IH [of "[CHR '' '']"] Cons.prems by simp
    finally show ?thesis .
  qed
qed

text \<open>
  C23. A signing key's DNS record can be published and read back.  Whatever the size of the key, the
  record's strings are non-empty and at most 250 octets long (a DNS string holds 255), and joined
  they are the DKIM text with the algorithm and the public key.
\<close>
theorem dkim_record_readable:
  assumes "dns_record enc kl k name = Some r"
    and "CHR 0x22 \<notin> set (dkim_text kl k)" "CHR 0x22 \<notin> set (selector k)" "CHR 0x22 \<notin> set (the (enc (lower name)))"
  shows "concat (txt_strings r) = dkim_text kl k \<and> (\<forall>c\<in>set (txt_strings r). c \<noteq> [] \<and> length c \<le> 250)"
proof -
  obtain n where n: "enc (lower name) = Some n"
    and r: "r = (selector k @ ''._domainkey.'' @ n @ ''. 600 IN TXT'' @ '' '')
              @ join_with CHR '' '' (map quoted (chunks 250 (dkim_text kl k)))"
    using assms(1) by (auto simp: dns_record_def)
  have "txt_strings r = chunks 250 (dkim_text kl k)"
    unfolding r using assms(2-4) n chunks_bounds [of _ 250 "dkim_text kl k"] by (intro txt_strings_join) auto
  then show ?thesis using concat_chunks [of 250 "dkim_text kl k"] chunks_bounds by auto
qed

section \<open>When the zone file fails\<close>

lemma get_dkim_key_None: "\<not> list_ex active (domain_keys ks dn) \<Longrightarrow> get_dkim_key ks dn = None"
  by (auto simp: get_dkim_key_def active_key_def find_None_iff list_ex_iff)

text \<open>
  The zone file of a domain whose keys are all staged or retired cannot be downloaded.  As long
  as a domain has signing keys but none of them is active, it has no DMARC record to list, and the
  page fails instead of leaving that line out.
\<close>
theorem zonefile_needs_active_key:
  assumes "domain_keys ks (domain_name dm) \<noteq> []" "\<not> list_ex active (domain_keys ks (domain_name dm))"
  shows "zonefile c kl d ks dm = None"
  using assms get_dkim_key_None [OF assms(2)]
  by (auto simp: zonefile_def zone_lines_def name_records_def dns_dmarc_def Let_def split: option.splits)

section \<open>Examples\<close>

definition sample_lib :: key_lib where
  "sample_lib = \<lparr>kl_public = (\<lambda>p a. concat (replicate 60 ''ABCD'')), kl_sha256_hex = id\<rparr>"

theorem dkim_record_readable_witness:
  "map length (txt_strings (the (dns_record Some sample_lib sample_key ''x.io''))) = [250, 8]
   \<and> concat (txt_strings (the (dns_record Some sample_lib sample_key ''x.io''))) = dkim_text sample_lib sample_key"
proof -
  have q: "CHR 0x22 \<notin> set (dkim_text sample_lib sample_key)" "CHR 0x22 \<notin> set (selector sample_key)"
    by code_simp+
  have e: "CHR 0x22 \<notin> set (the (Some (lower ''x.io'')))" by code_simp
  obtain r where r: "dns_record Some sample_lib sample_key ''x.io'' = Some r" by (simp add: dns_record_def)
  have "map length (txt_strings (the (dns_record Some sample_lib sample_key ''x.io''))) = [250, 8]" by code_simp
  with dkim_record_readable [OF r q e] r show ?thesis by simp
qed

theorem zonefile_needs_active_key_witness:
  "zonefile \<lparr>dc_enc = Some, dc_hostname = ''mail.x.io'', dc_domain = ''x.io'', dc_rua = [], dc_ruf = [],
       dc_webdav = ''none'', dc_tls_flavor = ''notls'', dc_ports = ''80''\<rparr> sample_lib empty_db
     [sample_key\<lparr>active := False\<rparr>] (new_domain ''x.io'') = None"
  by (rule zonefile_needs_active_key)
     (simp_all add: domain_keys_def sample_key_def new_domain_def)

end
