(* ===== verification/Simplelogin.thy ===== *)
theory Simplelogin
  imports Api_Machine Mail_Routing
begin

text \<open>
  The alias service for password managers (\<open>api/simplelogin.py\<close>): a user with an application
  token gets a new random alias in a domain that is open to them.  The random draws are
  arguments: the index \<open>secrets.choice\<close> picks, and for each attempt the word, letters and token of
  \<open>utils.generate_anonymous_alias_localpart\<close>; \<open>tld\<close> finds the registered name of a host.
\<close>

section \<open>Domains open to a user\<close>

fun accessible_domains :: "(string \<Rightarrow> string option) \<Rightarrow> db \<Rightarrow> user \<Rightarrow> domain list \<Rightarrow> string list outcome" where
  "accessible_domains enc d u [] = Ret []"
| "accessible_domains enc d u (r # rs) =
     bind_out (has_domain_access enc d (domain_name r) (Some u)) (\<lambda>granted.
     bind_out (accessible_domains enc d u rs) (\<lambda>names.
       let own = (anonmail_enabled r \<and> domain_name r = user_domain u
                  \<and> user_domain u \<in> set (map domain_name (domains d))) in
       Ret (if granted \<or> own then domain_name r # names else names)))"

section \<open>A free address\<close>

text \<open>One attempt is free when no active alias, wildcards included, and no user or disabled alias has
  the address.  None: the attempts are used up.\<close>

definition candidate_free :: "(string \<Rightarrow> string option) \<Rightarrow> bool \<Rightarrow> db \<Rightarrow> string \<Rightarrow> string \<Rightarrow> bool outcome" where
  "candidate_free enc ci d lp dn =
     bind_out (alias_resolve enc ci d (Some lp) dn) (\<lambda>a.
       if a \<noteq> None then Ret False
       else bind_out (get_alias enc d (lp @ ''@'' @ dn)) (\<lambda>b.
         if b \<noteq> None then Ret False
         else bind_out (get_user enc d (lp @ ''@'' @ dn)) (\<lambda>u. Ret (u = None))))"

type_synonym draw = "string option \<times> string \<times> string"

fun free_localpart ::
  "(string \<Rightarrow> string option) \<Rightarrow> bool \<Rightarrow> (string \<Rightarrow> string option) \<Rightarrow> string option \<Rightarrow> db \<Rightarrow> string \<Rightarrow> draw list \<Rightarrow>
   string option outcome" where
  "free_localpart enc ci tld hostname d dn [] = Ret None"
| "free_localpart enc ci tld hostname d dn ((word, letters, tok) # draws) =
     (let candidate = generate_anonymous_alias_localpart tld word letters tok hostname in
      bind_out (candidate_free enc ci d candidate dn) (\<lambda>free.
        if free then Ret (Some candidate) else free_localpart enc ci tld hostname d dn draws))"

section \<open>The endpoint\<close>

definition given_text :: "string option \<Rightarrow> string option" where
  "given_text t = (if t = Some [] then None else t)"

definition website_note :: "string option \<Rightarrow> string option \<Rightarrow> string option" where
  "website_note hostname note =
     (case (given_text hostname, given_text note) of
        (Some h, None) \<Rightarrow> Some (''Website: '' @ h) | _ \<Rightarrow> given_text note)"

definition random_alias ::
  "'s api_env \<Rightarrow> bool \<Rightarrow> (string \<Rightarrow> string option) \<Rightarrow> nat \<Rightarrow> nat \<Rightarrow> draw list \<Rightarrow> string option \<Rightarrow> string option \<Rightarrow>
   user \<Rightarrow> 's api_state \<Rightarrow> api_answer \<times> 's api_state" where
  "random_alias e ci tld retries pick draws hostname note u s =
     (let enc = ap_enc e; d = ap_db s in
      case accessible_domains enc d u (domains d) of
        Exn x \<Rightarrow> (Raised, s)
      | Ret names \<Rightarrow>
          if names = [] then (Reply 403, s)
          else let dn = names ! (pick mod length names) in
            (case free_localpart enc ci tld hostname d dn (take retries draws) of
               Exn x \<Rightarrow> (Raised, s)
             | Ret None \<Rightarrow> (Reply 409, s)
             | Ret (Some lp) \<Rightarrow>
                 if lp = [] then (Reply 409, s)
                 else (case (stored_email e (lp @ ''@'' @ dn), stored_list [email u]) of
                   (Some (lp', dn'), Some ds) \<Rightarrow>
                     if \<not> is_valid_localpart (ap_valid_address e) lp' then (Raised, s)
                     else
                       let a = (new_alias lp' dn' ds)\<lparr>owner_email := Some (email u),
                                alias_hostname := Some (case hostname of None \<Rightarrow> [] | Some h \<Rightarrow> h),
                                alias_comment := (case website_note hostname note of None \<Rightarrow> [] | Some t \<Rightarrow> t)\<rparr>
                       in (case commit enc s (d\<lparr>aliases := aliases d @ [a]\<rparr>) of
                             (r, s') \<Rightarrow> (if r = Reply 200 then Reply 201 else r, s'))
                 | _ \<Rightarrow> (Raised, s))))"

section \<open>Lemmas\<close>

text \<open>What opens a domain to a user.\<close>

definition open_to :: "(string \<Rightarrow> string option) \<Rightarrow> db \<Rightarrow> user \<Rightarrow> string \<Rightarrow> bool" where
  "open_to enc d u n \<longleftrightarrow>
     global_admin u \<or> (n, email u) \<in> set (managers d)
     \<or> (\<exists>a\<in>set (accesses d). bind_domain enc (access_domain a) = bind_domain enc n \<and> access_user a = Some (email u))
     \<or> (n = user_domain u \<and> (\<exists>r\<in>set (domains d). domain_name r = n \<and> anonmail_enabled r))"

lemma granted_open:
  assumes "names_ok e d" "r \<in> set (domains d)" "has_domain_access (ap_enc e) d (domain_name r) (Some u) = Ret True"
  shows "open_to (ap_enc e) d u (domain_name r)"
proof (cases "global_admin u")
  case False
  have c: "stored_domain e (domain_name r) = Some (domain_name r)"
    using assms(1,2) by (simp add: names_ok_def canonical_def)
  obtain dm where dm: "get_domain (ap_enc e) d (domain_name r) = Ret dm"
    and h: "(\<exists>x\<in>set_option dm. (domain_name x, email u) \<in> set (managers d))
      \<or> (\<exists>a\<in>set (accesses d). bind_domain (ap_enc e) (access_domain a) = bind_domain (ap_enc e) (domain_name r)
                        \<and> access_user a = Some (email u))"
    using assms(3) False by (cases "get_domain (ap_enc e) d (domain_name r)") (simp_all add: has_domain_access_def split: if_splits)
  have "domain_name x = domain_name r" if "dm = Some x" for x
    using get_domain_row [OF assms(1) dm [unfolded that]] c by simp
  then show ?thesis using h unfolding open_to_def by (cases dm) auto
qed (simp add: open_to_def)

lemma accessible_open:
  assumes "names_ok e d" "accessible_domains (ap_enc e) d u rs = Ret names" "set rs \<subseteq> set (domains d)" "n \<in> set names"
  shows "n \<in> domain_name ` set rs \<and> open_to (ap_enc e) d u n"
  using assms(2-4)
proof (induction rs arbitrary: names)
  case (Cons r rs)
  obtain g ns where g: "has_domain_access (ap_enc e) d (domain_name r) (Some u) = Ret g"
    and ns: "accessible_domains (ap_enc e) d u rs = Ret ns"
    and names: "names = (if g \<or> anonmail_enabled r \<and> domain_name r = user_domain u
        \<and> user_domain u \<in> set (map domain_name (domains d)) then domain_name r # ns else ns)"
    using Cons.prems(1) unfolding accessible_domains.simps bind_out_Ret Let_def by auto
  have r: "r \<in> set (domains d)" using Cons.prems(2) by simp
  show ?case
  proof (cases "n \<in> set ns")
    case True
    then show ?thesis using Cons.IH [OF ns] Cons.prems(2) by simp
  next
    case False
    then have nr: "n = domain_name r" and o: "g \<or> anonmail_enabled r \<and> domain_name r = user_domain u"
      using Cons.prems(3) names by (auto split: if_splits)
    have "open_to (ap_enc e) d u (domain_name r)"
      using o granted_open [OF assms(1) r] g r unfolding open_to_def by (cases g) auto
    then show ?thesis using nr by simp
  qed
qed simp

lemma free_localpart_free:
  "free_localpart enc ci tld h d dn draws = Ret (Some lp) \<Longrightarrow> candidate_free enc ci d lp dn = Ret True"
  by (induction enc ci tld h d dn draws rule: free_localpart.induct) (auto simp: Let_def split: if_splits)

lemma candidate_free_absent:
  assumes "candidate_free enc ci d lp dn = Ret True"
  shows "alias_resolve enc ci d (Some lp) dn = Ret None \<and> get_alias enc d (lp @ ''@'' @ dn) = Ret None
    \<and> get_user enc d (lp @ ''@'' @ dn) = Ret None"
  using assms by (auto simp: candidate_free_def split: if_splits)

lemma absent_keys:
  assumes "get_alias enc d adr = Ret None" "get_user enc d adr = Ret None"
  shows "\<exists>k. bind_email enc adr = Some k \<and> (\<forall>a\<in>set (aliases d). bind_email enc (alias_email a) \<noteq> Some k)
    \<and> (\<forall>v\<in>set (users d). bind_email enc (email v) \<noteq> Some k)"
  using assms by (auto simp: get_alias_def get_user_def find_None_iff split: option.splits)

lemma lower_at_char: "lower_char CHR ''@'' = CHR ''@''"
  by (simp add: lower_char_def is_upper_def code_in_def)

lemma bind_email_cut:
  assumes "bind_email enc x = Some k"
  shows "\<exists>a b. rcut CHR ''@'' (lower x) = Some (a, b) \<and> CHR ''@'' \<notin> set a \<and> enc b \<noteq> None"
  using assms unfolding bind_email_def by (cases "rcut CHR ''@'' (lower x)") (auto split: if_splits)

lemma bind_email_parts:
  assumes "bind_email enc (lp @ ''@'' @ n) = Some k"
  shows "CHR ''@'' \<notin> set lp \<and> CHR ''@'' \<notin> set n \<and> rcut CHR ''@'' (lower (lp @ ''@'' @ n)) = Some (lower lp, lower n)
    \<and> (\<exists>j. enc (lower n) = Some j)"
proof -
  let ?s = "lower (lp @ ''@'' @ n)"
  obtain a b where r: "rcut CHR ''@'' ?s = Some (a, b)" and a: "CHR ''@'' \<notin> set a" and e: "enc b \<noteq> None"
    using bind_email_cut [OF assms] by blast
  have s: "?s = a @ CHR ''@'' # b" "CHR ''@'' \<notin> set b" using rcut_Some [OF r] by auto
  have c: "count_list ?s CHR ''@'' = 1" unfolding s(1) using s(2) a by (simp add: count_list_0_iff)
  have l: "?s = lower lp @ CHR ''@'' # lower n" by (simp add: lower_at_char)
  have "count_list (lower lp) CHR ''@'' + count_list (lower n) CHR ''@'' = 0" using c unfolding l by simp
  then have at: "CHR ''@'' \<notin> set (lower lp)" "CHR ''@'' \<notin> set (lower n)" by (auto simp: count_list_0_iff)
  have q: "rcut CHR ''@'' ?s = Some (lower lp, lower n)" unfolding l by (rule rcut_append [OF at(2)])
  have "b = lower n" using r q by (metis option.inject prod.inject)
  then show ?thesis using q e at lower_at [of lp] lower_at [of n] by (intro conjI) auto
qed

text \<open>The address of an attempt that was free, as it is stored.\<close>

lemma free_address_ok:
  assumes "names_ok e d" "n \<in> domain_name ` set (domains d)" "candidate_free (ap_enc e) ci d lp n = Ret True"
    and "stored_email e (lp @ ''@'' @ n) = Some (l, m)" "is_valid_localpart (ap_valid_address e) l"
  shows "l = lower lp \<and> m = n \<and> address_ok e (l @ ''@'' @ m) l m"
proof -
  obtain k where "bind_email (ap_enc e) (lp @ ''@'' @ n) = Some k"
    using candidate_free_absent [OF assms(3)] absent_keys by blast
  note parts = bind_email_parts [OF this]
  have "canonical e n" using assms(1,2) by (auto simp: names_ok_def)
  then have "l = lower lp" "m = n"
    using assms(4) parts by (auto simp: stored_email_def canonical_def stored_domain_def bind_domain_def)
  then show ?thesis using assms(5) parts lower_at [of lp] by (simp add: address_ok_def comp_def)
qed


lemma random_alias_created:
  assumes "random_alias e ci tld retries pick draws hostname note u s = (Reply 201, s')"
  shows "\<exists>names n lp dn ds. accessible_domains (ap_enc e) (ap_db s) u (domains (ap_db s)) = Ret names \<and> n \<in> set names
    \<and> candidate_free (ap_enc e) ci (ap_db s) lp n = Ret True \<and> stored_email e (lp @ ''@'' @ n) = Some (fst dn, snd dn)
    \<and> is_valid_localpart (ap_valid_address e) (fst dn) \<and> stored_list [email u] = Some ds
    \<and> (\<exists>h c. s' = s\<lparr>ap_db := (ap_db s)\<lparr>aliases := aliases (ap_db s) @ [(new_alias (fst dn) (snd dn) ds)
         \<lparr>owner_email := Some (email u), alias_hostname := Some h, alias_comment := c\<rparr>]\<rparr>\<rparr>
         \<and> keys_unique (ap_enc e) (ap_db s') \<and> integers_fit (ap_db s'))"
proof -
  obtain names where n: "accessible_domains (ap_enc e) (ap_db s) u (domains (ap_db s)) = Ret names" "names \<noteq> []"
    using assms by (auto simp: random_alias_def Let_def split: outcome.splits if_splits)
  let ?n = "names ! (pick mod length names)"
  have m: "?n \<in> set names" using n(2) by (intro nth_mem) simp
  obtain lp where f: "free_localpart (ap_enc e) ci tld hostname (ap_db s) ?n (take retries draws) = Ret (Some lp)"
    "lp \<noteq> []"
    using assms n by (auto simp: random_alias_def Let_def split: outcome.splits option.splits if_splits)
  obtain lp' dn' ds where v: "stored_email e (lp @ ''@'' @ ?n) = Some (lp', dn')" "stored_list [email u] = Some ds"
    "is_valid_localpart (ap_valid_address e) lp'"
    using assms n f by (auto simp: random_alias_def Let_def split: option.splits prod.splits if_splits)
  let ?a = "(new_alias lp' dn' ds)\<lparr>owner_email := Some (email u),
      alias_hostname := Some (case hostname of None \<Rightarrow> [] | Some h \<Rightarrow> h),
      alias_comment := (case website_note hostname note of None \<Rightarrow> [] | Some t \<Rightarrow> t)\<rparr>"
  obtain r where c: "commit (ap_enc e) s ((ap_db s)\<lparr>aliases := aliases (ap_db s) @ [?a]\<rparr>) = (r, s')" "r = Reply 200"
    using assms n f v by (auto simp: random_alias_def Let_def commit_def split: if_splits)
  from commit_cases [OF c(1)] c(2)
  have "s' = s\<lparr>ap_db := (ap_db s)\<lparr>aliases := aliases (ap_db s) @ [?a]\<rparr>\<rparr>"
    "keys_unique (ap_enc e) (ap_db s')" "integers_fit (ap_db s')" by auto
  then show ?thesis using n(1) m free_localpart_free [OF f(1)] v by (metis fst_conv snd_conv)
qed

lemma random_alias_effect:
  assumes "idna_ok e" "api_inv e s"
    and "random_alias e ci tld retries pick draws hostname note u s = (Reply 201, s')" "u \<in> set (users (ap_db s))"
  shows "api_inv e s' \<and> (\<exists>a lp n k. ap_db s' = (ap_db s)\<lparr>aliases := aliases (ap_db s) @ [a]\<rparr>
    \<and> owner_email a = Some (email u) \<and> Some (destination a) = stored_list [email u] \<and> \<not> disabled a \<and> \<not> wildcard a
    \<and> alias_domain a = n \<and> n \<in> domain_name ` set (domains (ap_db s)) \<and> open_to (ap_enc e) (ap_db s) u n
    \<and> alias_resolve (ap_enc e) ci (ap_db s) (Some lp) n = Ret None
    \<and> bind_email (ap_enc e) (lp @ ''@'' @ n) = Some k \<and> alias_localpart a = lower lp
    \<and> (\<forall>x\<in>set (aliases (ap_db s)). bind_email (ap_enc e) (alias_email x) \<noteq> Some k)
    \<and> (\<forall>x\<in>set (users (ap_db s)). bind_email (ap_enc e) (email x) \<noteq> Some k))"
proof -
  let ?d = "ap_db s"
  obtain names n lp p ds h c where w: "accessible_domains (ap_enc e) ?d u (domains ?d) = Ret names" "n \<in> set names"
      "candidate_free (ap_enc e) ci ?d lp n = Ret True" "stored_email e (lp @ ''@'' @ n) = Some (fst p, snd p)"
      "is_valid_localpart (ap_valid_address e) (fst p)" "stored_list [email u] = Some ds"
    and s': "s' = s\<lparr>ap_db := ?d\<lparr>aliases := aliases ?d @ [(new_alias (fst p) (snd p) ds)
         \<lparr>owner_email := Some (email u), alias_hostname := Some h, alias_comment := c\<rparr>]\<rparr>\<rparr>"
      "keys_unique (ap_enc e) (ap_db s')" "integers_fit (ap_db s')"
    using random_alias_created [OF assms(3)] by (elim exE conjE) blast
  have rows: "rows_ok e ?d" by (rule api_inv_rows [OF assms(2)])
  then have nm: "names_ok e ?d" by (simp add: rows_ok_def)
  have o: "n \<in> domain_name ` set (domains ?d)" "open_to (ap_enc e) ?d u n"
    using accessible_open [OF nm w(1) _ w(2)] by auto
  obtain k where abs: "alias_resolve (ap_enc e) ci ?d (Some lp) n = Ret None"
    "bind_email (ap_enc e) (lp @ ''@'' @ n) = Some k"
    "\<forall>x\<in>set (aliases ?d). bind_email (ap_enc e) (alias_email x) \<noteq> Some k"
    "\<forall>x\<in>set (users ?d). bind_email (ap_enc e) (email x) \<noteq> Some k"
    using candidate_free_absent [OF w(3)] absent_keys by blast
  have p: "fst p = lower lp" "snd p = n" "address_ok e (fst p @ ''@'' @ snd p) (fst p) (snd p)"
    using free_address_ok [OF nm o(1) w(3,4,5)] by auto
  let ?a = "(new_alias (lower lp) n ds)\<lparr>owner_email := Some (email u), alias_hostname := Some h, alias_comment := c\<rparr>"
  have "address_ok e (alias_email ?a) (alias_localpart ?a) (alias_domain ?a)"
    using p by simp
  moreover have "\<forall>a\<in>set (aliases ?d). alias_domain a \<in> domain_name ` set (domains ?d)
       \<and> set_option (owner_email a) \<subseteq> email ` set (users ?d)
       \<and> address_ok e (alias_email a) (alias_localpart a) (alias_domain a)"
    using rows by (simp add: rows_defs)
  ultimately have "rows_ok e (?d\<lparr>aliases := aliases ?d @ [?a]\<rparr>)"
    using o(1) assms(4) by (intro rows_aliases [OF rows]) auto
  then have "api_inv e s'" using s' p by (simp add: api_inv_def)
  then show ?thesis
    using s'(1) p o abs w(6) by (intro conjI exI [of _ ?a] exI [of _ lp] exI [of _ n] exI [of _ k]) (simp_all add: new_alias_def)
qed

lemma random_alias_refused:
  assumes "random_alias e ci tld retries pick draws hostname note u s = (a, s')" "a \<noteq> Reply 201"
  shows "s' = s"
proof -
  have c: "s'' = s" if "commit enc s d = (r, s'')" "(if r = Reply 200 then Reply 201 else r) \<noteq> Reply 201" for enc d r s''
    using that by (auto simp: commit_def split: if_splits)
  show ?thesis using assms c
    by (auto simp: random_alias_def Let_def split: outcome.splits option.splits prod.splits if_splits)
qed

lemma random_alias_inv:
  assumes "idna_ok e" "api_inv e s" "u \<in> set (users (ap_db s))"
  shows "api_inv e (snd (random_alias e ci tld retries pick draws hostname note u s))"
proof -
  obtain a s' where r: "random_alias e ci tld retries pick draws hostname note u s = (a, s')" by fastforce
  show ?thesis
  proof (cases "a = Reply 201")
    case True
    then show ?thesis using random_alias_effect [OF assms(1,2) _ assms(3)] r by simp
  next
    case False
    then show ?thesis using random_alias_refused [OF r] r assms(2) by simp
  qed
qed

section \<open>Properties\<close>

text \<open>
  C26. A random alias is new, confined and its owner's.  When the service answers 201, it has added
  exactly one alias: in a domain that is open to the user (an administrator, a manager of it, someone
  granted access, or a user of that domain while it takes anonymous aliases), owned by the user,
  delivering to the user alone, neither disabled nor a wildcard; no user and no alias had the
  address and no active wildcard alias caught it; and the rows stay well formed.  The documentation
  differs from the code in two points: a member \<open>destination\<close> of the body, which it describes, is not
  read, and anonymous aliases need not be enabled in a domain that is managed by or granted to the user.
\<close>
theorem random_alias_confined:
  assumes "idna_ok e" "api_inv e s"
    and "random_alias e ci tld retries pick draws hostname note u s = (Reply 201, s')" "u \<in> set (users (ap_db s))"
  shows "api_inv e s' \<and> (\<exists>a lp n k. ap_db s' = (ap_db s)\<lparr>aliases := aliases (ap_db s) @ [a]\<rparr>
    \<and> owner_email a = Some (email u) \<and> Some (destination a) = stored_list [email u] \<and> \<not> disabled a \<and> \<not> wildcard a
    \<and> alias_domain a = n \<and> n \<in> domain_name ` set (domains (ap_db s)) \<and> open_to (ap_enc e) (ap_db s) u n
    \<and> alias_resolve (ap_enc e) ci (ap_db s) (Some lp) n = Ret None
    \<and> bind_email (ap_enc e) (lp @ ''@'' @ n) = Some k \<and> alias_localpart a = lower lp
    \<and> (\<forall>x\<in>set (aliases (ap_db s)). bind_email (ap_enc e) (alias_email x) \<noteq> Some k)
    \<and> (\<forall>x\<in>set (users (ap_db s)). bind_email (ap_enc e) (email x) \<noteq> Some k))"
  using assms by (rule random_alias_effect)

section \<open>Examples\<close>

definition sample_account_ops :: "api_op list" where
  "sample_account_ops = [DomainPost [(''name'', JStr ''x.io'')],
     UserPost ''r'' [(''email'', JStr ''ann@x.io''), (''global_admin'', JBool True)]]"

definition sample_account :: "(string, sval) dict api_state" where
  "sample_account = foldl (api_step sample_api) sample_state sample_account_ops"

definition sample_random :: "api_answer \<times> (string, sval) dict api_state" where
  "sample_random = random_alias sample_api True (\<lambda>_. Some ''Shop'') 10 7 [(Some ''tea'', ''qrs'', ''tok'')] (Some ''shop.com'') None
     (hd (users (ap_db sample_account))) sample_account"

theorem random_alias_confined_witness:
  "fst sample_random = Reply 201 \<and> api_inv sample_api (snd sample_random)
   \<and> map (\<lambda>a. (alias_email a, destination a, owner_email a)) (aliases (ap_db (snd sample_random)))
     = [(''shop.tea@x.io'', [''ann@x.io''], Some ''ann@x.io'')]"
proof -
  have "api_inv sample_api sample_state"
    by (simp add: api_inv_def rows_defs keys_unique_def integers_fit_def sample_state_def empty_db_def)
  moreover have "list_all (payload_ok sample_api) sample_account_ops" by code_simp
  ultimately have i: "api_inv sample_api sample_account"
    unfolding sample_account_def using api.inv_run [of sample_api sample_state] sample_idna sample_restx by simp
  have c: "fst sample_random = Reply 201 \<and> users (ap_db sample_account) \<noteq> []
    \<and> map (\<lambda>a. (alias_email a, destination a, owner_email a)) (aliases (ap_db (snd sample_random)))
     = [(''shop.tea@x.io'', [''ann@x.io''], Some ''ann@x.io'')]"
    by code_simp
  then have u: "hd (users (ap_db sample_account)) \<in> set (users (ap_db sample_account))" by simp
  from c have r: "sample_random = (Reply 201, snd sample_random)" by (simp add: prod_eq_iff)
  have "api_inv sample_api (snd sample_random)"
    unfolding sample_random_def by (rule conjunct1 [OF random_alias_confined [OF sample_idna i r [unfolded sample_random_def] u]])
  then show ?thesis using c by simp
qed

end
