(* ===== verification/Pages_Base.thy ===== *)
theory Pages_Base
  imports Simplelogin
begin

text \<open>
  What the administration pages share (\<open>src/core/admin/mailu/ui\<close>): answers, the guards in front of
  a page with the row they look up, the confirmation step, the checks of forms, and the picker of
  accounts (\<open>ui/user_picker.py\<close>).

  A page gets the fields of a form when it was posted with a valid CSRF token and every field could be
  read, else None.  The validators of the form library are arguments; the checks that
  \<open>ui/forms.py\<close> defines itself are translated.  Rendered pages and flashed messages are not modelled.
\<close>

section \<open>Answers and environment\<close>

datatype page_answer = Rendered | Redirected | Setup_shown string int | Sign_in | Confirm_first | Status nat | Failed

type_synonym 's page = "'s api_state \<Rightarrow> page_answer \<times> 's api_state"

text \<open>\<open>DataRequired\<close>, \<open>NumberRange\<close>, the choices of a radio field and \<open>Length\<close>.\<close>

record forms_lib =
  fl_required :: "string \<Rightarrow> bool"
  fl_range :: "int option \<Rightarrow> int option \<Rightarrow> int \<Rightarrow> bool"
  fl_choice :: "string list \<Rightarrow> string \<Rightarrow> bool"
  fl_max_length :: "nat \<Rightarrow> string \<Rightarrow> bool"

record 's page_env =
  pe_api :: "'s api_env"
  pe_forms :: forms_lib
  pe_fold_case :: bool
  pe_tld :: "string \<Rightarrow> string option"
  pe_retries :: nat
  pe_sanitize :: "string \<Rightarrow> (string \<times> string) option"

definition pe_enc :: "'s page_env \<Rightarrow> string \<Rightarrow> string option" where
  "pe_enc e = ap_enc (pe_api e)"

definition MAX_QUOTA_BYTES :: int where
  "MAX_QUOTA_BYTES = 1000 * 10 ^ 9"

text \<open>What the pages rely on of the form library.\<close>

definition forms_ok :: "forms_lib \<Rightarrow> bool" where
  "forms_ok L \<longleftrightarrow>
     (\<forall>lo hi i. fl_range L lo hi i \<longrightarrow> (\<forall>l\<in>set_option lo. l \<le> i) \<and> (\<forall>h\<in>set_option hi. i \<le> h))
     \<and> (\<forall>vs v. fl_choice L vs v \<longrightarrow> v \<in> set vs) \<and> (\<forall>v. fl_required L v \<longrightarrow> v \<noteq> [])"

section \<open>Guards\<close>

definition guarded :: "user option \<Rightarrow> (user \<Rightarrow> bool) outcome \<Rightarrow> (user \<Rightarrow> 's page) \<Rightarrow> 's page" where
  "guarded current guard page s =
     (case current of
        None \<Rightarrow> (Sign_in, s)
      | Some u \<Rightarrow>
          (case guard of
             Exn x \<Rightarrow> (Failed, s)
           | Ret g \<Rightarrow>
               (case permissions_wrapper current g of
                  Allowed \<Rightarrow> page u s | Denied n \<Rightarrow> (Status n, s) | Login_redirect \<Rightarrow> (Sign_in, s))))"

definition confirmed :: "bool \<Rightarrow> 's page \<Rightarrow> 's page" where
  "confirmed ok page s =
     (case confirmation_required ok ok [] (page s) of Done r \<Rightarrow> r | Ask t \<Rightarrow> (Confirm_first, s))"

text \<open>The guard looks its object up by the key of the route.\<close>

definition guard_domain :: "'s page_env \<Rightarrow> db \<Rightarrow> string \<Rightarrow> (user \<Rightarrow> bool) outcome" where
  "guard_domain e d name =
     bind_out (get_domain (pe_enc e) d name) (\<lambda>r. Ret (domain_admin d (map_option (\<lambda>r. Domain_row (domain_name r)) r)))"

definition guard_user :: "'s page_env \<Rightarrow> db \<Rightarrow> string \<Rightarrow> (user \<Rightarrow> bool) outcome" where
  "guard_user e d adr = bind_out (get_user (pe_enc e) d adr) (\<lambda>r. Ret (domain_admin d (map_option User_row r)))"

text \<open>An alias stands for its domain.\<close>

definition guard_alias :: "'s page_env \<Rightarrow> db \<Rightarrow> string \<Rightarrow> (user \<Rightarrow> bool) outcome" where
  "guard_alias e d adr =
     bind_out (get_alias (pe_enc e) d adr) (\<lambda>r. Ret (domain_admin d (map_option (\<lambda>a. Domain_row (alias_domain a)) r)))"

definition guard_owner :: "'s page_env \<Rightarrow> db \<Rightarrow> string option \<Rightarrow> (user \<Rightarrow> bool) outcome" where
  "guard_owner e d adr =
     (case adr of
        None \<Rightarrow> Ret (owner d True None)
      | Some a \<Rightarrow> bind_out (get_user (pe_enc e) d a) (\<lambda>r. Ret (owner d False (map_option User_row r))))"

text \<open>A row that belongs to the user whose address it holds; without that user the attribute is missing.\<close>

definition guard_row :: "'s page_env \<Rightarrow> db \<Rightarrow> string option \<Rightarrow> (user \<Rightarrow> bool) outcome" where
  "guard_row e d holder =
     (case holder of
        None \<Rightarrow> Ret (owner d False None)
      | Some a \<Rightarrow>
          bind_out (get_user (pe_enc e) d a) (\<lambda>r. case r of
            None \<Rightarrow> Exn AttributeError
          | Some u \<Rightarrow> Ret (owner d False (Some (Other_row (user_domain u) u)))))"

text \<open>\<open>db.session.get(...) or flask.abort(404)\<close>.\<close>

definition found :: "'a option outcome \<Rightarrow> ('a \<Rightarrow> 's page) \<Rightarrow> 's page" where
  "found r page s =
     (case r of Exn x \<Rightarrow> (Failed, s) | Ret None \<Rightarrow> (Status 404, s) | Ret (Some v) \<Rightarrow> page v s)"

definition save :: "'s page_env \<Rightarrow> 's api_state \<Rightarrow> db \<Rightarrow> page_answer \<times> 's api_state" where
  "save e s d' = (case commit (pe_enc e) s d' of (a, s') \<Rightarrow> (if a = Reply 200 then Redirected else Failed, s'))"

section \<open>Names that are taken\<close>

definition conflicting :: "'s page_env \<Rightarrow> db \<Rightarrow> string \<Rightarrow> bool outcome" where
  "conflicting e d name =
     bind_out (get_domain (pe_enc e) d name) (\<lambda>a.
     bind_out (get_alternative (pe_enc e) d name) (\<lambda>b.
     bind_out (get_relay (pe_enc e) d name) (\<lambda>c. Ret (a \<noteq> None \<or> b \<noteq> None \<or> c \<noteq> None))))"

definition has_email :: "db \<Rightarrow> domain \<Rightarrow> string \<Rightarrow> bool" where
  "has_email d dm lp \<longleftrightarrow>
     lower lp \<in> set (map (lower \<circ> localpart) (domain_users d dm))
     \<or> lower lp \<in> set (map (lower \<circ> alias_localpart) (domain_aliases d dm))"

section \<open>Picking accounts\<close>

datatype purpose = Admins | Managers string | Anonmail string

text \<open>The accounts someone may pick, or the status instead.\<close>

definition eligible :: "'s page_env \<Rightarrow> db \<Rightarrow> user \<Rightarrow> purpose \<Rightarrow> (nat + user list) outcome" where
  "eligible e d actor p =
     (case p of
        Admins \<Rightarrow> Ret (if global_admin actor then Inr (users d) else Inl 403)
      | Managers name \<Rightarrow>
          bind_out (get_domain (pe_enc e) d name) (\<lambda>r. case r of
            None \<Rightarrow> Ret (Inl 404)
          | Some dm \<Rightarrow>
              if \<not> global_admin actor \<and> domain_name dm \<notin> set (managed_domains d actor) then Ret (Inl 403)
              else if global_admin actor then Ret (Inr (users d))
              else Ret (Inr (filter (\<lambda>u. user_domain u \<in> set (managed_domains d actor)) (users d))))
      | Anonmail name \<Rightarrow>
          bind_out (get_domain (pe_enc e) d name) (\<lambda>r. case r of
            None \<Rightarrow> Ret (Inl 404)
          | Some dm \<Rightarrow>
              if \<not> global_admin actor \<and> domain_name dm \<notin> set (managed_domains d actor) then Ret (Inl 403)
              else Ret (Inr (filter (\<lambda>u. user_domain u = domain_name dm) (users d)))))"

text \<open>None: some of the addresses are not the exact address of an eligible account.\<close>

definition selected_users :: "'s page_env \<Rightarrow> user list \<Rightarrow> string list \<Rightarrow> user list option outcome" where
  "selected_users e us values =
     (if \<exists>v\<in>set values. bind_email (pe_enc e) v = None then Exn StatementError
      else (let picked = filter (\<lambda>u. bind_email (pe_enc e) (email u) \<in> set (map (bind_email (pe_enc e)) values)) us in
            Ret (if set (map email picked) = set values then Some picked else None)))"

text \<open>A page that asks for accounts: the list is set up first, which may already refuse.\<close>

definition with_picked ::
  "'s page_env \<Rightarrow> purpose \<Rightarrow> string list option \<Rightarrow> user \<Rightarrow> (user list \<Rightarrow> 's page) \<Rightarrow> 's page" where
  "with_picked e p form actor page s =
     (case eligible e (ap_db s) actor p of
        Exn x \<Rightarrow> (Failed, s)
      | Ret (Inl n) \<Rightarrow> (Status n, s)
      | Ret (Inr us) \<Rightarrow>
          (case form of
             None \<Rightarrow> (Rendered, s)
           | Some values \<Rightarrow>
               if values = [] then (Rendered, s)
               else (case selected_users e us values of
                 Exn x \<Rightarrow> (Failed, s)
               | Ret None \<Rightarrow> (Rendered, s)
               | Ret (Some picked) \<Rightarrow> page picked s)))"

end
