(* ===== verification/Pages_Domains.thy ===== *)
theory Pages_Domains
  imports Pages_Base
begin

text \<open>
  The administration pages for domains, alternative names, relays, managers, access to the anonymous
  alias service and global administrators (\<open>ui/views/domains.py\<close>, \<open>alternatives.py\<close>, \<open>relays.py\<close>,
  \<open>managers.py\<close>, \<open>admins.py\<close>) with their forms (\<open>ui/forms.py\<close>).
\<close>

section \<open>Domains\<close>

text \<open>The fields of \<open>DomainForm\<close>; \<open>DomainPasskeyPolicyForm\<close> has only the policy.\<close>

record domain_form =
  fd_name :: string
  fd_max_users :: int
  fd_max_aliases :: int
  fd_max_quota :: int
  fd_signup :: bool
  fd_anonmail :: bool
  fd_policy :: passkey_policy
  fd_comment :: string

definition policy_form_ok :: "forms_lib \<Rightarrow> passkey_policy \<Rightarrow> bool" where
  "policy_form_ok L p \<longleftrightarrow>
     fl_choice L aaguid_modes (aaguid_mode p)
     \<and> (strip_str (aaguids p) = [] \<or> (case normalize_aaguids (JStr (aaguids p)) of Ret v \<Rightarrow> True | Exn x \<Rightarrow> False))
     \<and> fl_choice L policy_levels (backup_eligible_policy p)
     \<and> fl_choice L policy_levels (backup_state_policy p)
     \<and> fl_choice L policy_levels (attestation_policy p)
     \<and> fl_choice L resident_kinds (resident_key p)"

definition domain_form_ok :: "forms_lib \<Rightarrow> bool \<Rightarrow> int \<Rightarrow> domain_form \<Rightarrow> bool" where
  "domain_form_ok L new quota_limit f \<longleftrightarrow>
     (\<not> new \<or> fl_required L (fd_name f))
     \<and> fl_range L (Some (- 1)) None (fd_max_users f) \<and> fl_range L (Some (- 1)) None (fd_max_aliases f)
     \<and> fl_range L (Some 0) (Some quota_limit) (fd_max_quota f) \<and> policy_form_ok L (fd_policy f)"

text \<open>\<open>populate_domain\<close> assigns every field, the name included; \<open>stored\<close> is the name as it is read back.\<close>

definition populate_domain :: "domain_form \<Rightarrow> string \<Rightarrow> domain" where
  "populate_domain f stored = \<lparr>domain_name = stored, max_users = fd_max_users f, max_aliases = fd_max_aliases f,
     max_quota_bytes = fd_max_quota f, signup_enabled = fd_signup f, anonmail_enabled = fd_anonmail f,
     domain_policy = fd_policy f, domain_comment = fd_comment f\<rparr>"

definition domain_create_page :: "'s page_env \<Rightarrow> user option \<Rightarrow> domain_form option \<Rightarrow> 's page" where
  "domain_create_page e current form =
     guarded current (Ret global_admin_only) (\<lambda>u s.
       case form of
         None \<Rightarrow> (Rendered, s)
       | Some f \<Rightarrow>
           if \<not> domain_form_ok (pe_forms e) True MAX_QUOTA_BYTES f \<or> \<not> ap_valid_domain (pe_api e) (fd_name f) then (Rendered, s)
           else (case conflicting e (ap_db s) (fd_name f) of
             Exn x \<Rightarrow> (Failed, s)
           | Ret used \<Rightarrow>
               if used then (Rendered, s)
               else (case stored_domain (pe_api e) (fd_name f) of
                 None \<Rightarrow> (Failed, s)
               | Some n \<Rightarrow> save e s ((ap_db s)\<lparr>domains := domains (ap_db s) @ [populate_domain f n]\<rparr>))))"

text \<open>A row takes the place of the row of another name when the name was changed.\<close>

definition replace_domain :: "string \<Rightarrow> domain \<Rightarrow> db \<Rightarrow> db" where
  "replace_domain old dm d = d\<lparr>domains := map (\<lambda>r. if domain_name r = old then dm else r) (domains d)\<rparr>"

definition domain_edit_page :: "'s page_env \<Rightarrow> user option \<Rightarrow> string \<Rightarrow> domain_form option \<Rightarrow> 's page" where
  "domain_edit_page e current name form s =
     guarded current (guard_domain e (ap_db s) name) (\<lambda>u.
       found (get_domain (pe_enc e) (ap_db s) name) (\<lambda>dm s.
         case form of
           None \<Rightarrow> (Rendered, s)
         | Some f \<Rightarrow>
             if global_admin u then
               (if \<not> domain_form_ok (pe_forms e) False (max MAX_QUOTA_BYTES (max_quota_bytes dm)) f then (Rendered, s)
                else case stored_domain (pe_api e) (fd_name f) of
                  None \<Rightarrow> (Failed, s)
                | Some n \<Rightarrow> save e s (replace_domain (domain_name dm) (populate_domain f n) (ap_db s)))
             else if \<not> policy_form_ok (pe_forms e) (fd_policy f) then (Rendered, s)
             else save e s (put_domain (dm\<lparr>domain_policy := fd_policy f\<rparr>) (ap_db s)))) s"

definition domain_delete_page :: "'s page_env \<Rightarrow> user option \<Rightarrow> bool \<Rightarrow> string \<Rightarrow> 's page" where
  "domain_delete_page e current ok name s =
     guarded current (Ret global_admin_only) (\<lambda>u. confirmed ok
       (found (get_domain (pe_enc e) (ap_db s) name) (\<lambda>dm s.
          case save e s (delete_domain_rows (domain_name dm) (ap_db s)) of
            (a, s') \<Rightarrow> (a, if a = Failed then s'
                           else s'\<lparr>ap_keys := filter (\<lambda>k. key_domain k \<noteq> domain_name dm) (ap_keys s')\<rparr>)))) s"

section \<open>Alternative names and relays\<close>

definition alternative_create_page :: "'s page_env \<Rightarrow> user option \<Rightarrow> string \<Rightarrow> string option \<Rightarrow> 's page" where
  "alternative_create_page e current name form s =
     guarded current (Ret global_admin_only) (\<lambda>u.
       found (get_domain (pe_enc e) (ap_db s) name) (\<lambda>dm s.
         case form of
           None \<Rightarrow> (Rendered, s)
         | Some new \<Rightarrow>
             if \<not> fl_required (pe_forms e) new then (Rendered, s)
             else (case conflicting e (ap_db s) new of
               Exn x \<Rightarrow> (Failed, s)
             | Ret used \<Rightarrow>
                 if used then (Rendered, s)
                 else (case stored_domain (pe_api e) new of
                   None \<Rightarrow> (Failed, s)
                 | Some n \<Rightarrow> save e s ((ap_db s)\<lparr>alternatives := alternatives (ap_db s)
                       @ [\<lparr>alt_name = n, alt_domain = domain_name dm\<rparr>]\<rparr>))))) s"

definition alternative_delete_page :: "'s page_env \<Rightarrow> user option \<Rightarrow> bool \<Rightarrow> string \<Rightarrow> 's page" where
  "alternative_delete_page e current ok name s =
     guarded current (Ret global_admin_only) (\<lambda>u. confirmed ok
       (found (get_alternative (pe_enc e) (ap_db s) name) (\<lambda>a s.
          save e s ((ap_db s)\<lparr>alternatives := filter (\<lambda>r. alt_name r \<noteq> alt_name a) (alternatives (ap_db s))\<rparr>)))) s"

record relay_form =
  fr_name :: string
  fr_smtp :: string
  fr_comment :: string

definition relay_create_page :: "'s page_env \<Rightarrow> user option \<Rightarrow> relay_form option \<Rightarrow> 's page" where
  "relay_create_page e current form =
     guarded current (Ret global_admin_only) (\<lambda>u s.
       case form of
         None \<Rightarrow> (Rendered, s)
       | Some f \<Rightarrow>
           if \<not> fl_required (pe_forms e) (fr_name f) then (Rendered, s)
           else (case conflicting e (ap_db s) (fr_name f) of
             Exn x \<Rightarrow> (Failed, s)
           | Ret used \<Rightarrow>
               if used then (Rendered, s)
               else (case stored_domain (pe_api e) (fr_name f) of
                 None \<Rightarrow> (Failed, s)
               | Some n \<Rightarrow> save e s ((ap_db s)\<lparr>relays := relays (ap_db s)
                     @ [\<lparr>relay_name = n, relay_smtp = Some (fr_smtp f), relay_comment = fr_comment f\<rparr>]\<rparr>))))"

definition relay_edit_page :: "'s page_env \<Rightarrow> user option \<Rightarrow> string \<Rightarrow> relay_form option \<Rightarrow> 's page" where
  "relay_edit_page e current name form s =
     guarded current (Ret global_admin_only) (\<lambda>u.
       found (get_relay (pe_enc e) (ap_db s) name) (\<lambda>r s.
         case form of
           None \<Rightarrow> (Rendered, s)
         | Some f \<Rightarrow> save e s ((ap_db s)\<lparr>relays := map (\<lambda>x. if relay_name x = relay_name r
               then r\<lparr>relay_smtp := Some (fr_smtp f), relay_comment := fr_comment f\<rparr> else x) (relays (ap_db s))\<rparr>))) s"

definition relay_delete_page :: "'s page_env \<Rightarrow> user option \<Rightarrow> bool \<Rightarrow> string \<Rightarrow> 's page" where
  "relay_delete_page e current ok name s =
     guarded current (Ret global_admin_only) (\<lambda>u. confirmed ok
       (found (get_relay (pe_enc e) (ap_db s) name) (\<lambda>r s.
          save e s ((ap_db s)\<lparr>relays := filter (\<lambda>x. relay_name x \<noteq> relay_name r) (relays (ap_db s))\<rparr>)))) s"

section \<open>Managers and access to the alias service\<close>

definition manager_create_page :: "'s page_env \<Rightarrow> user option \<Rightarrow> string \<Rightarrow> string list option \<Rightarrow> 's page" where
  "manager_create_page e current name form s =
     guarded current (guard_domain e (ap_db s) name) (\<lambda>u.
       found (get_domain (pe_enc e) (ap_db s) name) (\<lambda>dm.
         with_picked e (Managers (domain_name dm)) form u (\<lambda>picked s.
           save e s ((ap_db s)\<lparr>managers := managers (ap_db s)
             @ map (\<lambda>x. (domain_name dm, email x))
                 (filter (\<lambda>x. (domain_name dm, email x) \<notin> set (managers (ap_db s))) picked)\<rparr>)))) s"

definition manager_delete_page :: "'s page_env \<Rightarrow> user option \<Rightarrow> bool \<Rightarrow> string \<Rightarrow> string \<Rightarrow> 's page" where
  "manager_delete_page e current ok name adr s =
     confirmed ok (guarded current (guard_domain e (ap_db s) name) (\<lambda>u.
       found (get_domain (pe_enc e) (ap_db s) name) (\<lambda>dm.
       found (get_user (pe_enc e) (ap_db s) adr) (\<lambda>x s.
         if (domain_name dm, email x) \<in> set (managers (ap_db s))
         then save e s ((ap_db s)\<lparr>managers := filter (\<lambda>m. m \<noteq> (domain_name dm, email x)) (managers (ap_db s))\<rparr>)
         else (Redirected, s))))) s"

definition next_access :: "db \<Rightarrow> nat" where
  "next_access d = Suc (foldr max (map access_id (accesses d)) 0)"

definition grant_access :: "string \<Rightarrow> user \<Rightarrow> db \<Rightarrow> db" where
  "grant_access dn u d =
     d\<lparr>accesses := accesses d @ [\<lparr>access_id = next_access d, access_domain = dn, access_user = Some (email u)\<rparr>]\<rparr>"

definition has_grant :: "db \<Rightarrow> string \<Rightarrow> user \<Rightarrow> bool" where
  "has_grant d dn u \<longleftrightarrow> (\<exists>a\<in>set (accesses d). access_domain a = dn \<and> access_user a = Some (email u))"

text \<open>A request with a JSON body names one account, a posted form several.\<close>

datatype access_request = Json_body "string option" | Form_body "string list option"

definition access_create_page :: "'s page_env \<Rightarrow> user option \<Rightarrow> string \<Rightarrow> access_request \<Rightarrow> 's page" where
  "access_create_page e current name req s =
     guarded current (guard_domain e (ap_db s) name) (\<lambda>u.
       found (get_domain (pe_enc e) (ap_db s) name) (\<lambda>dm s.
         case req of
           Json_body mail \<Rightarrow>
             if mail \<in> {None, Some []} then (Status 400, s)
             else found (get_user (pe_enc e) (ap_db s) (the mail)) (\<lambda>x s.
               if has_grant (ap_db s) (domain_name dm) x then (Status 409, s)
               else (case save e s (grant_access (domain_name dm) x (ap_db s)) of
                 (a, s') \<Rightarrow> (if a = Redirected then Status 201 else a, s'))) s
         | Form_body form \<Rightarrow>
             with_picked e (Anonmail (domain_name dm)) form u (\<lambda>picked s.
               save e s (fold (grant_access (domain_name dm))
                 (filter (\<lambda>x. \<not> has_grant (ap_db s) (domain_name dm) x) picked) (ap_db s))) s)) s"

definition access_delete_page :: "'s page_env \<Rightarrow> user option \<Rightarrow> bool \<Rightarrow> string \<Rightarrow> nat \<Rightarrow> 's page" where
  "access_delete_page e current ok name aid s =
     guarded current (guard_domain e (ap_db s) name) (\<lambda>u. confirmed ok
       (found (get_domain (pe_enc e) (ap_db s) name) (\<lambda>dm.
        found (Ret (find (\<lambda>a. access_id a = aid) (accesses (ap_db s)))) (\<lambda>a s.
          if access_domain a \<noteq> domain_name dm then (Status 403, s)
          else save e s ((ap_db s)\<lparr>accesses := filter (\<lambda>x. x \<noteq> a) (accesses (ap_db s))\<rparr>))))) s"

section \<open>Global administrators\<close>

definition set_admin :: "bool \<Rightarrow> string list \<Rightarrow> db \<Rightarrow> db" where
  "set_admin b who d = d\<lparr>users := map (\<lambda>r. if email r \<in> set who then r\<lparr>global_admin := b\<rparr> else r) (users d)\<rparr>"

definition admin_create_page :: "'s page_env \<Rightarrow> user option \<Rightarrow> string list option \<Rightarrow> 's page" where
  "admin_create_page e current form =
     guarded current (Ret global_admin_only) (\<lambda>u.
       with_picked e Admins form u (\<lambda>picked s. save e s (set_admin True (map email picked) (ap_db s))))"

definition admin_delete_page :: "'s page_env \<Rightarrow> user option \<Rightarrow> bool \<Rightarrow> string \<Rightarrow> 's page" where
  "admin_delete_page e current ok adr s =
     guarded current (Ret global_admin_only) (\<lambda>u. confirmed ok (\<lambda>s.
       case get_user (pe_enc e) (ap_db s) adr of
         Exn x \<Rightarrow> (Failed, s)
       | Ret None \<Rightarrow> (Redirected, s)
       | Ret (Some x) \<Rightarrow> save e s (set_admin False [email x] (ap_db s)))) s"

end
