(* ===== verification/Pages_Users.thy ===== *)
theory Pages_Users
  imports Pages_Domains
begin

text \<open>
  The administration and user pages for accounts, automatic replies, aliases, anonymous aliases,
  application tokens and granted mail apps (\<open>ui/views/users.py\<close>, \<open>aliases.py\<close>, \<open>tokens.py\<close>) with
  their forms (\<open>ui/forms.py\<close>).  Dates are proleptic ordinals.
\<close>

section \<open>Accounts\<close>

record user_form =
  fu_localpart :: string
  fu_quota :: int
  fu_imap :: bool
  fu_pop :: bool
  fu_spoofing :: bool
  fu_name :: string
  fu_comment :: string
  fu_enabled :: bool
  fu_change_pw :: bool
  fu_enroll :: bool

definition quota_limit :: "domain \<Rightarrow> int" where
  "quota_limit dm = min (if max_quota_bytes dm = 0 then MAX_QUOTA_BYTES else max_quota_bytes dm) MAX_QUOTA_BYTES"

definition populate_user :: "user_form \<Rightarrow> user \<Rightarrow> user" where
  "populate_user f u = u\<lparr>quota_bytes := fu_quota f, enable_imap := fu_imap f, enable_pop := fu_pop f,
     allow_spoofing := fu_spoofing f, displayed_name := fu_name f, user_comment := fu_comment f,
     enabled := fu_enabled f, change_pw_next_login := fu_change_pw f, passkey_enroll_next_login := fu_enroll f\<rparr>"

text \<open>The new row gets its address when it is written: until then \<open>user.email\<close> is None, so no
  sessions are ended and no earlier setup link is replaced.  \<open>secret\<close> and \<open>raw\<close> are the drawn
  password and link.\<close>

definition user_create_page ::
  "'s page_env \<Rightarrow> user option \<Rightarrow> string \<Rightarrow> string \<Rightarrow> int \<Rightarrow> string \<Rightarrow> user_form option \<Rightarrow> 's page" where
  "user_create_page e current secret raw now name form s =
     guarded current (guard_domain e (ap_db s) name) (\<lambda>u.
       found (get_domain (pe_enc e) (ap_db s) name) (\<lambda>dm s.
         if max_users dm \<noteq> -1 \<and> int (length (domain_users (ap_db s) dm)) \<ge> max_users dm then (Redirected, s)
         else case form of
           None \<Rightarrow> (Rendered, s)
         | Some f \<Rightarrow>
             let lp = fu_localpart f; adr = lower lp @ ''@'' @ domain_name dm; valid = ap_valid_address (pe_api e) in
             if \<not> (fl_required (pe_forms e) lp \<and> is_valid_localpart valid lp
                   \<and> fl_range (pe_forms e) (Some 0) (Some (quota_limit dm)) (fu_quota f)) then (Rendered, s)
             else if has_email (ap_db s) dm lp then (Rendered, s)
             else if \<not> is_valid_localpart valid (lower lp) \<or> bind_email (pe_enc e) adr = None then (Failed, s)
             else
               (let row = (populate_user f (new_user (pe_api e) (lower lp) (domain_name dm)))
                      \<lparr>change_pw_next_login := False, password := cr_hash (ap_crypto (pe_api e)) secret\<rparr>;
                    until = now + ap_setup_ttl (pe_api e)
                in case save e s ((ap_db s)\<lparr>users := users (ap_db s) @ [row]\<rparr>) of
                     (a, s') \<Rightarrow>
                       (if a = Failed then (a, s')
                        else (Setup_shown raw until,
                              s'\<lparr>ap_setups := ap_setups s' @ [\<lparr>st_hash = ap_sha256_hex (pe_api e) raw, st_user = adr,
                                   st_expires = until\<rparr>]\<rparr>))))) s"

definition user_edit_page :: "'s page_env \<Rightarrow> user option \<Rightarrow> string \<Rightarrow> user_form option \<Rightarrow> 's page" where
  "user_edit_page e current adr form s =
     guarded current (guard_user e (ap_db s) adr) (\<lambda>u.
       found (get_user (pe_enc e) (ap_db s) adr) (\<lambda>x s.
         case find (\<lambda>r. domain_name r = user_domain x) (domains (ap_db s)) of
           None \<Rightarrow> (Failed, s)
         | Some dm \<Rightarrow>
             (case form of
                None \<Rightarrow> (Rendered, s)
              | Some f \<Rightarrow>
                  if \<not> fl_range (pe_forms e) (Some 0) (Some (max (quota_limit dm) (quota_bytes x))) (fu_quota f)
                  then (Rendered, s)
                  else
                    let y = populate_user f x;
                        z = (if require_enrollment (domain_policy dm)
                             then y\<lparr>passkey_enroll_next_login := passkey_enroll_next_login x\<rparr> else y)
                    in save e s (put_user z (ap_db s))))) s"

section \<open>Automatic replies\<close>

record reply_form =
  ff_enabled :: bool
  ff_subject :: string
  ff_body :: string
  ff_html :: string
  ff_formatted :: bool
  ff_schedule :: string
  ff_start :: "int option"
  ff_end :: "int option"

definition posted_html :: "reply_form \<Rightarrow> string" where
  "posted_html f = (if ff_formatted f then ff_html f else [])"

text \<open>Switching off works with an unfinished draft.\<close>

definition reply_form_ok :: "forms_lib \<Rightarrow> reply_form \<Rightarrow> bool" where
  "reply_form_ok L f \<longleftrightarrow>
     \<not> ff_enabled f
     \<or> ((strip_str (ff_subject f) = []
           \<or> fl_max_length L 255 (ff_subject f) \<and> CHR 0x0A \<notin> set (ff_subject f) \<and> CHR 0x0D \<notin> set (ff_subject f))
        \<and> fl_max_length L 100000 (ff_body f)
        \<and> (strip_str (posted_html f) = [] \<or> fl_max_length L 100000 (posted_html f))
        \<and> fl_choice L [''dates'', ''always''] (ff_schedule f)
        \<and> (ff_schedule f = ''dates'' \<longrightarrow>
             (case (ff_start f, ff_end f) of (Some a, Some b) \<Rightarrow> a \<le> b | _ \<Rightarrow> False)))"

text \<open>The message to store: None when there is none to send.\<close>

definition reply_message :: "(string \<Rightarrow> (string \<times> string) option) \<Rightarrow> reply_form \<Rightarrow> (string option \<times> string) option" where
  "reply_message sanitize f =
     (case (if posted_html f = [] then Some (None, ff_body f)
            else map_option (\<lambda>(h, p). (Some h, p)) (sanitize (posted_html f))) of
        None \<Rightarrow> None
      | Some (h, p) \<Rightarrow> if strip_str p = [] then None else Some (h, p))"

text \<open>Assigning \<open>reply_body_html\<close> sanitizes once more and sets the plain text again.\<close>

definition set_reply :: "(string \<Rightarrow> (string \<times> string) option) \<Rightarrow> string option \<times> string \<Rightarrow> user \<Rightarrow> user option" where
  "set_reply sanitize m u =
     (case m of (h, p) \<Rightarrow>
        let v = set_reply_body p u in
        case h of
          None \<Rightarrow> Some (v\<lparr>reply_body_html := None\<rparr>)
        | Some t \<Rightarrow>
            if t = [] then Some (v\<lparr>reply_body_html := None\<rparr>)
            else map_option (\<lambda>(h2, p2). (set_reply_body p2 v)\<lparr>reply_body_html := Some h2\<rparr>) (sanitize t))"

definition reply_dates :: "reply_form \<Rightarrow> user \<Rightarrow> user" where
  "reply_dates f u =
     (if ff_schedule f = ''always''
      then u\<lparr>reply_startdate := date_ordinal 1900 1 1, reply_enddate := date_ordinal 2999 12 31\<rparr>
      else case (ff_start f, ff_end f) of
        (Some a, Some b) \<Rightarrow> u\<lparr>reply_startdate := a, reply_enddate := b\<rparr> | _ \<Rightarrow> u)"

definition user_reply_page :: "'s page_env \<Rightarrow> user option \<Rightarrow> string option \<Rightarrow> reply_form option \<Rightarrow> 's page" where
  "user_reply_page e current adr form s =
     guarded current (guard_owner e (ap_db s) adr) (\<lambda>u.
       found (get_user (pe_enc e) (ap_db s) (case adr of Some a \<Rightarrow> a | None \<Rightarrow> email u)) (\<lambda>x s.
         case form of
           None \<Rightarrow> (Rendered, s)
         | Some f \<Rightarrow>
             if \<not> reply_form_ok (pe_forms e) f then (Rendered, s)
             else if \<not> ff_enabled f then save e s (put_user (x\<lparr>reply_enabled := False\<rparr>) (ap_db s))
             else (case reply_message (pe_sanitize e) f of
               None \<Rightarrow> (Rendered, s)
             | Some m \<Rightarrow>
                 (case set_reply (pe_sanitize e) m (x\<lparr>reply_enabled := True, reply_subject := Some (ff_subject f)\<rparr>) of
                    None \<Rightarrow> (Failed, s)
                  | Some y \<Rightarrow> save e s (put_user (reply_dates f y) (ap_db s)))))) s"

section \<open>Aliases\<close>

record alias_form =
  fa_localpart :: string
  fa_wildcard :: bool
  fa_destination :: "string list"
  fa_comment :: string

definition alias_form_ok :: "'s page_env \<Rightarrow> bool \<Rightarrow> alias_form \<Rightarrow> bool" where
  "alias_form_ok e new f \<longleftrightarrow>
     (\<not> new \<or> fl_required (pe_forms e) (fa_localpart f)
            \<and> is_valid_localpart (ap_valid_address (pe_api e)) (fa_localpart f))
     \<and> list_all (valid_email (pe_api e)) (fa_destination f)"

definition alias_create_page :: "'s page_env \<Rightarrow> user option \<Rightarrow> string \<Rightarrow> alias_form option \<Rightarrow> 's page" where
  "alias_create_page e current name form s =
     guarded current (guard_domain e (ap_db s) name) (\<lambda>u.
       found (get_domain (pe_enc e) (ap_db s) name) (\<lambda>dm s.
         if max_aliases dm \<noteq> -1 \<and> int (length (domain_aliases (ap_db s) dm)) \<ge> max_aliases dm then (Redirected, s)
         else case form of
           None \<Rightarrow> (Rendered, s)
         | Some f \<Rightarrow>
             let lp = lower (fa_localpart f) in
             if \<not> alias_form_ok e True f \<or> has_email (ap_db s) dm (fa_localpart f) then (Rendered, s)
             else if \<not> is_valid_localpart (ap_valid_address (pe_api e)) lp
                     \<or> bind_email (pe_enc e) (lp @ ''@'' @ domain_name dm) = None then (Failed, s)
             else (case stored_list (fa_destination f) of
               None \<Rightarrow> (Failed, s)
             | Some ds \<Rightarrow> save e s ((ap_db s)\<lparr>aliases := aliases (ap_db s)
                 @ [(new_alias lp (domain_name dm) ds)\<lparr>wildcard := fa_wildcard f, alias_comment := fa_comment f\<rparr>]\<rparr>)))) s"

definition alias_edit_page :: "'s page_env \<Rightarrow> user option \<Rightarrow> string \<Rightarrow> alias_form option \<Rightarrow> 's page" where
  "alias_edit_page e current adr form s =
     guarded current (guard_alias e (ap_db s) adr) (\<lambda>u.
       found (get_alias (pe_enc e) (ap_db s) adr) (\<lambda>a s.
         case form of
           None \<Rightarrow> (Rendered, s)
         | Some f \<Rightarrow>
             if \<not> alias_form_ok e False f then (Rendered, s)
             else (case stored_list (fa_destination f) of
               None \<Rightarrow> (Failed, s)
             | Some ds \<Rightarrow> save e s (put_alias
                 (a\<lparr>wildcard := fa_wildcard f, destination := ds, alias_comment := fa_comment f\<rparr>) (ap_db s))))) s"

definition remove_alias :: "mail_alias \<Rightarrow> db \<Rightarrow> db" where
  "remove_alias a d = d\<lparr>aliases := filter (\<lambda>r. alias_email r \<noteq> alias_email a) (aliases d)\<rparr>"

definition alias_delete_page :: "'s page_env \<Rightarrow> user option \<Rightarrow> bool \<Rightarrow> string \<Rightarrow> 's page" where
  "alias_delete_page e current ok adr s =
     guarded current (guard_alias e (ap_db s) adr) (\<lambda>u. confirmed ok
       (found (get_alias (pe_enc e) (ap_db s) adr) (\<lambda>a s. save e s (remove_alias a (ap_db s))))) s"

section \<open>Anonymous aliases\<close>

record anon_form =
  fn_domain :: string
  fn_hostname :: string
  fn_note :: string

definition authenticated :: "user \<Rightarrow> bool" where
  "authenticated u = True"

definition anonalias_create_page :: "'s page_env \<Rightarrow> user option \<Rightarrow> draw list \<Rightarrow> anon_form option \<Rightarrow> 's page" where
  "anonalias_create_page e current draws form =
     guarded current (Ret authenticated) (\<lambda>u s.
       case accessible_domains (pe_enc e) (ap_db s) u (domains (ap_db s)) of
         Exn x \<Rightarrow> (Failed, s)
       | Ret names \<Rightarrow>
           if names = [] then (Redirected, s)
           else (case form of
             None \<Rightarrow> (Rendered, s)
           | Some f \<Rightarrow>
               if \<not> fl_required (pe_forms e) (fn_domain f) \<or> \<not> fl_choice (pe_forms e) names (fn_domain f) then (Rendered, s)
               else (case free_localpart (pe_enc e) (pe_fold_case e) (pe_tld e) (Some (fn_hostname f)) (ap_db s) (fn_domain f)
                       (take (pe_retries e) draws) of
                 Exn x \<Rightarrow> (Failed, s)
               | Ret lp \<Rightarrow>
                   if lp \<in> {None, Some []} then (Redirected, s)
                   else (case (stored_email (pe_api e) (the lp @ ''@'' @ fn_domain f), stored_list [email u]) of
                     (Some (lp', dn), Some ds) \<Rightarrow>
                       if \<not> is_valid_localpart (ap_valid_address (pe_api e)) lp' then (Failed, s)
                       else save e s ((ap_db s)\<lparr>aliases := aliases (ap_db s)
                         @ [(new_alias lp' dn ds)\<lparr>owner_email := Some (email u), alias_hostname := Some (fn_hostname f),
                              alias_comment := (if fn_note f = [] then ''Generated by UI for '' @ email u else fn_note f)\<rparr>]\<rparr>)
                   | _ \<Rightarrow> (Failed, s)))))"

text \<open>The alias of that address that the signed-in user owns.\<close>

definition owned :: "'s page_env \<Rightarrow> db \<Rightarrow> user \<Rightarrow> string \<Rightarrow> mail_alias option outcome" where
  "owned e d u adr =
     bind_out (get_alias (pe_enc e) d adr) (\<lambda>r. Ret (case r of
       Some a \<Rightarrow> if owner_email a = Some (email u) then Some a else None | None \<Rightarrow> None))"

definition anonalias_delete_page :: "'s page_env \<Rightarrow> user option \<Rightarrow> bool \<Rightarrow> string \<Rightarrow> 's page" where
  "anonalias_delete_page e current ok adr s =
     guarded current (Ret authenticated) (\<lambda>u. confirmed ok
       (found (owned e (ap_db s) u adr) (\<lambda>a s. save e s (remove_alias a (ap_db s))))) s"

text \<open>The pages that disable and enable.\<close>

definition anonalias_switch_page :: "'s page_env \<Rightarrow> user option \<Rightarrow> bool \<Rightarrow> bool \<Rightarrow> string \<Rightarrow> 's page" where
  "anonalias_switch_page e current off ok adr s =
     guarded current (Ret authenticated) (\<lambda>u. confirmed ok
       (found (owned e (ap_db s) u adr) (\<lambda>a s. save e s (put_alias (a\<lparr>disabled := off\<rparr>) (ap_db s))))) s"

section \<open>Application tokens\<close>

record token_form =
  ft_raw :: string
  ft_comment :: string
  ft_ip :: string

definition ip_list :: "string \<Rightarrow> string list" where
  "ip_list text = split_on CHR '','' (filter (\<lambda>c. c \<noteq> CHR '' '') text)"

definition token_form_ok :: "string \<Rightarrow> bool" where
  "token_form_ok text \<longleftrightarrow> strip_str text = [] \<or> list_all network_text (ip_list text)"

text \<open>\<open>fresh\<close> is the password drawn when the hidden field is empty.\<close>

definition token_create_page ::
  "'s page_env \<Rightarrow> user option \<Rightarrow> string \<Rightarrow> string option \<Rightarrow> token_form option \<Rightarrow> 's page" where
  "token_create_page e current fresh adr form s =
     guarded current (guard_owner e (ap_db s) adr) (\<lambda>u.
       found (get_user (pe_enc e) (ap_db s) (case adr of Some a \<Rightarrow> a | None \<Rightarrow> email u)) (\<lambda>x s.
         case form of
           None \<Rightarrow> (Rendered, s)
         | Some f \<Rightarrow>
             let ip = formatCSVField (Some (Text (ft_ip f))); raw = (if ft_raw f = [] then fresh else ft_raw f) in
             if \<not> token_form_ok ip then (Rendered, s)
             else (case stored_list (if ip = [] then [] else ip_list ip) of
               None \<Rightarrow> (Failed, s)
             | Some ips \<Rightarrow> save e s ((ap_db s)\<lparr>tokens := tokens (ap_db s)
                 @ [\<lparr>token_id = next_token (ap_db s), token_user = email x,
                     token_password = fast_hash (ap_crypto (pe_api e)) raw, token_ip = ips,
                     token_comment = ft_comment f\<rparr>]\<rparr>)))) s"

definition token_delete_page :: "'s page_env \<Rightarrow> user option \<Rightarrow> bool \<Rightarrow> nat option \<Rightarrow> 's page" where
  "token_delete_page e current ok tid s =
     confirmed ok (guarded current (guard_row e (ap_db s) (map_option token_user (find_token (ap_db s) tid))) (\<lambda>u.
       found (Ret (find_token (ap_db s) tid)) (\<lambda>t s.
         save e s ((ap_db s)\<lparr>tokens := filter (\<lambda>r. r \<noteq> t) (tokens (ap_db s))\<rparr>)))) s"

section \<open>Granted mail apps\<close>

text \<open>A route names the row by its number; here the grant is named by its identifier.\<close>

definition row_of_grant :: "db \<Rightarrow> string \<Rightarrow> grant option" where
  "row_of_grant d gid = find (\<lambda>g. grant_id g = gid) (grants d)"

text \<open>Whether the list marks a grant as expired.\<close>

definition needs_reauthentication :: "int \<Rightarrow> int \<Rightarrow> int \<Rightarrow> grant \<Rightarrow> bool" where
  "needs_reauthentication now refresh_ttl refresh_idle g =
     (case refresh_expires_at g of
        None \<Rightarrow> access_expires_at g \<le> now
      | Some t \<Rightarrow>
          (let last_use = (case last_refresh_at g of None \<Rightarrow> t - refresh_ttl | Some r \<Rightarrow> r) in
           t \<le> now \<or> last_use + refresh_idle \<le> now))"

definition oauth2_token_revoke_page :: "'s page_env \<Rightarrow> user option \<Rightarrow> bool \<Rightarrow> string \<Rightarrow> 's page" where
  "oauth2_token_revoke_page e current ok gid s =
     guarded current (guard_row e (ap_db s) (map_option grant_user (row_of_grant (ap_db s) gid))) (\<lambda>u. confirmed ok
       (found (Ret (row_of_grant (ap_db s) gid)) (\<lambda>g s.
          save e s ((ap_db s)\<lparr>grants := filter (\<lambda>r. r \<noteq> g) (grants (ap_db s))\<rparr>)))) s"

definition oauth2_token_reauthenticate_page :: "'s page_env \<Rightarrow> user option \<Rightarrow> int \<Rightarrow> bool \<Rightarrow> string \<Rightarrow> 's page" where
  "oauth2_token_reauthenticate_page e current now ok gid s =
     guarded current (guard_row e (ap_db s) (map_option grant_user (row_of_grant (ap_db s) gid))) (\<lambda>u. confirmed ok
       (found (Ret (row_of_grant (ap_db s) gid)) (\<lambda>g s.
          save e s ((ap_db s)\<lparr>grants := map (\<lambda>r. if r = g then force_reauthentication now r else r)
            (grants (ap_db s))\<rparr>)))) s"

end
