(* ===== verification/Pages_Machine.thy ===== *)
theory Pages_Machine
  imports Pages_Users
begin

text \<open>
  The administration pages as a machine: every page request with its form, the signed-in user taken
  from the session (\<open>login.user_loader(User.get)\<close>), and two things no sequence of requests breaks: the
  rows stay well formed, and a request of someone who is not a global administrator touches
  nothing outside the domains that person manages and the person's own rows.
\<close>

section \<open>Requests\<close>

datatype page_op =
    DomainCreate "domain_form option" | DomainEdit string "domain_form option" | DomainRemove bool string
  | AltCreate string "string option" | AltRemove bool string
  | RelayCreate "relay_form option" | RelayEdit string "relay_form option" | RelayRemove bool string
  | ManagerCreate string "string list option" | ManagerRemove bool string string
  | AccessCreate string access_request | AccessRemove bool string nat
  | AdminCreate "string list option" | AdminRemove bool string
  | UserCreate string string int string "user_form option" | UserEdit string "user_form option"
  | UserReply "string option" "reply_form option"
  | AliasCreate string "alias_form option" | AliasEdit string "alias_form option" | AliasRemove bool string
  | AnonCreate "draw list" "anon_form option" | AnonRemove bool string | AnonSwitch bool bool string
  | TokenCreate string "string option" "token_form option" | TokenRemove bool "nat option"
  | GrantRevoke bool string | GrantReauthenticate int bool string

fun page :: "'s page_env \<Rightarrow> user option \<Rightarrow> page_op \<Rightarrow> 's page" where
  "page e u (DomainCreate f) = domain_create_page e u f"
| "page e u (DomainEdit n f) = domain_edit_page e u n f"
| "page e u (DomainRemove ok n) = domain_delete_page e u ok n"
| "page e u (AltCreate n f) = alternative_create_page e u n f"
| "page e u (AltRemove ok n) = alternative_delete_page e u ok n"
| "page e u (RelayCreate f) = relay_create_page e u f"
| "page e u (RelayEdit n f) = relay_edit_page e u n f"
| "page e u (RelayRemove ok n) = relay_delete_page e u ok n"
| "page e u (ManagerCreate n f) = manager_create_page e u n f"
| "page e u (ManagerRemove ok n a) = manager_delete_page e u ok n a"
| "page e u (AccessCreate n r) = access_create_page e u n r"
| "page e u (AccessRemove ok n i) = access_delete_page e u ok n i"
| "page e u (AdminCreate f) = admin_create_page e u f"
| "page e u (AdminRemove ok a) = admin_delete_page e u ok a"
| "page e u (UserCreate secret raw now n f) = user_create_page e u secret raw now n f"
| "page e u (UserEdit a f) = user_edit_page e u a f"
| "page e u (UserReply a f) = user_reply_page e u a f"
| "page e u (AliasCreate n f) = alias_create_page e u n f"
| "page e u (AliasEdit a f) = alias_edit_page e u a f"
| "page e u (AliasRemove ok a) = alias_delete_page e u ok a"
| "page e u (AnonCreate draws f) = anonalias_create_page e u draws f"
| "page e u (AnonRemove ok a) = anonalias_delete_page e u ok a"
| "page e u (AnonSwitch off ok a) = anonalias_switch_page e u off ok a"
| "page e u (TokenCreate fresh a f) = token_create_page e u fresh a f"
| "page e u (TokenRemove ok t) = token_delete_page e u ok t"
| "page e u (GrantRevoke ok g) = oauth2_token_revoke_page e u ok g"
| "page e u (GrantReauthenticate now ok g) = oauth2_token_reauthenticate_page e u now ok g"

text \<open>The session holds the address of the signed-in user.\<close>

definition signed_in :: "'s page_env \<Rightarrow> db \<Rightarrow> string option \<Rightarrow> user option outcome" where
  "signed_in e d who = (case who of None \<Rightarrow> Ret None | Some w \<Rightarrow> get_user (pe_enc e) d w)"

definition page_request :: "'s page_env \<Rightarrow> string option \<Rightarrow> page_op \<Rightarrow> 's page" where
  "page_request e who op s =
     (case signed_in e (ap_db s) who of Exn x \<Rightarrow> (Failed, s) | Ret u \<Rightarrow> page e u op s)"

text \<open>The read-only field for the name of a domain comes back as it was shown.\<close>

fun name_kept :: "'s page_env \<Rightarrow> page_op \<Rightarrow> bool" where
  "name_kept e (DomainEdit n (Some f)) = (stored_domain (pe_api e) (fd_name f) = stored_domain (pe_api e) n)"
| "name_kept e _ = True"

section \<open>Outside the reach of an actor\<close>

definition reach :: "db \<Rightarrow> user \<Rightarrow> user \<Rightarrow> bool" where
  "reach d actor v \<longleftrightarrow>
     email v = email actor \<or> user_domain v \<in> set (managed_domains d actor) \<and> can_manage_user d actor v"

definition foreign :: "'s page_env \<Rightarrow> db \<Rightarrow> user \<Rightarrow> string \<Rightarrow> bool" where
  "foreign e d actor who \<longleftrightarrow>
     (\<forall>v\<in>set (users d). bind_email (pe_enc e) (email v) = bind_email (pe_enc e) who \<longrightarrow> \<not> reach d actor v)"

text \<open>What someone without global rights must find unchanged.\<close>

definition untouched :: "'s page_env \<Rightarrow> user \<Rightarrow> db \<Rightarrow> db \<Rightarrow> bool" where
  "untouched e actor d d' \<longleftrightarrow>
     (let away = (\<lambda>n. n \<notin> set (managed_domains d actor)) in
       relays d' = relays d \<and> alternatives d' = alternatives d \<and> passkeys d' = passkeys d \<and> codes d' = codes d
     \<and> map (domain_policy_update (\<lambda>_. default_policy)) (domains d') = map (domain_policy_update (\<lambda>_. default_policy)) (domains d)
     \<and> filter (\<lambda>r. away (domain_name r)) (domains d') = filter (\<lambda>r. away (domain_name r)) (domains d)
     \<and> filter (\<lambda>v. \<not> reach d actor v) (users d') = filter (\<lambda>v. \<not> reach d actor v) (users d)
     \<and> (\<forall>v\<in>set (users d'). global_admin v \<longrightarrow> v \<in> set (users d) \<or> (\<exists>w\<in>set (users d). global_admin w \<and> email w = email v))
     \<and> filter (\<lambda>a. away (alias_domain a) \<and> owner_email a \<noteq> Some (email actor)) (aliases d')
       = filter (\<lambda>a. away (alias_domain a) \<and> owner_email a \<noteq> Some (email actor)) (aliases d)
     \<and> filter (\<lambda>m. away (fst m)) (managers d') = filter (\<lambda>m. away (fst m)) (managers d)
     \<and> filter (\<lambda>a. away (access_domain a)) (accesses d') = filter (\<lambda>a. away (access_domain a)) (accesses d)
     \<and> filter (\<lambda>t. foreign e d actor (token_user t)) (tokens d') = filter (\<lambda>t. foreign e d actor (token_user t)) (tokens d)
     \<and> filter (\<lambda>g. foreign e d actor (grant_user g)) (grants d') = filter (\<lambda>g. foreign e d actor (grant_user g)) (grants d))"

text \<open>The two things at once, for the request of someone: \<open>d'\<close> may follow \<open>d\<close>.\<close>

definition may_follow :: "'s page_env \<Rightarrow> user option \<Rightarrow> db \<Rightarrow> db \<Rightarrow> bool" where
  "may_follow e current d d' \<longleftrightarrow>
     rows_ok (pe_api e) d' \<and> (\<forall>u. current = Some u \<and> \<not> global_admin u \<longrightarrow> untouched e u d d')"

section \<open>What a page does to the state\<close>

definition fares :: "'s page_env \<Rightarrow> (db \<Rightarrow> bool) \<Rightarrow> 's api_state \<Rightarrow> page_answer \<times> 's api_state \<Rightarrow> bool" where
  "fares e P s r \<longleftrightarrow> ap_db (snd r) = ap_db s
     \<or> P (ap_db (snd r)) \<and> keys_unique (pe_enc e) (ap_db (snd r)) \<and> integers_fit (ap_db (snd r))"

named_theorems page_rules

lemma fares_same [simp, page_rules]: "fares e P s (a, s)"
  by (simp add: fares_def)

lemma fares_save [page_rules]: "P d' \<Longrightarrow> fares e P s (save e s d')"
  by (auto simp: fares_def save_def commit_def)

lemma fares_guarded [page_rules]:
  "(\<And>u g. \<lbrakk>current = Some u; guard = Ret g; g u\<rbrakk> \<Longrightarrow> fares e P s (pg u s)) \<Longrightarrow> fares e P s (guarded current guard pg s)"
  by (auto simp: guarded_def permissions_wrapper_def split: option.splits outcome.splits)

lemma fares_confirmed [page_rules]: "fares e P s (pg s) \<Longrightarrow> fares e P s (confirmed ok pg s)"
  by (simp add: confirmed_def confirmation_required_def)

lemma fares_found [page_rules]:
  "(\<And>v. r = Ret (Some v) \<Longrightarrow> fares e P s (pg v s)) \<Longrightarrow> fares e P s (found r pg s)"
  by (auto simp: found_def split: option.splits outcome.splits)

lemma fares_if [page_rules]:
  "\<lbrakk>c \<Longrightarrow> fares e P s a; \<not> c \<Longrightarrow> fares e P s b\<rbrakk> \<Longrightarrow> fares e P s (if c then a else b)"
  by simp

lemma fares_option [page_rules]:
  "\<lbrakk>x = None \<Longrightarrow> fares e P s a; \<And>v. x = Some v \<Longrightarrow> fares e P s (b v)\<rbrakk>
   \<Longrightarrow> fares e P s (case x of None \<Rightarrow> a | Some v \<Rightarrow> b v)"
  by (cases x) simp_all

lemma fares_outcome [page_rules]:
  "\<lbrakk>\<And>z. x = Exn z \<Longrightarrow> fares e P s (a z); \<And>v. x = Ret v \<Longrightarrow> fares e P s (b v)\<rbrakk>
   \<Longrightarrow> fares e P s (case x of Ret v \<Rightarrow> b v | Exn z \<Rightarrow> a z)"
  by (cases x) simp_all

lemma fares_pair [page_rules]:
  "(\<And>a b. x = (a, b) \<Longrightarrow> fares e P s (f a b)) \<Longrightarrow> fares e P s (case x of (a, b) \<Rightarrow> f a b)"
  by (cases x) simp

lemma fares_picked [page_rules]:
  "(\<And>us picked vs. \<lbrakk>eligible e (ap_db s) actor p = Ret (Inr us); selected_users e us vs = Ret (Some picked)\<rbrakk>
      \<Longrightarrow> fares e P s (pg picked s)) \<Longrightarrow> fares e P s (with_picked e p form actor pg s)"
  by (auto simp: with_picked_def split: option.splits outcome.splits sum.splits)

lemma guard_domain_allows:
  "\<lbrakk>guard_domain e d n = Ret g; g u; get_domain (pe_enc e) d n = Ret (Some dm)\<rbrakk>
   \<Longrightarrow> domain_name dm \<in> set (managed_domains d u)"
  by (auto simp: guard_domain_def domain_admin_def split: if_splits)

lemma guard_user_allows:
  "\<lbrakk>guard_user e d n = Ret g; g u; get_user (pe_enc e) d n = Ret (Some v)\<rbrakk> \<Longrightarrow> reach d u v"
  by (auto simp: guard_user_def domain_admin_def reach_def split: if_splits)

lemma guard_alias_allows:
  "\<lbrakk>guard_alias e d n = Ret g; g u; get_alias (pe_enc e) d n = Ret (Some a)\<rbrakk>
   \<Longrightarrow> alias_domain a \<in> set (managed_domains d u)"
  by (auto simp: guard_alias_def domain_admin_def split: if_splits)

lemma guard_owner_allows:
  assumes "guard_owner e d adr = Ret g" "g u" "get_user (pe_enc e) d (case adr of Some a \<Rightarrow> a | None \<Rightarrow> email u) = Ret (Some v)"
    and "u \<in> set (users d)" "distinct (map (bind_email (pe_enc e)) (map email (users d)))"
  shows "reach d u v"
proof (cases adr)
  case None
  then have "v \<in> set (users d)" "bind_email (pe_enc e) (email v) = bind_email (pe_enc e) (email u)"
    using assms(3) get_user_SomeD by auto
  then have "v = u" using assms(4,5) by (fastforce simp: distinct_map inj_on_def)
  then show ?thesis by (simp add: reach_def)
next
  case (Some a)
  then show ?thesis using assms(1-3) by (auto simp: guard_owner_def owner_def reach_def Let_def split: if_splits)
qed

lemma guard_row_allows:
  assumes "guard_row e d (Some who) = Ret g" "g u"
  shows "\<exists>v\<in>set (users d). bind_email (pe_enc e) (email v) = bind_email (pe_enc e) who \<and> reach d u v"
proof -
  obtain v where "get_user (pe_enc e) d who = Ret (Some v)" "g = owner d False (Some (Other_row (user_domain v) v))"
    using assms(1) by (auto simp: guard_row_def split: option.splits)
  then show ?thesis
    using assms(2) get_user_SomeD [of "pe_enc e" d who v]
    by (intro bexI [of _ v]) (auto simp: owner_def Let_def reach_def split: if_splits)
qed

lemma untouched_refl [simp]: "untouched e u d d"
  by (simp add: untouched_def Let_def)

lemma selected_picked: "selected_users e us vs = Ret (Some picked) \<Longrightarrow> set picked \<subseteq> set us"
  by (auto simp: selected_users_def Let_def split: if_splits)

lemma eligible_users: "eligible e d u p = Ret (Inr us) \<Longrightarrow> set us \<subseteq> set (users d)"
  by (auto simp: eligible_def split: purpose.splits option.splits if_splits)

lemma get_domain_mem: "get_domain enc d n = Ret (Some r) \<Longrightarrow> r \<in> set (domains d)"
  by (auto simp: get_domain_def find_Some_iff split: option.splits)

lemma may_follow_admin: "\<lbrakk>rows_ok (pe_api e) d'; global_admin u\<rbrakk> \<Longrightarrow> may_follow e (Some u) d d'"
  by (simp add: may_follow_def)

section \<open>Managers and access\<close>

lemma manager_pages_fare:
  assumes "rows_ok (pe_api e) (ap_db s)"
  shows "fares e (may_follow e current (ap_db s)) s (manager_create_page e current n f s)"
    "fares e (may_follow e current (ap_db s)) s (manager_delete_page e current ok n a s)"
proof -
  let ?d = "ap_db s"
  have old: "\<forall>m\<in>set (managers ?d). fst m \<in> domain_name ` set (domains ?d) \<and> snd m \<in> email ` set (users ?d)"
    using assms by (simp add: rows_defs)
  show "fares e (may_follow e current ?d) s (manager_create_page e current n f s)"
    unfolding manager_create_page_def
  proof (intro page_rules)
    fix u g dm us picked vs
    assume g: "current = Some u" "guard_domain e ?d n = Ret g" "g u" "get_domain (pe_enc e) ?d n = Ret (Some dm)"
      and p: "eligible e ?d u (Managers (domain_name dm)) = Ret (Inr us)" "selected_users e us vs = Ret (Some picked)"
    let ?new = "map (\<lambda>x. (domain_name dm, email x)) (filter (\<lambda>x. (domain_name dm, email x) \<notin> set (managers ?d)) picked)"
    have "domain_name dm \<in> domain_name ` set (domains ?d)" using get_domain_mem [OF g(4)] by simp
    then have "rows_ok (pe_api e) (?d\<lparr>managers := managers ?d @ ?new\<rparr>)"
      using old selected_picked [OF p(2)] eligible_users [OF p(1)] by (intro rows_managers [OF assms]) auto
    moreover have "untouched e u ?d (?d\<lparr>managers := managers ?d @ ?new\<rparr>)"
      using guard_domain_allows [OF g(2-4)] by (simp add: untouched_def Let_def filter_empty_conv)
    ultimately show "may_follow e current ?d (?d\<lparr>managers := managers ?d @ ?new\<rparr>)" using g(1) by (simp add: may_follow_def)
  qed
  show "fares e (may_follow e current ?d) s (manager_delete_page e current ok n a s)"
    unfolding manager_delete_page_def
  proof (intro page_rules)
    fix u g dm x
    assume g: "current = Some u" "guard_domain e ?d n = Ret g" "g u" "get_domain (pe_enc e) ?d n = Ret (Some dm)"
    let ?ms = "filter (\<lambda>m. m \<noteq> (domain_name dm, email x)) (managers ?d)"
    have "rows_ok (pe_api e) (?d\<lparr>managers := ?ms\<rparr>)" using old by (intro rows_managers [OF assms]) auto
    moreover have "filter (\<lambda>m. fst m \<notin> set (managed_domains ?d u)) ?ms = filter (\<lambda>m. fst m \<notin> set (managed_domains ?d u)) (managers ?d)"
      using guard_domain_allows [OF g(2-4)] by (auto intro: filter_cong)
    then have "untouched e u ?d (?d\<lparr>managers := ?ms\<rparr>)" by (simp add: untouched_def Let_def)
    ultimately show "may_follow e current ?d (?d\<lparr>managers := ?ms\<rparr>)" using g(1) by (simp add: may_follow_def)
  qed
qed

lemma rows_accesses:
  "\<lbrakk>rows_ok e d; \<forall>a\<in>set xs. access_domain a \<in> domain_name ` set (domains d)
       \<and> set_option (access_user a) \<subseteq> email ` set (users d)\<rbrakk> \<Longrightarrow> rows_ok e (d\<lparr>accesses := xs\<rparr>)"
  by (simp add: rows_defs)

lemma grant_access_frame [simp]:
  "users (grant_access n u d) = users d" "domains (grant_access n u d) = domains d"
  "managers (grant_access n u d) = managers d"
  by (simp_all add: grant_access_def)

lemma grants_access:
  assumes "rows_ok e d" "n \<in> domain_name ` set (domains d)" "email ` set us \<subseteq> email ` set (users d)"
  shows "\<exists>xs. fold (grant_access n) us d = d\<lparr>accesses := accesses d @ xs\<rparr> \<and> (\<forall>a\<in>set xs. access_domain a = n)
    \<and> rows_ok e (fold (grant_access n) us d)"
  using assms
proof (induction us arbitrary: d)
  case (Cons u us)
  have "rows_ok e (grant_access n u d)"
    unfolding grant_access_def using Cons.prems by (intro rows_accesses) (auto simp: rows_defs)
  with Cons.IH [of "grant_access n u d"] Cons.prems obtain xs where
    "fold (grant_access n) us (grant_access n u d) = (grant_access n u d)\<lparr>accesses := accesses (grant_access n u d) @ xs\<rparr>"
    "\<forall>a\<in>set xs. access_domain a = n" "rows_ok e (fold (grant_access n) us (grant_access n u d))" by auto
  then show ?case
    by (intro exI [of _ "\<lparr>access_id = next_access d, access_domain = n, access_user = Some (email u)\<rparr> # xs"])
      (simp add: grant_access_def [of n u])
qed (intro exI [of _ "[]"]; simp)

lemma access_granted_follows:
  assumes "rows_ok (pe_api e) d" "current = Some u" "domain_name dm \<in> set (managed_domains d u)" "dm \<in> set (domains d)"
    "email ` set us \<subseteq> email ` set (users d)"
  shows "may_follow e current d (fold (grant_access (domain_name dm)) us d)"
proof -
  obtain xs where x: "fold (grant_access (domain_name dm)) us d = d\<lparr>accesses := accesses d @ xs\<rparr>"
    "\<forall>a\<in>set xs. access_domain a = domain_name dm" "rows_ok (pe_api e) (fold (grant_access (domain_name dm)) us d)"
    using grants_access [OF assms(1) _ assms(5), of "domain_name dm"] assms(4) by auto
  have "untouched e u d (d\<lparr>accesses := accesses d @ xs\<rparr>)"
    using x(2) assms(3) by (auto simp: untouched_def Let_def filter_empty_conv)
  then show ?thesis using x(1,3) assms(2) by (simp add: may_follow_def)
qed

lemma fares_answer: "fares e P s r \<Longrightarrow> fares e P s (case r of (a, s') \<Rightarrow> (f a, s'))"
  by (cases r) (simp add: fares_def)

lemma access_pages_fare:
  assumes "rows_ok (pe_api e) (ap_db s)"
  shows "fares e (may_follow e current (ap_db s)) s (access_create_page e current n r s)"
    "fares e (may_follow e current (ap_db s)) s (access_delete_page e current ok n i s)"
proof -
  let ?d = "ap_db s"
  show "fares e (may_follow e current ?d) s (access_create_page e current n r s)"
    unfolding access_create_page_def
  proof (intro fares_guarded fares_found)
    fix u g dm
    assume g: "current = Some u" "guard_domain e ?d n = Ret g" "g u" "get_domain (pe_enc e) ?d n = Ret (Some dm)"
    note follows = access_granted_follows [OF assms g(1) guard_domain_allows [OF g(2-4)] get_domain_mem [OF g(4)]]
    show "fares e (may_follow e current ?d) s (case r of
        Json_body mail \<Rightarrow> if mail \<in> {None, Some []} then (Status 400, s)
          else found (get_user (pe_enc e) ?d (the mail)) (\<lambda>x s. if has_grant (ap_db s) (domain_name dm) x then (Status 409, s)
               else (case save e s (grant_access (domain_name dm) x (ap_db s)) of
                 (a, s') \<Rightarrow> (if a = Redirected then Status 201 else a, s'))) s
      | Form_body form \<Rightarrow> with_picked e (Anonmail (domain_name dm)) form u (\<lambda>picked s.
               save e s (fold (grant_access (domain_name dm))
                 (filter (\<lambda>x. \<not> has_grant (ap_db s) (domain_name dm) x) picked) (ap_db s))) s)"
    proof (cases r)
      case (Json_body mail)
      have "fares e (may_follow e current ?d) s (save e s (grant_access (domain_name dm) x ?d))"
        if "get_user (pe_enc e) ?d (the mail) = Ret (Some x)" for x
        using follows [of "[x]"] get_user_row [OF that] by (intro fares_save) simp
      then have "fares e (may_follow e current ?d) s (found (get_user (pe_enc e) ?d (the mail)) (\<lambda>x s.
          if has_grant (ap_db s) (domain_name dm) x then (Status 409, s)
          else (case save e s (grant_access (domain_name dm) x (ap_db s)) of
            (a, s') \<Rightarrow> (if a = Redirected then Status 201 else a, s'))) s)"
        by (intro fares_found) (simp add: fares_answer)
      then show ?thesis using Json_body by simp
    next
      case (Form_body form)
      have "fares e (may_follow e current ?d) s (with_picked e (Anonmail (domain_name dm)) form u (\<lambda>picked s.
               save e s (fold (grant_access (domain_name dm))
                 (filter (\<lambda>x. \<not> has_grant (ap_db s) (domain_name dm) x) picked) (ap_db s))) s)"
      proof (intro fares_picked fares_save follows)
        fix us picked vs
        assume "eligible e ?d u (Anonmail (domain_name dm)) = Ret (Inr us)" "selected_users e us vs = Ret (Some picked)"
        then show "email ` set (filter (\<lambda>x. \<not> has_grant ?d (domain_name dm) x) picked) \<subseteq> email ` set (users ?d)"
          using eligible_users selected_picked by fastforce
      qed
      then show ?thesis using Form_body by simp
    qed
  qed
  show "fares e (may_follow e current ?d) s (access_delete_page e current ok n i s)"
    unfolding access_delete_page_def
  proof (intro fares_guarded fares_confirmed fares_found)
    fix u g dm a
    assume g: "current = Some u" "guard_domain e ?d n = Ret g" "g u" "get_domain (pe_enc e) ?d n = Ret (Some dm)"
    let ?xs = "filter (\<lambda>x. x \<noteq> a) (accesses ?d)"
    have "rows_ok (pe_api e) (?d\<lparr>accesses := ?xs\<rparr>)" using assms by (intro rows_accesses) (auto simp: rows_defs)
    moreover have "filter (\<lambda>x. access_domain x \<notin> set (managed_domains ?d u)) ?xs
        = filter (\<lambda>x. access_domain x \<notin> set (managed_domains ?d u)) (accesses ?d)" if "access_domain a = domain_name dm"
      using guard_domain_allows [OF g(2-4)] that by (auto intro: filter_cong)
    then have "untouched e u ?d (?d\<lparr>accesses := ?xs\<rparr>)" if "access_domain a = domain_name dm"
      using that by (simp add: untouched_def Let_def)
    ultimately show "fares e (may_follow e current ?d) s (if access_domain a \<noteq> domain_name dm then (Status 403, s)
        else save e s (?d\<lparr>accesses := ?xs\<rparr>))"
      using g(1) by (auto simp: may_follow_def intro: fares_save)
  qed
qed

section \<open>Pages of global administrators\<close>

lemma rows_users_mapped:
  assumes "rows_ok e d" "\<And>u. email (f u) = email u" "\<And>u. localpart (f u) = localpart u" "\<And>u. user_domain (f u) = user_domain u"
  shows "rows_ok e (d\<lparr>users := map f (users d)\<rparr>)"
proof -
  have "email ` f ` set (users d) = email ` set (users d)" using assms(2) by (simp add: image_image)
  then show ?thesis using assms by (simp add: rows_defs)
qed

lemma set_admin_rows: "rows_ok e d \<Longrightarrow> rows_ok e (set_admin b who d)"
  unfolding set_admin_def by (rule rows_users_mapped) simp_all

lemma fares_admin:
  assumes "\<And>u. \<lbrakk>current = Some u; global_admin u\<rbrakk> \<Longrightarrow> fares e (may_follow e current (ap_db s)) s (pg u s)"
  shows "fares e (may_follow e current (ap_db s)) s (guarded current (Ret global_admin_only) pg s)"
  using assms by (intro fares_guarded) (auto simp: global_admin_only_def)

lemma fares_admin_save:
  "\<lbrakk>current = Some u; global_admin u; rows_ok (pe_api e) d'\<rbrakk> \<Longrightarrow> fares e (may_follow e current (ap_db s)) s (save e s d')"
  by (simp add: fares_save may_follow_admin)

lemma admin_pages_fare:
  assumes "rows_ok (pe_api e) (ap_db s)"
  shows "fares e (may_follow e current (ap_db s)) s (admin_create_page e current f s)"
    "fares e (may_follow e current (ap_db s)) s (admin_delete_page e current ok a s)"
  unfolding admin_create_page_def admin_delete_page_def
  by (intro fares_admin fares_confirmed fares_picked fares_admin_save set_admin_rows assms; assumption)
     (intro fares_admin fares_confirmed;
      use assms in \<open>auto intro!: fares_admin_save set_admin_rows split: outcome.splits option.splits\<close>)

lemma rows_relay_added:
  "\<lbrakk>idna_ok e; rows_ok e d; stored_domain e n = Some m\<rbrakk>
   \<Longrightarrow> rows_ok e (d\<lparr>relays := relays d @ [\<lparr>relay_name = m, relay_smtp = v, relay_comment = c\<rparr>]\<rparr>)"
  using stored_canonical [of e n m] by (intro rows_relays) (auto simp: rows_defs)

lemma rows_alternative_added:
  "\<lbrakk>idna_ok e; rows_ok e d; stored_domain e n = Some m; dm \<in> set (domains d)\<rbrakk>
   \<Longrightarrow> rows_ok e (d\<lparr>alternatives := alternatives d @ [\<lparr>alt_name = m, alt_domain = domain_name dm\<rparr>]\<rparr>)"
  using stored_canonical [of e n m] by (intro rows_alternatives) (auto simp: rows_defs)

lemma relay_pages_fare:
  assumes "idna_ok (pe_api e)" "rows_ok (pe_api e) (ap_db s)"
  shows "fares e (may_follow e current (ap_db s)) s (relay_create_page e current f s)"
    "fares e (may_follow e current (ap_db s)) s (relay_edit_page e current n f s)"
    "fares e (may_follow e current (ap_db s)) s (relay_delete_page e current ok n s)"
proof -
  let ?d = "ap_db s"
  have old: "\<forall>r\<in>set (relays ?d). canonical (pe_api e) (relay_name r)" using assms(2) by (simp add: rows_defs)
  show "fares e (may_follow e current ?d) s (relay_create_page e current f s)"
    unfolding relay_create_page_def
    by (intro fares_admin) (auto intro!: fares_admin_save rows_relay_added [OF assms] split: option.splits outcome.splits)
  show "fares e (may_follow e current ?d) s (relay_edit_page e current n f s)"
    unfolding relay_edit_page_def
    using old by (intro fares_admin fares_found)
      (auto intro!: fares_admin_save rows_relays [OF assms(2)] split: option.splits
        simp: get_relay_def find_Some_iff)
  show "fares e (may_follow e current ?d) s (relay_delete_page e current ok n s)"
    unfolding relay_delete_page_def
    using old by (intro fares_admin fares_confirmed fares_found fares_admin_save rows_relays [OF assms(2)]) auto
qed

lemma alternative_pages_fare:
  assumes "idna_ok (pe_api e)" "rows_ok (pe_api e) (ap_db s)"
  shows "fares e (may_follow e current (ap_db s)) s (alternative_create_page e current n f s)"
    "fares e (may_follow e current (ap_db s)) s (alternative_delete_page e current ok n s)"
proof -
  let ?d = "ap_db s"
  have old: "\<forall>a\<in>set (alternatives ?d). canonical (pe_api e) (alt_name a) \<and> alt_domain a \<in> domain_name ` set (domains ?d)"
    using assms(2) by (simp add: rows_defs)
  show "fares e (may_follow e current ?d) s (alternative_create_page e current n f s)"
    unfolding alternative_create_page_def
    by (intro fares_admin fares_found)
      (auto intro!: fares_admin_save rows_alternative_added [OF assms] get_domain_mem split: option.splits outcome.splits)
  show "fares e (may_follow e current ?d) s (alternative_delete_page e current ok n s)"
    unfolding alternative_delete_page_def
    using old by (intro fares_admin fares_confirmed fares_found fares_admin_save rows_alternatives [OF assms(2)]) auto
qed

lemma forms_range:
  "\<lbrakk>forms_ok L; fl_range L lo hi i\<rbrakk> \<Longrightarrow> (\<forall>l\<in>set_option lo. l \<le> i) \<and> (\<forall>h\<in>set_option hi. i \<le> h)"
  by (simp add: forms_ok_def)

lemma policy_form_policy: "\<lbrakk>forms_ok L; policy_form_ok L p\<rbrakk> \<Longrightarrow> policy_ok p"
  by (simp add: forms_ok_def policy_form_ok_def policy_ok_def)

lemma domain_form_row:
  assumes "forms_ok L" "domain_form_ok L new lim f"
  shows "policy_ok (fd_policy f) \<and> -1 \<le> fd_max_users f \<and> -1 \<le> fd_max_aliases f \<and> 0 \<le> fd_max_quota f"
  using assms(2) policy_form_policy [OF assms(1)] forms_range [OF assms(1), of "Some (- 1)" None]
    forms_range [OF assms(1), of "Some 0" "Some lim" "fd_max_quota f"]
  by (simp add: domain_form_ok_def)

lemma populate_simps [simp]:
  "domain_name (populate_domain f n) = n" "domain_policy (populate_domain f n) = fd_policy f"
  "max_users (populate_domain f n) = fd_max_users f" "max_aliases (populate_domain f n) = fd_max_aliases f"
  "max_quota_bytes (populate_domain f n) = fd_max_quota f"
  by (simp_all add: populate_domain_def)

lemma domain_row_values:
  "\<lbrakk>rows_ok e d; dm \<in> set (domains d)\<rbrakk> \<Longrightarrow> canonical e (domain_name dm) \<and> policy_ok (domain_policy dm)
     \<and> -1 \<le> max_users dm \<and> -1 \<le> max_aliases dm \<and> 0 \<le> max_quota_bytes dm"
  by (simp add: rows_defs)

lemma put_domain_untouched:
  assumes "dm \<in> set (domains d)" "distinct (map domain_name (domains d))" "domain_name dm \<in> set (managed_domains d u)"
  shows "untouched e u d (put_domain (dm\<lparr>domain_policy := p\<rparr>) d)"
proof -
  let ?new = "map (\<lambda>r. if domain_name r = domain_name dm then dm\<lparr>domain_policy := p\<rparr> else r) (domains d)"
  have same: "r = dm" if "r \<in> set (domains d)" "domain_name r = domain_name dm" for r
    using assms(1,2) that by (auto simp: distinct_map inj_on_def)
  have "map (domain_policy_update (\<lambda>_. default_policy)) ?new = map (domain_policy_update (\<lambda>_. default_policy)) (domains d)"
    using same by auto
  moreover have "filter (\<lambda>r. domain_name r \<notin> set (managed_domains d u)) (map (\<lambda>r. if domain_name r = domain_name dm
        then dm\<lparr>domain_policy := p\<rparr> else r) rs) = filter (\<lambda>r. domain_name r \<notin> set (managed_domains d u)) rs" for rs
    using assms(3) by (induction rs) auto
  ultimately show ?thesis by (simp add: untouched_def Let_def put_domain_def)
qed

lemma keys_names: "\<lbrakk>rows_ok e d; keys_unique (ap_enc e) d\<rbrakk> \<Longrightarrow> distinct (map domain_name (domains d))"
  by (simp add: keys_unique_def distinct_map inj_on_def)

lemma domain_pages_fare:
  assumes "idna_ok (pe_api e)" "forms_ok (pe_forms e)" "rows_ok (pe_api e) (ap_db s)" "keys_unique (pe_enc e) (ap_db s)"
  shows "fares e (may_follow e current (ap_db s)) s (domain_create_page e current f s)"
    "name_kept e (DomainEdit n f) \<or> (\<forall>u\<in>set_option current. \<not> global_admin u)
     \<Longrightarrow> fares e (may_follow e current (ap_db s)) s (domain_edit_page e current n f s)"
    "fares e (may_follow e current (ap_db s)) s (domain_delete_page e current ok n s)"
proof -
  let ?d = "ap_db s"
  show "fares e (may_follow e current ?d) s (domain_create_page e current f s)"
    unfolding domain_create_page_def
    using domain_form_row [OF assms(2)] stored_canonical [OF assms(1)]
    by (intro fares_admin)
      (auto intro!: fares_admin_save rows_domain_added [OF assms(3)] split: option.splits outcome.splits)
  show "fares e (may_follow e current ?d) s (domain_delete_page e current ok n s)"
    unfolding domain_delete_page_def
  proof (intro fares_admin fares_confirmed fares_found)
    fix u dm
    assume "current = Some u" "global_admin u"
    then have "fares e (may_follow e current ?d) s (save e s (delete_domain_rows (domain_name dm) ?d))"
      by (intro fares_admin_save rows_domain_deleted assms(3))
    then show "fares e (may_follow e current ?d) s (case save e s (delete_domain_rows (domain_name dm) ?d) of
        (a, s') \<Rightarrow> (a, if a = Failed then s' else s'\<lparr>ap_keys := filter (\<lambda>k. key_domain k \<noteq> domain_name dm) (ap_keys s')\<rparr>))"
      by (auto simp: fares_def split: prod.splits)
  qed
  assume kept: "name_kept e (DomainEdit n f) \<or> (\<forall>u\<in>set_option current. \<not> global_admin u)"
  show "fares e (may_follow e current ?d) s (domain_edit_page e current n f s)"
    unfolding domain_edit_page_def
  proof (intro fares_guarded fares_found)
    fix u g dm
    assume g: "current = Some u" "guard_domain e ?d n = Ret g" "g u" "get_domain (pe_enc e) ?d n = Ret (Some dm)"
    have m: "dm \<in> set (domains ?d)" "stored_domain (pe_api e) n = Some (domain_name dm)"
      using get_domain_row [OF _ g(4) [unfolded pe_enc_def]] assms(3) by (auto simp: rows_ok_def)
    note v = domain_row_values [OF assms(3) m(1)]
    have "replace_domain (domain_name dm) (populate_domain x (domain_name dm)) ?d = put_domain (populate_domain x (domain_name dm)) ?d" for x
      by (simp add: replace_domain_def put_domain_def)
    then have a: "may_follow e current ?d (replace_domain (domain_name dm) (populate_domain x k) ?d)"
      if "global_admin u" "f = Some x" "domain_form_ok (pe_forms e) False lim x" "stored_domain (pe_api e) (fd_name x) = Some k" for x lim k
      using kept that(1,2,4) g(1) m(2) domain_form_row [OF assms(2) that(3)] v
      by (auto intro!: may_follow_admin rows_domain_put [OF assms(3)])
    have b: "may_follow e current ?d (put_domain (dm\<lparr>domain_policy := fd_policy x\<rparr>) ?d)"
      if "policy_form_ok (pe_forms e) (fd_policy x)" for x
      using g(1) v policy_form_policy [OF assms(2) that]
        put_domain_untouched [OF m(1) keys_names [OF assms(3) assms(4) [unfolded pe_enc_def]] guard_domain_allows [OF g(2-4)]]
      by (auto simp: may_follow_def intro!: rows_domain_put [OF assms(3)])
    show "fares e (may_follow e current ?d) s (case f of None \<Rightarrow> (Rendered, s)
       | Some f \<Rightarrow> if global_admin u then
             (if \<not> domain_form_ok (pe_forms e) False (max MAX_QUOTA_BYTES (max_quota_bytes dm)) f then (Rendered, s)
              else case stored_domain (pe_api e) (fd_name f) of None \<Rightarrow> (Failed, s)
                | Some n \<Rightarrow> save e s (replace_domain (domain_name dm) (populate_domain f n) ?d))
           else if \<not> policy_form_ok (pe_forms e) (fd_policy f) then (Rendered, s)
           else save e s (put_domain (dm\<lparr>domain_policy := fd_policy f\<rparr>) ?d))"
      using a by (auto intro!: fares_save b split: option.splits)
  qed
qed

section \<open>Aliases\<close>

lemma filter_map_hidden:
  "\<lbrakk>\<forall>r\<in>set xs. c r \<longrightarrow> \<not> P r; \<not> P x\<rbrakk> \<Longrightarrow> filter P (map (\<lambda>r. if c r then x else r) xs) = filter P xs"
  by (induction xs) auto

lemma filter_drop_hidden: "\<forall>r\<in>set xs. \<not> c r \<longrightarrow> \<not> P r \<Longrightarrow> filter P (filter c xs) = filter P xs"
  by (induction xs) auto

lemma keys_aliases:
  "\<lbrakk>keys_unique enc d; a \<in> set (aliases d); r \<in> set (aliases d); alias_email r = alias_email a\<rbrakk> \<Longrightarrow> r = a"
  by (auto simp: keys_unique_def distinct_map inj_on_def)

lemma keys_users:
  "\<lbrakk>keys_unique enc d; u \<in> set (users d); r \<in> set (users d); bind_email enc (email r) = bind_email enc (email u)\<rbrakk> \<Longrightarrow> r = u"
  by (fastforce simp: keys_unique_def distinct_map inj_on_def)

text \<open>Aliases someone may change: in a domain of theirs, or owned by them.\<close>

definition own_side :: "db \<Rightarrow> user \<Rightarrow> mail_alias \<Rightarrow> bool" where
  "own_side d u a \<longleftrightarrow> alias_domain a \<in> set (managed_domains d u) \<or> owner_email a = Some (email u)"

lemma untouched_aliases:
  "filter (\<lambda>a. \<not> own_side d u a) xs = filter (\<lambda>a. \<not> own_side d u a) (aliases d) \<Longrightarrow> untouched e u d (d\<lparr>aliases := xs\<rparr>)"
  by (simp add: untouched_def Let_def own_side_def)

lemma alias_put_follows:
  assumes "rows_ok (pe_api e) d" "keys_unique enc d" "current = Some u" "a \<in> set (aliases d)" "own_side d u a"
    "alias_email b = alias_email a" "alias_localpart b = alias_localpart a" "alias_domain b = alias_domain a"
    "owner_email b = owner_email a"
  shows "may_follow e current d (put_alias b d)"
proof -
  have "own_side d u b" using assms(5,8,9) by (simp add: own_side_def)
  then have "untouched e u d (put_alias b d)"
    unfolding put_alias_def
    using keys_aliases [OF assms(2,4)] assms(5,6) by (intro untouched_aliases filter_map_hidden) auto
  then show ?thesis using rows_alias_put [OF assms(1,4,6-9)] assms(3) by (simp add: may_follow_def)
qed

lemma alias_remove_follows:
  assumes "rows_ok (pe_api e) d" "keys_unique enc d" "current = Some u" "a \<in> set (aliases d)" "own_side d u a"
  shows "may_follow e current d (remove_alias a d)"
proof -
  have "untouched e u d (remove_alias a d)"
    unfolding remove_alias_def
    using keys_aliases [OF assms(2,4)] assms(5) by (intro untouched_aliases filter_drop_hidden) auto
  moreover have "rows_ok (pe_api e) (remove_alias a d)"
    unfolding remove_alias_def using assms(1) by (intro rows_aliases) (auto simp: rows_defs)
  ultimately show ?thesis using assms(3) by (simp add: may_follow_def)
qed

lemma alias_add_follows:
  assumes "rows_ok (pe_api e) d" "current = Some u" "own_side d u a" "alias_domain a \<in> domain_name ` set (domains d)"
    "set_option (owner_email a) \<subseteq> email ` set (users d)"
    "address_ok (pe_api e) (alias_email a) (alias_localpart a) (alias_domain a)"
  shows "may_follow e current d (d\<lparr>aliases := aliases d @ [a]\<rparr>)"
proof -
  have "rows_ok (pe_api e) (d\<lparr>aliases := aliases d @ [a]\<rparr>)"
    using assms(1,4-6) by (intro rows_aliases) (auto simp: rows_defs)
  moreover have "untouched e u d (d\<lparr>aliases := aliases d @ [a]\<rparr>)"
    using assms(3) by (intro untouched_aliases) simp
  ultimately show ?thesis using assms(2) by (simp add: may_follow_def)
qed

lemma get_alias_mem: "get_alias enc d n = Ret (Some a) \<Longrightarrow> a \<in> set (aliases d)"
  by (auto simp: get_alias_def find_Some_iff split: option.splits)

lemma alias_pages_fare:
  assumes "rows_ok (pe_api e) (ap_db s)" "keys_unique (pe_enc e) (ap_db s)"
  shows "fares e (may_follow e current (ap_db s)) s (alias_create_page e current n f s)"
    "fares e (may_follow e current (ap_db s)) s (alias_edit_page e current n f s)"
    "fares e (may_follow e current (ap_db s)) s (alias_delete_page e current ok n s)"
proof -
  let ?d = "ap_db s"
  show "fares e (may_follow e current ?d) s (alias_create_page e current n f s)"
    unfolding alias_create_page_def
  proof (intro fares_guarded fares_found)
    fix u g dm
    assume g: "current = Some u" "guard_domain e ?d n = Ret g" "g u" "get_domain (pe_enc e) ?d n = Ret (Some dm)"
    have "may_follow e current ?d (?d\<lparr>aliases := aliases ?d @ [(new_alias lp (domain_name dm) ds)\<lparr>wildcard := w, alias_comment := c\<rparr>]\<rparr>)"
      if "lp = lower x" "is_valid_localpart (ap_valid_address (pe_api e)) lp"
        "bind_email (pe_enc e) (lp @ ''@'' @ domain_name dm) \<noteq> None" for lp x ds w c
    proof -
      have l: "lower lp = lp" "is_valid_localpart (ap_valid_address (pe_api e)) lp" using that(1,2) by simp_all
      from that(3) obtain k where "bind_email (pe_enc e) (lp @ ''@'' @ domain_name dm) = Some k" by auto
      note parts = bind_email_parts [OF this]
      show ?thesis
        using g(1) l guard_domain_allows [OF g(2-4)] get_domain_mem [OF g(4)] parts
        by (intro alias_add_follows [OF assms(1)]) (auto simp: own_side_def address_ok_def)
    qed
    then show "fares e (may_follow e current ?d) s (if max_aliases dm \<noteq> -1 \<and> int (length (domain_aliases ?d dm)) \<ge> max_aliases dm
        then (Redirected, s) else case f of None \<Rightarrow> (Rendered, s)
       | Some f \<Rightarrow> let lp = lower (fa_localpart f) in
             if \<not> alias_form_ok e True f \<or> has_email ?d dm (fa_localpart f) then (Rendered, s)
             else if \<not> is_valid_localpart (ap_valid_address (pe_api e)) lp
                     \<or> bind_email (pe_enc e) (lp @ ''@'' @ domain_name dm) = None then (Failed, s)
             else (case stored_list (fa_destination f) of None \<Rightarrow> (Failed, s)
             | Some ds \<Rightarrow> save e s (?d\<lparr>aliases := aliases ?d
                 @ [(new_alias lp (domain_name dm) ds)\<lparr>wildcard := fa_wildcard f, alias_comment := fa_comment f\<rparr>]\<rparr>)))"
      unfolding Let_def by (simp add: fares_save split: option.splits)
  qed
  show "fares e (may_follow e current ?d) s (alias_edit_page e current n f s)"
    unfolding alias_edit_page_def
  proof (intro page_rules)
    fix u g a x ds
    assume g: "current = Some u" "guard_alias e ?d n = Ret g" "g u" "get_alias (pe_enc e) ?d n = Ret (Some a)"
    show "may_follow e current ?d (put_alias (a\<lparr>wildcard := fa_wildcard x, destination := ds, alias_comment := fa_comment x\<rparr>) ?d)"
      by (rule alias_put_follows [OF assms g(1) get_alias_mem [OF g(4)]]) (simp_all add: own_side_def guard_alias_allows [OF g(2-4)])
  qed
  show "fares e (may_follow e current ?d) s (alias_delete_page e current ok n s)"
    unfolding alias_delete_page_def
    by (intro fares_guarded fares_confirmed fares_found fares_save alias_remove_follows [OF assms])
      (auto simp: own_side_def get_alias_mem guard_alias_allows)
qed

lemma owned_alias:
  assumes "owned e d u n = Ret (Some a)"
  shows "a \<in> set (aliases d) \<and> own_side d u a"
proof -
  obtain r where r: "get_alias (pe_enc e) d n = Ret r" using assms by (auto simp: owned_def)
  then have "r = Some a" "owner_email a = Some (email u)" using assms by (auto simp: owned_def split: option.splits if_splits)
  then show ?thesis using get_alias_mem r by (auto simp: own_side_def)
qed

lemma anonalias_added_follows:
  assumes "forms_ok (pe_forms e)" "rows_ok (pe_api e) d" "current = Some u" "u \<in> set (users d)"
    and "accessible_domains (pe_enc e) d u (domains d) = Ret names" "fl_choice (pe_forms e) names x"
    and "free_localpart (pe_enc e) ci tld hn d x draws = Ret (Some lp)"
    and "stored_email (pe_api e) (lp @ ''@'' @ x) = Some (l, m)" "is_valid_localpart (ap_valid_address (pe_api e)) l"
  shows "may_follow e current d (d\<lparr>aliases := aliases d
    @ [(new_alias l m ds)\<lparr>owner_email := Some (email u), alias_hostname := h, alias_comment := c\<rparr>]\<rparr>)"
proof -
  have nm: "names_ok (pe_api e) d" using assms(2) by (simp add: rows_ok_def)
  have "x \<in> set names" using assms(1,6) by (auto simp: forms_ok_def)
  then have n: "x \<in> domain_name ` set (domains d)" using accessible_open [OF nm assms(5) [unfolded pe_enc_def]] by auto
  have "candidate_free (ap_enc (pe_api e)) ci d lp x = Ret True"
    using free_localpart_free [OF assms(7)] by (simp add: pe_enc_def)
  note a = free_address_ok [OF nm n this assms(8,9)]
  have o: "own_side d u (new_alias l m ds\<lparr>owner_email := Some (email u), alias_hostname := h, alias_comment := c\<rparr>)"
    by (simp add: own_side_def)
  have "m = x" by (rule a [THEN conjunct2, THEN conjunct1])
  with n have dn: "m \<in> domain_name ` set (domains d)" by (simp only:)
  have ad: "address_ok (pe_api e) (l @ ''@'' @ m) l m" by (rule a [THEN conjunct2, THEN conjunct2])
  show ?thesis
    by (rule alias_add_follows [OF assms(2,3) o])
      (use dn ad assms(4) in \<open>simp_all del: append_Cons\<close>)
qed

lemma anonalias_pages_fare:
  assumes "forms_ok (pe_forms e)" "rows_ok (pe_api e) (ap_db s)" "keys_unique (pe_enc e) (ap_db s)"
    "set_option current \<subseteq> set (users (ap_db s))"
  shows "fares e (may_follow e current (ap_db s)) s (anonalias_create_page e current draws f s)"
    "fares e (may_follow e current (ap_db s)) s (anonalias_delete_page e current ok n s)"
    "fares e (may_follow e current (ap_db s)) s (anonalias_switch_page e current off ok n s)"
proof -
  let ?d = "ap_db s"
  show "fares e (may_follow e current ?d) s (anonalias_create_page e current draws f s)"
    unfolding anonalias_create_page_def
  proof (intro page_rules)
    fix u g names x lp w z v l m ds
    assume u: "current = Some u" and a: "accessible_domains (pe_enc e) ?d u (domains ?d) = Ret names"
      and x: "f = Some x" "\<not> (\<not> fl_required (pe_forms e) (fn_domain x) \<or> \<not> fl_choice (pe_forms e) names (fn_domain x))"
      and lp: "free_localpart (pe_enc e) (pe_fold_case e) (pe_tld e) (Some (fn_hostname x)) ?d (fn_domain x)
           (take (pe_retries e) draws) = Ret lp" "lp \<notin> {None, Some []}"
      and st: "(stored_email (pe_api e) (the lp @ ''@'' @ fn_domain x), stored_list [email u]) = (w, z)" "w = Some v" "v = (l, m)"
      and v: "\<not> \<not> is_valid_localpart (ap_valid_address (pe_api e)) l"
    have "lp = Some (the lp)" using lp(2) by (cases lp) auto
    then show "may_follow e current ?d (?d\<lparr>aliases := aliases ?d
        @ [(new_alias l m ds)\<lparr>owner_email := Some (email u), alias_hostname := Some (fn_hostname x),
            alias_comment := (if fn_note x = [] then ''Generated by UI for '' @ email u else fn_note x)\<rparr>]\<rparr>)"
      using anonalias_added_follows [OF assms(1,2) u _ a, of "fn_domain x" _ _ _ _ "the lp" l m]
        lp(1) x(2) st v u assms(4) by simp
  qed
  show "fares e (may_follow e current ?d) s (anonalias_delete_page e current ok n s)"
    unfolding anonalias_delete_page_def
    by (intro fares_guarded fares_confirmed fares_found fares_save alias_remove_follows [OF assms(2,3)])
      (auto dest: owned_alias)
  show "fares e (may_follow e current ?d) s (anonalias_switch_page e current off ok n s)"
    unfolding anonalias_switch_page_def
    by (intro fares_guarded fares_confirmed fares_found fares_save alias_put_follows [OF assms(2,3)])
      (auto dest: owned_alias)
qed

section \<open>Accounts, tokens and grants\<close>

lemma user_put_follows:
  assumes "rows_ok (pe_api e) d" "keys_unique enc d" "current = Some u" "x \<in> set (users d)" "reach d u x"
    "email z = email x" "localpart z = localpart x" "user_domain z = user_domain x" "global_admin z = global_admin x"
  shows "may_follow e current d (put_user z d)"
proof -
  have same: "r = x" if "r \<in> set (users d)" "email r = email z" for r
    using keys_users [OF assms(2,4) that(1)] that(2) assms(6) by simp
  have "managed_domains d z = managed_domains d x \<or> global_admin x" using assms(6,9) by (simp add: managed_domains_def)
  then have z: "reach d u z" using assms(5,6,8,9) by (auto simp: reach_def can_manage_user_def split: if_splits)
  have "filter (\<lambda>v. \<not> reach d u v) (users (put_user z d)) = filter (\<lambda>v. \<not> reach d u v) (users d)"
    unfolding put_user_def using same z assms(5) by (auto intro!: filter_map_hidden)
  moreover have "v \<in> set (users d) \<or> (\<exists>w\<in>set (users d). global_admin w \<and> email w = email v)"
    if "v \<in> set (users (put_user z d))" "global_admin v" for v
    using that assms(4,6,9) by (auto simp: put_user_def)
  moreover have "tokens (put_user z d) = tokens d" by (simp add: put_user_def)
  ultimately have "untouched e u d (put_user z d)" by (simp add: untouched_def Let_def)
  moreover have "rows_ok (pe_api e) (put_user z d)"
    using user_row_ok [OF assms(1,4)] assms(6-8) by (intro rows_user_put [OF assms(1)]) simp_all
  ultimately show ?thesis using assms(3) by (simp add: may_follow_def)
qed

lemma populate_user_keys [simp]:
  "email (populate_user f u) = email u" "localpart (populate_user f u) = localpart u"
  "user_domain (populate_user f u) = user_domain u" "global_admin (populate_user f u) = global_admin u"
  by (simp_all add: populate_user_def)

lemma set_reply_body_admin [simp]: "global_admin (set_reply_body v u) = global_admin u"
  by (simp add: set_reply_body_def)

lemma set_reply_keys:
  assumes "set_reply sanitize m u = Some v"
  shows "email v = email u \<and> localpart v = localpart u \<and> user_domain v = user_domain u \<and> global_admin v = global_admin u"
proof -
  obtain h p where m: "m = (h, p)" by (cases m)
  consider "v = (set_reply_body p u)\<lparr>reply_body_html := None\<rparr>"
    | h2 p2 where "v = (set_reply_body p2 (set_reply_body p u))\<lparr>reply_body_html := Some h2\<rparr>"
    using assms unfolding m set_reply_def Let_def by (auto split: option.splits if_splits)
  then show ?thesis by cases simp_all
qed

lemma reply_dates_keys [simp]:
  "email (reply_dates f u) = email u" "localpart (reply_dates f u) = localpart u"
  "user_domain (reply_dates f u) = user_domain u" "global_admin (reply_dates f u) = global_admin u"
  by (auto simp: reply_dates_def split: option.splits)

lemma user_edit_fares:
  assumes "rows_ok (pe_api e) (ap_db s)" "keys_unique (pe_enc e) (ap_db s)"
  shows "fares e (may_follow e current (ap_db s)) s (user_edit_page e current adr f s)"
  unfolding user_edit_page_def Let_def
proof (intro page_rules)
  fix u g x dm fu
  assume g: "current = Some u" "guard_user e (ap_db s) adr = Ret g" "g u" "get_user (pe_enc e) (ap_db s) adr = Ret (Some x)"
  show "may_follow e current (ap_db s) (put_user (if require_enrollment (domain_policy dm)
      then populate_user fu x\<lparr>passkey_enroll_next_login := passkey_enroll_next_login x\<rparr> else populate_user fu x) (ap_db s))"
    by (rule user_put_follows [OF assms g(1) get_user_row [OF g(4)] guard_user_allows [OF g(2-4)]]) simp_all
qed

lemma reply_page_fares:
  assumes "rows_ok (pe_api e) (ap_db s)" "keys_unique (pe_enc e) (ap_db s)" "set_option current \<subseteq> set (users (ap_db s))"
  shows "fares e (may_follow e current (ap_db s)) s (user_reply_page e current adr f s)"
proof -
  let ?d = "ap_db s"
  have put: "may_follow e current ?d (put_user z ?d)"
    if "current = Some u" "guard_owner e ?d adr = Ret g" "g u"
      "get_user (pe_enc e) ?d (case adr of Some a \<Rightarrow> a | None \<Rightarrow> email u) = Ret (Some x)"
      "email z = email x \<and> localpart z = localpart x \<and> user_domain z = user_domain x \<and> global_admin z = global_admin x" for u g x z
  proof -
    have u: "u \<in> set (users ?d)" using that(1) assms(3) by simp
    have ds: "distinct (map (bind_email (pe_enc e)) (map email (users ?d)))"
      using assms(2) unfolding keys_unique_def by (elim conjE)
    note z = that(5)
    show ?thesis
      by (rule user_put_follows [OF assms(1,2) that(1) get_user_row [OF that(4)] guard_owner_allows [OF that(2-4) u ds]])
        (simp_all only: z [THEN conjunct1] z [THEN conjunct2, THEN conjunct1] z [THEN conjunct2, THEN conjunct2, THEN conjunct1]
           z [THEN conjunct2, THEN conjunct2, THEN conjunct2])
  qed
  show ?thesis
    unfolding user_reply_page_def
  proof (intro page_rules)
    fix u g x and fm :: reply_form
    assume "current = Some u" "guard_owner e ?d adr = Ret g" "g u"
      "get_user (pe_enc e) ?d (case adr of Some a \<Rightarrow> a | None \<Rightarrow> email u) = Ret (Some x)"
    note p = put [OF this]
    show "may_follow e current ?d (put_user (x\<lparr>reply_enabled := False\<rparr>) ?d)" by (rule p) simp
    fix m y
    assume "set_reply (pe_sanitize e) m (x\<lparr>reply_enabled := True, reply_subject := Some (ff_subject fm)\<rparr>) = Some y"
    from set_reply_keys [OF this] show "may_follow e current ?d (put_user (reply_dates fm y) ?d)" by (intro p) simp
  qed
qed

lemma address_parts:
  assumes "a @ ''@'' @ x = b @ ''@'' @ y" "CHR ''@'' \<notin> set a" "CHR ''@'' \<notin> set b"
  shows "a = b \<and> x = y"
proof -
  have "cut CHR ''@'' (a @ CHR ''@'' # x) = Some (a, x)" by (rule cut_append [OF assms(2)])
  moreover have "cut CHR ''@'' (b @ CHR ''@'' # y) = Some (b, y)" by (rule cut_append [OF assms(3)])
  moreover have "a @ CHR ''@'' # x = b @ CHR ''@'' # y" using assms(1) by simp
  ultimately show ?thesis by (metis option.inject prod.inject)
qed

text \<open>A free local part makes a new address, so nobody manages anything under it yet.\<close>

lemma new_user_follows:
  assumes "rows_ok (pe_api e) d" "current = Some u" "dm \<in> set (domains d)" "domain_name dm \<in> set (managed_domains d u)"
    and "\<not> has_email d dm lp" "CHR ''@'' \<notin> set (lower lp)" "is_valid_localpart (ap_valid_address (pe_api e)) (lower lp)"
    and "email z = lower lp @ ''@'' @ domain_name dm" "localpart z = lower lp" "user_domain z = domain_name dm" "\<not> global_admin z"
  shows "may_follow e current d (d\<lparr>users := users d @ [z]\<rparr>)"
proof -
  have "email v \<noteq> email z" if v: "v \<in> set (users d)" for v
  proof
    assume eq: "email v = email z"
    have a: "email v = localpart v @ ''@'' @ user_domain v" "CHR ''@'' \<notin> set (localpart v)" "lower (localpart v) = localpart v"
      using user_row_ok [OF assms(1) v] by (simp_all add: address_ok_def)
    from a(1) eq assms(8) have "localpart v @ ''@'' @ user_domain v = lower lp @ ''@'' @ domain_name dm" by simp
    from address_parts [OF this a(2) assms(6)] have "v \<in> set (domain_users d dm)" "lower (localpart v) = lower lp"
      using v a(3) by (simp_all add: domain_users_def)
    then have "lower lp \<in> (lower \<circ> localpart) ` set (domain_users d dm)" by (intro image_eqI [of _ _ v]) simp_all
    then show False using assms(5) by (simp add: has_email_def)
  qed
  moreover have "\<forall>m\<in>set (managers d). snd m \<in> email ` set (users d)" using assms(1) by (simp add: rows_defs)
  ultimately have "\<forall>m\<in>set (managers d). snd m \<noteq> email z" by (metis imageE)
  then have "managed_domains d z = []" using assms(11) by (simp add: managed_domains_def filter_empty_conv)
  then have "reach d u z" using assms(4,10,11) by (simp add: reach_def can_manage_user_def)
  then have "untouched e u d (d\<lparr>users := users d @ [z]\<rparr>)" using assms(11) by (auto simp: untouched_def Let_def)
  moreover have "rows_ok (pe_api e) (d\<lparr>users := users d @ [z]\<rparr>)"
    using assms(3,6-10) by (intro rows_user_added [OF assms(1)]) (simp_all add: address_ok_def comp_def)
  ultimately show ?thesis using assms(2) by (simp add: may_follow_def)
qed

lemma fares_setups: "fares e P s (a, s') \<Longrightarrow> fares e P s (b, s'\<lparr>ap_setups := ts\<rparr>)"
  by (simp add: fares_def)

lemma user_create_fares:
  assumes "rows_ok (pe_api e) (ap_db s)"
  shows "fares e (may_follow e current (ap_db s)) s (user_create_page e current secret raw now n f s)"
  unfolding user_create_page_def Let_def
proof (intro fares_guarded fares_found fares_if fares_option fares_same)
  fix u g and dm :: domain and fu :: user_form
  let ?d = "ap_db s" and ?lp = "fu_localpart fu"
  let ?z = "populate_user fu (new_user (pe_api e) (lower ?lp) (domain_name dm))
        \<lparr>change_pw_next_login := False, password := cr_hash (ap_crypto (pe_api e)) secret\<rparr>"
  assume g: "current = Some u" "guard_domain e ?d n = Ret g" "g u" "get_domain (pe_enc e) ?d n = Ret (Some dm)"
    and h: "\<not> has_email ?d dm ?lp"
    and v: "\<not> (\<not> is_valid_localpart (ap_valid_address (pe_api e)) (lower ?lp)
              \<or> bind_email (pe_enc e) (lower ?lp @ ''@'' @ domain_name dm) = None)"
  from v obtain k where "bind_email (pe_enc e) (lower ?lp @ ''@'' @ domain_name dm) = Some k" by auto
  then have at: "CHR ''@'' \<notin> set (lower ?lp)" using bind_email_parts by blast
  have "may_follow e current ?d (?d\<lparr>users := users ?d @ [?z]\<rparr>)"
    by (rule new_user_follows [OF assms g(1) get_domain_mem [OF g(4)] guard_domain_allows [OF g(2-4)] h at])
      (use v in \<open>simp_all add: new_user_def populate_user_def\<close>)
  then have s: "fares e (may_follow e current ?d) s (save e s (?d\<lparr>users := users ?d @ [?z]\<rparr>))" by (rule fares_save)
  show "fares e (may_follow e current ?d) s (case save e s (?d\<lparr>users := users ?d @ [?z]\<rparr>) of
       (a, s') \<Rightarrow> (if a = Failed then (a, s')
          else (Setup_shown raw (now + ap_setup_ttl (pe_api e)),
                s'\<lparr>ap_setups := ap_setups s' @ [\<lparr>st_hash = ap_sha256_hex (pe_api e) raw,
                   st_user = lower ?lp @ ''@'' @ domain_name dm, st_expires = now + ap_setup_ttl (pe_api e)\<rparr>]\<rparr>)))"
    using s by (intro fares_pair fares_if) (simp_all add: fares_def)
qed

lemma tokens_follow:
  assumes "rows_ok (pe_api e) d" "current = Some u"
    and "filter (\<lambda>t. foreign e d u (token_user t)) ts = filter (\<lambda>t. foreign e d u (token_user t)) (tokens d)"
  shows "may_follow e current d (d\<lparr>tokens := ts\<rparr>)"
  using assms(2,3) rows_tokens [OF assms(1)] by (simp add: may_follow_def untouched_def Let_def)

lemma reach_not_foreign:
  "\<lbrakk>v \<in> set (users d); bind_email (pe_enc e) (email v) = bind_email (pe_enc e) who; reach d u v\<rbrakk> \<Longrightarrow> \<not> foreign e d u who"
  by (auto simp: foreign_def)

lemma guard_row_holder:
  assumes "guard_row e d holder = Ret g" "g u"
  shows "\<exists>who. holder = Some who \<and> \<not> foreign e d u who"
proof (cases holder)
  case None
  then show ?thesis using assms by (auto simp: guard_row_def owner_def)
next
  case (Some who)
  then show ?thesis using guard_row_allows [of e d who g u] assms reach_not_foreign by blast
qed

lemma token_pages_fare:
  assumes "rows_ok (pe_api e) (ap_db s)" "keys_unique (pe_enc e) (ap_db s)" "set_option current \<subseteq> set (users (ap_db s))"
  shows "fares e (may_follow e current (ap_db s)) s (token_create_page e current fresh adr f s)"
    "fares e (may_follow e current (ap_db s)) s (token_delete_page e current ok tid s)"
proof -
  let ?d = "ap_db s"
  show "fares e (may_follow e current ?d) s (token_create_page e current fresh adr f s)"
    unfolding token_create_page_def Let_def
  proof (intro page_rules)
    fix u g x and ft :: token_form and ips
    assume g: "current = Some u" "guard_owner e ?d adr = Ret g" "g u"
      "get_user (pe_enc e) ?d (case adr of Some a \<Rightarrow> a | None \<Rightarrow> email u) = Ret (Some x)"
    have u: "u \<in> set (users ?d)" using g(1) assms(3) by simp
    have ds: "distinct (map (bind_email (pe_enc e)) (map email (users ?d)))"
      using assms(2) unfolding keys_unique_def by (elim conjE)
    have "\<not> foreign e ?d u (email x)"
      by (rule reach_not_foreign [OF get_user_row [OF g(4)] refl guard_owner_allows [OF g(2-4) u ds]])
    then show "may_follow e current ?d (?d\<lparr>tokens := tokens ?d
        @ [\<lparr>token_id = next_token ?d, token_user = email x,
            token_password = fast_hash (ap_crypto (pe_api e)) (if ft_raw ft = [] then fresh else ft_raw ft),
            token_ip = ips, token_comment = ft_comment ft\<rparr>]\<rparr>)"
      by (intro tokens_follow [OF assms(1) g(1)]) simp
  qed
  show "fares e (may_follow e current ?d) s (token_delete_page e current ok tid s)"
    unfolding token_delete_page_def
  proof (intro page_rules)
    fix u g t
    assume g: "current = Some u" "guard_row e ?d (map_option token_user (find_token ?d tid)) = Ret g" "g u"
      and t: "Ret (find_token ?d tid) = Ret (Some t)"
    have "\<not> foreign e ?d u (token_user t)" using guard_row_holder [OF g(2,3)] t by auto
    then show "may_follow e current ?d (?d\<lparr>tokens := filter (\<lambda>r. r \<noteq> t) (tokens ?d)\<rparr>)"
      by (intro tokens_follow [OF assms(1) g(1)] filter_drop_hidden) auto
  qed
qed

lemma grants_follow:
  assumes "rows_ok (pe_api e) d" "current = Some u" "grant_user ` set gs \<subseteq> grant_user ` set (grants d)"
    and "filter (\<lambda>g. foreign e d u (grant_user g)) gs = filter (\<lambda>g. foreign e d u (grant_user g)) (grants d)"
  shows "may_follow e current d (d\<lparr>grants := gs\<rparr>)"
proof -
  have "grant_user ` set (grants d) \<subseteq> email ` set (users d)" using assms(1) by (auto simp: rows_defs)
  then have "grant_user ` set gs \<subseteq> email ` set (users d)" using assms(3) by (rule order_trans [rotated])
  then have "\<forall>g\<in>set gs. grant_user g \<in> email ` set (users d)" by blast
  then have "rows_ok (pe_api e) (d\<lparr>grants := gs\<rparr>)" using assms(1) by (simp add: rows_defs)
  then show ?thesis using assms(2,4) by (simp add: may_follow_def untouched_def Let_def)
qed

lemma grant_pages_fare:
  assumes "rows_ok (pe_api e) (ap_db s)"
  shows "fares e (may_follow e current (ap_db s)) s (oauth2_token_revoke_page e current ok gid s)"
    "fares e (may_follow e current (ap_db s)) s (oauth2_token_reauthenticate_page e current now ok gid s)"
proof -
  let ?d = "ap_db s"
  have hidden: "\<not> foreign e ?d u (grant_user r)"
    if "guard_row e ?d (map_option grant_user (row_of_grant ?d gid)) = Ret g" "g u" "Ret (row_of_grant ?d gid) = Ret (Some r)" for u g r
    using guard_row_holder [OF that(1,2)] that(3) by auto
  show "fares e (may_follow e current ?d) s (oauth2_token_revoke_page e current ok gid s)"
    unfolding oauth2_token_revoke_page_def
  proof (intro page_rules grants_follow [OF assms] filter_drop_hidden)
    fix u g r
    assume "guard_row e ?d (map_option grant_user (row_of_grant ?d gid)) = Ret g" "g u" "Ret (row_of_grant ?d gid) = Ret (Some r)"
    from hidden [OF this] show "\<forall>x\<in>set (grants ?d). \<not> x \<noteq> r \<longrightarrow> \<not> foreign e ?d u (grant_user x)" by simp
  qed auto
  show "fares e (may_follow e current ?d) s (oauth2_token_reauthenticate_page e current now ok gid s)"
    unfolding oauth2_token_reauthenticate_page_def
  proof (intro page_rules grants_follow [OF assms])
    fix u g r
    assume "guard_row e ?d (map_option grant_user (row_of_grant ?d gid)) = Ret g" "g u" "Ret (row_of_grant ?d gid) = Ret (Some r)"
    note h = hidden [OF this]
    have eq: "(\<lambda>x. if x = r then force_reauthentication now x else x) = (\<lambda>x. if x = r then force_reauthentication now r else x)"
      by auto
    show "filter (\<lambda>g. foreign e ?d u (grant_user g))
        (map (\<lambda>x. if x = r then force_reauthentication now x else x) (grants ?d))
      = filter (\<lambda>g. foreign e ?d u (grant_user g)) (grants ?d)"
      unfolding eq by (rule filter_map_hidden) (simp_all add: h force_reauthentication_def)
  qed (auto simp: force_reauthentication_def)
qed

section \<open>Every request\<close>

lemma page_fares:
  assumes "idna_ok (pe_api e)" "forms_ok (pe_forms e)" "api_inv (pe_api e) s" "set_option current \<subseteq> set (users (ap_db s))"
    and "name_kept e op \<or> (\<forall>u\<in>set_option current. \<not> global_admin u)"
  shows "fares e (may_follow e current (ap_db s)) s (page e current op s)"
proof -
  have r: "rows_ok (pe_api e) (ap_db s)" and k: "keys_unique (pe_enc e) (ap_db s)"
    using assms(3) by (simp_all add: api_inv_def pe_enc_def)
  show ?thesis
  proof (cases op)
    case (DomainEdit n f)
    with domain_pages_fare(2) [OF assms(1,2) r k] assms(5) show ?thesis by (simp only: page.simps)
  qed (simp_all only: page.simps domain_pages_fare(1,3) [OF assms(1,2) r k] manager_pages_fare [OF r] access_pages_fare [OF r]
      admin_pages_fare [OF r] relay_pages_fare [OF assms(1) r] alternative_pages_fare [OF assms(1) r]
      alias_pages_fare [OF r k] anonalias_pages_fare [OF assms(2) r k assms(4)] user_edit_fares [OF r k]
      reply_page_fares [OF r k assms(4)] user_create_fares [OF r] token_pages_fare [OF r k assms(4)] grant_pages_fare [OF r])
qed

lemma signed_in_mem: "signed_in e d who = Ret current \<Longrightarrow> set_option current \<subseteq> set (users d)"
  by (cases who; cases current) (auto simp: signed_in_def get_user_row)

lemma page_request_inv:
  assumes "idna_ok (pe_api e)" "forms_ok (pe_forms e)" "api_inv (pe_api e) s" "name_kept e op"
  shows "api_inv (pe_api e) (snd (page_request e who op s))"
proof (cases "signed_in e (ap_db s) who")
  case (Ret current)
  have "fares e (may_follow e current (ap_db s)) s (page e current op s)"
    by (rule page_fares [OF assms(1-3) signed_in_mem [OF Ret]]) (simp add: assms(4))
  then show ?thesis
    using assms(3) Ret by (auto simp: page_request_def fares_def may_follow_def api_inv_def pe_enc_def)
qed (simp add: page_request_def assms(3))

lemma page_signed_out: "page e None op s = (a, s') \<Longrightarrow> s' = s"
  by (cases op)
    (auto simp: guarded_def confirmed_def confirmation_required_def domain_create_page_def domain_edit_page_def
      domain_delete_page_def alternative_create_page_def alternative_delete_page_def relay_create_page_def
      relay_edit_page_def relay_delete_page_def manager_create_page_def manager_delete_page_def access_create_page_def
      access_delete_page_def admin_create_page_def admin_delete_page_def user_create_page_def user_edit_page_def
      user_reply_page_def alias_create_page_def alias_edit_page_def alias_delete_page_def anonalias_create_page_def
      anonalias_delete_page_def anonalias_switch_page_def token_create_page_def token_delete_page_def
      oauth2_token_revoke_page_def oauth2_token_reauthenticate_page_def split: if_splits)

section \<open>Gaps in the checks\<close>

text \<open>A global administrator who posts another name for the read-only field renames the domain, and its
  rows keep the old name: \<open>populate_domain\<close> assigns every field.\<close>

theorem posted_name_renames:
  assumes "global_admin u" "get_domain (pe_enc e) (ap_db s) n = Ret (Some dm)" "guard_domain e (ap_db s) n = Ret g" "g u"
    "domain_form_ok (pe_forms e) False (max MAX_QUOTA_BYTES (max_quota_bytes dm)) f"
    "stored_domain (pe_api e) (fd_name f) = Some m" "domain_edit_page e (Some u) n (Some f) s = (Redirected, s')"
  shows "ap_db s' = replace_domain (domain_name dm) (populate_domain f m) (ap_db s) \<and> users (ap_db s') = users (ap_db s)"
  using assms
  by (auto simp: domain_edit_page_def guarded_def permissions_wrapper_def found_def save_def commit_def replace_domain_def
      split: if_splits)

end
