(* ===== verification/Admin_System.thy ===== *)
theory Admin_System
  imports Pages_Machine
begin

text \<open>
  The administration interfaces together: REST API, pages and the alias service act on the same
  rows, in any order.  The machine of their requests is an interpretation of \<open>Prelude.machine\<close>, which
  gives the invariant of the composition; the properties of the pages rest on \<open>Pages_Machine\<close>.
\<close>

section \<open>The composition\<close>

datatype admin_op =
    Rest api_op
  | Page "string option" page_op
  | Random_alias string nat "draw list" "string option" "string option"

definition admin_step :: "'s page_env \<Rightarrow> 's api_state \<Rightarrow> admin_op \<Rightarrow> 's api_state" where
  "admin_step e s op =
     (case op of
        Rest r \<Rightarrow> api_step (pe_api e) s r
      | Page who p \<Rightarrow> snd (page_request e who p s)
      | Random_alias who pick draws hostname note \<Rightarrow>
          (case get_user (pe_enc e) (ap_db s) who of
             Ret (Some u) \<Rightarrow>
               snd (random_alias (pe_api e) (pe_fold_case e) (pe_tld e) (pe_retries e) pick draws hostname note u s)
           | _ \<Rightarrow> s))"

fun admin_ok :: "'s page_env \<Rightarrow> admin_op \<Rightarrow> bool" where
  "admin_ok e (Rest r) = payload_ok (pe_api e) r"
| "admin_ok e (Page who p) = name_kept e p"
| "admin_ok e (Random_alias who pick draws hostname note) = True"

text \<open>What the requests rely on of libraries, and the invariant of the rows.\<close>

definition admin_inv :: "'s page_env \<Rightarrow> 's api_state \<Rightarrow> bool" where
  "admin_inv e s \<longleftrightarrow> idna_ok (pe_api e) \<and> restx_ok (pe_api e) \<and> forms_ok (pe_forms e) \<and> api_inv (pe_api e) s"

lemma admin_step_inv:
  assumes "admin_inv e s" "admin_ok e op"
  shows "admin_inv e (admin_step e s op)"
proof (cases op)
  case (Rest r)
  then show ?thesis using assms api_step_inv [of "pe_api e" s r] by (simp add: admin_inv_def admin_step_def)
next
  case (Page who p)
  then show ?thesis using assms page_request_inv [of e s p who] by (simp add: admin_inv_def admin_step_def)
next
  case (Random_alias who pick draws hostname remark)
  then show ?thesis
    using assms random_alias_inv [of "pe_api e" s] get_user_row
    by (auto simp: admin_inv_def admin_step_def split: outcome.splits option.splits)
qed

interpretation admin: machine "admin_step e" "admin_ok e" "admin_inv e" for e
  by unfold_locales (rule admin_step_inv)

lemma rows_passkeys:
  "\<lbrakk>rows_ok a d; \<forall>p\<in>set ps. pk_user p \<in> email ` set (users d)\<rbrakk> \<Longrightarrow> rows_ok a (d\<lparr>passkeys := ps\<rparr>)"
  by (simp add: rows_defs)

section \<open>Limits of a new account\<close>

lemma new_account_row:
  assumes "user_create_page e (Some u) secret raw now n (Some f) s = (Setup_shown raw' until, s')"
  shows "\<exists>dm z. get_domain (pe_enc e) (ap_db s) n = Ret (Some dm) \<and> users (ap_db s') = users (ap_db s) @ [z]
    \<and> (max_users dm = -1 \<or> int (length (domain_users (ap_db s) dm)) < max_users dm)
    \<and> fl_range (pe_forms e) (Some 0) (Some (quota_limit dm)) (quota_bytes z) \<and> user_domain z = domain_name dm
    \<and> email z = lower (fu_localpart f) @ ''@'' @ domain_name dm \<and> raw' = raw \<and> until = now + ap_setup_ttl (pe_api e)
    \<and> \<not> has_email (ap_db s) dm (fu_localpart f) \<and> password z = cr_hash (ap_crypto (pe_api e)) secret
    \<and> keys_unique (pe_enc e) (ap_db s')
    \<and> ap_setups s' = ap_setups s @ [\<lparr>st_hash = ap_sha256_hex (pe_api e) raw, st_user = email z, st_expires = until\<rparr>]"
proof -
  obtain g where g: "guard_domain e (ap_db s) n = Ret g" "g u"
    using assms by (auto simp: user_create_page_def guarded_def permissions_wrapper_def split: outcome.splits if_splits)
  obtain dm where dm: "get_domain (pe_enc e) (ap_db s) n = Ret (Some dm)"
    using assms g by (auto simp: user_create_page_def guarded_def permissions_wrapper_def found_def split: outcome.splits option.splits)
  let ?z = "(populate_user f (new_user (pe_api e) (lower (fu_localpart f)) (domain_name dm)))
        \<lparr>change_pw_next_login := False, password := cr_hash (ap_crypto (pe_api e)) secret\<rparr>"
  have z: "quota_bytes ?z = fu_quota f" "user_domain ?z = domain_name dm" "password ?z = cr_hash (ap_crypto (pe_api e)) secret"
    "email ?z = lower (fu_localpart f) @ ''@'' @ domain_name dm"
    by (simp_all add: populate_user_def new_user_def)
  from assms show ?thesis
    by (intro exI [of _ dm] exI [of _ ?z])
      (auto simp: user_create_page_def guarded_def permissions_wrapper_def found_def g dm Let_def save_def commit_def z
        split: if_splits)
qed

section \<open>Properties\<close>

text \<open>
  The administration interfaces keep the rows well typed together.  Started on a well-formed
  database, any interleaving of REST API calls with payloads of the declared models, page requests
  of anybody with any form, and random aliases leaves it well formed: names are canonical, every
  row refers to rows that exist, an address is its local part and its domain, passkey policies
  hold legal values, limits respect their bounds, integers fit and primary keys are unique.
\<close>
theorem admin_rows_well_formed:
  assumes "admin_inv e s" "list_all (admin_ok e) ops"
  shows "api_inv (pe_api e) (foldl (admin_step e) s ops)"
  using admin.inv_run [OF assms] by (simp add: admin_inv_def)


text \<open>
  C21. A new account respects the limits of its domain.  When the page for new users shows a setup
  link, exactly one user was added: an address nobody had, in the domain of the page, whose users
  do not exceed the maximum; its quota is between 0 and the smaller of the global limit and the
  limit of the domain; and the one new link, which expires after the configured time, is for
  that user alone.
\<close>
theorem new_account_within_limits:
  assumes "forms_ok (pe_forms e)"
    and "user_create_page e (Some u) secret raw now n (Some f) s = (Setup_shown raw' until, s')"
  shows "\<exists>dm z. get_domain (pe_enc e) (ap_db s) n = Ret (Some dm) \<and> users (ap_db s') = users (ap_db s) @ [z]
    \<and> user_domain z = domain_name dm
    \<and> (\<forall>v\<in>set (users (ap_db s)). bind_email (pe_enc e) (email v) \<noteq> bind_email (pe_enc e) (email z))
    \<and> (max_users dm = -1 \<or> int (length (domain_users (ap_db s') dm)) \<le> max_users dm)
    \<and> 0 \<le> quota_bytes z \<and> quota_bytes z \<le> MAX_QUOTA_BYTES
    \<and> (max_quota_bytes dm = 0 \<or> quota_bytes z \<le> max_quota_bytes dm)
    \<and> ap_setups s' = ap_setups s @ [\<lparr>st_hash = ap_sha256_hex (pe_api e) raw', st_user = email z, st_expires = until\<rparr>]
    \<and> until = now + ap_setup_ttl (pe_api e)"
proof -
  obtain dm z where w: "get_domain (pe_enc e) (ap_db s) n = Ret (Some dm)" "users (ap_db s') = users (ap_db s) @ [z]"
      "max_users dm = -1 \<or> int (length (domain_users (ap_db s) dm)) < max_users dm"
      "fl_range (pe_forms e) (Some 0) (Some (quota_limit dm)) (quota_bytes z)" "user_domain z = domain_name dm"
      "raw' = raw" "until = now + ap_setup_ttl (pe_api e)" "keys_unique (pe_enc e) (ap_db s')"
      "ap_setups s' = ap_setups s @ [\<lparr>st_hash = ap_sha256_hex (pe_api e) raw, st_user = email z, st_expires = until\<rparr>]"
    using new_account_row [OF assms(2)] by blast
  have "distinct (map (bind_email (pe_enc e)) (map email (users (ap_db s) @ [z])))"
    using w(2,8) by (simp add: keys_unique_def)
  then have new: "\<forall>v\<in>set (users (ap_db s)). bind_email (pe_enc e) (email v) \<noteq> bind_email (pe_enc e) (email z)"
    by (auto simp: image_iff)
  have "0 \<le> quota_bytes z" "quota_bytes z \<le> quota_limit dm" using forms_range [OF assms(1) w(4)] by simp_all
  moreover have "length (domain_users (ap_db s') dm) = Suc (length (domain_users (ap_db s) dm))"
    using w(2,5) by (simp add: domain_users_def)
  ultimately show ?thesis
    using w new by (intro exI [of _ dm] exI [of _ z]) (auto simp: quota_limit_def split: if_splits)
qed

section \<open>Examples\<close>

definition sample_forms :: forms_lib where
  "sample_forms = \<lparr>fl_required = (\<lambda>v. v \<noteq> []),
     fl_range = (\<lambda>lo hi i. (case lo of None \<Rightarrow> True | Some l \<Rightarrow> l \<le> i) \<and> (case hi of None \<Rightarrow> True | Some h \<Rightarrow> i \<le> h)),
     fl_choice = (\<lambda>vs v. v \<in> set vs), fl_max_length = (\<lambda>n v. str_len v \<le> n)\<rparr>"

definition sample_pages :: "(string, sval) dict page_env" where
  "sample_pages = \<lparr>pe_api = sample_api, pe_forms = sample_forms, pe_fold_case = True, pe_tld = (\<lambda>_. None),
     pe_retries = 10, pe_sanitize = (\<lambda>v. Some (v, v))\<rparr>"

lemma sample_forms_ok: "forms_ok sample_forms"
  by (auto simp: forms_ok_def sample_forms_def)

definition sample_domain_form :: domain_form where
  "sample_domain_form = \<lparr>fd_name = ''Y.io'', fd_max_users = 1, fd_max_aliases = 10, fd_max_quota = 5000, fd_signup = False,
     fd_anonmail = False, fd_policy = default_policy, fd_comment = []\<rparr>"

definition sample_user_form :: user_form where
  "sample_user_form = \<lparr>fu_localpart = ''Bob'', fu_quota = 4000, fu_imap = True, fu_pop = False, fu_spoofing = False,
     fu_name = ''Bob'', fu_comment = [], fu_enabled = True, fu_change_pw = True, fu_enroll = False\<rparr>"

text \<open>Two domains, an administrator and a manager of one of them.\<close>

definition sample_site :: "(string, sval) dict api_state" where
  "sample_site = sample_state\<lparr>ap_db := empty_db\<lparr>domains := [new_domain ''x.io'', (new_domain ''y.io'')\<lparr>max_users := 1\<rparr>],
     users := [(sample_user ''ann'' ''x.io'')\<lparr>global_admin := True\<rparr>, sample_user ''max'' ''x.io''],
     managers := [(''y.io'', ''max@x.io'')]\<rparr>\<rparr>"

lemma sample_site_inv: "api_inv sample_api sample_site"
proof -
  have k: "keys_unique (ap_enc sample_api) (ap_db sample_site)" by code_simp
  have i: "integers_fit (ap_db sample_site)" by code_simp
  have n: "canonical sample_api ''x.io''" "canonical sample_api ''y.io''" by code_simp+
  have a: "address_ok sample_api ''ann@x.io'' ''ann'' ''x.io''" "address_ok sample_api ''max@x.io'' ''max'' ''x.io''" by code_simp+
  have p: "policy_ok default_policy" by code_simp
  have "rows_ok sample_api (ap_db sample_site)"
    using n a p by (simp add: rows_defs sample_site_def empty_db_def sample_state_def new_domain_def sample_user_def)
  then show ?thesis using k i by (simp add: api_inv_def)
qed

lemma sample_pages_simps [simp]: "pe_api sample_pages = sample_api" "pe_forms sample_pages = sample_forms"
  by (simp_all add: sample_pages_def)

lemma sample_site_admin_inv: "admin_inv sample_pages sample_site"
  by (simp add: admin_inv_def sample_idna sample_restx sample_forms_ok sample_site_inv)

definition sample_admin_ops :: "admin_op list" where
  "sample_admin_ops = [Rest (ManagerPost ''x.io'' [(''user_email'', JStr ''max@x.io'')]),
     Page (Some ''max@x.io'') (AliasCreate ''x.io'' (Some \<lparr>fa_localpart = ''Info'', fa_wildcard = False,
       fa_destination = [''ann@x.io''], fa_comment = []\<rparr>)),
     Random_alias ''max@x.io'' 0 [(None, ''qrs'', ''tok'')] None None]"

theorem admin_rows_well_formed_witness:
  "api_inv sample_api (foldl (admin_step sample_pages) sample_site sample_admin_ops)
   \<and> map alias_email (aliases (ap_db (foldl (admin_step sample_pages) sample_site sample_admin_ops)))
     = [''info@x.io'', ''tok@x.io'']"
proof -
  have "list_all (admin_ok sample_pages) sample_admin_ops" by code_simp
  from admin_rows_well_formed [OF sample_site_admin_inv this]
  have "api_inv sample_api (foldl (admin_step sample_pages) sample_site sample_admin_ops)" by simp
  moreover have "map alias_email (aliases (ap_db (foldl (admin_step sample_pages) sample_site sample_admin_ops)))
     = [''info@x.io'', ''tok@x.io'']" by code_simp
  ultimately show ?thesis by blast
qed

definition sample_creation :: "page_answer \<times> (string, sval) dict api_state" where
  "sample_creation = page_request sample_pages (Some ''Max@x.io'') (UserCreate ''s'' ''link'' 100 ''y.io'' (Some sample_user_form)) sample_site"


theorem new_account_within_limits_witness:
  "\<exists>s' z. user_create_page sample_pages (Some (sample_user ''max'' ''x.io'')) ''s'' ''link'' 100 ''y.io'' (Some sample_user_form) sample_site
       = (Setup_shown ''link'' 3700, s') \<and> users (ap_db s') = users (ap_db sample_site) @ [z] \<and> quota_bytes z \<le> MAX_QUOTA_BYTES"
proof -
  let ?r = "user_create_page sample_pages (Some (sample_user ''max'' ''x.io'')) ''s'' ''link'' 100 ''y.io'' (Some sample_user_form) sample_site"
  have "fst ?r = Setup_shown ''link'' 3700" by code_simp
  then have c: "?r = (Setup_shown ''link'' 3700, snd ?r)" by (simp add: prod_eq_iff)
  have "forms_ok (pe_forms sample_pages)" by (simp add: sample_forms_ok)
  from new_account_within_limits [OF this c] show ?thesis using c by blast
qed

end
