(* ===== verification/Api_Passkeys.thy ===== *)
theory Api_Passkeys
  imports Admin_System
begin

text \<open>
  Registering and deleting the passkeys of a user through the REST API
  (\<open>src/core/admin/mailu/api/v1/passkey.py\<close>): a challenge is handed out under a request identifier, and
  a later call spends it.

  The pending requests are the values of the session store under the prefix of this endpoint, by their
  identifier; the JSON text around them is left out.  The time to live that the store applies is the one
  that the value holds, so both give the same answer.  The verified answer is written as
  \<open>Passkeys.new_passkey\<close> does, with the name that the call gives.
\<close>

section \<open>State\<close>

record pending_registration =
  pr_email :: string
  pr_challenge :: string
  pr_expires_at :: int

type_synonym 's passkey_state = "'s api_state \<times> (string, pending_registration) dict"

record 's passkey_env =
  py_pages :: "'s page_env"
  py_wa :: wa_site

definition py_api :: "'s passkey_env \<Rightarrow> 's api_env" where
  "py_api e = pe_api (py_pages e)"

text \<open>The answers that carry something: the listed rows, the options, the row that was made.\<close>

datatype passkey_answer =
    Plain api_answer
  | Passkey_rows "passkey list"
  | Request_options string "string list \<times> string \<times> bool \<times> bool" string
  | Passkey_made passkey

definition registration_fields :: schema where
  "registration_fields = [(''request_id'', F_String, True), (''name'', F_String, True), (''credential'', F_Raw, True)]"

section \<open>Endpoints\<close>

definition list_user_passkeys :: "'s passkey_env \<Rightarrow> string \<Rightarrow> 's api_state \<Rightarrow> passkey_answer" where
  "list_user_passkeys e adr s =
     (case path_user (py_api e) (ap_db s) adr of Inl a \<Rightarrow> Plain a | Inr u \<Rightarrow> Passkey_rows (passkeys_of (ap_db s) u))"

text \<open>\<open>rid\<close> and \<open>random\<close> are what the call draws.\<close>

definition passkey_options ::
  "'s passkey_env \<Rightarrow> int \<Rightarrow> string \<Rightarrow> string \<Rightarrow> string \<Rightarrow> 's passkey_state \<Rightarrow> passkey_answer \<times> 's passkey_state" where
  "passkey_options e now rid random adr st =
     (case st of (s, ps) \<Rightarrow>
        (case path_user (py_api e) (ap_db s) adr of
           Inl a \<Rightarrow> (Plain a, s, ps)
         | Inr u \<Rightarrow>
             (let ch = wa_from_bytes (ws_lib (py_wa e)) random in
              (Request_options rid (registration_options (ap_db s) u) ch, s,
               dict_set rid \<lparr>pr_email = email u, pr_challenge = ch, pr_expires_at = now + 300\<rparr> ps))))"

definition check_registration_policy :: "passkey_policy \<Rightarrow> wa_registration \<Rightarrow> wa_flags \<Rightarrow> bool" where
  "check_registration_policy p v f \<longleftrightarrow>
     aaguid_allowed p (v_aaguid v)
     \<and> \<not> (policy_device_bound p \<and> (v_device_type v \<noteq> ''single_device'' \<or> v_backed_up v))
     \<and> authenticator_flags_allowed p f \<and> attestation_allowed p (v_fmt v)"

definition verified_registration :: "wa_site \<Rightarrow> passkey_policy \<Rightarrow> json \<Rightarrow> string \<Rightarrow> wa_registration option" where
  "verified_registration w p credential challenge =
     Option.bind (wa_to_bytes (ws_lib w) (JStr challenge))
       (\<lambda>c. verify_registration_response (ws_lib w) credential c (rp_id w) (origin w) (require_uv p))"

text \<open>The checks after the challenge was read, and the row.\<close>

definition checked_passkey ::
  "'s passkey_env \<Rightarrow> db \<Rightarrow> user \<Rightarrow> string \<Rightarrow> json \<Rightarrow> pending_registration \<Rightarrow> (nat + passkey) outcome" where
  "checked_passkey e d u name credential r =
     (case verified_registration (py_wa e) (user_policy d u) credential (pr_challenge r) of
        None \<Rightarrow> Ret (Inl 400)
      | Some v \<Rightarrow>
          bind_out (registration_flags (ws_lib (py_wa e)) credential) (\<lambda>f.
            if \<not> check_registration_policy (user_policy d u) v f then Ret (Inl 400)
            else if \<exists>k\<in>set (passkeys d). credential_id k = v_credential_id v then Ret (Inl 409)
            else Ret (Inr ((new_passkey (py_wa e) u v f JNull)\<lparr>pk_name := str_take 255 (strip_str name)\<rparr>))))"

definition passkey_post ::
  "'s passkey_env \<Rightarrow> int \<Rightarrow> string \<Rightarrow> payload \<Rightarrow> 's passkey_state \<Rightarrow> passkey_answer \<times> 's passkey_state" where
  "passkey_post e now adr data st =
     (case st of (s, ps) \<Rightarrow>
        (case path_user (py_api e) (ap_db s) adr of
           Inl a \<Rightarrow> (Plain a, s, ps)
         | Inr u \<Rightarrow>
             (let name = the (str_arg data ''name''); rid = the (str_arg data ''request_id'') in
              if strip_str name = [] then (Plain (Reply 400), s, ps)
              else
                (let ps' = dict_del rid ps in
                 case dict_get ps rid of
                   None \<Rightarrow> (Plain (Reply 400), s, ps')
                 | Some r \<Rightarrow>
                     if pr_expires_at r < now \<or> pr_email r \<noteq> email u then (Plain (Reply 400), s, ps')
                     else (case checked_passkey e (ap_db s) u name (the (dict_get data ''credential'')) r of
                       Exn x \<Rightarrow> (Plain Raised, s, ps')
                     | Ret (Inl n) \<Rightarrow> (Plain (Reply n), s, ps')
                     | Ret (Inr k) \<Rightarrow>
                         (case commit (ap_enc (py_api e)) s ((ap_db s)\<lparr>passkeys := passkeys (ap_db s) @ [k]\<rparr>) of
                            (a, s') \<Rightarrow> (if a = Reply 200 then Passkey_made k else Plain a, s', ps')))))))"

definition passkey_remove ::
  "'s passkey_env \<Rightarrow> string \<Rightarrow> string \<Rightarrow> 's passkey_state \<Rightarrow> passkey_answer \<times> 's passkey_state" where
  "passkey_remove e adr cid st =
     (case st of (s, ps) \<Rightarrow>
        (case path_user (py_api e) (ap_db s) adr of
           Inl a \<Rightarrow> (Plain a, s, ps)
         | Inr u \<Rightarrow>
             (case wa_to_bytes (ws_lib (py_wa e)) (JStr cid) of
                None \<Rightarrow> (Plain (Reply 400), s, ps)
              | Some key \<Rightarrow>
                  (case find (\<lambda>k. credential_id k = key) (passkeys (ap_db s)) of
                     None \<Rightarrow> (Plain (Reply 404), s, ps)
                   | Some k \<Rightarrow>
                       if pk_user k \<noteq> email u then (Plain (Reply 404), s, ps)
                       else
                         (case commit (ap_enc (py_api e)) s
                                 ((ap_db s)\<lparr>passkeys := filter (\<lambda>r. credential_id r \<noteq> key) (passkeys (ap_db s))\<rparr>) of
                            (a, s') \<Rightarrow> (Plain a, s', ps))))))"

section \<open>The calls together\<close>

text \<open>Between them the administration interfaces may change the rows.\<close>

datatype passkey_op =
    Pk_options int string string string
  | Pk_post int string payload
  | Pk_delete string string
  | Elsewhere admin_op

fun passkey_call :: "'s passkey_env \<Rightarrow> passkey_op \<Rightarrow> 's passkey_state \<Rightarrow> passkey_answer \<times> 's passkey_state" where
  "passkey_call e (Pk_options now rid random adr) st = passkey_options e now rid random adr st"
| "passkey_call e (Pk_post now adr data) st =
     (if ap_accepts (py_api e) registration_fields data then passkey_post e now adr data st else (Plain (Reply 400), st))"
| "passkey_call e (Pk_delete adr cid) st = passkey_remove e adr cid st"
| "passkey_call e (Elsewhere a) st = (Plain (Reply 200), admin_step (py_pages e) (fst st) a, snd st)"

definition passkey_step :: "'s passkey_env \<Rightarrow> 's passkey_state \<Rightarrow> passkey_op \<Rightarrow> 's passkey_state" where
  "passkey_step e st op = snd (passkey_call e op st)"

section \<open>Rows stay well formed\<close>

lemma checked_passkey_user: "checked_passkey e d u name c r = Ret (Inr k) \<Longrightarrow> pk_user k = email u"
  by (cases "registration_flags (ws_lib (py_wa e)) c")
    (auto simp: checked_passkey_def new_passkey_def split: option.splits if_splits)

lemma passkey_post_inv:
  assumes "api_inv (py_api e) s"
  shows "api_inv (py_api e) (fst (snd (passkey_post e now adr data (s, ps))))"
proof -
  note r = api_inv_rows [OF assms]
  have "api_inv (py_api e) (snd (commit (ap_enc (py_api e)) s ((ap_db s)\<lparr>passkeys := passkeys (ap_db s) @ [k]\<rparr>)))"
    if "path_user (py_api e) (ap_db s) adr = Inr u" "checked_passkey e (ap_db s) u name c q = Ret (Inr k)" for u name c q k
    using assms r path_user_row [OF that(1)] checked_passkey_user [OF that(2)]
    by (intro commit_inv rows_passkeys) (auto simp: rows_defs)
  then show ?thesis using assms
    by (auto simp: passkey_post_def Let_def split_beta split: sum.splits option.splits outcome.splits)
qed

lemma passkey_remove_inv:
  assumes "api_inv (py_api e) s"
  shows "api_inv (py_api e) (fst (snd (passkey_remove e adr cid (s, ps))))"
proof -
  note r = api_inv_rows [OF assms]
  have "api_inv (py_api e) (snd (commit (ap_enc (py_api e)) s
      ((ap_db s)\<lparr>passkeys := filter (\<lambda>r. credential_id r \<noteq> key) (passkeys (ap_db s))\<rparr>)))" for key
    using assms r by (intro commit_inv rows_passkeys) (auto simp: rows_defs)
  then show ?thesis using assms
    by (auto simp: passkey_remove_def split_beta split: sum.splits option.splits)
qed

lemma passkey_options_frame [simp]: "fst (snd (passkey_options e now rid random adr (s, ps))) = s"
  by (simp add: passkey_options_def Let_def split: sum.splits)

section \<open>Where a challenge comes from\<close>

text \<open>Every pending request was made by one of the calls \<open>H\<close>.\<close>

definition asked_by :: "'s passkey_env \<Rightarrow> passkey_op list \<Rightarrow> string \<Rightarrow> pending_registration \<Rightarrow> bool" where
  "asked_by e H rid r \<longleftrightarrow>
     (\<exists>t random adr. Pk_options t rid random adr \<in> set H \<and> pr_expires_at r = t + 300
        \<and> pr_challenge r = wa_from_bytes (ws_lib (py_wa e)) random
        \<and> bind_email (ap_enc (py_api e)) adr = bind_email (ap_enc (py_api e)) (pr_email r))"

definition pending_from :: "'s passkey_env \<Rightarrow> passkey_op list \<Rightarrow> 's passkey_state \<Rightarrow> bool" where
  "pending_from e H st \<longleftrightarrow> (\<forall>rid r. dict_get (snd st) rid = Some r \<longrightarrow> asked_by e H rid r)"

lemma path_user_key: "path_user e d adr = Inr u \<Longrightarrow> bind_email (ap_enc e) adr = bind_email (ap_enc e) (email u)"
  by (auto simp: path_user_def get_user_def find_Some_iff split: if_splits outcome.splits option.splits)

lemma pending_from_del: "pending_from e H (s, ps) \<Longrightarrow> pending_from e H (s', dict_del k ps)"
  by (simp add: pending_from_def)

lemma passkey_post_pending:
  "snd (snd (passkey_post e now adr data (s, ps))) = ps
   \<or> snd (snd (passkey_post e now adr data (s, ps))) = dict_del (the (str_arg data ''request_id'')) ps"
  by (auto simp: passkey_post_def Let_def split_beta split: sum.splits option.splits outcome.splits)

lemma passkey_remove_pending: "snd (snd (passkey_remove e adr cid (s, ps))) = ps"
  by (auto simp: passkey_remove_def split_beta split: sum.splits option.splits)

lemma pending_step:
  assumes "pending_from e H st" "op \<in> set H"
  shows "pending_from e H (passkey_step e st op)"
proof -
  obtain s ps where st: "st = (s, ps)" by fastforce
  show ?thesis
  proof (cases op)
    case (Pk_options now rid random adr)
    have "asked_by e H rid \<lparr>pr_email = email u, pr_challenge = wa_from_bytes (ws_lib (py_wa e)) random, pr_expires_at = now + 300\<rparr>"
      if "path_user (py_api e) (ap_db s) adr = Inr u" for u
      using assms(2) Pk_options path_user_key [OF that] by (auto simp: asked_by_def)
    then show ?thesis using assms(1) st Pk_options
      by (auto simp: passkey_step_def passkey_options_def pending_from_def Let_def split: sum.splits)
  next
    case (Pk_post now adr data)
    then show ?thesis
      using assms(1) st passkey_post_pending [of e now adr data s ps] by (auto simp: passkey_step_def pending_from_def split: if_splits)
  next
    case (Pk_delete adr cid)
    then show ?thesis
      using assms(1) st passkey_remove_pending [of e adr cid s ps] by (simp add: passkey_step_def pending_from_def)
  qed (use assms(1) in \<open>simp add: passkey_step_def pending_from_def\<close>)
qed

interpretation pending: machine "passkey_step e" "\<lambda>op. op \<in> set H" "pending_from e H" for e H
  by unfold_locales (rule pending_step)

lemma passkey_post_made:
  assumes "passkey_post e now adr data (s, ps) = (Passkey_made k, s', ps')"
  shows "\<exists>u r. path_user (py_api e) (ap_db s) adr = Inr u \<and> dict_get ps (the (str_arg data ''request_id'')) = Some r
    \<and> now \<le> pr_expires_at r \<and> pr_email r = email u
    \<and> checked_passkey e (ap_db s) u (the (str_arg data ''name'')) (the (dict_get data ''credential'')) r = Ret (Inr k)
    \<and> ap_db s' = (ap_db s)\<lparr>passkeys := passkeys (ap_db s) @ [k]\<rparr> \<and> ps' = dict_del (the (str_arg data ''request_id'')) ps"
  using assms
  by (auto simp: passkey_post_def Let_def commit_def split: sum.splits option.splits outcome.splits if_splits prod.splits)

lemma checked_passkey_sound:
  assumes "checked_passkey e d u name c r = Ret (Inr k)"
  shows "\<exists>v f. verified_registration (py_wa e) (user_policy d u) c (pr_challenge r) = Some v
    \<and> registration_flags (ws_lib (py_wa e)) c = Ret f \<and> check_registration_policy (user_policy d u) v f \<and> credential_id k = v_credential_id v
    \<and> credential_id k \<notin> credential_id ` set (passkeys d) \<and> pk_user k = email u"
  using assms
  by (cases "registration_flags (ws_lib (py_wa e)) c")
    (fastforce simp: checked_passkey_def new_passkey_def split: option.splits if_splits)+

section \<open>Properties\<close>

text \<open>
  A passkey that the REST API registers was asked for.  In any run of the endpoints, among
  whatever the administration interfaces change, a row is made only when an earlier call asked for
  options for the same account at most 300 seconds before under the same request identifier; the
  authenticator's answer verifies against the challenge of that call and satisfies the policy of
  the user's domain; the credential is not registered yet; nothing else changes; and the request
  identifier is spent.
\<close>
theorem api_registration_asked_for:
  assumes "foldl (passkey_step e) (s0, []) ops = (s, ps)"
    and "passkey_call e (Pk_post now adr data) (s, ps) = (Passkey_made k, s', ps')"
  shows "\<exists>t random adr' v f u.
    Pk_options t (the (str_arg data ''request_id'')) random adr' \<in> set ops \<and> now \<le> t + 300
    \<and> bind_email (ap_enc (py_api e)) adr' = bind_email (ap_enc (py_api e)) (email u) \<and> u \<in> set (users (ap_db s))
    \<and> verified_registration (py_wa e) (user_policy (ap_db s) u) (the (dict_get data ''credential''))
        (wa_from_bytes (ws_lib (py_wa e)) random) = Some v
    \<and> registration_flags (ws_lib (py_wa e)) (the (dict_get data ''credential'')) = Ret f
    \<and> check_registration_policy (user_policy (ap_db s) u) v f
    \<and> credential_id k = v_credential_id v \<and> credential_id k \<notin> credential_id ` set (passkeys (ap_db s))
    \<and> pk_user k = email u \<and> ap_db s' = (ap_db s)\<lparr>passkeys := passkeys (ap_db s) @ [k]\<rparr> \<and> dict_get ps' (the (str_arg data ''request_id'')) = None"
proof -
  obtain u r where p: "path_user (py_api e) (ap_db s) adr = Inr u"
    "dict_get ps (the (str_arg data ''request_id'')) = Some r" "now \<le> pr_expires_at r" "pr_email r = email u"
    and c: "checked_passkey e (ap_db s) u (the (str_arg data ''name'')) (the (dict_get data ''credential'')) r = Ret (Inr k)"
    and s': "ap_db s' = (ap_db s)\<lparr>passkeys := passkeys (ap_db s) @ [k]\<rparr>" "ps' = dict_del (the (str_arg data ''request_id'')) ps"
    using assms(2) passkey_post_made [of e now adr data s ps k s' ps'] by (auto split: if_splits)
  have "pending_from e ops (foldl (passkey_step e) (s0, []) ops)"
    by (rule pending.inv_run) (simp_all add: pending_from_def list_all_iff)
  then have "asked_by e ops (the (str_arg data ''request_id'')) r" using assms(1) p(2) by (simp add: pending_from_def)
  then obtain t random adr' where a: "Pk_options t (the (str_arg data ''request_id'')) random adr' \<in> set ops"
    "pr_expires_at r = t + 300" "pr_challenge r = wa_from_bytes (ws_lib (py_wa e)) random"
    "bind_email (ap_enc (py_api e)) adr' = bind_email (ap_enc (py_api e)) (pr_email r)"
    unfolding asked_by_def by blast
  obtain v f where v: "verified_registration (py_wa e) (user_policy (ap_db s) u) (the (dict_get data ''credential''))
        (pr_challenge r) = Some v" "registration_flags (ws_lib (py_wa e)) (the (dict_get data ''credential'')) = Ret f"
    "check_registration_policy (user_policy (ap_db s) u) v f"
    "credential_id k = v_credential_id v" "credential_id k \<notin> credential_id ` set (passkeys (ap_db s))" "pk_user k = email u"
    using checked_passkey_sound [OF c] by blast
  have "u \<in> set (users (ap_db s))" using path_user_row [OF p(1)] by simp
  moreover have "now \<le> t + 300" "bind_email (ap_enc (py_api e)) adr' = bind_email (ap_enc (py_api e)) (email u)"
    "dict_get ps' (the (str_arg data ''request_id'')) = None" using p(3,4) a(2,4) s'(2) by simp_all
  ultimately show ?thesis
    by (intro exI [of _ t] exI [of _ random] exI [of _ adr'] exI [of _ v] exI [of _ f] exI [of _ u])
      (use a(1,3) v s'(1) in simp)
qed

section \<open>Example\<close>

definition sample_authenticator :: webauthn where
  "sample_authenticator = \<lparr>wa_to_bytes = (\<lambda>j. case j of JStr s \<Rightarrow> Some s | _ \<Rightarrow> None), wa_from_bytes = (\<lambda>b. b),
     verify_registration_response = (\<lambda>p c rp org uv.
       if p = JStr c then Some \<lparr>v_credential_id = ''k'' @ c, v_public_key = ''pub'', v_sign_count = 0, v_aaguid = [],
         v_fmt = ''none'', v_user_verified = True, v_device_type = ''single_device'', v_backed_up = False\<rparr> else None),
     registration_flags = (\<lambda>_. Ret \<lparr>fl_up = True, fl_uv = True, fl_be = False, fl_bs = False\<rparr>),
     verify_authentication_response = (\<lambda>p c rp org pk n uv. None),
     authentication_flags = (\<lambda>_. Exn OtherError)\<rparr>"

definition sample_passkey_env :: "(string, sval) dict passkey_env" where
  "sample_passkey_env = \<lparr>py_pages = sample_pages, py_wa = \<lparr>ws_lib = sample_authenticator, rp_id_cfg = None,
     ws_hostname = ''x.io'', url_root = ''https://x.io/'', py_str = (\<lambda>v. [])\<rparr>\<rparr>"

definition sample_passkey_ops :: "passkey_op list" where
  "sample_passkey_ops = [Pk_options 10 ''r1'' ''c'' ''Max@x.io'', Elsewhere (Rest (DomainDelete ''y.io''))]"

definition sample_registration :: payload where
  "sample_registration = [(''request_id'', JStr ''r1''), (''name'', JStr '' key ''), (''credential'', JStr ''c'')]"

theorem api_registration_asked_for_witness:
  "\<exists>k s' ps'. passkey_call sample_passkey_env (Pk_post 310 ''max@x.io'' sample_registration)
       (foldl (passkey_step sample_passkey_env) (Admin_System.sample_site, []) sample_passkey_ops) = (Passkey_made k, s', ps')
     \<and> pk_name k = ''key'' \<and> pk_user k = ''max@x.io'' \<and> dict_get ps' ''r1'' = None"
proof -
  let ?st = "foldl (passkey_step sample_passkey_env) (Admin_System.sample_site, []) sample_passkey_ops"
  let ?r = "passkey_call sample_passkey_env (Pk_post 310 ''max@x.io'' sample_registration) ?st"
  have "(case fst ?r of Passkey_made k \<Rightarrow> pk_name k = ''key'' \<and> pk_user k = ''max@x.io'' | _ \<Rightarrow> False)" by code_simp
  then obtain k where k: "fst ?r = Passkey_made k" "pk_name k = ''key''" "pk_user k = ''max@x.io''"
    by (cases "fst ?r") auto
  obtain s ps s' ps' where s: "?st = (s, ps)" "snd ?r = (s', ps')" by fastforce
  then have r: "passkey_call sample_passkey_env (Pk_post 310 ''max@x.io'' sample_registration) (s, ps) = (Passkey_made k, s', ps')"
    using k(1) by (metis prod.collapse)
  have "the (str_arg sample_registration ''request_id'') = ''r1''" by code_simp
  with api_registration_asked_for [OF s(1) r] have "dict_get ps' ''r1'' = None" by auto
  then show ?thesis using k s r by auto
qed

end
