(* ===== verification/Signup_Views.thy ===== *)
theory Signup_Views
  imports Login_Views Pages_Machine
begin

text \<open>
  Changing a password and signing up: the password pages and the public sign-up
  (\<open>ui/views/users.py\<close>), its continuation with a passkey (\<open>sso/views/passkeys.py\<close>), and the
  sign-up of a domain (\<open>ui/views/domains.py\<close>).

  State and answers are those of the sign-in pages.  The record \<open>signup_env\<close> adds the environment of
  the administration pages, the settings of the sign-up, the MX check, and two facts about SQLAlchemy:
  \<open>sn_backref\<close>, whether a new user row counts among the users of its domain before it is written (the
  backref of the relation does that), and \<open>sn_early\<close>, whether the foreign key of the row, and so its
  address, is set before it is written (it is set by the flush).  A form is given when it was posted
  with a valid CSRF token; times are integers.
\<close>

section \<open>Environment\<close>

record 's signup_env =
  sn_web :: "'s web_env"
  sn_pages :: "'s page_env"
  sn_default_quota :: int
  sn_registration :: bool
  sn_check_mx :: "string \<Rightarrow> bool"
  sn_signup_url :: "string \<Rightarrow> string"
  sn_backref :: bool
  sn_early :: bool

definition current_user :: "'s web_env \<Rightarrow> 's web \<Rightarrow> user option outcome" where
  "current_user e w = (case w_user w of None \<Rightarrow> Ret None | Some m \<Rightarrow> get_user (we_enc e) (w_db w) m)"

text \<open>Whoever is not signed in is sent to the login page, which leads back.\<close>

definition handle_needs_login :: "'s web_env \<Rightarrow> request \<Rightarrow> string \<Rightarrow> 's web \<Rightarrow> answer \<times> 's web" where
  "handle_needs_login e rq full_path w =
     (Redirect (we_url_for e ''sso.login''),
      w\<lparr>w_session := snd (remember (we_site e) (rq_now rq) (JStr full_path) (w_session w))\<rparr>)"

section \<open>Changing a password\<close>

record pw_form =
  pf_current :: string
  pf_pw :: string
  pf_pw2 :: string
  pf_pwned :: string

text \<open>The own password needs the current one; only there are surrounding blanks refused.\<close>

definition pw_form_ok :: "forms_lib \<Rightarrow> bool \<Rightarrow> pw_form \<Rightarrow> bool" where
  "pw_form_ok L own f \<longleftrightarrow> fl_required L (pf_pw f) \<and> fl_required L (pf_pw2 f)
     \<and> (own \<longrightarrow> fl_required L (pf_current f) \<and> strip_str (pf_pw f) = pf_pw f)"

text \<open>The change itself, after the new password was accepted for the row \<open>v\<close>.\<close>

definition store_password ::
  "'s signup_env \<Rightarrow> request \<Rightarrow> bool \<Rightarrow> user \<Rightarrow> string \<Rightarrow> 's web \<Rightarrow> answer \<times> 's web" where
  "store_password e rq own v pw w =
     (case set_password (we_store (sn_web e)) (we_sessions (sn_web e)) (we_crypto (sn_web e)) (rq_now rq) False
             (Some (set (dict_keys (w_session w)))) True v pw (w_db w, w_store w) of
        (d', st') \<Rightarrow>
          ((if own then Page else Redirect (we_url_for (sn_web e) ''.user_list'')),
           flash ''message'' (''Password updated for '' @ email v)
             (w\<lparr>w_db := d', w_store := st', w_new_key := True\<rparr>)))"

definition process_password_change ::
  "'s signup_env \<Rightarrow> request \<Rightarrow> bool \<Rightarrow> string \<Rightarrow> pw_form option \<Rightarrow> 's web \<times> cache \<Rightarrow> answer \<times> 's web \<times> cache" where
  "process_password_change e rq own who form s =
     (case s of (w, cache) \<Rightarrow>
        case get_user (we_enc (sn_web e)) (w_db w) who of
          Exn x \<Rightarrow> (Server_error, s)
        | Ret None \<Rightarrow> (Abort 404, s)
        | Ret (Some u) \<Rightarrow>
            if is_demo_account u then (Page, s)
            else if passkeys_of (w_db w) u \<noteq> [] \<or> passkey_required (we_site (sn_web e)) then
              (Redirect (we_url_for (sn_web e) ''.passkey_list''),
               flash ''info'' ''Password sign-in is disabled because passkeys are required.'' w, cache)
            else (case form of
              None \<Rightarrow> (Page, s)
            | Some f \<Rightarrow>
                if \<not> pw_form_ok (pe_forms (sn_pages e)) own f then (Page, s)
                else if pf_pw f \<noteq> pf_pw2 f then (Page, flash ''error'' ''Passwords do not match'' w, cache)
                else (case (if own then user_login (we_enc (sn_web e)) (we_crypto (sn_web e))
                                  (passkey_required (we_site (sn_web e))) who (pf_current f)
                                  \<lparr>a_db = w_db w, a_cache = cache\<rparr>
                            else Ret (Some u, \<lparr>a_db = w_db w, a_cache = cache\<rparr>)) of
                  Exn x \<Rightarrow> (Server_error, s)
                | Ret (None, st) \<Rightarrow>
                    (Page, flash ''error'' ''Wrong current password'' (w\<lparr>w_db := a_db st\<rparr>), a_cache st)
                | Ret (Some v, st) \<Rightarrow>
                    (case isBadOrPwned (Some (pf_pw f)) (Some (pf_pwned f)) of
                       Exn x \<Rightarrow> (Server_error, w\<lparr>w_db := a_db st\<rparr>, a_cache st)
                     | Ret (Some msg) \<Rightarrow> (Page, flash ''error'' msg (w\<lparr>w_db := a_db st\<rparr>), a_cache st)
                     | Ret None \<Rightarrow>
                         (case store_password e rq own v (pf_pw f) (w\<lparr>w_db := a_db st\<rparr>) of
                            (a, w') \<Rightarrow> (a, w', a_cache st))))))"

text \<open>The two routes with their guards.\<close>

definition user_password_change ::
  "'s signup_env \<Rightarrow> request \<Rightarrow> string \<Rightarrow> pw_form option \<Rightarrow> 's web \<times> cache \<Rightarrow> answer \<times> 's web \<times> cache" where
  "user_password_change e rq full_path form s =
     (case s of (w, cache) \<Rightarrow>
        case current_user (sn_web e) w of
          Exn x \<Rightarrow> (Server_error, s)
        | Ret cur \<Rightarrow>
            (case permissions_wrapper cur (owner (w_db w) True None) of
               Login_redirect \<Rightarrow> (case handle_needs_login (sn_web e) rq full_path w of (a, w') \<Rightarrow> (a, w', cache))
             | Denied n \<Rightarrow> (Abort n, s)
             | Allowed \<Rightarrow> process_password_change e rq True (email (the cur)) form s))"

definition user_password ::
  "'s signup_env \<Rightarrow> request \<Rightarrow> string \<Rightarrow> string \<Rightarrow> pw_form option \<Rightarrow> 's web \<times> cache \<Rightarrow> answer \<times> 's web \<times> cache" where
  "user_password e rq full_path who form s =
     (case s of (w, cache) \<Rightarrow>
        case current_user (sn_web e) w of
          Exn x \<Rightarrow> (Server_error, s)
        | Ret None \<Rightarrow> (case handle_needs_login (sn_web e) rq full_path w of (a, w') \<Rightarrow> (a, w', cache))
        | Ret (Some cur) \<Rightarrow>
            (case get_user (we_enc (sn_web e)) (w_db w) who of
               Exn x \<Rightarrow> (Server_error, s)
             | Ret r \<Rightarrow>
                 (case permissions_wrapper (Some cur) (domain_admin (w_db w) (map_option User_row r)) of
                    Allowed \<Rightarrow> process_password_change e rq False who form s
                  | Denied n \<Rightarrow> (Abort n, s)
                  | Login_redirect \<Rightarrow> (Abort 403, s))))"

section \<open>Signing up\<close>

record signup_form =
  sf_localpart :: string
  sf_pw :: string
  sf_pw2 :: string
  sf_pwned :: string
  sf_captcha_ok :: bool

definition signup_form_ok :: "'s page_env \<Rightarrow> bool \<Rightarrow> signup_form \<Rightarrow> bool" where
  "signup_form_ok e passkey f \<longleftrightarrow>
     fl_required (pe_forms e) (sf_localpart f) \<and> is_valid_localpart (ap_valid_address (pe_api e)) (sf_localpart f)
     \<and> sf_captcha_ok f
     \<and> (passkey \<or> fl_required (pe_forms e) (sf_pw f) \<and> strip_str (sf_pw f) = sf_pw f \<and> sf_pw2 f = sf_pw f)"

definition available_domains :: "db \<Rightarrow> domain list" where
  "available_domains d =
     filter (\<lambda>dm. signup_enabled dm \<and> (max_users dm = -1 \<or> int (length (domain_users d dm)) < max_users dm)) (domains d)"

definition signup_method :: "bool \<Rightarrow> string option \<Rightarrow> string" where
  "signup_method required requested =
     (if required then ''passkey''
      else (case requested of None \<Rightarrow> ''passkey''
            | Some m \<Rightarrow> if m \<in> {''password'', ''passkey''} then m else ''passkey''))"

text \<open>What the continuation with a passkey keeps in the session.\<close>

definition pending_signup :: "'s signup_env \<Rightarrow> request \<Rightarrow> string \<Rightarrow> domain \<Rightarrow> int \<Rightarrow> json" where
  "pending_signup e rq lp dm quota =
     JObj [(''token_hash'', JStr (we_sha256_hex (sn_web e) (rq_random rq))),
           (''email'', JStr (lower (lp @ ''@'' @ domain_name dm))),
           (''domain_name'', JStr (domain_name dm)),
           (''quota_bytes'', JInt quota),
           (''expires_at'', JInt (rq_now rq + we_setup_ttl (sn_web e)))]"

text \<open>A commit, with the answers to success, to a row that is taken, and to any other failure.\<close>

definition write_rows ::
  "'s signup_env \<Rightarrow> db \<Rightarrow> answer \<times> 's web \<Rightarrow> answer \<times> 's web \<Rightarrow> answer \<times> 's web \<Rightarrow> answer \<times> 's web" where
  "write_rows e d' done taken failed =
     (if \<not> keys_unique (pe_enc (sn_pages e)) d' then taken else if integers_fit d' then done else failed)"

definition sign_up_with_password ::
  "'s signup_env \<Rightarrow> signup_form \<Rightarrow> domain \<Rightarrow> int \<Rightarrow> 's web \<Rightarrow> answer \<times> 's web" where
  "sign_up_with_password e f dm quota w =
     (let d = w_db w; api = pe_api (sn_pages e); w1 = w\<lparr>w_new_key := True\<rparr>; lp = lower (sf_localpart f);
          u = (new_user api lp (domain_name dm))\<lparr>change_pw_next_login := True,
                 password := cr_hash (we_crypto (sn_web e)) (sf_pw f), quota_bytes := quota\<rparr>;
          d' = d\<lparr>users := users d @ [u]\<rparr>
      in if \<not> is_valid_localpart (ap_valid_address api) lp \<or> bind_email (ap_enc api) (email u) = None
         then (Server_error, w1)
         else write_rows e d'
           (Redirect (we_url_for (sn_web e) ''.index''),
            flash ''message'' (''Successfully signed up '' @ email u) (w1\<lparr>w_db := d'\<rparr>))
           (Server_error, w1) (Server_error, w1))"

definition user_signup ::
  "'s signup_env \<Rightarrow> request \<Rightarrow> string option \<Rightarrow> string option \<Rightarrow> signup_form option \<Rightarrow> 's web \<Rightarrow> answer \<times> 's web" where
  "user_signup e rq name requested form w0 =
     (let d = w_db w0; open = available_domains d; api = pe_api (sn_pages e);
          w = (if open = [] then flash ''message'' ''No domain available for registration'' w0 else w0)
      in case name of
           None \<Rightarrow> (Page, w)
         | Some n \<Rightarrow>
             (case find (\<lambda>dm. domain_name dm = n) open of
                None \<Rightarrow> (Abort 404, w)
              | Some dm \<Rightarrow>
                  (let quota = (if max_quota_bytes dm = 0 then sn_default_quota e else max_quota_bytes dm);
                       passkey = (signup_method (passkey_required (we_site (sn_web e))) requested = ''passkey'')
                   in case form of
                        None \<Rightarrow> (Page, w)
                      | Some f \<Rightarrow>
                          if \<not> signup_form_ok (sn_pages e) passkey f then (Page, w)
                          else (case (if has_email d dm (sf_localpart f) then Ret True
                                      else bind_out (alias_resolve (ap_enc api) (pe_fold_case (sn_pages e)) d
                                                       (Some (sf_localpart f)) n) (\<lambda>a. Ret (a \<noteq> None))) of
                            Exn x \<Rightarrow> (Server_error, w)
                          | Ret True \<Rightarrow> (Page, flash ''error'' ''Email is already used'' w)
                          | Ret False \<Rightarrow>
                              if passkey then
                                (Redirect (sn_signup_url e (rq_random rq)),
                                 set_item_in ''pending_passkey_signup'' (pending_signup e rq (sf_localpart f) dm quota)
                                   (w\<lparr>w_new_key := True\<rparr>))
                              else (case isBadOrPwned (Some (sf_pw f)) (Some (sf_pwned f)) of
                                Exn x \<Rightarrow> (Server_error, w)
                              | Ret (Some msg) \<Rightarrow> (Page, flash ''error'' msg w)
                              | Ret None \<Rightarrow> sign_up_with_password e f dm quota w)))))"

section \<open>Signing up with a passkey\<close>

text \<open>The new row a pending sign-up stands for, with its domain.  None: there is no such sign-up.\<close>

definition pending_row :: "'s signup_env \<Rightarrow> (string, json) dict \<Rightarrow> domain \<Rightarrow> user option outcome" where
  "pending_row e st dm =
     (case dict_get st ''email'' of
        None \<Rightarrow> Ret None
      | Some (JStr a) \<Rightarrow>
          (case rcut CHR ''@'' a of
             None \<Rightarrow> Ret None
           | Some (lp, dn) \<Rightarrow>
               if dn \<noteq> domain_name dm then Ret None
               else if \<not> is_valid_localpart (ap_valid_address (pe_api (sn_pages e))) (lower lp) then Exn ValueError
               else (case get_default st ''quota_bytes'' JNull of
                 JInt q \<Rightarrow> Ret (Some ((new_user (pe_api (sn_pages e)) (lower lp) (domain_name dm))\<lparr>quota_bytes := q\<rparr>))
               | _ \<Rightarrow> Exn KeyError))
      | Some _ \<Rightarrow> Exn AttributeError)"

definition pending_passkey_signup ::
  "'s signup_env \<Rightarrow> int \<Rightarrow> string \<Rightarrow> 's web \<Rightarrow> ((string, json) dict \<times> domain \<times> user) option outcome" where
  "pending_passkey_signup e now raw w =
     (case get_default (w_session w) ''pending_passkey_signup'' JNull of
        JObj st \<Rightarrow>
          (case (get_default st ''token_hash'' (JStr []), get_default st ''expires_at'' (JInt 0)) of
             (JStr h, JInt until) \<Rightarrow>
               if st = [] \<or> h \<noteq> we_sha256_hex (sn_web e) raw \<or> until \<le> now then Ret None
               else (case get_default st ''domain_name'' JNull of
                 JStr dn \<Rightarrow>
                   bind_out (get_domain (pe_enc (sn_pages e)) (w_db w) dn) (\<lambda>r. case r of
                     None \<Rightarrow> Ret None
                   | Some dm \<Rightarrow>
                       if signup_enabled dm
                       then bind_out (pending_row e st dm) (\<lambda>u. Ret (map_option (\<lambda>u. (st, dm, u)) u))
                       else Ret None)
               | _ \<Rightarrow> Exn StatementError)
           | _ \<Rightarrow> Exn TypeError)
      | v \<Rightarrow> (if truthy v then Exn AttributeError else Ret None))"

text \<open>The rows as the session of the database sees them once the new row refers to its domain.\<close>

definition rows_with :: "'s signup_env \<Rightarrow> db \<Rightarrow> user \<Rightarrow> db" where
  "rows_with e d u = (if sn_backref e then d\<lparr>users := users d @ [u]\<rparr> else d)"

definition signup_address_conflict :: "'s signup_env \<Rightarrow> db \<Rightarrow> domain \<Rightarrow> user \<Rightarrow> bool outcome" where
  "signup_address_conflict e d dm u =
     (let d' = rows_with e d u in
      if has_email d' dm (localpart u) then Ret True
      else bind_out (alias_resolve (pe_enc (sn_pages e)) (pe_fold_case (sn_pages e)) d (Some (localpart u)) (domain_name dm))
        (\<lambda>a. Ret (a \<noteq> None \<or> max_users dm \<noteq> -1 \<and> int (length (domain_users d' dm)) \<ge> max_users dm)))"

definition passkey_signup :: "'s signup_env \<Rightarrow> request \<Rightarrow> string \<Rightarrow> 's web \<Rightarrow> answer \<times> 's web" where
  "passkey_signup e rq raw w =
     (case pending_passkey_signup e (rq_now rq) raw w of
        Exn x \<Rightarrow> (Server_error, w)
      | Ret None \<Rightarrow> (Abort 404, w)
      | Ret (Some (st, dm, u)) \<Rightarrow>
          (case signup_address_conflict e (w_db w) dm u of
             Exn x \<Rightarrow> (Server_error, w)
           | Ret True \<Rightarrow>
               (Redirect (we_url_for (sn_web e) ''ui.user_signup''),
                flash ''error'' ''That email address is no longer available. Start signup again with a different address.''
                  (snd (pop_item ''pending_passkey_signup'' w)))
           | Ret False \<Rightarrow> (Page, w)))"

text \<open>The options are made from the address of the new row, which raises while that is None.\<close>

definition signup_options ::
  "'s signup_env \<Rightarrow> db \<Rightarrow> user \<Rightarrow> (string list \<times> string \<times> bool \<times> bool) outcome" where
  "signup_options e d u = (if sn_early e then Ret (registration_options d u) else Exn AttributeError)"

definition passkey_signup_options :: "'s signup_env \<Rightarrow> request \<Rightarrow> string \<Rightarrow> 's web \<Rightarrow> answer \<times> 's web" where
  "passkey_signup_options e rq raw w =
     (if \<not> rq_csrf_ok rq then (Json_error 400, w)
      else (case pending_passkey_signup e (rq_now rq) raw w of
        Exn x \<Rightarrow> (Server_error, w)
      | Ret None \<Rightarrow> (Json_error 410, w)
      | Ret (Some (st, dm, u)) \<Rightarrow>
          (case signup_address_conflict e (w_db w) dm u of
             Exn x \<Rightarrow> (Server_error, w)
           | Ret True \<Rightarrow> (Json_error 409, snd (pop_item ''pending_passkey_signup'' w))
           | Ret False \<Rightarrow>
               (case signup_options e (w_db w) u of
                  Exn x \<Rightarrow> (Server_error, w)
                | Ret opts \<Rightarrow>
                    (let ch = wa_from_bytes (ws_lib (we_wa (sn_web e))) (rq_random rq) in
                     (Registration_options opts ch,
                      set_item_in ''passkey_signup_challenge'' (JStr ch)
                        (set_item_in ''passkey_signup_hash'' (get_default st ''token_hash'' JNull) w)))))))"

text \<open>The registration once the request matches the sign-up, and the whole handler.\<close>

definition finish_passkey_signup ::
  "'s signup_env \<Rightarrow> request \<Rightarrow> string \<Rightarrow> domain \<Rightarrow> user \<Rightarrow> 's web \<Rightarrow> answer \<times> 's web" where
  "finish_passkey_signup e rq ch dm u w =
     (let gone = (Json_error 409, snd (pop_item ''pending_passkey_signup'' w)) in
      case signup_address_conflict e (w_db w) dm u of
        Exn x \<Rightarrow> (Server_error, w)
      | Ret True \<Rightarrow> gone
      | Ret False \<Rightarrow>
          (case register_credential (we_wa (sn_web e)) (w_db w) u (body_of rq) ch of
             Exn x \<Rightarrow> (Server_error, w)
           | Ret (Inl err) \<Rightarrow> (Json_error (re_status err), w)
           | Ret (Inr (k, u')) \<Rightarrow>
               (let v = u'\<lparr>password := cr_hash (we_crypto (sn_web e)) (rq_random rq), change_pw_next_login := False\<rparr>;
                    d = w_db w; d' = d\<lparr>users := users d @ [v], passkeys := passkeys d @ [k]\<rparr>
                in if bind_email (pe_enc (sn_pages e)) (email v) = None then (Server_error, w)
                   else write_rows e d'
                     (Json_ok (Some (we_url_for (sn_web e) ''sso.login'')),
                      flash ''success'' ''Your account is ready. You can now sign in with your passkey.''
                        (logout_and_clear (w\<lparr>w_db := d'\<rparr>)))
                     gone (Server_error, w))))"

definition passkey_signup_register :: "'s signup_env \<Rightarrow> request \<Rightarrow> string \<Rightarrow> 's web \<Rightarrow> answer \<times> 's web" where
  "passkey_signup_register e rq raw w =
     (if \<not> rq_csrf_ok rq then (Json_error 400, w)
      else (case pending_passkey_signup e (rq_now rq) raw w of
        Exn x \<Rightarrow> (Server_error, w)
      | Ret pend \<Rightarrow>
          (let (challenge, w1) = pop_item ''passkey_signup_challenge'' w;
               (session_hash, w2) = pop_item ''passkey_signup_hash'' w1
           in case (pend, challenge) of
                (Some (st, dm, u), JStr ch) \<Rightarrow>
                  if session_hash \<noteq> get_default st ''token_hash'' JNull \<or> ch = [] \<or> \<not> truthy (body_of rq)
                  then (Json_error 410, w2)
                  else finish_passkey_signup e rq ch dm u w2
              | _ \<Rightarrow> (Json_error 410, w2))))"

section \<open>Signing up a domain\<close>

record domain_signup_form =
  df_name :: string
  df_localpart :: string
  df_pw :: string
  df_pw2 :: string
  df_pwned :: string
  df_captcha_ok :: bool

text \<open>A signed-in user gets a form without the fields of the account; the code that checks the
  password then finds no field, and raises AttributeError.\<close>

definition domain_signup_form_ok :: "'s page_env \<Rightarrow> bool \<Rightarrow> domain_signup_form \<Rightarrow> bool" where
  "domain_signup_form_ok e logged_in f \<longleftrightarrow>
     fl_required (pe_forms e) (df_name f) \<and> df_captcha_ok f
     \<and> (logged_in \<or> fl_required (pe_forms e) (df_localpart f)
          \<and> is_valid_localpart (ap_valid_address (pe_api e)) (df_localpart f)
          \<and> fl_required (pe_forms e) (df_pw f) \<and> strip_str (df_pw f) = df_pw f \<and> df_pw2 f = df_pw f)"

definition signup_password_check :: "bool \<Rightarrow> domain_signup_form \<Rightarrow> string option outcome" where
  "signup_password_check logged_in f =
     (if logged_in then Exn AttributeError else isBadOrPwned (Some (df_pw f)) (Some (df_pwned f)))"

definition domain_signup ::
  "'s signup_env \<Rightarrow> domain_signup_form option \<Rightarrow> 's web \<Rightarrow> answer \<times> 's web" where
  "domain_signup e form w =
     (let d = w_db w; api = pe_api (sn_pages e) in
      if \<not> sn_registration e then (Abort 403, w)
      else (case (current_user (sn_web e) w, form) of
        (Exn x, _) \<Rightarrow> (Server_error, w)
      | (Ret cur, None) \<Rightarrow> (Page, w)
      | (Ret cur, Some f) \<Rightarrow>
          if \<not> domain_signup_form_ok (sn_pages e) (cur \<noteq> None) f then (Page, w)
          else (case signup_password_check (cur \<noteq> None) f of
            Exn x \<Rightarrow> (Server_error, w)
          | Ret (Some msg) \<Rightarrow> (Page, flash ''error'' msg w)
          | Ret None \<Rightarrow>
              (case conflicting (sn_pages e) d (df_name f) of
                 Exn x \<Rightarrow> (Server_error, w)
               | Ret True \<Rightarrow> (Page, flash ''error'' (''Domain '' @ df_name f @ '' is already used'') w)
               | Ret False \<Rightarrow>
                   if \<not> sn_check_mx e (df_name f) then
                     (Page, flash ''error'' ''The MX record was not properly set'' w)
                   else (case stored_domain api (df_name f) of
                     None \<Rightarrow> (Server_error, w)
                   | Some n \<Rightarrow>
                       (let dm = (new_domain n)\<lparr>max_quota_bytes := sn_default_quota e, max_users := 10, max_aliases := 10\<rparr>;
                            lp = lower (df_localpart f);
                            u = (new_user api lp n)\<lparr>password := cr_hash (we_crypto (sn_web e)) (df_pw f),
                                   quota_bytes := sn_default_quota e\<rparr>;
                            (us, mgr) = (case cur of Some v \<Rightarrow> (users d, email v) | None \<Rightarrow> (users d @ [u], email u));
                            d' = d\<lparr>domains := domains d @ [dm], users := us, managers := managers d @ [(n, mgr)]\<rparr>
                        in if cur = None \<and> (\<not> is_valid_localpart (ap_valid_address api) lp \<or> bind_email (ap_enc api) (email u) = None)
                           then (Server_error, w)
                           else write_rows e d'
                             (Redirect (we_url_for (sn_web e) ''.domain_list''),
                              flash ''message'' (''Domain '' @ df_name f @ '' created'') (w\<lparr>w_db := d'\<rparr>))
                             (Server_error, w) (Server_error, w)))))))"

end
