(* ===== verification/Signup_Machine.thy ===== *)
theory Signup_Machine
  imports Signup_Views Admin_System
begin

text \<open>
  What signing up can do to the rows (\<open>Signup_Views\<close>): the accounts and domains it adds, why the
  sign-up by passkey never ends with an account, and the invariant of the rows when visitors sign up
  while the administration interfaces (\<open>Admin_System\<close>) act on the same database.
\<close>

section \<open>A page either keeps the rows or changes them as allowed\<close>

definition grows :: "(db \<Rightarrow> db \<Rightarrow> bool) \<Rightarrow> 's web \<Rightarrow> answer \<times> 's web \<Rightarrow> bool" where
  "grows P w r \<longleftrightarrow> w_db (snd r) = w_db w \<or> P (w_db w) (w_db (snd r))"

lemma grows_same: "w_db w' = w_db w \<Longrightarrow> grows P w (a, w')"
  by (simp add: grows_def)

lemma grows_if: "\<lbrakk>b \<Longrightarrow> grows P w x; \<not> b \<Longrightarrow> grows P w y\<rbrakk> \<Longrightarrow> grows P w (if b then x else y)"
  by simp

lemma grows_option:
  "\<lbrakk>v = None \<Longrightarrow> grows P w x; \<And>z. v = Some z \<Longrightarrow> grows P w (f z)\<rbrakk>
   \<Longrightarrow> grows P w (case v of None \<Rightarrow> x | Some z \<Rightarrow> f z)"
  by (cases v) simp_all

lemma grows_outcome:
  "\<lbrakk>\<And>x. v = Exn x \<Longrightarrow> grows P w (g x); \<And>z. v = Ret z \<Longrightarrow> grows P w (f z)\<rbrakk>
   \<Longrightarrow> grows P w (case v of Exn x \<Rightarrow> g x | Ret z \<Rightarrow> f z)"
  by (cases v) simp_all

lemma grows_bool:
  "\<lbrakk>v \<Longrightarrow> grows P w x; \<not> v \<Longrightarrow> grows P w y\<rbrakk> \<Longrightarrow> grows P w (case v of True \<Rightarrow> x | False \<Rightarrow> y)"
  by (cases v) simp_all

lemma grows_write:
  assumes "w_db (snd taken) = w_db w" "w_db (snd failed) = w_db w" "w_db (snd ok) = d'"
    and "\<lbrakk>keys_unique (pe_enc (sn_pages e)) d'; integers_fit d'\<rbrakk> \<Longrightarrow> P (w_db w) d'"
  shows "grows P w (write_rows e d' ok taken failed)"
  using assms by (auto simp: grows_def write_rows_def)

lemmas grows_rules = grows_if grows_option grows_outcome grows_bool

lemma web_frame [simp]:
  "w_db (set_item_in k v w) = w_db w" "w_db (logout_and_clear w) = w_db w"
  by (simp_all add: set_item_in_def logout_and_clear_def)

section \<open>New accounts\<close>

definition account_added :: "'s signup_env \<Rightarrow> db \<Rightarrow> db \<Rightarrow> bool" where
  "account_added e d d' \<longleftrightarrow>
     (\<exists>dm z lp ks. dm \<in> set (domains d) \<and> signup_enabled dm
        \<and> (max_users dm = -1 \<or> int (length (domain_users d dm)) < max_users dm)
        \<and> \<not> has_email d dm lp
        \<and> alias_resolve (pe_enc (sn_pages e)) (pe_fold_case (sn_pages e)) d (Some lp) (domain_name dm) = Ret None
        \<and> localpart z = lower lp \<and> user_domain z = domain_name dm \<and> email z = lower lp @ ''@'' @ domain_name dm
        \<and> is_valid_localpart (ap_valid_address (pe_api (sn_pages e))) (lower lp)
        \<and> bind_email (pe_enc (sn_pages e)) (email z) \<noteq> None \<and> \<not> global_admin z
        \<and> (ks = [] \<and> change_pw_next_login z \<or> (\<exists>k. ks = [k] \<and> pk_user k = email z))
        \<and> d' = d\<lparr>users := users d @ [z], passkeys := passkeys d @ ks\<rparr>
        \<and> keys_unique (pe_enc (sn_pages e)) d' \<and> integers_fit d')"

lemma available_open:
  "find P (available_domains d) = Some dm \<Longrightarrow> dm \<in> set (domains d) \<and> signup_enabled dm
     \<and> (max_users dm = -1 \<or> int (length (domain_users d dm)) < max_users dm) \<and> P dm"
  by (auto simp: available_domains_def find_Some_iff dest: nth_mem)

lemma address_free:
  assumes "(if has_email d dm lp then Ret True
            else bind_out (alias_resolve enc ci d (Some lp) n) (\<lambda>a. Ret (a \<noteq> None))) = Ret used" "\<not> used"
  shows "\<not> has_email d dm lp \<and> alias_resolve enc ci d (Some lp) n = Ret None"
  using assms by (auto split: if_splits bind_splits)

lemma sign_up_grows:
  assumes "dm \<in> set (domains d)" "signup_enabled dm" "max_users dm = -1 \<or> int (length (domain_users d dm)) < max_users dm"
    and "\<not> has_email d dm (sf_localpart f)"
    and "alias_resolve (pe_enc (sn_pages e)) (pe_fold_case (sn_pages e)) d (Some (sf_localpart f)) (domain_name dm) = Ret None"
    and "w_db w = d"
  shows "grows (account_added e) w (sign_up_with_password e f dm quota w)"
proof -
  let ?lp = "lower (sf_localpart f)"
  let ?z = "(new_user (pe_api (sn_pages e)) ?lp (domain_name dm))\<lparr>change_pw_next_login := True,
     password := cr_hash (we_crypto (sn_web e)) (sf_pw f), quota_bytes := quota\<rparr>"
  have "account_added e d (d\<lparr>users := users d @ [?z]\<rparr>)"
    if "is_valid_localpart (ap_valid_address (pe_api (sn_pages e))) ?lp" "bind_email (ap_enc (pe_api (sn_pages e))) (email ?z) \<noteq> None"
      "keys_unique (pe_enc (sn_pages e)) (d\<lparr>users := users d @ [?z]\<rparr>)" "integers_fit (d\<lparr>users := users d @ [?z]\<rparr>)"
    unfolding account_added_def
    by (rule exI [of _ dm], rule exI [of _ ?z], rule exI [of _ "sf_localpart f"], rule exI [of _ "[]"])
      (use assms(1-5) that in \<open>simp add: new_user_def pe_enc_def\<close>)
  then show ?thesis
    unfolding sign_up_with_password_def Let_def
    by (intro grows_if grows_write grows_same) (simp_all add: assms(6) pe_enc_def)
qed

lemma user_signup_grows: "grows (account_added e) w (user_signup e rq name requested form w)"
  unfolding user_signup_def Let_def
proof (intro grows_rules grows_same)
  fix n and dm :: domain and f :: signup_form and used
  let ?d = "w_db w"
  let ?w = "if available_domains ?d = [] then flash ''message'' ''No domain available for registration'' w else w"
  assume dm: "find (\<lambda>dm. domain_name dm = n) (available_domains ?d) = Some dm"
    and free: "(if has_email ?d dm (sf_localpart f) then Ret True
       else bind_out (alias_resolve (ap_enc (pe_api (sn_pages e))) (pe_fold_case (sn_pages e)) ?d (Some (sf_localpart f)) n)
              (\<lambda>a. Ret (a \<noteq> None))) = Ret used" "\<not> used"
  have d: "w_db ?w = ?d" by simp
  have "grows (account_added e) ?w (sign_up_with_password e f dm
      (if max_quota_bytes dm = 0 then sn_default_quota e else max_quota_bytes dm) ?w)"
    by (rule sign_up_grows [OF _ _ _ _ _ d]) (use available_open [OF dm] address_free [OF free] in \<open>simp_all add: pe_enc_def\<close>)
  then show "grows (account_added e) w (sign_up_with_password e f dm
      (if max_quota_bytes dm = 0 then sn_default_quota e else max_quota_bytes dm) ?w)"
    by (simp add: grows_def d del: flash_frame)
qed simp_all

lemma pending_row_user:
  assumes "pending_row e st dm = Ret (Some u)"
  shows "user_domain u = domain_name dm \<and> lower (localpart u) = localpart u \<and> \<not> global_admin u
    \<and> is_valid_localpart (ap_valid_address (pe_api (sn_pages e))) (localpart u)
    \<and> email u = localpart u @ ''@'' @ domain_name dm"
proof -
  note a = assms [unfolded pending_row_def]
  obtain m where 1: "dict_get st ''email'' = Some (JStr m)"
    using a by (cases "dict_get st ''email''") (simp, rename_tac v, case_tac v, simp_all)
  obtain lp dn where 2: "rcut CHR ''@'' m = Some (lp, dn)"
    using a by (cases "rcut CHR ''@'' m") (auto simp: 1)
  obtain q where 3: "get_default st ''quota_bytes'' JNull = JInt q"
    using a by (cases "get_default st ''quota_bytes'' JNull") (simp_all add: 1 2 split: if_splits)
  show ?thesis using a by (auto simp: 1 2 3 new_user_def comp_def split: if_splits)
qed

lemma pending_signup_row:
  assumes "pending_passkey_signup e now raw w = Ret (Some (st, dm, u))"
  shows "dm \<in> set (domains (w_db w)) \<and> signup_enabled dm \<and> pending_row e st dm = Ret (Some u)"
proof -
  note a = assms [unfolded pending_passkey_signup_def]
  obtain s0 where 1: "get_default (w_session w) ''pending_passkey_signup'' JNull = JObj s0"
    using a by (cases "get_default (w_session w) ''pending_passkey_signup'' JNull") (simp_all split: if_splits)
  obtain h where 2: "get_default s0 ''token_hash'' (JStr []) = JStr h"
    using a by (cases "get_default s0 ''token_hash'' (JStr [])") (simp_all add: 1)
  obtain until where 3: "get_default s0 ''expires_at'' (JInt 0) = JInt until"
    using a by (cases "get_default s0 ''expires_at'' (JInt 0)") (simp_all add: 1 2)
  obtain dn where 4: "get_default s0 ''domain_name'' JNull = JStr dn"
    using a by (cases "get_default s0 ''domain_name'' JNull") (simp_all add: 1 2 3 split: if_splits)
  obtain r where 5: "get_domain (pe_enc (sn_pages e)) (w_db w) dn = Ret (Some r)"
    using a by (cases "get_domain (pe_enc (sn_pages e)) (w_db w) dn") (auto simp: 1 2 3 4 split: if_splits option.splits)
  have "(if signup_enabled r then bind_out (pending_row e s0 r) (\<lambda>u. Ret (map_option (\<lambda>u. (s0, r, u)) u)) else Ret None)
      = Ret (Some (st, dm, u))"
    using a by (simp only: 1 2 3 4 5 json.case option.case prod.case bind_out.simps split: if_split_asm) simp_all
  then show ?thesis using get_domain_mem [OF 5] by (auto split: if_splits)
qed

lemma has_email_with: "has_email d dm lp \<Longrightarrow> has_email (rows_with e d u) dm lp"
  by (auto simp: has_email_def rows_with_def domain_users_def domain_aliases_def)

lemma conflict_free:
  assumes "signup_address_conflict e d dm u = Ret used" "\<not> used"
  shows "\<not> has_email d dm (localpart u)
    \<and> alias_resolve (pe_enc (sn_pages e)) (pe_fold_case (sn_pages e)) d (Some (localpart u)) (domain_name dm) = Ret None
    \<and> (max_users dm = -1 \<or> int (length (domain_users d dm)) < max_users dm)"
proof -
  have "length (domain_users d dm) \<le> length (domain_users (rows_with e d u) dm)"
    by (simp add: rows_with_def domain_users_def)
  then show ?thesis using assms has_email_with [of d dm "localpart u" e u]
    by (auto simp: signup_address_conflict_def Let_def split: if_splits bind_splits)
qed

lemma registered_row:
  assumes "register_credential wa d u payload ch = Ret (Inr (k, u'))"
  shows "pk_user k = email u \<and> u' = u\<lparr>passkey_enroll_next_login := False\<rparr>"
  using assms unfolding register_credential_def Let_def
  by (auto simp: new_passkey_def split: option.splits bind_splits if_splits json.splits)

lemma grows_sum:
  "\<lbrakk>\<And>x. v = Inl x \<Longrightarrow> grows P w (g x); \<And>z. v = Inr z \<Longrightarrow> grows P w (f z)\<rbrakk>
   \<Longrightarrow> grows P w (case v of Inl x \<Rightarrow> g x | Inr z \<Rightarrow> f z)"
  by (cases v) simp_all

lemma grows_pair: "(\<And>x y. v = (x, y) \<Longrightarrow> grows P w (f x y)) \<Longrightarrow> grows P w (case v of (x, y) \<Rightarrow> f x y)"
  by (cases v) simp

lemma finish_signup_grows:
  assumes "dm \<in> set (domains (w_db w))" "signup_enabled dm" "pending_row e st dm = Ret (Some u)"
  shows "grows (account_added e) w (finish_passkey_signup e rq ch dm u w)"
  unfolding finish_passkey_signup_def Let_def
proof (intro grows_rules grows_sum grows_pair grows_write grows_same)
  fix used r z k and u' :: user
  let ?v = "u'\<lparr>password := cr_hash (we_crypto (sn_web e)) (rq_random rq), change_pw_next_login := False\<rparr>"
  assume c: "signup_address_conflict e (w_db w) dm u = Ret used" "\<not> used"
    and r: "register_credential (we_wa (sn_web e)) (w_db w) u (body_of rq) ch = Ret r" "r = Inr z" "z = (k, u')"
    and k: "bind_email (pe_enc (sn_pages e)) (email ?v) \<noteq> None"
    and ok: "keys_unique (pe_enc (sn_pages e)) (w_db w\<lparr>users := users (w_db w) @ [?v], passkeys := passkeys (w_db w) @ [k]\<rparr>)"
      "integers_fit (w_db w\<lparr>users := users (w_db w) @ [?v], passkeys := passkeys (w_db w) @ [k]\<rparr>)"
  show "account_added e (w_db w) (w_db w\<lparr>users := users (w_db w) @ [?v], passkeys := passkeys (w_db w) @ [k]\<rparr>)"
    unfolding account_added_def
    by (rule exI [of _ dm], rule exI [of _ ?v], rule exI [of _ "localpart u"], rule exI [of _ "[k]"])
      (use assms pending_row_user [OF assms(3)] conflict_free [OF c] registered_row [of "we_wa (sn_web e)" "w_db w" u "body_of rq" ch k u']
         r k ok in simp)
qed simp_all

lemma register_grows: "grows (account_added e) w (passkey_signup_register e rq raw w)"
proof -
  let ?w = "snd (pop_item ''passkey_signup_hash'' (snd (pop_item ''passkey_signup_challenge'' w)))"
  have "grows (account_added e) w (finish_passkey_signup e rq ch dm u ?w)"
    if "pending_passkey_signup e (rq_now rq) raw w = Ret (Some (st, dm, u))" for st dm u ch
    using finish_signup_grows [of dm ?w e st u rq ch] pending_signup_row [OF that] by (simp add: grows_def)
  then show ?thesis
    by (auto simp: passkey_signup_register_def Let_def split_beta intro!: grows_same
        split: outcome.splits option.splits json.splits)
qed

text \<open>
  C14. An account made by signing up is one the site offers.  Whoever signs up, with a password or a
  passkey: if the rows change, then one user was added, in a domain that was open for sign-up and had
  room, under an address that no user and no alias of the domain had and no alias receives mail
  for; it is no administrator, and either it must change its password at the next login or exactly
  one passkey, its own, came with it.  Nothing else changes.
\<close>
theorem signup_account_confined:
  assumes "r = user_signup e rq name requested form w \<or> r = passkey_signup_register e rq raw w"
    and "w_db (snd r) \<noteq> w_db w"
  shows "\<exists>dm z ks. dm \<in> set (domains (w_db w)) \<and> signup_enabled dm \<and> user_domain z = domain_name dm
    \<and> w_db (snd r) = (w_db w)\<lparr>users := users (w_db w) @ [z], passkeys := passkeys (w_db w) @ ks\<rparr>
    \<and> (\<forall>v\<in>set (users (w_db w)). bind_email (pe_enc (sn_pages e)) (email v) \<noteq> bind_email (pe_enc (sn_pages e)) (email z))
    \<and> (max_users dm = -1 \<or> int (length (domain_users (w_db (snd r)) dm)) \<le> max_users dm)
    \<and> \<not> has_email (w_db w) dm (localpart z) \<and> email z = localpart z @ ''@'' @ domain_name dm
    \<and> (\<exists>lp. lower lp = localpart z \<and> alias_resolve (pe_enc (sn_pages e)) (pe_fold_case (sn_pages e)) (w_db w) (Some lp)
           (domain_name dm) = Ret None)
    \<and> \<not> global_admin z \<and> (ks = [] \<and> change_pw_next_login z \<or> (\<exists>k. ks = [k] \<and> pk_user k = email z))"
proof -
  have "grows (account_added e) w r" using assms(1) user_signup_grows register_grows by metis
  then have "account_added e (w_db w) (w_db (snd r))" using assms(2) by (simp add: grows_def)
  then obtain dm z lp ks where a: "dm \<in> set (domains (w_db w))" "signup_enabled dm"
      "max_users dm = -1 \<or> int (length (domain_users (w_db w) dm)) < max_users dm" "\<not> has_email (w_db w) dm lp"
      "alias_resolve (pe_enc (sn_pages e)) (pe_fold_case (sn_pages e)) (w_db w) (Some lp) (domain_name dm) = Ret None"
      "localpart z = lower lp" "user_domain z = domain_name dm" "email z = lower lp @ ''@'' @ domain_name dm" "\<not> global_admin z"
      "ks = [] \<and> change_pw_next_login z \<or> (\<exists>k. ks = [k] \<and> pk_user k = email z)"
      "w_db (snd r) = (w_db w)\<lparr>users := users (w_db w) @ [z], passkeys := passkeys (w_db w) @ ks\<rparr>"
      "keys_unique (pe_enc (sn_pages e)) (w_db (snd r))"
    unfolding account_added_def by blast
  have "distinct (map (bind_email (pe_enc (sn_pages e))) (map email (users (w_db w) @ [z])))"
    using a(11,12) by (simp add: keys_unique_def)
  then have "\<forall>v\<in>set (users (w_db w)). bind_email (pe_enc (sn_pages e)) (email v) \<noteq> bind_email (pe_enc (sn_pages e)) (email z)"
    by (auto simp: image_iff)
  moreover have "length (domain_users (w_db (snd r)) dm) = Suc (length (domain_users (w_db w) dm))"
    using a(7,11) by (simp add: domain_users_def)
  moreover have "\<not> has_email (w_db w) dm (localpart z)" using a(4,6) by (simp add: has_email_def comp_def)
  ultimately show ?thesis
    using a by (intro exI [of _ dm] exI [of _ z] exI [of _ ks] conjI) (auto simp: comp_def)
qed

section \<open>New domains\<close>

definition domain_added :: "'s signup_env \<Rightarrow> domain_signup_form \<Rightarrow> db \<Rightarrow> db \<Rightarrow> bool" where
  "domain_added e f d d' \<longleftrightarrow>
     (\<exists>n z. sn_registration e \<and> sn_check_mx e (df_name f) \<and> conflicting (sn_pages e) d (df_name f) = Ret False
        \<and> stored_domain (pe_api (sn_pages e)) (df_name f) = Some n
        \<and> localpart z = lower (df_localpart f) \<and> user_domain z = n \<and> email z = localpart z @ ''@'' @ n
        \<and> is_valid_localpart (ap_valid_address (pe_api (sn_pages e))) (localpart z)
        \<and> bind_email (pe_enc (sn_pages e)) (email z) \<noteq> None \<and> \<not> global_admin z
        \<and> d' = d\<lparr>domains := domains d
                @ [(new_domain n)\<lparr>max_quota_bytes := sn_default_quota e, max_users := 10, max_aliases := 10\<rparr>],
              users := users d @ [z], managers := managers d @ [(n, email z)]\<rparr>
        \<and> keys_unique (pe_enc (sn_pages e)) d' \<and> integers_fit d')"

lemma domain_signup_signed_in:
  assumes "current_user (sn_web e) w \<noteq> Ret None"
  shows "w_db (snd (domain_signup e form w)) = w_db w"
  using assms unfolding domain_signup_def Let_def
  by (cases "current_user (sn_web e) w"; cases form) (simp_all add: signup_password_check_def)

lemma domain_signup_grows: "grows (\<lambda>d d'. \<exists>f. form = Some f \<and> domain_added e f d d') w (domain_signup e form w)"
proof (cases "current_user (sn_web e) w = Ret None"; cases form)
  fix f :: domain_signup_form
  let ?d = "w_db w"
  let ?u = "\<lambda>n. (new_user (pe_api (sn_pages e)) (lower (df_localpart f)) n)
     \<lparr>password := cr_hash (we_crypto (sn_web e)) (df_pw f), quota_bytes := sn_default_quota e\<rparr>"
  let ?d' = "\<lambda>n. ?d\<lparr>domains := domains ?d
        @ [(new_domain n)\<lparr>max_quota_bytes := sn_default_quota e, max_users := 10, max_aliases := 10\<rparr>],
      users := users ?d @ [?u n], managers := managers ?d @ [(n, email (?u n))]\<rparr>"
  assume c: "current_user (sn_web e) w = Ret None" and f: "form = Some f"
  have added: "domain_added e f ?d (?d' n)"
    if "sn_registration e" "sn_check_mx e (df_name f)" "conflicting (sn_pages e) ?d (df_name f) = Ret False"
      "stored_domain (pe_api (sn_pages e)) (df_name f) = Some n"
      "is_valid_localpart (ap_valid_address (pe_api (sn_pages e))) (lower (df_localpart f))"
      "bind_email (ap_enc (pe_api (sn_pages e))) (email (?u n)) \<noteq> None"
      "keys_unique (pe_enc (sn_pages e)) (?d' n)" "integers_fit (?d' n)" for n
    unfolding domain_added_def
    by (rule exI [of _ n], rule exI [of _ "?u n"]) (use that in \<open>simp add: new_user_def pe_enc_def\<close>)
  have "grows (domain_added e f) w (domain_signup e form w)"
    unfolding domain_signup_def Let_def c f prod.case outcome.case option.case
    by (intro grows_rules grows_write grows_same; (rule added)?; simp?)
  then show "grows (\<lambda>d d'. \<exists>f. form = Some f \<and> domain_added e f d d') w (domain_signup e form w)"
    using f by (simp add: grows_def)
qed (auto simp: grows_def domain_signup_signed_in, simp add: domain_signup_def Let_def)

text \<open>
  C16. Only a visitor who is not signed in can register a domain, and gets no more than it.  When the
  sign-up of a domain changes the rows, registration is on, nobody is signed in, the name was the
  name of no domain, alternative or relay, and its mail already goes to this host.  The new domain
  is closed for sign-up and has room for ten users and ten aliases; one account was added, in that
  domain, which manages that domain alone and is no administrator.
\<close>
theorem domain_signup_confined:
  assumes "rows_ok (pe_api (sn_pages e)) (w_db w)" "w_db (snd (domain_signup e (Some f) w)) \<noteq> w_db w"
  shows "sn_registration e \<and> current_user (sn_web e) w = Ret None \<and> sn_check_mx e (df_name f)
    \<and> conflicting (sn_pages e) (w_db w) (df_name f) = Ret False
    \<and> (\<exists>dm z. w_db (snd (domain_signup e (Some f) w)) = (w_db w)\<lparr>domains := domains (w_db w) @ [dm],
            users := users (w_db w) @ [z], managers := managers (w_db w) @ [(domain_name dm, email z)]\<rparr>
        \<and> stored_domain (pe_api (sn_pages e)) (df_name f) = Some (domain_name dm) \<and> user_domain z = domain_name dm
        \<and> max_users dm = 10 \<and> max_aliases dm = 10 \<and> \<not> signup_enabled dm \<and> \<not> global_admin z
        \<and> managed_domains (w_db (snd (domain_signup e (Some f) w))) z = [domain_name dm])"
proof -
  let ?d = "w_db w" and ?d' = "w_db (snd (domain_signup e (Some f) w))"
  have c: "current_user (sn_web e) w = Ret None" using assms(2) domain_signup_signed_in by blast
  have "domain_added e f ?d ?d'" using domain_signup_grows [of "Some f" e w] assms(2) by (simp add: grows_def)
  then obtain n z where a: "sn_registration e" "sn_check_mx e (df_name f)" "conflicting (sn_pages e) ?d (df_name f) = Ret False"
      "stored_domain (pe_api (sn_pages e)) (df_name f) = Some n" "user_domain z = n" "\<not> global_admin z"
      "?d' = ?d\<lparr>domains := domains ?d
          @ [(new_domain n)\<lparr>max_quota_bytes := sn_default_quota e, max_users := 10, max_aliases := 10\<rparr>],
        users := users ?d @ [z], managers := managers ?d @ [(n, email z)]\<rparr>" "keys_unique (pe_enc (sn_pages e)) ?d'"
    unfolding domain_added_def by blast
  have "distinct (map (bind_email (pe_enc (sn_pages e))) (map email (users ?d @ [z])))"
    using a(7,8) by (simp add: keys_unique_def)
  then have "email z \<notin> email ` set (users ?d)" by (auto simp: image_iff)
  moreover have "snd m \<in> email ` set (users ?d)" if "m \<in> set (managers ?d)" for m
    using assms(1) that by (simp add: rows_defs)
  ultimately have "filter (\<lambda>m. snd m = email z) (managers ?d) = []" by (auto simp: filter_empty_conv)
  then have m: "managed_domains ?d' z = [n]" using a(6,7) by (simp add: managed_domains_def)
  show ?thesis
    using a c m by (intro conjI exI [of _ z]
        exI [of _ "(new_domain n)\<lparr>max_quota_bytes := sn_default_quota e, max_users := 10, max_aliases := 10\<rparr>"])
      (simp_all add: new_domain_def)
qed

section \<open>Passwords\<close>

text \<open>A password of one user changed, by an upgrade of its hash or by setting it.\<close>

definition password_moved :: "user \<Rightarrow> db \<Rightarrow> db \<Rightarrow> bool" where
  "password_moved u d d' \<longleftrightarrow>
     (\<exists>h. d' = put_user (u\<lparr>password := h\<rparr>) d
        \<or> (\<exists>now. d' = force_user_reauthentication now (email u) (put_user (u\<lparr>password := h\<rparr>) d)))"

lemma put_user_twice [simp]: "email v = email u \<Longrightarrow> put_user v (put_user u d) = put_user v d"
  by (simp add: put_user_def comp_def cong: if_cong)

lemma verify_slow_user: "verify_slow cr u pw c = Ret (ok, v, c') \<Longrightarrow> \<exists>h. v = u\<lparr>password := h\<rparr>"
  by (cases "cr_verify cr pw (strip_scheme (password u))")
    (auto simp: verify_slow_def Let_def split: prod.splits option.splits if_splits intro: exI [of _ "password u"])

lemma check_password_user:
  assumes "check_password cr u pw c = Ret (ok, v, c')"
  shows "\<exists>h. v = u\<lparr>password := h\<rparr>"
proof (cases "pw = []")
  case True
  then show ?thesis using assms by (auto simp: check_password_def intro: exI [of _ "password u"])
next
  case False
  then show ?thesis
  proof (cases rule: check_password_cases [where cr = cr and cache = c and u = u])
    case (hit s h)
    then show ?thesis using assms by (cases "fast_verify cr pw h") (auto intro: exI [of _ "password u"])
  next
    case stale
    then show ?thesis using assms verify_slow_user [of cr u pw "dict_del (email u) c" ok v c'] by simp
  next
    case miss
    then show ?thesis using assms verify_slow_user [of cr u pw c ok v c'] by simp
  qed
qed

lemma user_login_moves:
  assumes "user_login enc cr required who pw s = Ret (r, s')"
  shows "a_db s' = a_db s \<and> r = None
    \<or> (\<exists>u h. get_user enc (a_db s) who = Ret (Some u) \<and> a_db s' = put_user (u\<lparr>password := h\<rparr>) (a_db s)
         \<and> set_option r \<subseteq> {u\<lparr>password := h\<rparr>})"
proof (cases "get_user enc (a_db s) who")
  case (Ret x)
  show ?thesis
  proof (cases "\<exists>u. x = Some u \<and> enabled u \<and> \<not> required \<and> passkeys_of (a_db s) u = []")
    case True
    then obtain u where u: "x = Some u" "enabled u" "\<not> required" "passkeys_of (a_db s) u = []" by blast
    then obtain ok v c where c: "check_password cr u pw (a_cache s) = Ret (ok, v, c)"
      and r: "r = (if ok then Some v else None)" "s' = \<lparr>a_db = put_user v (a_db s), a_cache = c\<rparr>"
      using assms Ret by (auto simp: user_login_def)
    obtain h where "v = u\<lparr>password := h\<rparr>" using check_password_user [OF c] by blast
    then show ?thesis using Ret u(1) r by auto
  next
    case False
    then show ?thesis using assms Ret by (cases x) (auto simp: user_login_def split: if_splits)
  qed
qed (use assms in \<open>simp add: user_login_def\<close>)

lemma store_password_db:
  "w_db (snd (store_password e rq own v pw w))
   = force_user_reauthentication (rq_now rq) (email v) (put_user (v\<lparr>password := cr_hash (we_crypto (sn_web e)) pw\<rparr>) (w_db w))"
  by (simp add: store_password_def set_password_def Let_def)

text \<open>Either the page was refused, or the new password was stored.\<close>

definition checked ::
  "'s signup_env \<Rightarrow> bool \<Rightarrow> string \<Rightarrow> user \<Rightarrow> pw_form \<Rightarrow> 's web \<Rightarrow> cache \<Rightarrow> (user option \<times> auth_state) outcome" where
  "checked e own who u f w c =
     (if own then user_login (we_enc (sn_web e)) (we_crypto (sn_web e)) (passkey_required (we_site (sn_web e))) who
                    (pf_current f) \<lparr>a_db = w_db w, a_cache = c\<rparr>
      else Ret (Some u, \<lparr>a_db = w_db w, a_cache = c\<rparr>))"

definition page_refused :: "'s signup_env \<Rightarrow> bool \<Rightarrow> string \<Rightarrow> 's web \<Rightarrow> cache \<Rightarrow> 's web \<Rightarrow> bool" where
  "page_refused e own who w c w' \<longleftrightarrow> w_new_key w' = w_new_key w
     \<and> (w_db w' = w_db w \<or> (\<exists>u f r st. get_user (we_enc (sn_web e)) (w_db w) who = Ret (Some u) \<and> checked e own who u f w c = Ret (r, st)
          \<and> w_db w' = a_db st))"

definition page_stored :: "'s signup_env \<Rightarrow> request \<Rightarrow> bool \<Rightarrow> string \<Rightarrow> pw_form \<Rightarrow> 's web \<Rightarrow> cache \<Rightarrow> 's web \<Rightarrow> bool" where
  "page_stored e rq own who f w c w' \<longleftrightarrow>
     (\<exists>u v st. get_user (we_enc (sn_web e)) (w_db w) who = Ret (Some u) \<and> \<not> is_demo_account u
        \<and> passkeys_of (w_db w) u = [] \<and> \<not> passkey_required (we_site (sn_web e))
        \<and> pf_pw f = pf_pw2 f \<and> isBadOrPwned (Some (pf_pw f)) (Some (pf_pwned f)) = Ret None
        \<and> checked e own who u f w c = Ret (Some v, st)
        \<and> w' = snd (store_password e rq own v (pf_pw f) (w\<lparr>w_db := a_db st\<rparr>)))"

lemma process_result:
  assumes "process_password_change e rq own who form (w, c) = (a, w', c')"
  shows "page_refused e own who w c w' \<or> (\<exists>f. form = Some f \<and> page_stored e rq own who f w c w')"
proof (cases "\<exists>u f. get_user (we_enc (sn_web e)) (w_db w) who = Ret (Some u) \<and> \<not> is_demo_account u
     \<and> passkeys_of (w_db w) u = [] \<and> \<not> passkey_required (we_site (sn_web e)) \<and> form = Some f
     \<and> pw_form_ok (pe_forms (sn_pages e)) own f \<and> pf_pw f = pf_pw2 f")
  case False
  then have "w_db w' = w_db w \<and> w_new_key w' = w_new_key w"
    using assms by (auto simp: process_password_change_def split: outcome.splits option.splits if_splits)
  then show ?thesis by (simp add: page_refused_def)
next
  case True
  then obtain u f where t: "get_user (we_enc (sn_web e)) (w_db w) who = Ret (Some u)" "\<not> is_demo_account u"
      "passkeys_of (w_db w) u = []" "\<not> passkey_required (we_site (sn_web e))" "form = Some f"
      "pw_form_ok (pe_forms (sn_pages e)) own f" "pf_pw f = pf_pw2 f" by blast
  have a: "(case checked e own who u f w c of
              Exn x \<Rightarrow> (Server_error, w, c)
            | Ret (None, st) \<Rightarrow> (answer.Page, flash ''error'' ''Wrong current password'' (w\<lparr>w_db := a_db st\<rparr>), a_cache st)
            | Ret (Some v, st) \<Rightarrow>
                (case isBadOrPwned (Some (pf_pw f)) (Some (pf_pwned f)) of
                   Exn x \<Rightarrow> (Server_error, w\<lparr>w_db := a_db st\<rparr>, a_cache st)
                 | Ret (Some msg) \<Rightarrow> (answer.Page, flash ''error'' msg (w\<lparr>w_db := a_db st\<rparr>), a_cache st)
                 | Ret None \<Rightarrow>
                     (case store_password e rq own v (pf_pw f) (w\<lparr>w_db := a_db st\<rparr>) of (a, w') \<Rightarrow> (a, w', a_cache st))))
          = (a, w', c')"
    using assms t by (simp add: process_password_change_def checked_def)
  show ?thesis
  proof (cases "checked e own who u f w c")
    case (Exn x)
    then show ?thesis using a by (simp add: page_refused_def)
  next
    case (Ret p)
    obtain r st where p: "p = (r, st)" by fastforce
    have ref: ?thesis if "w_db w' = a_db st" "w_new_key w' = w_new_key w"
      using that Ret p t(1) by (auto simp: page_refused_def)
    show ?thesis
    proof (cases r)
      case None
      then show ?thesis using a Ret p by (intro ref) auto
    next
      case (Some v)
      consider x where "isBadOrPwned (Some (pf_pw f)) (Some (pf_pwned f)) = Exn x"
        | msg where "isBadOrPwned (Some (pf_pw f)) (Some (pf_pwned f)) = Ret (Some msg)"
        | "isBadOrPwned (Some (pf_pw f)) (Some (pf_pwned f)) = Ret None"
        by (metis outcome.exhaust option.exhaust)
      then show ?thesis
      proof cases
        case 3
        then have "w' = snd (store_password e rq own v (pf_pw f) (w\<lparr>w_db := a_db st\<rparr>))"
          using a Ret p Some by (simp split: prod.splits)
        then show ?thesis unfolding page_stored_def using t 3 Ret p Some by blast
      next
        case 1
        show ?thesis by (rule ref) (use a Ret p Some 1 in auto)
      next
        case 2
        show ?thesis by (rule ref) (use a Ret p Some 2 in auto)
      qed
    qed
  qed
qed

lemma checked_moves:
  assumes "checked e own who u f w c = Ret (r, st)" "get_user (we_enc (sn_web e)) (w_db w) who = Ret (Some u)"
  shows "\<exists>h. (a_db st = w_db w \<or> a_db st = put_user (u\<lparr>password := h\<rparr>) (w_db w)) \<and> set_option r \<subseteq> {u\<lparr>password := h\<rparr>}"
proof (cases own)
  case True
  then show ?thesis
    using assms user_login_moves [of "we_enc (sn_web e)" "we_crypto (sn_web e)" "passkey_required (we_site (sn_web e))" who
        "pf_current f" "\<lparr>a_db = w_db w, a_cache = c\<rparr>" r st]
    by (auto simp: checked_def)
next
  case False
  then show ?thesis using assms by (auto simp: checked_def intro: exI [of _ "password u"])
qed

lemma process_moves:
  assumes "process_password_change e rq own who form (w, c) = (a, w', c')"
  shows "w_db w' = w_db w \<or> (\<exists>u\<in>set (users (w_db w)). password_moved u (w_db w) (w_db w'))"
  using process_result [OF assms]
proof
  assume "page_refused e own who w c w'"
  then consider "w_db w' = w_db w"
    | u f r st where "get_user (we_enc (sn_web e)) (w_db w) who = Ret (Some u)" "checked e own who u f w c = Ret (r, st)"
        "w_db w' = a_db st"
    unfolding page_refused_def by blast
  then show ?thesis
  proof cases
    case 2
    from checked_moves [OF 2(2,1)] 2(3)
    have "w_db w' = w_db w \<or> password_moved u (w_db w) (w_db w')" by (auto simp: password_moved_def)
    then show ?thesis using get_user_row [OF 2(1)] by blast
  qed simp
next
  assume "\<exists>f. form = Some f \<and> page_stored e rq own who f w c w'"
  then obtain f u v st where u: "get_user (we_enc (sn_web e)) (w_db w) who = Ret (Some u)"
      and r: "checked e own who u f w c = Ret (Some v, st)"
      and w': "w' = snd (store_password e rq own v (pf_pw f) (w\<lparr>w_db := a_db st\<rparr>))"
    unfolding page_stored_def by blast
  obtain h where v: "v = u\<lparr>password := h\<rparr>" "a_db st = w_db w \<or> a_db st = put_user v (w_db w)"
    using checked_moves [OF r u] by auto
  have "password_moved u (w_db w) (w_db w')"
    unfolding w' store_password_db password_moved_def
    by (intro exI [of _ "cr_hash (we_crypto (sn_web e)) (pf_pw f)"] disjI2 exI [of _ "rq_now rq"]) (use v in auto)
  then show ?thesis using get_user_row [OF u] by blast
qed

text \<open>
  C15. A password page replaces one password, and only for somebody entitled to it.  When one of the
  two pages stores a password (it gives the session a new key), the account exists, is not the demo
  account and has no passkey, and the password was entered twice alike, is not short and not known
  from a breach.  On the page for the own password the current one was correct; on the other page
  the signed-in user manages the domain of the account, and the account does not outrank that
  user.  Then the account has the hash of the new password, its mail apps must authorize again,
  and no other row changes.
\<close>
theorem password_page_sound:
  assumes "r = user_password_change e rq here form (w, c) \<and> own \<or> r = user_password e rq here target form (w, c) \<and> \<not> own"
    and "r = (a, w', c')" "w_new_key w'" "\<not> w_new_key w"
  shows "\<exists>cur u f. current_user (sn_web e) w = Ret (Some cur) \<and> form = Some f \<and> u \<in> set (users (w_db w))
    \<and> get_user (we_enc (sn_web e)) (w_db w) (if own then email cur else target) = Ret (Some u)
    \<and> \<not> is_demo_account u \<and> passkeys_of (w_db w) u = [] \<and> pf_pw f = pf_pw2 f
    \<and> isBadOrPwned (Some (pf_pw f)) (Some (pf_pwned f)) = Ret None
    \<and> (if own then \<exists>v st. user_login (we_enc (sn_web e)) (we_crypto (sn_web e)) False (email cur) (pf_current f)
                             \<lparr>a_db = w_db w, a_cache = c\<rparr> = Ret (Some v, st)
       else user_domain u \<in> set (managed_domains (w_db w) cur) \<and> can_manage_user (w_db w) cur u)
    \<and> w_db w' = force_user_reauthentication (rq_now rq) (email u)
         (put_user (u\<lparr>password := cr_hash (we_crypto (sn_web e)) (pf_pw f)\<rparr>) (w_db w))"
proof -
  have new: "\<not> page_refused e own who w c w'" for who using assms(3,4) by (simp add: page_refused_def)
  have guard: "\<exists>cur. current_user (sn_web e) w = Ret (Some cur)
      \<and> process_password_change e rq own (if own then email cur else target) form (w, c) = (a, w', c')
      \<and> (\<not> own \<longrightarrow> (\<exists>x. get_user (we_enc (sn_web e)) (w_db w) target = Ret x
              \<and> domain_admin (w_db w) (map_option User_row x) cur))"
  proof (cases own)
    case True
    then show ?thesis using assms
      by (auto simp: user_password_change_def handle_needs_login_def permissions_wrapper_def owner_def
          split: outcome.splits option.splits)
  next
    case False
    then show ?thesis using assms
      by (auto simp: user_password_def handle_needs_login_def permissions_wrapper_def
          split: outcome.splits option.splits if_splits)
  qed
  then obtain cur where cur: "current_user (sn_web e) w = Ret (Some cur)"
      and run: "process_password_change e rq own (if own then email cur else target) form (w, c) = (a, w', c')" by blast
  obtain f u v st where f: "form = Some f" and u: "get_user (we_enc (sn_web e)) (w_db w) (if own then email cur else target) = Ret (Some u)"
      and ok: "\<not> is_demo_account u" "passkeys_of (w_db w) u = []" "\<not> passkey_required (we_site (sn_web e))" "pf_pw f = pf_pw2 f"
        "isBadOrPwned (Some (pf_pw f)) (Some (pf_pwned f)) = Ret None"
      and r: "checked e own (if own then email cur else target) u f w c = Ret (Some v, st)"
      and w': "w' = snd (store_password e rq own v (pf_pw f) (w\<lparr>w_db := a_db st\<rparr>))"
    using process_result [OF run] new unfolding page_stored_def by blast
  obtain h where v: "v = u\<lparr>password := h\<rparr>" "a_db st = w_db w \<or> a_db st = put_user v (w_db w)"
    using checked_moves [OF r u] by auto
  have "w_db w' = force_user_reauthentication (rq_now rq) (email u)
         (put_user (u\<lparr>password := cr_hash (we_crypto (sn_web e)) (pf_pw f)\<rparr>) (w_db w))"
    unfolding w' store_password_db using v by auto
  moreover have "if own then \<exists>v st. user_login (we_enc (sn_web e)) (we_crypto (sn_web e)) False (email cur) (pf_current f)
                             \<lparr>a_db = w_db w, a_cache = c\<rparr> = Ret (Some v, st)
       else user_domain u \<in> set (managed_domains (w_db w) cur) \<and> can_manage_user (w_db w) cur u"
    using guard r u ok(3) cur by (auto simp: checked_def domain_admin_def split: if_splits)
  ultimately show ?thesis using cur f u ok get_user_row [OF u] by blast
qed

section \<open>Examples\<close>

definition sample_signups :: "(string, sval) dict signup_env" where
  "sample_signups = \<lparr>sn_web = sample_web_env, sn_pages = sample_pages, sn_default_quota = 1000, sn_registration = True,
     sn_check_mx = (\<lambda>_. True), sn_signup_url = (\<lambda>t. ''/signup/'' @ t), sn_backref = True, sn_early = False\<rparr>"

text \<open>The rows of \<open>sample_site\<close>, with one domain open for sign-up.\<close>

definition sample_open :: "(string, sval) dict api_state" where
  "sample_open = Admin_System.sample_site\<lparr>ap_db := (ap_db Admin_System.sample_site)
     \<lparr>domains := [new_domain ''x.io'', (new_domain ''y.io'')\<lparr>max_users := 1, signup_enabled := True\<rparr>]\<rparr>\<rparr>"

definition sample_visitor :: "string option \<Rightarrow> (string, sval) dict web" where
  "sample_visitor who = \<lparr>w_db = ap_db sample_open, w_setup = [], w_session = [], w_user = who, w_new_key = False, w_store = []\<rparr>"

definition sample_request :: request where
  "sample_request = \<lparr>rq_json = Some (JObj [(''id'', JStr ''k1'')]), rq_csrf_ok = True, rq_now = 5, rq_random = ''n''\<rparr>"

definition sample_signup_form :: signup_form where
  "sample_signup_form = \<lparr>sf_localpart = ''Eve'', sf_pw = ''long enough'', sf_pw2 = ''long enough'', sf_pwned = ''0'', sf_captcha_ok = True\<rparr>"

definition sample_domain_signup :: domain_signup_form where
  "sample_domain_signup = \<lparr>df_name = ''New.io'', df_localpart = ''Eve'', df_pw = ''long enough'', df_pw2 = ''long enough'',
     df_pwned = ''0'', df_captcha_ok = True\<rparr>"

definition sample_pw_form :: pw_form where
  "sample_pw_form = \<lparr>pf_current = [], pf_pw = ''long enough'', pf_pw2 = ''long enough'', pf_pwned = ''0''\<rparr>"

theorem signup_account_confined_witness:
  "\<exists>z. users (w_db (snd (user_signup sample_signups sample_request (Some ''y.io'') (Some ''password'')
        (Some sample_signup_form) (sample_visitor None)))) = users (ap_db sample_open) @ [z]
     \<and> email z = ''eve@y.io'' \<and> change_pw_next_login z"
proof -
  let ?r = "user_signup sample_signups sample_request (Some ''y.io'') (Some ''password'') (Some sample_signup_form) (sample_visitor None)"
  have e: "map email (users (w_db (snd ?r))) = [''ann@x.io'', ''max@x.io'', ''eve@y.io'']"
    "map change_pw_next_login (users (w_db (snd ?r))) = [False, False, True]" by code_simp+
  have o: "map email (users (w_db (sample_visitor None))) = [''ann@x.io'', ''max@x.io'']" by code_simp
  then have "w_db (snd ?r) \<noteq> w_db (sample_visitor None)" using e(1) by auto
  from signup_account_confined [OF disjI1 [OF refl] this]
  obtain z where "users (w_db (snd ?r)) = users (w_db (sample_visitor None)) @ [z]" by auto
  moreover from this have "email z = ''eve@y.io''" "change_pw_next_login z" using e o by (auto simp: map_eq_Cons_conv append_eq_Cons_conv)
  moreover have "users (w_db (sample_visitor None)) = users (ap_db sample_open)" by (simp add: sample_visitor_def)
  ultimately show ?thesis by auto
qed

theorem domain_signup_confined_witness:
  "\<exists>dm z. domains (w_db (snd (domain_signup sample_signups (Some sample_domain_signup) (sample_visitor None))))
      = domains (ap_db sample_open) @ [dm] \<and> domain_name dm = ''new.io'' \<and> max_users dm = 10
     \<and> z \<in> set (users (w_db (snd (domain_signup sample_signups (Some sample_domain_signup) (sample_visitor None)))))
     \<and> user_domain z = ''new.io''"
proof -
  let ?r = "domain_signup sample_signups (Some sample_domain_signup) (sample_visitor None)"
  have n: "map domain_name (domains (w_db (snd ?r))) = [''x.io'', ''y.io'', ''new.io'']" by code_simp
  have o: "map domain_name (domains (w_db (sample_visitor None))) = [''x.io'', ''y.io'']" by code_simp
  have ne: "w_db (snd ?r) \<noteq> w_db (sample_visitor None)" using n o by auto
  have n': "canonical sample_api ''x.io''" "canonical sample_api ''y.io''" by code_simp+
  have a: "address_ok sample_api ''ann@x.io'' ''ann'' ''x.io''" "address_ok sample_api ''max@x.io'' ''max'' ''x.io''" by code_simp+
  have p: "policy_ok default_policy" by code_simp
  have "rows_ok (pe_api (sn_pages sample_signups)) (w_db (sample_visitor None))"
    using n' a p by (simp add: rows_defs sample_signups_def sample_visitor_def sample_open_def Admin_System.sample_site_def
        empty_db_def sample_state_def new_domain_def sample_user_def)
  from domain_signup_confined [OF this ne]
  obtain dm z where r: "w_db (snd ?r) = (w_db (sample_visitor None))\<lparr>domains := domains (w_db (sample_visitor None)) @ [dm],
      users := users (w_db (sample_visitor None)) @ [z], managers := managers (w_db (sample_visitor None)) @ [(domain_name dm, email z)]\<rparr>"
    "user_domain z = domain_name dm" "max_users dm = 10" by blast
  then have d: "domains (w_db (snd ?r)) = domains (w_db (sample_visitor None)) @ [dm]" by simp
  then have "domain_name dm = ''new.io''" using n o by (auto simp: map_eq_Cons_conv append_eq_Cons_conv)
  moreover have "z \<in> set (users (w_db (snd ?r)))" using r(1) by simp
  moreover have "domains (w_db (sample_visitor None)) = domains (ap_db sample_open)" by (simp add: sample_visitor_def)
  ultimately show ?thesis using r(2,3) d by (intro exI [of _ dm] exI [of _ z]) simp
qed

theorem password_page_sound_witness:
  "\<exists>u. u \<in> set (users (ap_db sample_open)) \<and> w_db (fst (snd (user_password sample_signups sample_request ''/p'' ''max@x.io''
        (Some sample_pw_form) (sample_visitor (Some ''ann@x.io''), [])))) = force_user_reauthentication 5 (email u)
      (put_user (u\<lparr>password := ''$x$1$salt$long enough''\<rparr>) (ap_db sample_open))"
proof -
  let ?r = "user_password sample_signups sample_request ''/p'' ''max@x.io'' (Some sample_pw_form) (sample_visitor (Some ''ann@x.io''), [])"
  have k: "w_new_key (fst (snd ?r))" by code_simp
  obtain a w' c' where r: "?r = (a, w', c')" by (cases ?r) auto
  have w: "\<not> w_new_key (sample_visitor (Some ''ann@x.io''))" by (simp add: sample_visitor_def)
  have k': "w_new_key w'" using k r by simp
  obtain u f where u: "u \<in> set (users (w_db (sample_visitor (Some ''ann@x.io''))))" "Some sample_pw_form = Some f"
    "w_db w' = force_user_reauthentication (rq_now sample_request) (email u)
         (put_user (u\<lparr>password := cr_hash (we_crypto (sn_web sample_signups)) (pf_pw f)\<rparr>) (w_db (sample_visitor (Some ''ann@x.io''))))"
    using password_page_sound [where own = False, OF disjI2 [OF conjI [OF refl]] r k' w] by blast
  then show ?thesis using r
    by (intro exI [of _ u]) (auto simp: sample_request_def sample_signups_def sample_web_env_def sample_crypto_def
        sample_pw_form_def sample_visitor_def)
qed

end
