(* ===== verification/Command_Line.thy ===== *)
theory Command_Line
  imports Admin_System
begin

text \<open>
  The commands that change the database (\<open>src/core/admin/mailu/manage.py\<close>): accounts, global
  administrators, passwords, domains and their limits, managers, aliases, and the synchronisation
  with a YAML configuration (\<open>config_update\<close>).

  A command runs on the state of the REST API.  A numeric argument is the number the database makes
  of it, the members of a configuration item have the types of their columns, and \<open>main\<close> is
  the setting DOMAIN.  Messages are not modelled.
\<close>

section \<open>Answers and shared steps\<close>

datatype cli_answer = Finished | Setup_link string int | Click_error | Crashed

type_synonym 's command = "'s api_state \<Rightarrow> cli_answer \<times> 's api_state"

definition cli_commit :: "'s api_env \<Rightarrow> cli_answer \<Rightarrow> db \<Rightarrow> 's command" where
  "cli_commit e answer d' s = (case commit (ap_enc e) s d' of (a, s') \<Rightarrow> ((if a = Reply 200 then answer else Crashed), s'))"

definition with_rows :: "'s api_env \<Rightarrow> cli_answer \<Rightarrow> db outcome \<Rightarrow> 's command" where
  "with_rows e answer r s = (case r of Exn x \<Rightarrow> (Crashed, s) | Ret d' \<Rightarrow> cli_commit e answer d' s)"

definition user_email :: "string \<Rightarrow> string \<Rightarrow> string" where
  "user_email main username = (if CHR ''@'' \<in> set username then username else username @ ''@'' @ main)"

text \<open>The domain of a name, made where there is none.\<close>

definition ensure_domain :: "'s api_env \<Rightarrow> string \<Rightarrow> db \<Rightarrow> (domain \<times> db) outcome" where
  "ensure_domain e name d =
     bind_out (get_domain (ap_enc e) d name) (\<lambda>r. case r of
       Some dm \<Rightarrow> Ret (dm, d)
     | None \<Rightarrow>
         (case stored_domain e name of
            None \<Rightarrow> Exn StatementError
          | Some n \<Rightarrow> Ret (new_domain n, d\<lparr>domains := domains d @ [new_domain n]\<rparr>)))"

text \<open>A new row with a local part; its address is made, and checked, when it is written.\<close>

definition made_user :: "'s api_env \<Rightarrow> string \<Rightarrow> domain \<Rightarrow> user outcome" where
  "made_user e lp dm =
     (if is_valid_localpart (ap_valid_address e) (lower lp) then Ret (new_user e (lower lp) (domain_name dm)) else Exn ValueError)"

definition add_user :: "'s api_env \<Rightarrow> user \<Rightarrow> db \<Rightarrow> db outcome" where
  "add_user e u d =
     (if bind_email (ap_enc e) (email u) = None then Exn StatementError else Ret (d\<lparr>users := users d @ [u]\<rparr>))"

section \<open>Accounts\<close>

text \<open>Without a password the account gets a link instead, which is stored for the address of the row in
  memory: a domain made by the command has the \<open>name\<close> that was typed.\<close>

definition add_account ::
  "'s api_env \<Rightarrow> string \<Rightarrow> int \<Rightarrow> string \<Rightarrow> string option \<Rightarrow> string \<Rightarrow> string \<Rightarrow> domain \<Rightarrow> db \<Rightarrow> 's command" where
  "add_account e raw now secret pw lp name dm d s =
     (case bind_out (made_user e lp dm) (\<lambda>u.
             add_user e (u\<lparr>change_pw_next_login := True,
               password := cr_hash (ap_crypto e) (case pw of Some p \<Rightarrow> p | None \<Rightarrow> secret)\<rparr>) d) of
        Exn x \<Rightarrow> (Crashed, s)
      | Ret d' \<Rightarrow>
          (let until = now + ap_setup_ttl e in
           case cli_commit e (if pw = None then Setup_link raw until else Finished) d' s of
             (a, s') \<Rightarrow>
               (a, if a = Setup_link raw until
                   then s'\<lparr>ap_setups := ap_setups s' @ [\<lparr>st_hash = ap_sha256_hex e raw,
                          st_user = lower lp @ ''@'' @ name, st_expires = until\<rparr>]\<rparr>
                   else s')))"

definition user_add :: "'s api_env \<Rightarrow> string \<Rightarrow> string \<Rightarrow> int \<Rightarrow> string \<Rightarrow> string \<Rightarrow> string option \<Rightarrow> 's command" where
  "user_add e main raw now secret username pw s =
     (let adr = user_email main username; d = ap_db s; (lp, dn) = the (rcut CHR ''@'' adr) in
      case (get_domain (ap_enc e) d dn, ensure_domain e dn d) of
        (Ret old, Ret (dm, d1)) \<Rightarrow>
          (case get_user (ap_enc e) d1 adr of
             Exn x \<Rightarrow> (Crashed, s)
           | Ret (Some u) \<Rightarrow> (Click_error, s)
           | Ret None \<Rightarrow>
               add_account e raw now secret pw lp (case old of Some r \<Rightarrow> domain_name r | None \<Rightarrow> dn) dm d1 s)
      | _ \<Rightarrow> (Crashed, s))"

text \<open>A command on an existing account.\<close>

definition on_user :: "'s api_env \<Rightarrow> string \<Rightarrow> cli_answer \<Rightarrow> (user \<Rightarrow> 's command) \<Rightarrow> 's command" where
  "on_user e adr missing f s =
     (case get_user (ap_enc e) (ap_db s) adr of
        Exn x \<Rightarrow> (Crashed, s) | Ret None \<Rightarrow> (missing, s) | Ret (Some u) \<Rightarrow> f u s)"

definition drop_user :: "'s api_env \<Rightarrow> bool \<Rightarrow> user \<Rightarrow> 's command" where
  "drop_user e really u s =
     cli_commit e Finished (if really then delete_user_rows (email u) (ap_db s) else put_user (u\<lparr>enabled := False\<rparr>) (ap_db s)) s"

definition user_remove :: "'s api_env \<Rightarrow> string \<Rightarrow> string \<Rightarrow> bool \<Rightarrow> 's command" where
  "user_remove e main username really = on_user e (user_email main username) Click_error (drop_user e really)"

definition cli_user_delete :: "'s api_env \<Rightarrow> string \<Rightarrow> bool \<Rightarrow> 's command" where
  "cli_user_delete e adr really = on_user e adr Finished (drop_user e really)"

definition user_reset :: "'s api_env \<Rightarrow> string \<Rightarrow> string \<Rightarrow> int \<Rightarrow> string \<Rightarrow> 's command" where
  "user_reset e main raw now username =
     on_user e (user_email main username) Click_error (\<lambda>u s.
       case issue_setup (ap_sha256_hex e) raw now u (ap_setup_ttl e) (ap_setups s) of
         ((r, until), ts) \<Rightarrow> (Setup_link r until, s\<lparr>ap_setups := ts\<rparr>))"

definition set_global_admin :: "'s api_env \<Rightarrow> string \<Rightarrow> bool \<Rightarrow> string \<Rightarrow> 's command" where
  "set_global_admin e main flag username =
     on_user e (user_email main username) Click_error (\<lambda>u s.
       cli_commit e Finished (put_user (u\<lparr>global_admin := flag\<rparr>) (ap_db s)) s)"

definition cli_password :: "'s api_env \<Rightarrow> int \<Rightarrow> string \<Rightarrow> string \<Rightarrow> string \<Rightarrow> 's command" where
  "cli_password e now lp dn pw =
     on_user e (lp @ ''@'' @ dn) Finished (\<lambda>u s.
       case set_password (ap_store e) (ap_session_cfg e) (ap_crypto e) now False (Some {}) True
              (u\<lparr>change_pw_next_login := True\<rparr>) pw (ap_db s, ap_sessions s) of
         (d', st') \<Rightarrow> cli_commit e Finished d' (s\<lparr>ap_sessions := st'\<rparr>))"

definition user_import :: "'s api_env \<Rightarrow> string \<Rightarrow> string \<Rightarrow> string \<Rightarrow> 's command" where
  "user_import e lp dn hash s =
     with_rows e Finished
       (bind_out (ensure_domain e dn (ap_db s)) (\<lambda>(dm, d1).
        bind_out (made_user e lp dm) (\<lambda>u. add_user e (u\<lparr>password := hash\<rparr>) d1))) s"

section \<open>Domains, managers and aliases\<close>

text \<open>An option that is not given leaves the default of the column.\<close>

definition with_limits :: "int option \<Rightarrow> int option \<Rightarrow> int option \<Rightarrow> domain \<Rightarrow> domain" where
  "with_limits us als quota dm =
     given quota (\<lambda>i. max_quota_bytes_update (\<lambda>_. i))
       (given als (\<lambda>i. max_aliases_update (\<lambda>_. i)) (given us (\<lambda>i. max_users_update (\<lambda>_. i)) dm))"

definition cli_domain :: "'s api_env \<Rightarrow> string \<Rightarrow> int option \<Rightarrow> int option \<Rightarrow> int option \<Rightarrow> 's command" where
  "cli_domain e name us als quota s =
     (case get_domain (ap_enc e) (ap_db s) name of
        Exn x \<Rightarrow> (Crashed, s)
      | Ret (Some dm) \<Rightarrow> (Finished, s)
      | Ret None \<Rightarrow>
          (case stored_domain e name of
             None \<Rightarrow> (Crashed, s)
           | Some n \<Rightarrow>
               cli_commit e Finished
                 ((ap_db s)\<lparr>domains := domains (ap_db s) @ [with_limits us als quota (new_domain n)]\<rparr>) s))"

definition setlimits :: "'s api_env \<Rightarrow> string \<Rightarrow> int \<Rightarrow> int \<Rightarrow> int \<Rightarrow> 's command" where
  "setlimits e name us als quota s =
     (case get_domain (ap_enc e) (ap_db s) name of
        Ret (Some dm) \<Rightarrow>
          cli_commit e Finished (put_domain (with_limits (Some us) (Some als) (Some quota) dm) (ap_db s)) s
      | _ \<Rightarrow> (Crashed, s))"

text \<open>The row is added again when the user already manages the domain.\<close>

definition setmanager :: "'s api_env \<Rightarrow> string \<Rightarrow> string \<Rightarrow> 's command" where
  "setmanager e name user_name s =
     (case (get_domain (ap_enc e) (ap_db s) name, get_user (ap_enc e) (ap_db s) (user_name @ ''@'' @ name)) of
        (Ret (Some dm), Ret (Some u)) \<Rightarrow>
          cli_commit e Finished ((ap_db s)\<lparr>managers := managers (ap_db s) @ [(domain_name dm, email u)]\<rparr>) s
      | _ \<Rightarrow> (Crashed, s))"

definition made_alias :: "'s api_env \<Rightarrow> string \<Rightarrow> domain \<Rightarrow> bool \<Rightarrow> string list \<Rightarrow> mail_alias outcome" where
  "made_alias e lp dm wild ds =
     (if \<not> is_valid_localpart (ap_valid_address e) (lower lp) \<or> bind_email (ap_enc e) (lower lp @ ''@'' @ domain_name dm) = None
      then Exn ValueError
      else (case stored_list ds of
        None \<Rightarrow> Exn StatementError
      | Some xs \<Rightarrow> Ret ((new_alias (lower lp) (domain_name dm) xs)\<lparr>wildcard := wild\<rparr>)))"

definition cli_alias :: "'s api_env \<Rightarrow> string \<Rightarrow> string \<Rightarrow> string \<Rightarrow> bool \<Rightarrow> 's command" where
  "cli_alias e lp dn dest wild s =
     with_rows e Finished
       (bind_out (ensure_domain e dn (ap_db s)) (\<lambda>(dm, d1).
        bind_out (made_alias e lp dm wild (split_on CHR '','' dest)) (\<lambda>a. Ret (d1\<lparr>aliases := aliases d1 @ [a]\<rparr>)))) s"

definition cli_alias_delete :: "'s api_env \<Rightarrow> string \<Rightarrow> 's command" where
  "cli_alias_delete e adr s =
     (case get_alias (ap_enc e) (ap_db s) adr of
        Exn x \<Rightarrow> (Crashed, s)
      | Ret None \<Rightarrow> (Finished, s)
      | Ret (Some a) \<Rightarrow> cli_commit e Finished (remove_alias a (ap_db s)) s)"

section \<open>Synchronisation with a configuration\<close>

record yaml_config =
  yc_domains :: "payload list"
  yc_users :: "payload list"
  yc_aliases :: "payload list"
  yc_managers :: "payload list"

text \<open>The rows so far, the sessions, and what the configuration names.\<close>

record 's sync =
  sy_db :: db
  sy_sessions :: 's
  sy_domains :: "string list"
  sy_users :: "string list"
  sy_aliases :: "string list"

text \<open>One item: False when it raised.  A loop over items ends at the first that raises.\<close>

fun sync_items :: "(payload \<Rightarrow> 's sync \<Rightarrow> bool \<times> 's sync) \<Rightarrow> payload list \<Rightarrow> 's sync \<Rightarrow> bool \<times> 's sync" where
  "sync_items f [] y = (True, y)"
| "sync_items f (p # ps) y = (case f p y of (True, y') \<Rightarrow> sync_items f ps y' | (False, y') \<Rightarrow> (False, y'))"

definition int_or :: "payload \<Rightarrow> string \<Rightarrow> int \<Rightarrow> int" where
  "int_or p k v = (case int_arg p k of Some i \<Rightarrow> i | None \<Rightarrow> v)"

definition sync_domain :: "'s api_env \<Rightarrow> payload \<Rightarrow> 's sync \<Rightarrow> bool \<times> 's sync" where
  "sync_domain e p y =
     (case str_arg p ''name'' of
        None \<Rightarrow> (False, y)
      | Some name \<Rightarrow>
          (let d = sy_db y;
               limits = with_limits (Some (int_or p ''max_users'' (-1))) (Some (int_or p ''max_aliases'' (-1)))
                 (Some (int_or p ''max_quota_bytes'' 0))
           in case bind_out (get_domain (ap_enc e) d name) (\<lambda>r. case r of
                     Some dm \<Rightarrow> Ret (put_domain (limits dm) d)
                   | None \<Rightarrow>
                       (case stored_domain e name of
                          None \<Rightarrow> Exn StatementError
                        | Some n \<Rightarrow> Ret (d\<lparr>domains := domains d @ [limits (new_domain n)]\<rparr>))) of
                Exn x \<Rightarrow> (False, y)
              | Ret d' \<Rightarrow> (True, y\<lparr>sy_db := d', sy_domains := sy_domains y @ [name]\<rparr>)))"

text \<open>The optional members of a user, in the order they are set; None when the list does not bind.\<close>

definition sync_members :: "payload \<Rightarrow> user \<Rightarrow> user option" where
  "sync_members p u =
     (case (case list_arg p ''forward_destination'' of None \<Rightarrow> Some None | Some xs \<Rightarrow> map_option Some (stored_list xs)) of
        None \<Rightarrow> None
      | Some fwd \<Rightarrow> Some
          (given (int_arg p ''spam_threshold'') (\<lambda>i. spam_threshold_update (\<lambda>_. i))
          (given (bool_arg p ''spam_mark_as_read'') (\<lambda>b. spam_mark_as_read_update (\<lambda>_. b))
          (given (bool_arg p ''spam_enabled'') (\<lambda>b. spam_enabled_update (\<lambda>_. b))
          (given (str_arg p ''displayed_name'') (\<lambda>v. displayed_name_update (\<lambda>_. v))
          (given (str_arg p ''reply_body_html'') (\<lambda>v. reply_body_html_update (\<lambda>_. Some v))
          (given (str_arg p ''reply_body'') set_reply_body
          (given (str_arg p ''reply_subject'') (\<lambda>v. reply_subject_update (\<lambda>_. Some v))
          (given (bool_arg p ''reply_enabled'') (\<lambda>b. reply_enabled_update (\<lambda>_. b))
          (given fwd (\<lambda>xs. forward_destination_update (\<lambda>_. xs))
          (given (bool_arg p ''forward_enabled'') (\<lambda>b. forward_enabled_update (\<lambda>_. b))
          (given (bool_arg p ''enable_pop'') (\<lambda>b. enable_pop_update (\<lambda>_. b))
          (given (bool_arg p ''enable_imap'') (\<lambda>b. enable_imap_update (\<lambda>_. b))
          (given (bool_arg p ''global_admin'') (\<lambda>b. global_admin_update (\<lambda>_. b))
          (given (int_arg p ''quota_bytes'') (\<lambda>i. quota_bytes_update (\<lambda>_. i))
          (given (str_arg p ''comment'') (\<lambda>c. user_comment_update (\<lambda>_. c)) u))))))))))))))))"

text \<open>A member \<open>email\<close> sets address, local part and domain at once.\<close>

definition set_address :: "'s api_env \<Rightarrow> string \<Rightarrow> user \<Rightarrow> user outcome" where
  "set_address e v u =
     (case rcut CHR ''@'' (lower v) of
        None \<Rightarrow> Exn ValueError
      | Some (lp, dn) \<Rightarrow>
          if \<not> is_valid_localpart (ap_valid_address e) lp then Exn ValueError
          else (case (bind_email (ap_enc e) v, stored_domain e dn) of
            (Some k, Some n) \<Rightarrow> Ret (u\<lparr>email := lp @ ''@'' @ n, localpart := lp, user_domain := n\<rparr>)
          | _ \<Rightarrow> Exn StatementError))"

definition replace_user :: "string \<Rightarrow> user \<Rightarrow> db \<Rightarrow> db" where
  "replace_user old u d = d\<lparr>users := map (\<lambda>r. if email r = old then u else r) (users d)\<rparr>"

text \<open>The row of an item, before its password: an existing one with its members set, or a new one, whose
  address is that of its domain.  The flag tells whether the row existed.\<close>

definition sync_row :: "'s api_env \<Rightarrow> payload \<Rightarrow> string \<Rightarrow> string \<Rightarrow> db \<Rightarrow> (user \<times> bool \<times> db) outcome" where
  "sync_row e p lp dn d =
     bind_out (ensure_domain e dn d) (\<lambda>(dm, d1).
     bind_out (get_user (ap_enc e) d1 (lp @ ''@'' @ dn)) (\<lambda>r. case r of
       Some u \<Rightarrow>
         (case sync_members p u of
            None \<Rightarrow> Exn StatementError
          | Some v \<Rightarrow>
              bind_out (case str_arg p ''email'' of None \<Rightarrow> Ret v | Some a \<Rightarrow> set_address e a v) (\<lambda>w.
              Ret (w, True, replace_user (email u) w d1)))
     | None \<Rightarrow>
         bind_out (made_user e lp dm) (\<lambda>u.
         bind_out (case str_arg p ''email'' of
             None \<Rightarrow> Ret u
           | Some a \<Rightarrow> (case rcut CHR ''@'' (lower a) of None \<Rightarrow> Exn ValueError | Some (lp', _) \<Rightarrow> made_user e lp' dm)) (\<lambda>v.
         (case sync_members p v of
            None \<Rightarrow> Exn StatementError
          | Some w \<Rightarrow> bind_out (add_user e w d1) (\<lambda>d2. Ret (w, False, d2)))))))"

text \<open>Setting the hash forces the mail apps of an existing user to authorize again and ends the sessions
  of an address in memory; a missing hash is a null that the database refuses.\<close>

definition sync_user :: "'s api_env \<Rightarrow> int \<Rightarrow> payload \<Rightarrow> 's sync \<Rightarrow> bool \<times> 's sync" where
  "sync_user e now p y =
     (case (str_arg p ''localpart'', str_arg p ''domain'') of
        (Some lp, Some dn) \<Rightarrow>
          (case sync_row e p lp dn (sy_db y) of
             Exn x \<Rightarrow> (False, y)
           | Ret (u, existed, d1) \<Rightarrow>
               (let addr = (if existed then Some (email u) else map_option lower (str_arg p ''email''));
                    y1 = (case addr of None \<Rightarrow> y | Some a \<Rightarrow> y\<lparr>sy_sessions := prune_user e a (sy_sessions y)\<rparr>)
                in case str_arg p ''password_hash'' of
                     None \<Rightarrow> (False, if existed then y else y1)
                   | Some h \<Rightarrow>
                       (let d2 = put_user (u\<lparr>password := h\<rparr>) d1;
                            d3 = (if existed then force_user_reauthentication now (email u) d2 else d2)
                        in (True, y1\<lparr>sy_db := d3, sy_users := sy_users y @ [lp @ ''@'' @ dn],
                                     sy_domains := sy_domains y @ [dn]\<rparr>))))
      | _ \<Rightarrow> (False, y))"

text \<open>A destination is a list, or a text with commas.\<close>

definition destination_arg :: "payload \<Rightarrow> string list option" where
  "destination_arg p =
     (case str_arg p ''destination'' of Some t \<Rightarrow> Some (split_on CHR '','' t) | None \<Rightarrow> list_arg p ''destination'')"

definition alias_row :: "'s api_env \<Rightarrow> string \<Rightarrow> string \<Rightarrow> string list \<Rightarrow> bool \<Rightarrow> db \<Rightarrow> db outcome" where
  "alias_row e lp dn ds wild d =
     bind_out (ensure_domain e dn d) (\<lambda>(dm, d1).
     bind_out (get_alias (ap_enc e) d1 (lp @ ''@'' @ dn)) (\<lambda>r. case r of
       None \<Rightarrow> bind_out (made_alias e lp dm wild ds) (\<lambda>a. Ret (d1\<lparr>aliases := aliases d1 @ [a]\<rparr>))
     | Some a \<Rightarrow>
         (case stored_list ds of
            None \<Rightarrow> Exn StatementError
          | Some xs \<Rightarrow> Ret (put_alias (a\<lparr>destination := xs, wildcard := wild\<rparr>) d1))))"

definition sync_alias :: "'s api_env \<Rightarrow> payload \<Rightarrow> 's sync \<Rightarrow> bool \<times> 's sync" where
  "sync_alias e p y =
     (case (str_arg p ''localpart'', str_arg p ''domain'', destination_arg p) of
        (Some lp, Some dn, Some ds) \<Rightarrow>
          (case alias_row e lp dn ds (case bool_arg p ''wildcard'' of Some b \<Rightarrow> b | None \<Rightarrow> False) (sy_db y) of
             Exn x \<Rightarrow> (False, y)
           | Ret d' \<Rightarrow> (True, y\<lparr>sy_db := d', sy_aliases := sy_aliases y @ [lp @ ''@'' @ dn],
                               sy_domains := sy_domains y @ [dn]\<rparr>))
      | _ \<Rightarrow> (False, y))"

definition sync_manager :: "'s api_env \<Rightarrow> payload \<Rightarrow> 's sync \<Rightarrow> bool \<times> 's sync" where
  "sync_manager e p y =
     (case (str_arg p ''domain'', str_arg p ''user'') of
        (Some dn, Some who) \<Rightarrow>
          (case (get_domain (ap_enc e) (sy_db y) dn, get_user (ap_enc e) (sy_db y) (who @ ''@'' @ dn)) of
             (Ret (Some dm), Ret (Some u)) \<Rightarrow>
               (True, if (domain_name dm, email u) \<in> set (managers (sy_db y)) then y
                      else y\<lparr>sy_db := (sy_db y)\<lparr>managers := managers (sy_db y) @ [(domain_name dm, email u)]\<rparr>\<rparr>)
           | _ \<Rightarrow> (False, y))
      | _ \<Rightarrow> (False, y))"

text \<open>With \<open>delete_objects\<close>, every row goes whose key is not spelled in the configuration as it is stored.\<close>

definition untracked_users :: "'s sync \<Rightarrow> db \<Rightarrow> db" where
  "untracked_users y d = fold delete_user_rows (filter (\<lambda>a. a \<notin> set (sy_users y)) (map email (users d))) d"

definition untracked_aliases :: "'s sync \<Rightarrow> db \<Rightarrow> db" where
  "untracked_aliases y d = d\<lparr>aliases := filter (\<lambda>a. alias_email a \<in> set (sy_aliases y)) (aliases d)\<rparr>"

definition untracked_domains :: "'s sync \<Rightarrow> db \<Rightarrow> db" where
  "untracked_domains y d = fold delete_domain_rows (filter (\<lambda>n. n \<notin> set (sy_domains y)) (map domain_name (domains d))) d"

definition delete_untracked :: "'s api_env \<Rightarrow> 's sync \<Rightarrow> 's command" where
  "delete_untracked e y s =
     (let d = ap_db s; d' = untracked_domains y (untracked_aliases y (untracked_users y d)) in
      case cli_commit e Finished d' s of
        (a, s') \<Rightarrow>
          (a, if a = Crashed then s'
              else s'\<lparr>ap_keys := filter (\<lambda>k. key_domain k \<in> domain_name ` set (domains d')
                     \<or> key_domain k \<notin> domain_name ` set (domains d)) (ap_keys s')\<rparr>))"

text \<open>The loops before the first commit, and the whole command.\<close>

definition sync_rows :: "'s api_env \<Rightarrow> int \<Rightarrow> yaml_config \<Rightarrow> 's api_state \<Rightarrow> bool \<times> 's sync" where
  "sync_rows e now c s =
     (case sync_items (sync_domain e) (yc_domains c)
             \<lparr>sy_db = ap_db s, sy_sessions = ap_sessions s, sy_domains = [], sy_users = [], sy_aliases = []\<rparr> of
        (False, y) \<Rightarrow> (False, y)
      | (True, y) \<Rightarrow>
          (case sync_items (sync_user e now) (yc_users c) y of
             (False, y) \<Rightarrow> (False, y)
           | (True, y) \<Rightarrow> sync_items (sync_alias e) (yc_aliases c) y))"

definition config_update :: "'s api_env \<Rightarrow> int \<Rightarrow> bool \<Rightarrow> yaml_config \<Rightarrow> 's command" where
  "config_update e now delete_objects c s =
     (case sync_rows e now c s of
        (False, y) \<Rightarrow> (Crashed, s\<lparr>ap_sessions := sy_sessions y\<rparr>)
      | (True, y) \<Rightarrow>
          (case cli_commit e Finished (sy_db y) (s\<lparr>ap_sessions := sy_sessions y\<rparr>) of
             (a, s1) \<Rightarrow>
               if a = Crashed then (Crashed, s1)
               else (case sync_items (sync_manager e) (yc_managers c) y of
                 (False, y') \<Rightarrow> (Crashed, s1)
               | (True, y') \<Rightarrow>
                   (case cli_commit e Finished (sy_db y') s1 of
                      (a, s2) \<Rightarrow>
                        if a = Crashed then (Crashed, s2)
                        else if delete_objects then delete_untracked e y' s2 else (Finished, s2)))))"

section \<open>The commands together\<close>

datatype cli_op =
    User_add string int string string "string option"
  | User_remove string bool
  | User_delete string bool
  | User_reset string int string
  | Set_admin bool string
  | Set_password int string string string
  | User_import string string string
  | Make_domain string "int option" "int option" "int option"
  | Set_limits string int int int
  | Set_manager string string
  | Make_alias string string string bool
  | Alias_delete string
  | Config_update int bool yaml_config

fun command :: "'s api_env \<Rightarrow> string \<Rightarrow> cli_op \<Rightarrow> 's command" where
  "command e main (User_add raw now secret name pw) = user_add e main raw now secret name pw"
| "command e main (User_remove name really) = user_remove e main name really"
| "command e main (User_delete adr really) = cli_user_delete e adr really"
| "command e main (User_reset raw now name) = user_reset e main raw now name"
| "command e main (Set_admin flag name) = set_global_admin e main flag name"
| "command e main (Set_password now lp dn pw) = cli_password e now lp dn pw"
| "command e main (User_import lp dn h) = user_import e lp dn h"
| "command e main (Make_domain n us als quota) = cli_domain e n us als quota"
| "command e main (Set_limits n us als quota) = setlimits e n us als quota"
| "command e main (Set_manager n who) = setmanager e n who"
| "command e main (Make_alias lp dn dest wild) = cli_alias e lp dn dest wild"
| "command e main (Alias_delete adr) = cli_alias_delete e adr"
| "command e main (Config_update now del c) = config_update e now del c"

text \<open>The commands check no limit: the operator gives legal ones, and renames nobody.\<close>

definition limits_legal :: "int option \<Rightarrow> int option \<Rightarrow> int option \<Rightarrow> bool" where
  "limits_legal us als quota \<longleftrightarrow>
     (\<forall>i\<in>set_option us. -1 \<le> i) \<and> (\<forall>i\<in>set_option als. -1 \<le> i) \<and> (\<forall>i\<in>set_option quota. 0 \<le> i)"

fun command_ok :: "cli_op \<Rightarrow> bool" where
  "command_ok (Make_domain n us als quota) = limits_legal us als quota"
| "command_ok (Set_limits n us als quota) = limits_legal (Some us) (Some als) (Some quota)"
| "command_ok (Config_update now del c) =
     (list_all (\<lambda>p. limits_legal (int_arg p ''max_users'') (int_arg p ''max_aliases'') (int_arg p ''max_quota_bytes''))
        (yc_domains c)
      \<and> list_all (\<lambda>p. str_arg p ''email'' = None) (yc_users c))"
| "command_ok _ = True"

section \<open>Rows stay well formed\<close>

lemma cli_commit_inv: "\<lbrakk>api_inv e s; rows_ok e d'\<rbrakk> \<Longrightarrow> api_inv e (snd (cli_commit e a d' s))"
  using commit_inv [of e s d'] by (simp add: cli_commit_def split_beta)

lemma with_rows_inv:
  "\<lbrakk>api_inv e s; \<And>d'. r = Ret d' \<Longrightarrow> rows_ok e d'\<rbrakk> \<Longrightarrow> api_inv e (snd (with_rows e a r s))"
  by (cases r) (simp_all add: with_rows_def cli_commit_inv)

lemma plain_domain:
  "policy_ok (domain_policy (new_domain n))" "-1 \<le> max_users (new_domain n)" "-1 \<le> max_aliases (new_domain n)"
  "0 \<le> max_quota_bytes (new_domain n)" "domain_name (new_domain n) = n"
  by (simp_all add: new_domain_def default_policy_def policy_ok_def aaguid_modes_def policy_levels_def resident_kinds_def)

lemma with_limits_row [simp]:
  "domain_name (with_limits us als quota dm) = domain_name dm" "domain_policy (with_limits us als quota dm) = domain_policy dm"
  by (simp_all add: with_limits_def given_frame [of domain_name] given_frame [of domain_policy])

lemma with_limits_bounds:
  assumes "limits_legal us als quota" "-1 \<le> max_users dm" "-1 \<le> max_aliases dm" "0 \<le> max_quota_bytes dm"
  shows "-1 \<le> max_users (with_limits us als quota dm) \<and> -1 \<le> max_aliases (with_limits us als quota dm)
    \<and> 0 \<le> max_quota_bytes (with_limits us als quota dm)"
  using assms by (cases us; cases als; cases quota) (simp_all add: with_limits_def given_def limits_legal_def)

lemma ensure_domain_rows:
  assumes "ensure_domain e n d = Ret (dm, d1)" "rows_ok e d" "idna_ok e"
  shows "rows_ok e d1 \<and> dm \<in> set (domains d1)"
  using assms stored_canonical [OF assms(3)] get_domain_mem
  by (auto simp: ensure_domain_def plain_domain intro!: rows_domain_added split: option.splits)

lemma made_user_row:
  assumes "made_user e lp dm = Ret u"
  shows "user_domain u = domain_name dm \<and> localpart u = lower lp \<and> email u = lower lp @ ''@'' @ domain_name dm
    \<and> is_valid_localpart (ap_valid_address e) (lower lp)"
  using assms by (auto simp: made_user_def new_user_def split: if_splits)

lemma add_user_rows:
  assumes "add_user e u d = Ret d'" "rows_ok e d" "dm \<in> set (domains d)" "made_user e lp dm = Ret v"
    and "email u = email v" "localpart u = localpart v" "user_domain u = user_domain v"
  shows "rows_ok e d'"
proof -
  note v = made_user_row [OF assms(4)]
  have d': "bind_email (ap_enc e) (email u) \<noteq> None" "d' = d\<lparr>users := users d @ [u]\<rparr>"
    using assms(1) by (auto simp: add_user_def split: if_splits)
  then have "CHR ''@'' \<notin> set (lower lp)" using bind_email_parts v assms(5) by fastforce
  then show ?thesis unfolding d'(2) using v assms(3,5-7) by (intro rows_user_added [OF assms(2)]) (simp_all add: address_ok_def comp_def)
qed

lemma on_user_inv:
  assumes "api_inv e s" "\<And>u. u \<in> set (users (ap_db s)) \<Longrightarrow> api_inv e (snd (f u s))"
  shows "api_inv e (snd (on_user e adr missing f s))"
  using assms get_user_row by (auto simp: on_user_def split: outcome.splits option.splits)

lemma put_row_inv:
  assumes "api_inv e s" "u \<in> set (users (ap_db s))" "email v = email u" "localpart v = localpart u" "user_domain v = user_domain u"
  shows "api_inv e (snd (cli_commit e a (put_user v (ap_db s)) s))"
  using user_row_ok [OF api_inv_rows [OF assms(1)] assms(2)] assms(3-5)
  by (intro cli_commit_inv [OF assms(1)] rows_user_put [OF api_inv_rows [OF assms(1)]]) simp_all

lemma drop_user_inv: "\<lbrakk>api_inv e s; u \<in> set (users (ap_db s))\<rbrakk> \<Longrightarrow> api_inv e (snd (drop_user e really u s))"
  using put_row_inv [of e s u "u\<lparr>enabled := False\<rparr>"] rows_user_deleted [OF api_inv_rows, of e s "email u"]
  by (simp add: drop_user_def cli_commit_inv)

lemma add_account_inv:
  assumes "api_inv e s" "rows_ok e d" "dm \<in> set (domains d)"
  shows "api_inv e (snd (add_account e raw now secret pw lp name dm d s))"
proof (cases "made_user e lp dm")
  case (Ret u)
  let ?u = "u\<lparr>change_pw_next_login := True, password := cr_hash (ap_crypto e) (case pw of Some p \<Rightarrow> p | None \<Rightarrow> secret)\<rparr>"
  show ?thesis
  proof (cases "add_user e ?u d")
    case d': (Ret d')
    have "rows_ok e d'" by (rule add_user_rows [OF d' assms(2,3) Ret]) simp_all
    then have "api_inv e (snd (cli_commit e a d' s))" for a by (rule cli_commit_inv [OF assms(1)])
    then show ?thesis using Ret d' by (simp add: add_account_def Let_def split_beta)
  qed (use assms(1) Ret in \<open>simp add: add_account_def\<close>)
qed (use assms(1) in \<open>simp add: add_account_def\<close>)

lemma user_add_inv:
  assumes "api_inv e s" "idna_ok e"
  shows "api_inv e (snd (user_add e main raw now secret name pw s))"
proof -
  have "api_inv e (snd (add_account e raw now secret pw lp n dm d1 s))"
    if "ensure_domain e dn (ap_db s) = Ret (dm, d1)" for lp n dm d1 dn
    using ensure_domain_rows [OF that api_inv_rows [OF assms(1)] assms(2)] by (intro add_account_inv [OF assms(1)]) simp_all
  then show ?thesis
    using assms(1) by (auto simp: user_add_def Let_def split: prod.splits outcome.splits option.splits)
qed

lemma user_import_inv:
  assumes "api_inv e s" "idna_ok e"
  shows "api_inv e (snd (user_import e lp dn h s))"
  unfolding user_import_def
proof (rule with_rows_inv [OF assms(1)])
  fix d'
  assume "bind_out (ensure_domain e dn (ap_db s)) (\<lambda>(dm, d1).
     bind_out (made_user e lp dm) (\<lambda>u. add_user e (u\<lparr>password := h\<rparr>) d1)) = Ret d'"
  then obtain dm d1 u where r: "ensure_domain e dn (ap_db s) = Ret (dm, d1)" "made_user e lp dm = Ret u"
    "add_user e (u\<lparr>password := h\<rparr>) d1 = Ret d'" by auto
  from ensure_domain_rows [OF r(1) api_inv_rows [OF assms(1)] assms(2)] show "rows_ok e d'"
    by (intro add_user_rows [OF r(3) _ _ r(2)]) simp_all
qed

lemma made_alias_row:
  assumes "made_alias e lp dm wild ds = Ret a"
  shows "alias_domain a = domain_name dm \<and> owner_email a = None
    \<and> address_ok e (alias_email a) (alias_localpart a) (alias_domain a)"
proof -
  have "bind_email (ap_enc e) (lower lp @ ''@'' @ domain_name dm) \<noteq> None"
    using assms by (auto simp: made_alias_def split: if_splits)
  then have "CHR ''@'' \<notin> set (lower lp)" using bind_email_parts by fastforce
  then show ?thesis using assms
    by (auto simp: made_alias_def new_alias_def address_ok_def comp_def split: if_splits option.splits)
qed

lemma rows_alias_added:
  assumes "rows_ok e d" "dm \<in> set (domains d)" "made_alias e lp dm wild ds = Ret a"
  shows "rows_ok e (d\<lparr>aliases := aliases d @ [a]\<rparr>)"
proof (rule rows_aliases [OF assms(1)])
  have "\<forall>x\<in>set (aliases d). alias_domain x \<in> domain_name ` set (domains d)
      \<and> set_option (owner_email x) \<subseteq> email ` set (users d) \<and> address_ok e (alias_email x) (alias_localpart x) (alias_domain x)"
    using assms(1) by (simp add: rows_defs)
  then show "\<forall>x\<in>set (aliases d @ [a]). alias_domain x \<in> domain_name ` set (domains d)
      \<and> set_option (owner_email x) \<subseteq> email ` set (users d) \<and> address_ok e (alias_email x) (alias_localpart x) (alias_domain x)"
    using made_alias_row [OF assms(3)] assms(2) by auto
qed

lemma alias_command_inv:
  assumes "api_inv e s" "idna_ok e"
  shows "api_inv e (snd (cli_alias e lp dn dest wild s))"
  unfolding cli_alias_def
proof (rule with_rows_inv [OF assms(1)])
  fix d'
  assume "bind_out (ensure_domain e dn (ap_db s)) (\<lambda>(dm, d1).
     bind_out (made_alias e lp dm wild (split_on CHR '','' dest)) (\<lambda>a. Ret (d1\<lparr>aliases := aliases d1 @ [a]\<rparr>))) = Ret d'"
  then obtain dm d1 a where r: "ensure_domain e dn (ap_db s) = Ret (dm, d1)"
    "made_alias e lp dm wild (split_on CHR '','' dest) = Ret a" "d' = d1\<lparr>aliases := aliases d1 @ [a]\<rparr>" by auto
  from ensure_domain_rows [OF r(1) api_inv_rows [OF assms(1)] assms(2)] show "rows_ok e d'"
    unfolding r(3) by (intro rows_alias_added [OF _ _ r(2)]) simp_all
qed

lemma domain_commands_inv:
  assumes "api_inv e s" "idna_ok e"
  shows "limits_legal us als quota \<Longrightarrow> api_inv e (snd (cli_domain e n us als quota s))"
    and "limits_legal (Some us') (Some als') (Some quota') \<Longrightarrow> api_inv e (snd (setlimits e n us' als' quota' s))"
proof -
  note r = api_inv_rows [OF assms(1)]
  {
    assume l: "limits_legal us als quota"
    have "rows_ok e ((ap_db s)\<lparr>domains := domains (ap_db s) @ [with_limits us als quota (new_domain k)]\<rparr>)"
      if "stored_domain e n = Some k" for k
      using stored_canonical [OF assms(2) that] with_limits_bounds [OF l, of "new_domain k"]
      by (intro rows_domain_added [OF r]) (simp_all add: plain_domain)
    then show "api_inv e (snd (cli_domain e n us als quota s))"
      using assms(1) by (auto simp: cli_domain_def intro: cli_commit_inv split: outcome.splits option.splits)
  next
    assume l: "limits_legal (Some us') (Some als') (Some quota')"
    have "rows_ok e (put_domain (with_limits (Some us') (Some als') (Some quota') dm) (ap_db s))"
      if "dm \<in> set (domains (ap_db s))" for dm
      using r that l by (intro rows_domain_put [OF r]) (auto simp: rows_defs with_limits_def given_def limits_legal_def)
    then show "api_inv e (snd (setlimits e n us' als' quota' s))"
      using assms(1) get_domain_mem by (fastforce simp: setlimits_def intro: cli_commit_inv split: outcome.splits option.splits)
  }
qed

lemma setmanager_inv:
  assumes "api_inv e s"
  shows "api_inv e (snd (setmanager e n who s))"
proof -
  note r = api_inv_rows [OF assms]
  have "rows_ok e ((ap_db s)\<lparr>managers := managers (ap_db s) @ [(domain_name dm, email u)]\<rparr>)"
    if "dm \<in> set (domains (ap_db s))" "u \<in> set (users (ap_db s))" for dm u
    using r that by (intro rows_managers [OF r]) (auto simp: rows_defs)
  then show ?thesis using assms get_domain_mem get_user_row
    by (fastforce simp: setmanager_def intro: cli_commit_inv split: outcome.splits option.splits)
qed

lemma alias_delete_inv: "api_inv e s \<Longrightarrow> api_inv e (snd (cli_alias_delete e adr s))"
proof -
  assume i: "api_inv e s"
  note r = api_inv_rows [OF i]
  have "rows_ok e (remove_alias a (ap_db s))" for a
    unfolding remove_alias_def using r by (intro rows_aliases [OF r]) (auto simp: rows_defs)
  then show ?thesis using i by (auto simp: cli_alias_delete_def intro: cli_commit_inv split: outcome.splits option.splits)
qed

lemma password_command_inv: "api_inv e s \<Longrightarrow> api_inv e (snd (cli_password e now lp dn pw s))"
proof -
  assume i: "api_inv e s"
  have "api_inv e (snd (cli_commit e Finished d' (s\<lparr>ap_sessions := st'\<rparr>)))"
    if "u \<in> set (users (ap_db s))" "set_password (ap_store e) (ap_session_cfg e) (ap_crypto e) now False (Some {}) True
      (u\<lparr>change_pw_next_login := True\<rparr>) pw (ap_db s, ap_sessions s) = (d', st')" for u d' st'
  proof -
    let ?u = "u\<lparr>change_pw_next_login := True, password := cr_hash (ap_crypto e) pw\<rparr>"
    have d': "d' = force_user_reauthentication now (email u) (put_user ?u (ap_db s))"
      using that(2) by (simp add: set_password_def Let_def)
    have "rows_ok e (put_user ?u (ap_db s))"
      using user_row_ok [OF api_inv_rows [OF i] that(1)] by (intro rows_user_put [OF api_inv_rows [OF i]]) simp_all
    then have "rows_ok e d'" unfolding d' by (rule force_rows)
    then show ?thesis using i by (intro cli_commit_inv) simp_all
  qed
  then show ?thesis unfolding cli_password_def by (intro on_user_inv [OF i]) (auto split: prod.splits)
qed

subsection \<open>Synchronisation\<close>

lemma sync_items_keep:
  assumes "sync_items f ps y = (True, y')" "P (sy_db y)"
    and "\<And>p y y'. \<lbrakk>p \<in> set ps; f p y = (True, y'); P (sy_db y)\<rbrakk> \<Longrightarrow> P (sy_db y')"
  shows "P (sy_db y')"
  using assms
proof (induction ps arbitrary: y)
  case (Cons p ps)
  obtain b z where z: "f p y = (b, z)" by fastforce
  then have "b" "sync_items f ps z = (True, y')" using Cons.prems(1) by (cases b; simp)+
  then show ?case using Cons.IH [of z] Cons.prems(2,3) z by auto
qed simp

lemma sync_domain_rows:
  assumes "sync_domain e p y = (True, y')" "rows_ok e (sy_db y)" "idna_ok e"
    and "limits_legal (int_arg p ''max_users'') (int_arg p ''max_aliases'') (int_arg p ''max_quota_bytes'')"
  shows "rows_ok e (sy_db y')"
proof -
  let ?l = "with_limits (Some (int_or p ''max_users'' (-1))) (Some (int_or p ''max_aliases'' (-1))) (Some (int_or p ''max_quota_bytes'' 0))"
  have l: "limits_legal (Some (int_or p ''max_users'' (-1))) (Some (int_or p ''max_aliases'' (-1))) (Some (int_or p ''max_quota_bytes'' 0))"
    using assms(4) by (simp add: limits_legal_def int_or_def split: option.splits)
  have old: "rows_ok e (put_domain (?l dm) (sy_db y))" if "dm \<in> set (domains (sy_db y))" for dm
    using assms(2) that l by (intro rows_domain_put [OF assms(2)]) (auto simp: rows_defs with_limits_def given_def limits_legal_def)
  have new: "rows_ok e ((sy_db y)\<lparr>domains := domains (sy_db y) @ [?l (new_domain k)]\<rparr>)" if "stored_domain e n = Some k" for n k
    using stored_canonical [OF assms(3) that] with_limits_bounds [OF l, of "new_domain k"]
    by (intro rows_domain_added [OF assms(2)]) (simp_all add: plain_domain)
  show ?thesis using assms(1) old new get_domain_mem
    by (fastforce simp: sync_domain_def Let_def split: option.splits outcome.splits)
qed

lemma sync_members_keys:
  assumes "sync_members p u = Some v"
  shows "email v = email u \<and> localpart v = localpart u \<and> user_domain v = user_domain u"
  using assms unfolding sync_members_def by (auto simp: given_user_keys split: option.splits)

lemma sync_user_rows:
  assumes "sync_user e now p y = (True, y')" "rows_ok e (sy_db y)" "idna_ok e" "str_arg p ''email'' = None"
  shows "rows_ok e (sy_db y')"
proof -
  obtain lp dn u existed d1 h where r: "sync_row e p lp dn (sy_db y) = Ret (u, existed, d1)"
    and y': "sy_db y' = (if existed then force_user_reauthentication now (email u) (put_user (u\<lparr>password := h\<rparr>) d1)
                         else put_user (u\<lparr>password := h\<rparr>) d1)"
    using assms(1) by (auto simp: sync_user_def Let_def split: option.splits outcome.splits prod.splits if_splits)
  obtain dm d0 x where d0: "ensure_domain e dn (sy_db y) = Ret (dm, d0)" "get_user (ap_enc e) d0 (lp @ ''@'' @ dn) = Ret x"
    using r by (auto simp: sync_row_def)
  have o: "rows_ok e d0" "dm \<in> set (domains d0)" using ensure_domain_rows [OF d0(1) assms(2,3)] by simp_all
  have "rows_ok e d1 \<and> u \<in> set (users d1)"
  proof (cases x)
    case None
    then obtain v where v: "made_user e lp dm = Ret v" "sync_members p v = Some u" "add_user e u d0 = Ret d1"
      using r d0 assms(4) by (auto simp: sync_row_def split: option.splits)
    then have "u \<in> set (users d1)" by (auto simp: add_user_def split: if_splits)
    then show ?thesis using add_user_rows [OF v(3) o v(1)] sync_members_keys [OF v(2)] by simp
  next
    case (Some v)
    then have v: "sync_members p v = Some u" "d1 = replace_user (email v) u d0"
      using r d0 assms(4) by (auto simp: sync_row_def split: option.splits)
    have m: "v \<in> set (users d0)" using get_user_row d0(2) Some by blast
    have k: "email u = email v" "localpart u = localpart v" "user_domain u = user_domain v"
      using sync_members_keys [OF v(1)] by simp_all
    then have "d1 = put_user u d0" using v(2) by (simp add: replace_user_def put_user_def)
    moreover have "rows_ok e (put_user u d0)" using user_row_ok [OF o(1) m] k by (intro rows_user_put [OF o(1)]) simp_all
    moreover have "u \<in> set (users (put_user u d0))" using m k(1) by (auto simp: put_user_def image_iff)
    ultimately show ?thesis by simp
  qed
  then have w: "rows_ok e (put_user (u\<lparr>password := h\<rparr>) d1)"
    using user_row_ok [of e d1 u] by (intro rows_user_put) simp_all
  show ?thesis using y' w force_rows [OF w, of now "email u"] by simp
qed

lemma alias_row_rows:
  assumes "alias_row e lp dn ds wild d = Ret d'" "rows_ok e d" "idna_ok e"
  shows "rows_ok e d'"
proof -
  obtain dm d1 x where d1: "ensure_domain e dn d = Ret (dm, d1)" "get_alias (ap_enc e) d1 (lp @ ''@'' @ dn) = Ret x"
    using assms(1) by (auto simp: alias_row_def)
  have o: "rows_ok e d1" "dm \<in> set (domains d1)" using ensure_domain_rows [OF d1(1) assms(2,3)] by simp_all
  show ?thesis
  proof (cases x)
    case None
    then show ?thesis using assms(1) d1 rows_alias_added [OF o] by (auto simp: alias_row_def)
  next
    case (Some a)
    then have m: "a \<in> set (aliases d1)" using d1(2) by (simp add: get_alias_mem)
    obtain xs where "d' = put_alias (a\<lparr>destination := xs, wildcard := wild\<rparr>) d1"
      using assms(1) d1 Some by (auto simp: alias_row_def split: option.splits)
    then show ?thesis using rows_alias_put [OF o(1) m] by simp
  qed
qed

lemma sync_alias_rows:
  assumes "sync_alias e p y = (True, y')" "rows_ok e (sy_db y)" "idna_ok e"
  shows "rows_ok e (sy_db y')"
  using assms(1) alias_row_rows [OF _ assms(2,3)] by (auto simp: sync_alias_def split: option.splits outcome.splits)

lemma sync_manager_rows:
  assumes "sync_manager e p y = (True, y')" "rows_ok e (sy_db y)"
  shows "rows_ok e (sy_db y')"
proof -
  have "rows_ok e ((sy_db y)\<lparr>managers := managers (sy_db y) @ [(domain_name dm, email u)]\<rparr>)"
    if "dm \<in> set (domains (sy_db y))" "u \<in> set (users (sy_db y))" for dm u
    using assms(2) that by (intro rows_managers [OF assms(2)]) (auto simp: rows_defs)
  then show ?thesis using assms get_domain_mem get_user_row
    by (fastforce simp: sync_manager_def split: option.splits outcome.splits if_splits)
qed

lemma rows_domains_deleted: "rows_ok e d \<Longrightarrow> rows_ok e (fold delete_domain_rows ns d)"
  by (induction ns arbitrary: d) (simp_all add: rows_domain_deleted)

lemma untracked_rows:
  assumes "rows_ok e d"
  shows "rows_ok e (untracked_domains y (untracked_aliases y (untracked_users y d)))"
proof -
  have u: "rows_ok e (untracked_users y d)" unfolding untracked_users_def by (rule rows_users_deleted [OF assms])
  have "rows_ok e (untracked_aliases y (untracked_users y d))"
    unfolding untracked_aliases_def using u by (intro rows_aliases [OF u]) (auto simp: rows_defs)
  then show ?thesis unfolding untracked_domains_def by (rule rows_domains_deleted)
qed

lemma delete_untracked_inv: "api_inv e s \<Longrightarrow> api_inv e (snd (delete_untracked e y s))"
  using cli_commit_inv [of e s "untracked_domains y (untracked_aliases y (untracked_users y (ap_db s)))" Finished]
    untracked_rows [OF api_inv_rows, of e s y]
  by (simp add: delete_untracked_def Let_def split_beta)

lemma sync_rows_rows:
  assumes "sync_rows e now c s = (True, y)" "rows_ok e (ap_db s)" "idna_ok e" "command_ok (Config_update now del c)"
  shows "rows_ok e (sy_db y)"
proof -
  let ?y0 = "\<lparr>sy_db = ap_db s, sy_sessions = ap_sessions s, sy_domains = [], sy_users = [], sy_aliases = []\<rparr>"
  obtain y1 y2 where 1: "sync_items (sync_domain e) (yc_domains c) ?y0 = (True, y1)"
    and 2: "sync_items (sync_user e now) (yc_users c) y1 = (True, y2)"
    and 3: "sync_items (sync_alias e) (yc_aliases c) y2 = (True, y)"
    using assms(1) unfolding sync_rows_def by (auto split: prod.splits bool.splits)
  have "rows_ok e (sy_db y1)"
    by (rule sync_items_keep [where P = "rows_ok e", OF 1])
      (use assms(2-4) in \<open>auto intro: sync_domain_rows simp: list_all_iff\<close>)
  then have "rows_ok e (sy_db y2)"
    by (rule sync_items_keep [where P = "rows_ok e", OF 2])
      (use assms(3,4) in \<open>auto intro: sync_user_rows simp: list_all_iff\<close>)
  then show ?thesis
    by (rule sync_items_keep [where P = "rows_ok e", OF 3]) (use assms(3) in \<open>auto intro: sync_alias_rows\<close>)
qed

lemma config_update_inv:
  assumes "api_inv e s" "idna_ok e" "command_ok (Config_update now del c)"
  shows "api_inv e (snd (config_update e now del c s))"
proof -
  obtain b y where y: "sync_rows e now c s = (b, y)" by fastforce
  define s0 where "s0 = s\<lparr>ap_sessions := sy_sessions y\<rparr>"
  obtain a1 s1 where s1: "cli_commit e Finished (sy_db y) s0 = (a1, s1)" by fastforce
  obtain b' y' where y': "sync_items (sync_manager e) (yc_managers c) y = (b', y')" by fastforce
  obtain a2 s2 where s2: "cli_commit e Finished (sy_db y') s1 = (a2, s2)" by fastforce
  have i0: "api_inv e s0" using assms(1) by (simp add: s0_def)
  show ?thesis
  proof (cases b)
    case False
    then show ?thesis using y i0 by (simp add: config_update_def s0_def)
  next
    case True
    then have r: "rows_ok e (sy_db y)"
      by (intro sync_rows_rows [OF _ api_inv_rows [OF assms(1)] assms(2,3)]) (use y in simp)
    have i1: "api_inv e s1" using cli_commit_inv [OF i0 r, of Finished] s1 by simp
    have "rows_ok e (sy_db y')" if "b'"
      by (rule sync_items_keep [where P = "rows_ok e" and f = "sync_manager e"]) (use y' that r in \<open>auto intro: sync_manager_rows\<close>)
    then have i2: "api_inv e s2" if "b'" using cli_commit_inv [OF i1, of "sy_db y'" Finished] that s2 by simp
    have "config_update e now del c s = (if a1 = Crashed then (Crashed, s1) else if \<not> b' then (Crashed, s1)
        else if a2 = Crashed then (Crashed, s2) else if del then delete_untracked e y' s2 else (Finished, s2))"
      using y y' s1 s2 True by (cases b') (simp_all add: config_update_def s0_def)
    then show ?thesis using i1 i2 by (auto intro: delete_untracked_inv)
  qed
qed

lemma set_admin_inv: "api_inv e s \<Longrightarrow> api_inv e (snd (set_global_admin e main flag name s))"
  unfolding set_global_admin_def by (intro on_user_inv) (auto intro: put_row_inv)

lemma command_inv:
  assumes "api_inv e s" "idna_ok e" "command_ok op"
  shows "api_inv e (snd (command e main op s))"
proof (cases op)
  case (User_reset raw now name)
  then show ?thesis using assms(1) by (auto simp: user_reset_def issue_setup_def intro: on_user_inv)
next
  case (Config_update now del c)
  then show ?thesis using config_update_inv assms by simp
qed (use assms in \<open>auto simp: user_remove_def cli_user_delete_def
    intro: on_user_inv drop_user_inv set_admin_inv user_add_inv user_import_inv domain_commands_inv setmanager_inv
      alias_command_inv alias_delete_inv password_command_inv\<close>)

section \<open>Deleting what is spelled differently\<close>

text \<open>
  With \<open>delete_objects\<close> a user goes whose address the configuration does not spell as it is stored, although
  the same run may have found and updated the user under that other spelling.
\<close>

lemma fold_delete_kept:
  "u \<in> set (users (fold delete_user_rows whos d)) \<longleftrightarrow> u \<in> set (users d) \<and> email u \<notin> set whos"
  by (simp add: fold_delete_users)

theorem untracked_user_deleted:
  assumes "u \<in> set (users d)" "email u \<notin> set (sy_users y)"
  shows "u \<notin> set (users (untracked_users y d))"
  using assms by (simp add: untracked_users_def fold_delete_kept)

definition sample_yaml :: yaml_config where
  "sample_yaml = \<lparr>yc_domains = [[(''name'', JStr ''x.io'')]],
     yc_users = [[(''localpart'', JStr ''Max''), (''domain'', JStr ''x.io''), (''password_hash'', JStr ''h'')]],
     yc_aliases = [], yc_managers = []\<rparr>"

theorem config_update_other_spelling:
  "map (\<lambda>u. (email u, password u)) (users (ap_db (snd (config_update sample_api 5 False sample_yaml Admin_System.sample_site))))
     = [(''ann@x.io'', ''x''), (''max@x.io'', ''h'')]"
  "users (ap_db (snd (config_update sample_api 5 True sample_yaml Admin_System.sample_site))) = []"
  by code_simp+

end
