(* ===== verification/Site_System.thy ===== *)
theory Site_System
  imports Signup_Machine Command_Line
begin

text \<open>
  The whole administration site: visitors who sign up or change passwords, each with a session, the
  administration interfaces of \<open>Admin_System\<close> and the command line, on one database.  Two invariants of this machine,
  each by an interpretation of \<open>Prelude.machine\<close>: the rows stay well formed, and no session ever
  holds a challenge for the sign-up by passkey.
\<close>

section \<open>The machine\<close>

datatype visit =
    Sign_up request "string option" "string option" "signup_form option"
  | Continue_page request string
  | Continue_options request string
  | Continue_register request string
  | Sign_up_domain "domain_signup_form option"
  | Own_password request string "pw_form option"
  | Other_password request string string "pw_form option"

definition uncached :: "('s web \<Rightarrow> answer \<times> 's web) \<Rightarrow> 's web \<times> cache \<Rightarrow> answer \<times> 's web \<times> cache" where
  "uncached view s = (case s of (w, c) \<Rightarrow> (case view w of (a, w') \<Rightarrow> (a, w', c)))"

fun serve :: "'s signup_env \<Rightarrow> visit \<Rightarrow> 's web \<times> cache \<Rightarrow> answer \<times> 's web \<times> cache" where
  "serve e (Sign_up rq name requested form) s = uncached (user_signup e rq name requested form) s"
| "serve e (Continue_page rq raw) s = uncached (passkey_signup e rq raw) s"
| "serve e (Continue_options rq raw) s = uncached (passkey_signup_options e rq raw) s"
| "serve e (Continue_register rq raw) s = uncached (passkey_signup_register e rq raw) s"
| "serve e (Sign_up_domain form) s = uncached (domain_signup e form) s"
| "serve e (Own_password rq here form) s = user_password_change e rq here form s"
| "serve e (Other_password rq here who form) s = user_password e rq here who form s"

text \<open>A step: a request of the administration interfaces, a command with the setting DOMAIN, a visit, or
  another visitor's session.\<close>

datatype site_op =
    Admin admin_op
  | Command string cli_op
  | Visit visit
  | Next_visitor "(string, json) dict" "string option"

type_synonym 's site_state = "'s api_state \<times> 's web \<times> cache"

definition share_rows :: "'s api_state \<Rightarrow> 's web \<Rightarrow> 's web" where
  "share_rows p w = w\<lparr>w_db := ap_db p, w_setup := ap_setups p, w_store := ap_sessions p\<rparr>"

definition site_step :: "'s signup_env \<Rightarrow> 's site_state \<Rightarrow> site_op \<Rightarrow> 's site_state" where
  "site_step e s op =
     (case s of (p, w, c) \<Rightarrow>
        case op of
          Admin a \<Rightarrow>
            (let p' = admin_step (sn_pages e) p a in
             (p', share_rows p' w, c))
        | Command main o' \<Rightarrow>
            (let p' = snd (command (pe_api (sn_pages e)) main o' p) in (p', share_rows p' w, c))
        | Visit v \<Rightarrow>
            (case serve e v (w, c) of (a, w', c') \<Rightarrow>
               (p\<lparr>ap_db := w_db w', ap_setups := w_setup w', ap_sessions := w_store w'\<rparr>, w', c'))
        | Next_visitor session who \<Rightarrow> (p, w\<lparr>w_session := session, w_user := who, w_new_key := False\<rparr>, c))"

fun site_ok :: "'s signup_env \<Rightarrow> site_op \<Rightarrow> bool" where
  "site_ok e (Admin a) = admin_ok (sn_pages e) a"
| "site_ok e (Command main op) = command_ok op"
| "site_ok e (Visit v) = True"
| "site_ok e (Next_visitor session who) = True"

definition site_inv :: "'s signup_env \<Rightarrow> 's site_state \<Rightarrow> bool" where
  "site_inv e s \<longleftrightarrow> (case s of (p, w, c) \<Rightarrow> admin_inv (sn_pages e) p \<and> w_db w = ap_db p \<and> 0 \<le> sn_default_quota e)"

section \<open>The rows stay well formed\<close>

definition db_inv :: "'s api_env \<Rightarrow> db \<Rightarrow> bool" where
  "db_inv a d \<longleftrightarrow> rows_ok a d \<and> keys_unique (ap_enc a) d \<and> integers_fit d"

lemma bind_no_at: "bind_email enc (lp @ ''@'' @ dn) \<noteq> None \<Longrightarrow> lower lp = lp \<Longrightarrow> CHR ''@'' \<notin> set lp"
  using bind_email_parts by fastforce

lemma account_added_inv:
  assumes "account_added e d d'" "db_inv (pe_api (sn_pages e)) d"
  shows "db_inv (pe_api (sn_pages e)) d'"
proof -
  let ?a = "pe_api (sn_pages e)"
  obtain dm z lp ks where a: "dm \<in> set (domains d)" "localpart z = lower lp" "user_domain z = domain_name dm"
      "email z = lower lp @ ''@'' @ domain_name dm" "is_valid_localpart (ap_valid_address ?a) (lower lp)"
      "bind_email (pe_enc (sn_pages e)) (email z) \<noteq> None" "ks = [] \<or> (\<exists>k. ks = [k] \<and> pk_user k = email z)"
      "d' = d\<lparr>users := users d @ [z], passkeys := passkeys d @ ks\<rparr>"
      "keys_unique (pe_enc (sn_pages e)) d'" "integers_fit d'"
    using assms(1) unfolding account_added_def by blast
  have r: "rows_ok ?a d" using assms(2) by (simp add: db_inv_def)
  have at: "CHR ''@'' \<notin> set (lower lp)" by (rule bind_no_at) (use a(4,6) in simp_all)
  have "rows_ok ?a (d\<lparr>users := users d @ [z]\<rparr>)"
    by (rule rows_user_added [OF r]) (use a(1-5) at in \<open>simp_all add: address_ok_def comp_def\<close>)
  moreover have "\<forall>p\<in>set (passkeys d). pk_user p \<in> email ` set (users d)" using r by (simp add: rows_defs)
  ultimately have "rows_ok ?a d'" unfolding a(8) using a(7) by (intro rows_passkeys) auto
  then show ?thesis using a(9,10) by (simp add: db_inv_def pe_enc_def)
qed

lemma domain_added_inv:
  assumes "domain_added e f d d'" "db_inv (pe_api (sn_pages e)) d" "idna_ok (pe_api (sn_pages e))" "0 \<le> sn_default_quota e"
  shows "db_inv (pe_api (sn_pages e)) d'"
proof -
  let ?a = "pe_api (sn_pages e)"
  obtain n z where a: "stored_domain ?a (df_name f) = Some n" "localpart z = lower (df_localpart f)" "user_domain z = n"
      "email z = localpart z @ ''@'' @ n" "is_valid_localpart (ap_valid_address ?a) (localpart z)"
      "bind_email (pe_enc (sn_pages e)) (email z) \<noteq> None"
      "d' = d\<lparr>domains := domains d
          @ [(new_domain n)\<lparr>max_quota_bytes := sn_default_quota e, max_users := 10, max_aliases := 10\<rparr>],
        users := users d @ [z], managers := managers d @ [(n, email z)]\<rparr>"
      "keys_unique (pe_enc (sn_pages e)) d'" "integers_fit d'"
    using assms(1) unfolding domain_added_def by blast
  let ?dm = "(new_domain n)\<lparr>max_quota_bytes := sn_default_quota e, max_users := 10, max_aliases := 10\<rparr>"
  have r: "rows_ok ?a d" using assms(2) by (simp add: db_inv_def)
  have at: "CHR ''@'' \<notin> set (localpart z)" by (rule bind_no_at) (use a(2,4,6) in \<open>simp_all add: comp_def\<close>)
  have 1: "rows_ok ?a (d\<lparr>domains := domains d @ [?dm]\<rparr>)"
    by (rule rows_domain_added [OF r])
      (use stored_canonical [OF assms(3) a(1)] assms(4) in \<open>simp_all add: new_domain_def policy_ok_def default_policy_def
         aaguid_modes_def policy_levels_def resident_kinds_def\<close>)
  have 2: "rows_ok ?a (d\<lparr>domains := domains d @ [?dm], users := users d @ [z]\<rparr>)"
    using rows_user_added [OF 1, of z] a(2-5) at by (simp add: address_ok_def new_domain_def comp_def)
  have "rows_ok ?a d'"
    unfolding a(7) using rows_managers [OF 2, of "managers d @ [(n, email z)]"] r by (force simp: rows_defs new_domain_def)
  then show ?thesis using a(8,9) by (simp add: db_inv_def pe_enc_def)
qed

lemma password_moved_inv:
  assumes "password_moved u d d'" "u \<in> set (users d)" "db_inv a d"
  shows "db_inv a d'"
proof -
  obtain h where d': "d' = put_user (u\<lparr>password := h\<rparr>) d
      \<or> (\<exists>now. d' = force_user_reauthentication now (email u) (put_user (u\<lparr>password := h\<rparr>) d))"
    using assms(1) unfolding password_moved_def by blast
  let ?d = "put_user (u\<lparr>password := h\<rparr>) d"
  have r: "rows_ok a d" "integers_fit d" "keys_unique (ap_enc a) d" using assms(3) by (simp_all add: db_inv_def)
  have 1: "rows_ok a ?d" using user_row_ok [OF r(1) assms(2)] by (intro rows_user_put [OF r(1)]) simp_all
  have "map email (users ?d) = map email (users d)" by (simp add: put_user_def)
  then have 2: "keys_unique (ap_enc a) ?d" using r(3) by (simp add: keys_unique_def del: map_map)
  have 3: "integers_fit ?d" using r(2) assms(2) by (auto simp: integers_fit_def put_user_def list_all_iff)
  have "keys_unique (ap_enc a) (force_user_reauthentication now (email u) ?d)"
    "integers_fit (force_user_reauthentication now (email u) ?d)" for now
    using 2 3 by (simp_all add: keys_unique_def integers_fit_def force_user_reauthentication_def)
  then show ?thesis using d' 1 2 3 force_rows by (auto simp: db_inv_def)
qed

lemma continue_frame:
  "w_db (snd (passkey_signup e rq raw w)) = w_db w" "w_db (snd (passkey_signup_options e rq raw w)) = w_db w"
  by (auto simp: passkey_signup_def passkey_signup_options_def Let_def split: outcome.splits option.splits prod.splits bool.splits)

lemma needs_login_frame [simp]: "w_db (snd (handle_needs_login e rq here w)) = w_db w"
  by (simp add: handle_needs_login_def)

lemma own_password_moves:
  assumes "user_password_change e rq here form (w, c) = (a, w', c')"
  shows "w_db w' = w_db w \<or> (\<exists>u\<in>set (users (w_db w)). password_moved u (w_db w) (w_db w'))"
  using assms needs_login_frame [of "sn_web e" rq here w]
  by (auto simp: user_password_change_def simp del: needs_login_frame
      split: outcome.splits access_result.splits prod.splits dest!: process_moves)

lemma other_password_moves:
  assumes "user_password e rq here who form (w, c) = (a, w', c')"
  shows "w_db w' = w_db w \<or> (\<exists>u\<in>set (users (w_db w)). password_moved u (w_db w) (w_db w'))"
  using assms needs_login_frame [of "sn_web e" rq here w]
  by (auto simp: user_password_def simp del: needs_login_frame
      split: outcome.splits option.splits access_result.splits prod.splits dest!: process_moves)

text \<open>What a visit does to the rows.\<close>

lemma serve_changes:
  assumes "serve e v (w, c) = (a, w', c')"
  obtains (same) "w_db w' = w_db w"
  | (account) "account_added e (w_db w) (w_db w')"
  | (domain) f where "domain_added e f (w_db w) (w_db w')"
  | (password) u where "u \<in> set (users (w_db w))" "password_moved u (w_db w) (w_db w')"
proof (cases v)
  case (Sign_up rq name requested form)
  with assms have "w' = snd (user_signup e rq name requested form w)" by (auto simp: uncached_def split: prod.splits)
  then show thesis using user_signup_grows same account unfolding grows_def by blast
next
  case (Continue_register rq raw)
  with assms have "w' = snd (passkey_signup_register e rq raw w)" by (auto simp: uncached_def split: prod.splits)
  then show thesis using register_grows same account unfolding grows_def by blast
next
  case (Sign_up_domain form)
  with assms have "w' = snd (domain_signup e form w)" by (auto simp: uncached_def split: prod.splits)
  then show thesis using domain_signup_grows same domain unfolding grows_def by blast
next
  case (Own_password rq here form)
  then show thesis using own_password_moves [of e rq here form w c a w' c'] assms same password by auto
next
  case (Other_password rq here who form)
  then show thesis using other_password_moves [of e rq here who form w c a w' c'] assms same password by auto
next
  case (Continue_page rq raw)
  with assms have "w' = snd (passkey_signup e rq raw w)" by (auto simp: uncached_def split: prod.splits)
  then show thesis using same by (simp add: continue_frame)
next
  case (Continue_options rq raw)
  with assms have "w' = snd (passkey_signup_options e rq raw w)" by (auto simp: uncached_def split: prod.splits)
  then show thesis using same by (simp add: continue_frame)
qed

lemma serve_inv:
  assumes "db_inv (pe_api (sn_pages e)) (w_db w)" "idna_ok (pe_api (sn_pages e))" "0 \<le> sn_default_quota e"
    and "serve e v (w, c) = (a, w', c')"
  shows "db_inv (pe_api (sn_pages e)) (w_db w')"
  using assms(4)
  by (cases rule: serve_changes)
    (use assms(1-3) in \<open>auto intro: account_added_inv domain_added_inv password_moved_inv\<close>)

lemma site_step_inv:
  assumes "site_inv e s" "site_ok e op"
  shows "site_inv e (site_step e s op)"
proof -
  obtain p w c where s: "s = (p, w, c)" by (cases s) auto
  have i: "admin_inv (sn_pages e) p" "w_db w = ap_db p" "0 \<le> sn_default_quota e" using assms(1) s by (simp_all add: site_inv_def)
  show ?thesis
  proof (cases op)
    case (Admin a)
    then show ?thesis using admin_step_inv [OF i(1)] assms(2) i(3) s
      by (simp add: site_step_def site_inv_def share_rows_def Let_def)
  next
    case (Command main o')
    then have "admin_inv (sn_pages e) (snd (command (pe_api (sn_pages e)) main o' p))"
      using command_inv [of "pe_api (sn_pages e)" p o' main] i(1) assms(2) by (simp add: admin_inv_def)
    then show ?thesis using Command i(3) s by (simp add: site_step_def site_inv_def share_rows_def Let_def)
  next
    case (Visit v)
    obtain a w' c' where v: "serve e v (w, c) = (a, w', c')" by (cases "serve e v (w, c)") auto
    have "db_inv (pe_api (sn_pages e)) (w_db w')"
      by (rule serve_inv [OF _ _ i(3) v]) (use i in \<open>simp_all add: admin_inv_def api_inv_def db_inv_def\<close>)
    then show ?thesis using Visit v i s by (simp add: site_step_def site_inv_def admin_inv_def api_inv_def db_inv_def)
  next
    case (Next_visitor session who)
    then show ?thesis using i s by (simp add: site_step_def site_inv_def)
  qed
qed

interpretation site: machine "site_step e" "site_ok e" "site_inv e" for e
  by unfold_locales (rule site_step_inv)

section \<open>Keys stay unique\<close>

text \<open>Whatever is requested or commanded: every change is flushed to the database, which refuses a second
  row with the same key and an integer that does not fit.\<close>

definition keyed :: "(string \<Rightarrow> string option) \<Rightarrow> db \<Rightarrow> bool" where
  "keyed enc d \<longleftrightarrow> keys_unique enc d \<and> integers_fit d"

lemma commit_keyed: "keyed enc (ap_db s) \<Longrightarrow> keyed enc (ap_db (snd (commit enc s d')))"
  by (simp add: commit_def keyed_def)

lemma commit_flushed: "\<lbrakk>commit enc s d' = (a, s'); keyed enc (ap_db s)\<rbrakk> \<Longrightarrow> keyed enc (ap_db s')"
  using commit_keyed [of enc s d'] by simp

lemma handle_keyed:
  assumes "keyed (ap_enc e) (ap_db s)"
  shows "keyed (ap_enc e) (ap_db (snd (handle e op s)))"
  using assms
  by (cases op; simp only: handle.simps handler_defs domain_delete_def user_patch_def user_setup_link_def Let_def)
     (auto split: sum.splits if_splits outcome.splits option.splits prod.splits intro!: commit_keyed dest!: commit_flushed)

lemmas page_defs = domain_create_page_def domain_edit_page_def domain_delete_page_def alternative_create_page_def
  alternative_delete_page_def relay_create_page_def relay_edit_page_def relay_delete_page_def manager_create_page_def
  manager_delete_page_def access_create_page_def access_delete_page_def admin_create_page_def admin_delete_page_def
  user_create_page_def user_edit_page_def user_reply_page_def alias_create_page_def alias_edit_page_def
  alias_delete_page_def anonalias_create_page_def anonalias_delete_page_def anonalias_switch_page_def
  token_create_page_def token_delete_page_def oauth2_token_revoke_page_def oauth2_token_reauthenticate_page_def

lemma fares_saved: "\<lbrakk>save e s d' = (a, s'); ap_db t = ap_db s'\<rbrakk> \<Longrightarrow> fares e (\<lambda>_. True) s (b, t)"
  by (auto simp: fares_def save_def commit_def split: if_splits)

lemma fares_access_form:
  "\<lbrakk>\<And>m. fares e P s (f m); \<And>v. fares e P s (g v)\<rbrakk> \<Longrightarrow> fares e P s (case x of Json_body m \<Rightarrow> f m | Form_body v \<Rightarrow> g v)"
  by (cases x) simp_all

lemma page_flushes: "fares e (\<lambda>_. True) s (page e current op s)"
  by (cases op) (simp_all only: page.simps page_defs Let_def, (intro page_rules fares_access_form TrueI | erule fares_saved, simp)+)

lemma page_keyed: "keyed (pe_enc e) (ap_db s) \<Longrightarrow> keyed (pe_enc e) (ap_db (snd (page_request e who op s)))"
proof (cases "signed_in e (ap_db s) who")
  case (Ret u)
  assume "keyed (pe_enc e) (ap_db s)"
  then show ?thesis using Ret page_flushes [of e s u op] by (auto simp: page_request_def fares_def keyed_def)
qed (simp add: page_request_def)

lemma random_alias_keyed:
  "keyed (ap_enc e) (ap_db s) \<Longrightarrow> keyed (ap_enc e) (ap_db (snd (random_alias e ci tld n pick draws hostname note u s)))"
  unfolding random_alias_def Let_def
  by (auto split: outcome.splits option.splits prod.splits dest!: commit_flushed)

lemma cli_commit_keyed: "keyed (ap_enc e) (ap_db s) \<Longrightarrow> keyed (ap_enc e) (ap_db (snd (cli_commit e a d' s)))"
  using commit_keyed [of "ap_enc e" s d'] by (simp add: cli_commit_def split_beta)

lemma with_rows_keyed: "keyed (ap_enc e) (ap_db s) \<Longrightarrow> keyed (ap_enc e) (ap_db (snd (with_rows e a r s)))"
  by (cases r) (simp_all add: with_rows_def cli_commit_keyed)

lemma add_account_keyed:
  "keyed (ap_enc e) (ap_db s) \<Longrightarrow> keyed (ap_enc e) (ap_db (snd (add_account e raw now secret pw lp name dm d s)))"
  using cli_commit_keyed [of e s]
  by (auto simp: add_account_def Let_def split_beta split: outcome.splits)

lemma delete_untracked_keyed:
  "keyed (ap_enc e) (ap_db s) \<Longrightarrow> keyed (ap_enc e) (ap_db (snd (delete_untracked e y s)))"
  by (simp add: delete_untracked_def Let_def split_beta cli_commit_keyed)

lemma config_update_keyed:
  assumes "keyed (ap_enc e) (ap_db s)"
  shows "keyed (ap_enc e) (ap_db (snd (config_update e now del c s)))"
proof -
  obtain b y where y: "sync_rows e now c s = (b, y)" by fastforce
  define s0 where "s0 = s\<lparr>ap_sessions := sy_sessions y\<rparr>"
  obtain a1 s1 where s1: "cli_commit e Finished (sy_db y) s0 = (a1, s1)" by fastforce
  obtain b' y' where y': "sync_items (sync_manager e) (yc_managers c) y = (b', y')" by fastforce
  obtain a2 s2 where s2: "cli_commit e Finished (sy_db y') s1 = (a2, s2)" by fastforce
  have k0: "keyed (ap_enc e) (ap_db s0)" using assms by (simp add: s0_def)
  have k1: "keyed (ap_enc e) (ap_db s1)" using cli_commit_keyed [OF k0] s1 by (metis snd_conv)
  have k2: "keyed (ap_enc e) (ap_db s2)" using cli_commit_keyed [OF k1] s2 by (metis snd_conv)
  have "config_update e now del c s = (if \<not> b then (Crashed, s0) else if a1 = Crashed then (Crashed, s1)
      else if \<not> b' then (Crashed, s1) else if a2 = Crashed then (Crashed, s2)
      else if del then delete_untracked e y' s2 else (Finished, s2))"
    using y y' s1 s2 by (cases b; cases b') (simp_all add: config_update_def s0_def)
  then show ?thesis using k0 k1 k2 delete_untracked_keyed [OF k2] by simp
qed

lemmas command_defs = user_add_def user_remove_def cli_user_delete_def on_user_def drop_user_def user_reset_def
  issue_setup_def set_global_admin_def cli_password_def user_import_def cli_domain_def setlimits_def setmanager_def
  cli_alias_def cli_alias_delete_def

lemma command_keyed:
  assumes "keyed (ap_enc e) (ap_db s)"
  shows "keyed (ap_enc e) (ap_db (snd (command e main op s)))"
  using assms
  by (cases op; simp only: command.simps command_defs Let_def split_beta)
     (auto split: outcome.splits option.splits
       intro!: cli_commit_keyed with_rows_keyed add_account_keyed config_update_keyed)

lemma password_moved_keyed:
  assumes "password_moved u d d'" "u \<in> set (users d)" "keyed enc d"
  shows "keyed enc d'"
proof -
  have "map email (users (put_user (u\<lparr>password := h\<rparr>) d)) = map email (users d)" for h by (simp add: put_user_def)
  then have "keyed enc (put_user (u\<lparr>password := h\<rparr>) d)" for h
    using assms(2,3)
    by (auto simp: keyed_def keys_unique_def integers_fit_def put_user_def list_all_iff simp del: map_map)
  then show ?thesis
    using assms(1)
    by (auto simp: password_moved_def keyed_def keys_unique_def integers_fit_def force_user_reauthentication_def)
qed

lemma serve_keyed:
  assumes "keyed (pe_enc (sn_pages e)) (w_db w)" "serve e v (w, c) = (a, w', c')"
  shows "keyed (pe_enc (sn_pages e)) (w_db w')"
  using assms(2)
proof (cases rule: serve_changes)
  case (password u)
  then show ?thesis using password_moved_keyed assms(1) by blast
qed (use assms(1) in \<open>auto simp: account_added_def domain_added_def keyed_def\<close>)

definition keyed_inv :: "'s signup_env \<Rightarrow> 's site_state \<Rightarrow> bool" where
  "keyed_inv e s \<longleftrightarrow> (case s of (p, w, c) \<Rightarrow> keyed (pe_enc (sn_pages e)) (ap_db p) \<and> w_db w = ap_db p)"

lemma admin_step_keyed: "keyed (pe_enc e) (ap_db s) \<Longrightarrow> keyed (pe_enc e) (ap_db (admin_step e s op))"
  by (cases op)
    (auto simp: admin_step_def api_step_def pe_enc_def page_keyed [unfolded pe_enc_def] handle_keyed random_alias_keyed
      split: outcome.splits option.splits)

lemma keyed_step: "keyed_inv e s \<Longrightarrow> keyed_inv e (site_step e s op)"
proof -
  assume i: "keyed_inv e s"
  obtain p w c where s: "s = (p, w, c)" by (cases s) auto
  have k: "keyed (pe_enc (sn_pages e)) (ap_db p)" "w_db w = ap_db p" using i s by (simp_all add: keyed_inv_def)
  show ?thesis
  proof (cases op)
    case (Command main o')
    have "keyed (pe_enc (sn_pages e)) (ap_db (snd (command (pe_api (sn_pages e)) main o' p)))"
      using command_keyed [of "pe_api (sn_pages e)" p main o'] k(1) by (simp add: pe_enc_def)
    then show ?thesis using Command s by (simp add: site_step_def keyed_inv_def share_rows_def Let_def)
  next
    case (Visit v)
    obtain a w' c' where v: "serve e v (w, c) = (a, w', c')" by (cases "serve e v (w, c)") auto
    then show ?thesis using serve_keyed [OF _ v] k Visit s by (simp add: site_step_def keyed_inv_def)
  qed (use k s admin_step_keyed [OF k(1)] in \<open>simp_all add: site_step_def keyed_inv_def share_rows_def Let_def\<close>)
qed

interpretation keys: machine "site_step e" "\<lambda>op. True" "keyed_inv e" for e
  by unfold_locales (rule keyed_step)

section \<open>No challenge for the sign-up by passkey\<close>

definition unchallenged :: "'s web \<Rightarrow> bool" where
  "unchallenged w \<longleftrightarrow> dict_get (w_session w) ''passkey_signup_challenge'' = None"

fun quiet :: "site_op \<Rightarrow> bool" where
  "quiet (Next_visitor session who) = (dict_get session ''passkey_signup_challenge'' = None)"
| "quiet op = True"

lemma unchallenged_frame [simp]:
  "unchallenged (w\<lparr>w_db := d\<rparr>) = unchallenged w" "unchallenged (w\<lparr>w_new_key := b\<rparr>) = unchallenged w"
  "unchallenged (w\<lparr>w_store := st\<rparr>) = unchallenged w" "unchallenged (w\<lparr>w_setup := ts\<rparr>) = unchallenged w"
  "unchallenged (flash cat msg w) = unchallenged w"
  "unchallenged (set_item_in ''pending_passkey_signup'' x w) = unchallenged w"
  "unchallenged w \<Longrightarrow> unchallenged (snd (pop_item key w))"
  "unchallenged (logout_and_clear w)"
  by (simp_all add: unchallenged_def flash_def set_item_in_def Let_def pop_item_def logout_and_clear_def)

lemma needs_login_unchallenged [simp]: "unchallenged (snd (handle_needs_login e rq here w)) = unchallenged w"
  by (auto simp: unchallenged_def handle_needs_login_def remember_def KEY_def split: option.splits)

text \<open>The row of a pending sign-up is taken by itself, or cannot be named: no options are handed out.\<close>

lemma own_conflict:
  assumes "sn_backref e" "pending_row e st dm = Ret (Some u)"
  shows "signup_address_conflict e d dm u = Ret True"
proof -
  have "u \<in> set (domain_users (rows_with e d u) dm)"
    using pending_row_user [OF assms(2)] assms(1) by (simp add: rows_with_def domain_users_def)
  then have "has_email (rows_with e d u) dm (localpart u)" by (simp add: has_email_def)
  then show ?thesis by (simp add: signup_address_conflict_def Let_def)
qed

lemma options_unchallenged:
  assumes "sn_backref e \<or> \<not> sn_early e" "unchallenged w"
  shows "unchallenged (snd (passkey_signup_options e rq raw w))"
proof -
  have "signup_address_conflict e (w_db w) dm u = Ret True \<or> signup_options e (w_db w) u = Exn AttributeError"
    if "pending_passkey_signup e (rq_now rq) raw w = Ret (Some (st, dm, u))" for st dm u
    using assms(1) own_conflict pending_signup_row [OF that] by (auto simp: signup_options_def)
  then show ?thesis using assms(2)
    by (fastforce simp: passkey_signup_options_def split: outcome.splits option.splits prod.splits bool.splits)
qed

lemma register_unchallenged:
  assumes "unchallenged w"
  shows "w_db (snd (passkey_signup_register e rq raw w)) = w_db w \<and> unchallenged (snd (passkey_signup_register e rq raw w))
    \<and> (\<forall>to. fst (passkey_signup_register e rq raw w) \<noteq> Json_ok to)"
proof -
  have "get_default (w_session w) ''passkey_signup_challenge'' JNull = JNull"
    using assms by (simp add: unchallenged_def get_default_def)
  then show ?thesis using assms
    by (auto simp: passkey_signup_register_def Let_def split_beta split: outcome.splits option.splits)
qed

lemma write_rows_cases:
  "write_rows e d' ok taken failed = ok \<or> write_rows e d' ok taken failed = taken \<or> write_rows e d' ok taken failed = failed"
  by (simp add: write_rows_def)

definition calm :: "'a \<times> 's web \<Rightarrow> bool" where
  "calm r \<longleftrightarrow> unchallenged (snd r)"

lemma calm_pair: "unchallenged w \<Longrightarrow> calm (a, w)"
  by (simp add: calm_def)

lemma calm_if: "\<lbrakk>calm x; calm y\<rbrakk> \<Longrightarrow> calm (if b then x else y)"
  by simp

lemma calm_option: "\<lbrakk>calm x; \<And>z. calm (f z)\<rbrakk> \<Longrightarrow> calm (case v of None \<Rightarrow> x | Some z \<Rightarrow> f z)"
  by (cases v) simp_all

lemma calm_outcome: "\<lbrakk>\<And>x. calm (g x); \<And>z. calm (f z)\<rbrakk> \<Longrightarrow> calm (case v of Exn x \<Rightarrow> g x | Ret z \<Rightarrow> f z)"
  by (cases v) simp_all

lemma calm_bool: "\<lbrakk>calm x; calm y\<rbrakk> \<Longrightarrow> calm (case v of True \<Rightarrow> x | False \<Rightarrow> y)"
  by (cases v) simp_all

lemma calm_write: "\<lbrakk>calm ok; calm taken; calm failed\<rbrakk> \<Longrightarrow> calm (write_rows e d' ok taken failed)"
  using write_rows_cases [of e d' ok taken failed] by auto

lemmas calm_rules = calm_if calm_option calm_outcome calm_bool calm_write calm_pair

lemma user_signup_unchallenged:
  assumes "unchallenged w"
  shows "unchallenged (snd (user_signup e rq name requested form w))"
proof -
  have "calm (user_signup e rq name requested form w)"
    unfolding user_signup_def sign_up_with_password_def Let_def by (intro calm_rules) (simp_all add: assms)
  then show ?thesis by (simp add: calm_def)
qed

lemma domain_signup_unchallenged:
  assumes "unchallenged w"
  shows "unchallenged (snd (domain_signup e form w))"
proof (cases "current_user (sn_web e) w"; cases form)
  fix cur f
  assume c: "current_user (sn_web e) w = Ret cur" and f: "form = Some f"
  have "calm (domain_signup e form w)"
    unfolding domain_signup_def Let_def c f prod.case outcome.case option.case case_prod_beta
    by (intro calm_rules) (simp_all add: assms)
  then show ?thesis by (simp add: calm_def)
qed (use assms in \<open>simp_all add: domain_signup_def Let_def\<close>)

lemma continue_page_unchallenged:
  "unchallenged w \<Longrightarrow> unchallenged (snd (passkey_signup e rq raw w))"
  by (auto simp: passkey_signup_def split: outcome.splits option.splits prod.splits bool.splits)

lemma process_unchallenged:
  assumes "unchallenged w" "process_password_change e rq own who form (w, c) = (a, w', c')"
  shows "unchallenged w'"
  using assms unfolding process_password_change_def store_password_def
  by (auto split: outcome.splits option.splits prod.splits if_splits)

lemma password_pages_unchallenged:
  assumes "unchallenged w"
    and "user_password_change e rq here form (w, c) = (a, w', c') \<or> user_password e rq here who form (w, c) = (a, w', c')"
  shows "unchallenged w'"
  using assms(2)
proof
  assume "user_password_change e rq here form (w, c) = (a, w', c')"
  then show ?thesis using assms(1) needs_login_unchallenged [of "sn_web e" rq here w]
    by (auto simp: user_password_change_def simp del: needs_login_unchallenged
        split: outcome.splits access_result.splits prod.splits dest!: process_unchallenged [OF assms(1)])
next
  assume "user_password e rq here who form (w, c) = (a, w', c')"
  then show ?thesis using assms(1) needs_login_unchallenged [of "sn_web e" rq here w]
    by (auto simp: user_password_def simp del: needs_login_unchallenged
        split: outcome.splits option.splits access_result.splits prod.splits dest!: process_unchallenged [OF assms(1)])
qed

lemma serve_unchallenged:
  assumes "sn_backref e \<or> \<not> sn_early e" "unchallenged w" "serve e v (w, c) = (a, w', c')"
  shows "unchallenged w'"
proof (cases v)
  case (Continue_options rq raw)
  with assms(3) have "w' = snd (passkey_signup_options e rq raw w)" by (auto simp: uncached_def split: prod.splits)
  then show ?thesis using options_unchallenged [OF assms(1,2)] by simp
next
  case (Own_password rq here form)
  then show ?thesis using assms(3) password_pages_unchallenged [OF assms(2)] by fastforce
next
  case (Other_password rq here who form)
  then show ?thesis using assms(3) password_pages_unchallenged [OF assms(2)] by fastforce
next
  case (Sign_up rq name requested form)
  with assms(3) have "w' = snd (user_signup e rq name requested form w)" by (auto simp: uncached_def split: prod.splits)
  then show ?thesis using user_signup_unchallenged [OF assms(2)] by simp
next
  case (Continue_page rq raw)
  with assms(3) have "w' = snd (passkey_signup e rq raw w)" by (auto simp: uncached_def split: prod.splits)
  then show ?thesis using continue_page_unchallenged [OF assms(2)] by simp
next
  case (Continue_register rq raw)
  with assms(3) have "w' = snd (passkey_signup_register e rq raw w)" by (auto simp: uncached_def split: prod.splits)
  then show ?thesis using register_unchallenged [OF assms(2)] by simp
next
  case (Sign_up_domain form)
  with assms(3) have "w' = snd (domain_signup e form w)" by (auto simp: uncached_def split: prod.splits)
  then show ?thesis using domain_signup_unchallenged [OF assms(2)] by simp
qed

definition stalled_inv :: "'s signup_env \<Rightarrow> 's site_state \<Rightarrow> bool" where
  "stalled_inv e s \<longleftrightarrow> (sn_backref e \<or> \<not> sn_early e) \<and> unchallenged (fst (snd s))"

lemma stalled_step:
  assumes "stalled_inv e s" "quiet op"
  shows "stalled_inv e (site_step e s op)"
proof -
  obtain p w c where s: "s = (p, w, c)" by (cases s) auto
  have i: "sn_backref e \<or> \<not> sn_early e" "unchallenged w" using assms(1) s by (simp_all add: stalled_inv_def)
  show ?thesis
  proof (cases op)
    case (Visit v)
    obtain a w' c' where v: "serve e v (w, c) = (a, w', c')" by (cases "serve e v (w, c)") auto
    then show ?thesis using serve_unchallenged [OF i v] Visit i(1) s by (simp add: site_step_def stalled_inv_def)
  qed (use i s assms(2) in \<open>simp_all add: site_step_def stalled_inv_def share_rows_def unchallenged_def Let_def\<close>)
qed

interpretation stalled: machine "site_step e" quiet "stalled_inv e" for e
  by unfold_locales (rule stalled_step)

section \<open>Properties\<close>

text \<open>
  C13. What the whole administration site keeps of its rows.  Started on a well-formed database, any
  interleaving of REST API calls, page requests, random aliases and commands with visitors who sign
  up, register domains or change passwords, in any sessions, keeps primary keys unique and integers
  within 64 bits.  It keeps the rows well formed as well (names are canonical, every row refers
  to rows that exist, an address is its local part and its domain, passkey policies and limits
  hold legal values) when the API gets payloads that match their models, which flask-restx checks,
  and under three conditions that the code does not check: the page that edits a domain posts the
  name it showed in its read-only field, commands give legal limits, and a configuration file has
  no member \<open>email\<close> for a user.
\<close>
theorem site_rows_well_formed:
  assumes "site_inv e s"
  shows "keys_unique (pe_enc (sn_pages e)) (ap_db (fst (foldl (site_step e) s ops)))
    \<and> integers_fit (ap_db (fst (foldl (site_step e) s ops)))
    \<and> (list_all (site_ok e) ops \<longrightarrow> api_inv (pe_api (sn_pages e)) (fst (foldl (site_step e) s ops)))"
proof -
  have "keyed_inv e s"
    using assms by (auto simp: site_inv_def keyed_inv_def admin_inv_def api_inv_def keyed_def pe_enc_def)
  then have "keyed_inv e (foldl (site_step e) s ops)" by (rule keys.inv_run) (simp add: list_all_iff)
  then show ?thesis
    using site.inv_run [OF assms, of ops] by (auto simp: keyed_inv_def keyed_def site_inv_def admin_inv_def split: prod.splits)
qed

text \<open>
  C17. The public sign-up with a passkey never makes an account.  Because the new row counts among
  the users of its domain, or because it has no address yet, no registration options are handed
  out: whatever happens on the site in any sessions that started without a challenge, a
  registration that ends a sign-up changes no row and is never answered with success.
\<close>
theorem passkey_signup_never_completes:
  assumes "sn_backref e \<or> \<not> sn_early e" "unchallenged w" "list_all quiet ops"
    and "foldl (site_step e) (p, w, c) ops = (p', w', c')"
    and "passkey_signup_register e rq raw w' = (a, w'')"
  shows "w_db w'' = w_db w' \<and> (\<forall>to. a \<noteq> Json_ok to)"
proof -
  have "stalled_inv e (foldl (site_step e) (p, w, c) ops)"
    by (rule stalled.inv_run) (use assms(1-3) in \<open>simp_all add: stalled_inv_def\<close>)
  then have "unchallenged w'" using assms(4) by (simp add: stalled_inv_def)
  from register_unchallenged [OF this, of e rq raw] assms(5) show ?thesis by simp
qed

section \<open>Examples\<close>

definition sample_site_state :: "(string, sval) dict site_state" where
  "sample_site_state = (sample_open, sample_visitor None, [])"

text \<open>A sign-up with a password, a new domain, its deletion by the API, a password set by an
  administrator, and an account added by a command.\<close>

definition sample_site_ops :: "site_op list" where
  "sample_site_ops = [Visit (Sign_up sample_request (Some ''y.io'') (Some ''password'') (Some sample_signup_form)),
     Visit (Sign_up_domain (Some sample_domain_signup)), Admin (Rest (DomainDelete ''new.io'')),
     Next_visitor [] (Some ''ann@x.io''), Visit (Other_password sample_request ''/p'' ''max@x.io'' (Some sample_pw_form)),
     Command ''y.io'' (User_add ''r'' 5 ''s'' ''zoe'' None)]"

lemma sample_open_rows: "api_inv sample_api sample_open"
proof -
  have k: "keys_unique (ap_enc sample_api) (ap_db sample_open)" by code_simp
  have i: "integers_fit (ap_db sample_open)" by code_simp
  have n: "canonical sample_api ''x.io''" "canonical sample_api ''y.io''" by code_simp+
  have a: "address_ok sample_api ''ann@x.io'' ''ann'' ''x.io''" "address_ok sample_api ''max@x.io'' ''max'' ''x.io''" by code_simp+
  have p: "policy_ok default_policy" by code_simp
  have "rows_ok sample_api (ap_db sample_open)"
    using n a p by (simp add: rows_defs sample_open_def Admin_System.sample_site_def empty_db_def sample_state_def
        new_domain_def sample_user_def)
  then show ?thesis using k i by (simp add: api_inv_def)
qed

theorem site_rows_well_formed_witness:
  "api_inv sample_api (fst (foldl (site_step sample_signups) sample_site_state sample_site_ops))
   \<and> map email (users (ap_db (fst (foldl (site_step sample_signups) sample_site_state sample_site_ops))))
     = [''ann@x.io'', ''max@x.io'', ''eve@y.io'', ''zoe@y.io'']"
proof -
  have s: "pe_api (sn_pages sample_signups) = sample_api" "sn_pages sample_signups = sample_pages"
    by (simp_all add: sample_signups_def)
  have "site_inv sample_signups sample_site_state"
    using sample_open_rows by (simp add: site_inv_def sample_site_state_def admin_inv_def sample_visitor_def s sample_idna
        sample_restx sample_forms_ok) (simp add: sample_signups_def)
  moreover have "list_all (site_ok sample_signups) sample_site_ops" by (simp add: sample_site_ops_def)
  ultimately have "api_inv sample_api (fst (foldl (site_step sample_signups) sample_site_state sample_site_ops))"
    using site_rows_well_formed [of sample_signups sample_site_state sample_site_ops] by (simp add: s)
  moreover have "map email (users (ap_db (fst (foldl (site_step sample_signups) sample_site_state sample_site_ops))))
     = [''ann@x.io'', ''max@x.io'', ''eve@y.io'', ''zoe@y.io'']" by code_simp
  ultimately show ?thesis by blast
qed

text \<open>A visitor signs up with a passkey and follows the link.\<close>

definition sample_stalled_ops :: "site_op list" where
  "sample_stalled_ops = [Visit (Sign_up sample_request (Some ''y.io'') (Some ''passkey'') (Some sample_signup_form)),
     Visit (Continue_options sample_request ''n'')]"

theorem passkey_signup_never_completes_witness:
  "fst (serve sample_signups (Sign_up sample_request (Some ''y.io'') None (Some sample_signup_form)) (sample_visitor None, []))
     = Redirect ''/signup/n''
   \<and> (\<exists>p' w' c' a w''. foldl (site_step sample_signups) sample_site_state sample_stalled_ops = (p', w', c')
        \<and> passkey_signup_register sample_signups sample_request ''n'' w' = (a, w'') \<and> w_db w'' = w_db w' \<and> a \<noteq> Json_ok None)"
proof -
  have r: "fst (serve sample_signups (Sign_up sample_request (Some ''y.io'') None (Some sample_signup_form)) (sample_visitor None, []))
     = Redirect ''/signup/n''" by code_simp
  obtain p' w' c' where f: "foldl (site_step sample_signups) (sample_open, sample_visitor None, []) sample_stalled_ops = (p', w', c')"
    by (metis prod_cases3)
  obtain a w'' where g: "passkey_signup_register sample_signups sample_request ''n'' w' = (a, w'')" by fastforce
  have "sn_backref sample_signups \<or> \<not> sn_early sample_signups" "unchallenged (sample_visitor None)" "list_all quiet sample_stalled_ops"
    by (simp_all add: sample_signups_def unchallenged_def sample_visitor_def sample_stalled_ops_def)
  from passkey_signup_never_completes [OF this f g] f g r show ?thesis by (auto simp: sample_site_state_def)
qed

end
