(* ===== verification/Spec2Isabelle.thy ===== *)
theory Spec2Isabelle
  imports Podop_Dict OAuth_Props Quarantine_Views Log_Filter Login_Views Dns_Records Api_Passkeys Site_System
begin

text \<open>
  A verification library for Mailu, a mail server distribution whose own program is the
  administration service (\<open>src/core/admin/mailu\<close>) with the podop and socrate libraries it
  shares with the other containers (\<open>src/core/base/libs\<close>).

  \<^bold>\<open>Parts of the program and their theories.\<close>  The administration service keeps one SQL database
  and one key-value store.  The mail daemons ask it over HTTP (through podop and nginx), users
  sign in to it with a browser, mail programs get OAuth tokens from it, and administrators change
  it through pages and a REST API.  The theories follow that structure, in the order they build
  on each other:

    \<^item> \<open>Prelude\<close>: Python's string methods, integers, base64 and ordered dictionaries, the outcome of
      a call that may raise, and the locale \<open>machine\<close>, the contract of a state machine that keeps
      an invariant.  \<open>Net\<close>: \<open>urllib.parse\<close> and \<open>ipaddress\<close>.  \<open>Values\<close>: JSON, UTC times and UUIDs.
    \<^item> \<open>Mail_Db\<close>: the tables of \<open>models.py\<close> as records, the column types, look-ups by key.
    \<^item> \<open>Mail_Routing\<close>: where a recipient is delivered (\<open>Email.resolve_destination\<close>,
      \<open>Alias.resolve\<close>); \<open>Postfix_Maps\<close>: the look-up tables of Postfix and Dovecot
      (\<open>internal/views/postfix.py\<close>, \<open>dovecot.py\<close>); \<open>Podop_Dict\<close>: the dict proxy between Dovecot
      and those tables.
    \<^item> \<open>Sessions\<close> (web sessions of \<open>utils.py\<close>, with the locale \<open>session_store\<close> for the key-value
      store), \<open>Rate_Limit\<close> (\<open>limiter.py\<close>), \<open>Credentials\<close> (passwords, credential cache, application
      tokens), \<open>Nginx_Auth\<close> (\<open>internal/nginx.py\<close>, \<open>internal/views/auth.py\<close>, the two gates of
      \<open>api/common.py\<close>), \<open>Access\<close> (\<open>ui/access.py\<close>).
    \<^item> \<open>OAuth_Tokens\<close>, \<open>OAuth_Server\<close>, \<open>OAuth_Machine\<close>, \<open>OAuth_Props\<close>: the OAuth server
      (\<open>oauth2.py\<close>, \<open>internal/views/oauth2.py\<close>), its run as a machine and its guarantees.
    \<^item> \<open>Signin\<close> (\<open>signin.py\<close>, \<open>auth_flow.py\<close>: destinations and required actions), \<open>Passkeys\<close>
      (\<open>passkeys.py\<close>, \<open>setup_tokens.py\<close>), \<open>Passkey_Views\<close> and \<open>Login_Views\<close> (\<open>sso/views\<close>): signing in
      as the composition of those parts with sessions, rate limits and credentials.
    \<^item> \<open>Quarantine_Repo\<close> (\<open>quarantine_repository.py\<close>, its file operations one by one), \<open>Quarantine\<close>
      and \<open>Quarantine_Views\<close> (\<open>quarantine.py\<close>, \<open>greylist.py\<close> and their pages).
    \<^item> \<open>Api_Base\<close>, \<open>Api_Domains\<close>, \<open>Api_Users\<close>, \<open>Api_Machine\<close>: the REST API (\<open>api/v1\<close>) and the
      well-formedness of the rows it keeps; \<open>Api_Passkeys\<close>: its endpoints for passkeys
      (\<open>api/v1/passkey.py\<close>); \<open>Dkim\<close>: signing keys and what the spam filter gets of
      them; \<open>Dns_Records\<close>: the DNS records and zone file of a domain; \<open>Simplelogin\<close>: random
      aliases for password managers (\<open>api/simplelogin.py\<close>).
    \<^item> \<open>Pages_Base\<close>, \<open>Pages_Domains\<close>, \<open>Pages_Users\<close>, \<open>Pages_Machine\<close>: the administration pages
      (\<open>ui/views\<close>, \<open>ui/forms.py\<close>, \<open>ui/user_picker.py\<close>) behind the guards of \<open>Access\<close>, and what each may
      change; \<open>Admin_System\<close>: REST API, pages and alias service as one machine over the same rows.
    \<^item> \<open>Signup_Views\<close>, \<open>Signup_Machine\<close>: password pages and the public sign-up of users and domains, and
      what they may change; \<open>Command_Line\<close>: the commands of \<open>manage.py\<close> that change rows;
      \<open>Site_System\<close>: \<open>Admin_System\<close> with the commands and with visitors and their sessions.
    \<^item> \<open>Log_Filter\<close>: the process wrapper of socrate that filters the output of a service.

  \<^bold>\<open>How state and operations correspond.\<close>  A table is a list of rows in insertion order inside the
  record \<open>db\<close>; a row holds values as the program reads them, and two keys name the same row when
  they bind to the same stored text.  An operation takes the state and returns it changed; a
  handler is one definition with the guards in the order of its early returns.  A raised exception
  is \<open>Exn\<close> (or None where only one can occur), an HTTP answer a datatype of the component.  A
  handler that raises or returns before its commit leaves the database as it was, while sessions and
  limits, which live in the key-value store, stay changed.  A str is its UTF-8 bytes; \<open>lower\<close>
  changes ASCII letters and \<open>py_int\<close> reads ASCII digits only.  Bytes, times and identifiers that the code draws are arguments of
  the operation.  Integers are unbounded as in Python; where a column has a width the commit
  checks it (\<open>Api_Base.integers_fit\<close>).

  \<^bold>\<open>What is an argument of the model\<close>, because its code is not in the repository: IDNA, the e-mail
  and domain validators, the validators of the form library (\<open>forms_lib\<close>), HMAC and SHA-256, passlib (record \<open>crypto\<close>,
  whose calls may raise), the commands of the redis server, the limits library (\<open>limits_lib\<close>), WebAuthn (\<open>webauthn\<close>), the payload check of flask-restx, \<open>url_for\<close>, HTML and form
  libraries, key generation (\<open>key_lib\<close>), the folding of SQL LIKE, and HTTP services.  Properties
  that rely on such code name what they rely on (\<open>limits_ok\<close>, \<open>passlib_ok\<close>, \<open>setex_ok\<close>, \<open>idna_ok\<close>, \<open>restx_ok\<close>,
  \<open>forms_ok\<close>, \<open>env_ok\<close>, \<open>cfg_ok\<close>), and their witnesses instantiate it.

  \<^bold>\<open>Interfaces as locales.\<close>  \<open>Prelude.machine\<close> is interpreted for the OAuth server (its invariant,
  spent codes, rotation and expiry of grants), required actions, the log filter, the REST API and
  signing keys, the passkey endpoints, the administration interfaces together, the whole site (its rows, its keys and
  the stalled sign-up); each property about all later behaviour rests on such an interpretation.
  \<open>Sessions.session_store\<close> is the contract of the key-value store, interpreted on the in-memory
  store of the code.

  \<^bold>\<open>Termination, fuel and bounds.\<close>  Every loop of the code is structural recursion or has a measure,
  except \<open>Passkeys.fill_ids\<close>, a partial function that is proved to return; no definition uses fuel.
  The log filter is a machine whose inputs are the pipe events and the writer's schedule, so its
  theorem covers every interleaving; its queue and line buffers are proved bounded.

  \<^bold>\<open>What the lemmas show.\<close>  Each theory ends with its properties and the examples that instantiate
  them.  OAuth: a code and a refresh token work once, a replay revokes the family, tokens expire
  and nobody gets a code without consent.  Signing in: only with valid credentials of an enabled
  user, within the limits, never to a foreign destination, and required actions are enforced.
  Credentials: what is accepted, whatever passlib does, and what the cache may change of it.
  Sessions: what is saved in redis is read back within the time-out and the lifetime, and not after; renewal drops the old key.  Proxy and API gates: what a
  positive answer implies, and that a limited client learns nothing.  Routing and maps: active
  aliases only, look-ups that never raise, who may send as whom.  Quarantine: crash safety of
  the repository, release only to own addresses, and a record that stays until its message was delivered.
  REST API, pages and commands: unique keys whatever is asked, typed rows under the conditions that the property names, no change without the token
  or on a refused call, and a manager changes nothing outside the managed domains.  Sign-up: what an account or a domain made
  by a visitor is limited to, and that the continuation with a passkey never ends.  Signing keys: a retired key never signs again.

  \<^bold>\<open>Not modelled.\<close>  The configuration import and export and its marshmallow schemas, the statistics ping, templates, look-ups that only render rows, client autoconfiguration
  documents, fetchmail, TLS certificates, start scripts and container configuration, database
  migrations, the setup tool and the web mail containers: they are declarations interpreted by
  libraries, rendering, or process control.  Of the pages, the settings of the own account, fetched
  accounts, announcements and the spam settings are left out; those for passkeys are in \<open>Passkey_Views\<close>,
  those for signing keys in \<open>Dkim\<close>.  Foreign keys are not enforced by the modelled database, as in its default, SQLite.
\<close>

end
